(* ===== verification/Amqp_Prelude.thy ===== *)
theory Amqp_Prelude
  imports Main "HOL-Library.Word"
begin

text \<open>
  Shared ground of the development.

  \<^item> The status codes of \<^verbatim>\<open>amqp_status_enum\<close> (include/rabbitmq-c/amqp.h) as a datatype, with
    the numeric value each one has in C.
  \<^item> The outcome of a C function: a value, a library status, undefined behaviour (an access outside
    an object, a failed \<^verbatim>\<open>assert\<close>, a call of \<^verbatim>\<open>abort\<close>), or exhausted fuel, which no terminating
    run produces.
  \<^item> Programs as state transformers and the combinators that sequence them. The state survives a
    failure, as it does in C.
  \<^item> \<^verbatim>\<open>size_t\<close> of an LP64 platform as a natural number with the wrap-around of its operators written
    out, and reads and writes of a block of memory that are defined only inside the block.
\<close>

unbundle bit_operations_syntax

named_theorems outcome_simps \<open>unfolding rules of the program combinators\<close>

type_synonym byte = "8 word"
type_synonym uint8 = "8 word"
type_synonym uint16 = "16 word"
type_synonym uint32 = "32 word"
type_synonym uint64 = "64 word"

section \<open>Status codes\<close>

datatype amqp_status_enum =
    AMQP_STATUS_OK
  | AMQP_STATUS_NO_MEMORY
  | AMQP_STATUS_BAD_AMQP_DATA
  | AMQP_STATUS_UNKNOWN_CLASS
  | AMQP_STATUS_UNKNOWN_METHOD
  | AMQP_STATUS_HOSTNAME_RESOLUTION_FAILED
  | AMQP_STATUS_INCOMPATIBLE_AMQP_VERSION
  | AMQP_STATUS_CONNECTION_CLOSED
  | AMQP_STATUS_BAD_URL
  | AMQP_STATUS_SOCKET_ERROR
  | AMQP_STATUS_INVALID_PARAMETER
  | AMQP_STATUS_TABLE_TOO_BIG
  | AMQP_STATUS_WRONG_METHOD
  | AMQP_STATUS_TIMEOUT
  | AMQP_STATUS_TIMER_FAILURE
  | AMQP_STATUS_HEARTBEAT_TIMEOUT
  | AMQP_STATUS_UNEXPECTED_STATE
  | AMQP_STATUS_SOCKET_CLOSED
  | AMQP_STATUS_SOCKET_INUSE
  | AMQP_STATUS_BROKER_UNSUPPORTED_SASL_METHOD
  | AMQP_STATUS_UNSUPPORTED
  | AMQP_STATUS_TCP_ERROR
  | AMQP_STATUS_TCP_SOCKETLIB_INIT_ERROR
  | AMQP_STATUS_SSL_ERROR
  | AMQP_STATUS_SSL_HOSTNAME_VERIFY_FAILED
  | AMQP_STATUS_SSL_PEER_VERIFY_FAILED
  | AMQP_STATUS_SSL_CONNECTION_FAILED
  | AMQP_STATUS_SSL_SET_ENGINE_FAILED
  | Other_status int

text \<open>
  Functions pass on numbers of other origin where a status is expected; \<open>Other_status\<close> is a number
  that names no status.
\<close>

fun status_code :: "amqp_status_enum \<Rightarrow> int" where
  "status_code AMQP_STATUS_OK = 0"
| "status_code AMQP_STATUS_NO_MEMORY = - 0x0001"
| "status_code AMQP_STATUS_BAD_AMQP_DATA = - 0x0002"
| "status_code AMQP_STATUS_UNKNOWN_CLASS = - 0x0003"
| "status_code AMQP_STATUS_UNKNOWN_METHOD = - 0x0004"
| "status_code AMQP_STATUS_HOSTNAME_RESOLUTION_FAILED = - 0x0005"
| "status_code AMQP_STATUS_INCOMPATIBLE_AMQP_VERSION = - 0x0006"
| "status_code AMQP_STATUS_CONNECTION_CLOSED = - 0x0007"
| "status_code AMQP_STATUS_BAD_URL = - 0x0008"
| "status_code AMQP_STATUS_SOCKET_ERROR = - 0x0009"
| "status_code AMQP_STATUS_INVALID_PARAMETER = - 0x000A"
| "status_code AMQP_STATUS_TABLE_TOO_BIG = - 0x000B"
| "status_code AMQP_STATUS_WRONG_METHOD = - 0x000C"
| "status_code AMQP_STATUS_TIMEOUT = - 0x000D"
| "status_code AMQP_STATUS_TIMER_FAILURE = - 0x000E"
| "status_code AMQP_STATUS_HEARTBEAT_TIMEOUT = - 0x000F"
| "status_code AMQP_STATUS_UNEXPECTED_STATE = - 0x0010"
| "status_code AMQP_STATUS_SOCKET_CLOSED = - 0x0011"
| "status_code AMQP_STATUS_SOCKET_INUSE = - 0x0012"
| "status_code AMQP_STATUS_BROKER_UNSUPPORTED_SASL_METHOD = - 0x0013"
| "status_code AMQP_STATUS_UNSUPPORTED = - 0x0014"
| "status_code AMQP_STATUS_TCP_ERROR = - 0x0100"
| "status_code AMQP_STATUS_TCP_SOCKETLIB_INIT_ERROR = - 0x0101"
| "status_code AMQP_STATUS_SSL_ERROR = - 0x0200"
| "status_code AMQP_STATUS_SSL_HOSTNAME_VERIFY_FAILED = - 0x0201"
| "status_code AMQP_STATUS_SSL_PEER_VERIFY_FAILED = - 0x0202"
| "status_code AMQP_STATUS_SSL_CONNECTION_FAILED = - 0x0203"
| "status_code AMQP_STATUS_SSL_SET_ENGINE_FAILED = - 0x0204"
| "status_code (Other_status i) = i"

definition amqp_statuses :: "amqp_status_enum list" where
  "amqp_statuses = [AMQP_STATUS_OK, AMQP_STATUS_NO_MEMORY, AMQP_STATUS_BAD_AMQP_DATA, AMQP_STATUS_UNKNOWN_CLASS,
     AMQP_STATUS_UNKNOWN_METHOD, AMQP_STATUS_HOSTNAME_RESOLUTION_FAILED, AMQP_STATUS_INCOMPATIBLE_AMQP_VERSION,
     AMQP_STATUS_CONNECTION_CLOSED, AMQP_STATUS_BAD_URL, AMQP_STATUS_SOCKET_ERROR, AMQP_STATUS_INVALID_PARAMETER,
     AMQP_STATUS_TABLE_TOO_BIG, AMQP_STATUS_WRONG_METHOD, AMQP_STATUS_TIMEOUT, AMQP_STATUS_TIMER_FAILURE,
     AMQP_STATUS_HEARTBEAT_TIMEOUT, AMQP_STATUS_UNEXPECTED_STATE, AMQP_STATUS_SOCKET_CLOSED, AMQP_STATUS_SOCKET_INUSE,
     AMQP_STATUS_BROKER_UNSUPPORTED_SASL_METHOD, AMQP_STATUS_UNSUPPORTED, AMQP_STATUS_TCP_ERROR,
     AMQP_STATUS_TCP_SOCKETLIB_INIT_ERROR, AMQP_STATUS_SSL_ERROR, AMQP_STATUS_SSL_HOSTNAME_VERIFY_FAILED,
     AMQP_STATUS_SSL_PEER_VERIFY_FAILED, AMQP_STATUS_SSL_CONNECTION_FAILED, AMQP_STATUS_SSL_SET_ENGINE_FAILED]"

definition status_of_code :: "int \<Rightarrow> amqp_status_enum" where
  "status_of_code i = (case find (\<lambda>s. status_code s = i) amqp_statuses of Some s \<Rightarrow> s | None \<Rightarrow> Other_status i)"

lemma status_of_code_code: "status_code (status_of_code i) = i"
proof (cases "find (\<lambda>s. status_code s = i) amqp_statuses")
  case (Some s)
  then have "status_code s = i" by (auto simp: find_Some_iff)
  then show ?thesis by (simp add: status_of_code_def Some)
qed (simp add: status_of_code_def)

section \<open>Outcomes and programs\<close>

datatype 'a outcome = Ok 'a | Err amqp_status_enum | Undefined | OutOfFuel

type_synonym ('s, 'a) prog = "'s \<Rightarrow> 'a outcome \<times> 's"

definition ret :: "'a \<Rightarrow> ('s, 'a) prog" where
  "ret x = (\<lambda>s. (Ok x, s))"

definition throw :: "amqp_status_enum \<Rightarrow> ('s, 'a) prog" where
  "throw e = (\<lambda>s. (Err e, s))"

definition bindP :: "('s, 'a) prog \<Rightarrow> ('a \<Rightarrow> ('s, 'b) prog) \<Rightarrow> ('s, 'b) prog" where
  "bindP m k = (\<lambda>s. case m s of
       (Ok x, s') \<Rightarrow> k x s'
     | (Err e, s') \<Rightarrow> (Err e, s')
     | (Undefined, s') \<Rightarrow> (Undefined, s')
     | (OutOfFuel, s') \<Rightarrow> (OutOfFuel, s'))"

text \<open>
  \<open>check m e\<close> is the idiom \<^verbatim>\<open>if (!f(..., &out)) return e;\<close> for a function that returns 0 or 1 and
  an output; \<open>require m e\<close> is the same for a function without an output.
\<close>

definition check :: "('s, 'a option) prog \<Rightarrow> amqp_status_enum \<Rightarrow> ('s, 'a) prog" where
  "check m e = bindP m (\<lambda>r. case r of None \<Rightarrow> throw e | Some x \<Rightarrow> ret x)"

definition require :: "('s, bool) prog \<Rightarrow> amqp_status_enum \<Rightarrow> ('s, unit) prog" where
  "require m e = bindP m (\<lambda>b. if b then ret () else throw e)"

lemma ret_apply [outcome_simps]: "ret x s = (Ok x, s)"
  by (simp add: ret_def)

lemma throw_apply [outcome_simps]: "throw e s = (Err e, s)"
  by (simp add: throw_def)

lemma bindP_Ok [outcome_simps]: "m s = (Ok x, s') \<Longrightarrow> bindP m k s = k x s'"
  by (simp add: bindP_def)

lemma bindP_Err [outcome_simps]: "m s = (Err e, s') \<Longrightarrow> bindP m k s = (Err e, s')"
  by (simp add: bindP_def)

lemma bindP_Undefined [outcome_simps]: "m s = (Undefined, s') \<Longrightarrow> bindP m k s = (Undefined, s')"
  by (simp add: bindP_def)

lemma bindP_OutOfFuel [outcome_simps]: "m s = (OutOfFuel, s') \<Longrightarrow> bindP m k s = (OutOfFuel, s')"
  by (simp add: bindP_def)

lemma check_Some [outcome_simps]: "m s = (Ok (Some x), s') \<Longrightarrow> check m e s = (Ok x, s')"
  by (simp add: check_def outcome_simps)

lemma check_None [outcome_simps]: "m s = (Ok None, s') \<Longrightarrow> check m e s = (Err e, s')"
  by (simp add: check_def outcome_simps)

lemma require_True [outcome_simps]: "m s = (Ok True, s') \<Longrightarrow> require m e s = (Ok (), s')"
  by (simp add: require_def bindP_def ret_def)

lemma require_False [outcome_simps]: "m s = (Ok False, s') \<Longrightarrow> require m e s = (Err e, s')"
  by (simp add: require_def bindP_def throw_def)

text \<open>Evaluation of a program on a concrete state: the first step is run before the rest is looked at.\<close>

lemma bindP_run:
  "m s = (r, s') \<Longrightarrow> bindP m k s = (case r of Ok x \<Rightarrow> k x s' | Err e \<Rightarrow> (Err e, s')
     | Undefined \<Rightarrow> (Undefined, s') | OutOfFuel \<Rightarrow> (OutOfFuel, s'))"
  by (simp add: bindP_def)

lemma bindP_cong: "m = m' \<Longrightarrow> bindP m k = bindP m' k"
  by simp

lemma bindP_cases:
  assumes "bindP m k s = r"
  obtains (Ok) x s' where "m s = (Ok x, s')" "k x s' = r"
  | (Err) e s' where "m s = (Err e, s')" "r = (Err e, s')"
  | (Undefined) s' where "m s = (Undefined, s')" "r = (Undefined, s')"
  | (OutOfFuel) s' where "m s = (OutOfFuel, s')" "r = (OutOfFuel, s')"
  using assms by (cases "m s"; cases "fst (m s)") (auto simp: bindP_def)

lemma bindP_OkE:
  assumes "bindP m k s = (Ok y, s'')"
  obtains x s' where "m s = (Ok x, s')" "k x s' = (Ok y, s'')"
  using assms by (cases rule: bindP_cases) auto

lemma check_cases:
  assumes "check m e s = r"
  obtains (Some) x s' where "m s = (Ok (Some x), s')" "r = (Ok x, s')"
  | (None) s' where "m s = (Ok None, s')" "r = (Err e, s')"
  | (Err) e' s' where "m s = (Err e', s')" "r = (Err e', s')"
  | (Undefined) s' where "m s = (Undefined, s')" "r = (Undefined, s')"
  | (OutOfFuel) s' where "m s = (OutOfFuel, s')" "r = (OutOfFuel, s')"
  using assms unfolding check_def
  by (cases rule: bindP_cases) (auto simp: outcome_simps split: option.splits)

lemma check_OkE:
  assumes "check m e s = (Ok x, s')"
  obtains "m s = (Ok (Some x), s')"
  using assms by (cases rule: check_cases) auto

text \<open>Sequencing is associative, so nested blocks of C statements can be flattened.\<close>

lemma bindP_assoc: "bindP (bindP m f) g = bindP m (\<lambda>x. bindP (f x) g)"
  by (auto simp: bindP_def split: prod.splits outcome.splits)

section \<open>Triples\<close>

text \<open>
  \<open>hoare P m Q J\<close>: from a state satisfying \<open>P\<close> the program does not run into undefined behaviour
  and does not run out of fuel; when it returns a value \<open>x\<close> the state satisfies \<open>Q x\<close>, and when it
  fails with a status it satisfies \<open>J\<close>. \<open>safe I J m\<close> is the special case of an invariant, and
  \<open>safe_opt\<close> the one of the functions that report failure by returning 0.
\<close>

fun settles :: "('a \<Rightarrow> 's \<Rightarrow> bool) \<Rightarrow> ('s \<Rightarrow> bool) \<Rightarrow> 'a outcome \<times> 's \<Rightarrow> bool" where
  "settles Q J (Ok x, s) = Q x s"
| "settles Q J (Err e, s) = J s"
| "settles Q J (Undefined, s) = False"
| "settles Q J (OutOfFuel, s) = False"

definition hoare :: "('s \<Rightarrow> bool) \<Rightarrow> ('s, 'a) prog \<Rightarrow> ('a \<Rightarrow> 's \<Rightarrow> bool) \<Rightarrow> ('s \<Rightarrow> bool) \<Rightarrow> bool" where
  "hoare P m Q J \<longleftrightarrow> (\<forall>s. P s \<longrightarrow> settles Q J (m s))"

abbreviation safe :: "('s \<Rightarrow> bool) \<Rightarrow> ('s \<Rightarrow> bool) \<Rightarrow> ('s, 'a) prog \<Rightarrow> bool" where
  "safe I J m \<equiv> hoare I m (\<lambda>_. I) J"

abbreviation hoare_opt ::
  "('s \<Rightarrow> bool) \<Rightarrow> ('s, 'a option) prog \<Rightarrow> ('a \<Rightarrow> 's \<Rightarrow> bool) \<Rightarrow> ('s \<Rightarrow> bool) \<Rightarrow> bool" where
  "hoare_opt P m Q J \<equiv> hoare P m (\<lambda>r s. case r of None \<Rightarrow> J s | Some x \<Rightarrow> Q x s) J"

abbreviation safe_opt :: "('s \<Rightarrow> bool) \<Rightarrow> ('s \<Rightarrow> bool) \<Rightarrow> ('s, 'a option) prog \<Rightarrow> bool" where
  "safe_opt I J m \<equiv> hoare_opt I m (\<lambda>_. I) J"

named_theorems hoare_intros \<open>composition rules for triples\<close>

lemma hoareI: "(\<And>s. P s \<Longrightarrow> settles Q J (m s)) \<Longrightarrow> hoare P m Q J"
  by (simp add: hoare_def)

lemma hoareD: "hoare P m Q J \<Longrightarrow> P s \<Longrightarrow> settles Q J (m s)"
  by (simp add: hoare_def)

lemma settles_iff:
  "settles Q J (r, s) \<longleftrightarrow> (\<exists>x. r = Ok x \<and> Q x s) \<or> (\<exists>e. r = Err e \<and> J s)"
  by (cases r) auto

lemma settles_mono:
  "settles Q J r \<Longrightarrow> (\<And>x s. Q x s \<Longrightarrow> Q' x s) \<Longrightarrow> (\<And>s. J s \<Longrightarrow> J' s) \<Longrightarrow> settles Q' J' r"
  by (cases r) (auto simp: settles_iff)

lemma hoare_conseq:
  assumes "hoare P m Q J" and "\<And>s. P' s \<Longrightarrow> P s" and "\<And>x s. Q x s \<Longrightarrow> Q' x s" and "\<And>s. J s \<Longrightarrow> J' s"
  shows "hoare P' m Q' J'"
  using assms by (fastforce simp: hoare_def intro: settles_mono)

lemma hoare_ret: "(\<And>s. P s \<Longrightarrow> Q x s) \<Longrightarrow> hoare P (ret x) Q J"
  by (simp add: hoare_def ret_def)

lemma hoare_throw: "(\<And>s. P s \<Longrightarrow> J s) \<Longrightarrow> hoare P (throw e) Q J"
  by (simp add: hoare_def throw_def)

lemma settles_bind:
  assumes "settles R J (m s)" and "\<And>x s'. R x s' \<Longrightarrow> settles Q J (k x s')"
  shows "settles Q J (bindP m k s)"
  using assms by (cases "m s"; cases "fst (m s)") (auto simp: bindP_def)

lemma hoare_bind:
  assumes "hoare P m R J" and "\<And>x. hoare (R x) (k x) Q J"
  shows "hoare P (bindP m k) Q J"
  using assms by (fastforce simp: hoare_def intro: settles_bind)

lemma hoare_check:
  assumes "hoare_opt P m Q J"
  shows "hoare P (check m e) Q J"
  unfolding check_def
  by (rule hoare_bind [OF assms]) (auto simp: hoare_def ret_def throw_def split: option.splits)

lemma hoare_pre: "(\<And>s. P s \<Longrightarrow> C) \<Longrightarrow> (C \<Longrightarrow> hoare P m Q J) \<Longrightarrow> hoare P m Q J"
  by (auto simp: hoare_def)

lemma safe_ret [hoare_intros]: "safe I J (ret x)"
  by (rule hoare_ret)

lemma safe_bind [hoare_intros]: "safe I J m \<Longrightarrow> (\<And>x. safe I J (k x)) \<Longrightarrow> safe I J (bindP m k)"
  by (rule hoare_bind)

lemma safe_check [hoare_intros]: "safe_opt I J m \<Longrightarrow> safe I J (check m e)"
  by (rule hoare_check)

lemma safe_if [hoare_intros]: "safe I J m \<Longrightarrow> safe I J m' \<Longrightarrow> safe I J (if b then m else m')"
  by simp

section \<open>The type size\_t and blocks of memory\<close>

definition size_add :: "nat \<Rightarrow> nat \<Rightarrow> nat" where
  "size_add a b = (a + b) mod 2 ^ 64"

definition size_sub :: "nat \<Rightarrow> nat \<Rightarrow> nat" where
  "size_sub a b = (if b \<le> a then a - b else (2 ^ 64 + a - b) mod 2 ^ 64)"

text \<open>No object is larger than \<^verbatim>\<open>PTRDIFF_MAX\<close>.\<close>

definition ptrdiff_max :: nat where
  "ptrdiff_max = 2 ^ 63 - 1"

lemma size_add_small [simp]: "a + b < 2 ^ 64 \<Longrightarrow> size_add a b = a + b"
  unfolding size_add_def by (rule mod_less)

lemma size_add_less [simp]: "size_add a b < 2 ^ 64"
  by (simp add: size_add_def)

lemma size_add_0 [simp]: "a < 2 ^ 64 \<Longrightarrow> size_add a 0 = a"
  by (simp add: size_add_def)

lemma size_sub_small [simp]: "b \<le> a \<Longrightarrow> size_sub a b = a - b"
  by (simp add: size_sub_def)

definition mem_read :: "nat \<Rightarrow> nat \<Rightarrow> byte list \<Rightarrow> byte list option" where
  "mem_read a n mem = (if a + n \<le> length mem then Some (take n (drop a mem)) else None)"

definition mem_write :: "nat \<Rightarrow> byte list \<Rightarrow> byte list \<Rightarrow> byte list option" where
  "mem_write a ws mem =
     (if a + length ws \<le> length mem then Some (take a mem @ ws @ drop (a + length ws) mem) else None)"

lemma mem_read_Some_length: "mem_read a n mem = Some bs \<Longrightarrow> length bs = n \<and> a + n \<le> length mem"
  by (auto simp: mem_read_def split: if_splits)

lemma mem_write_Some_length: "mem_write a ws mem = Some mem' \<Longrightarrow> length mem' = length mem"
  by (auto simp: mem_write_def split: if_splits)

lemma mem_read_write_same:
  "mem_write a ws mem = Some mem' \<Longrightarrow> mem_read a (length ws) mem' = Some ws"
  by (auto simp: mem_read_def mem_write_def split: if_splits)

lemma mem_read_write_other:
  assumes w: "mem_write a ws mem = Some mem'" and "b + n \<le> a \<or> a + length ws \<le> b"
  shows "mem_read b n mem' = mem_read b n mem"
proof -
  from w have mem': "mem' = take a mem @ ws @ drop (a + length ws) mem"
    and fits: "a + length ws \<le> length mem"
    by (simp_all add: mem_write_def split: if_splits)
  have len: "length mem' = length mem"
    using mem' fits by simp
  from assms(2) have "take n (drop b mem') = take n (drop b mem)"
  proof
    assume "b + n \<le> a"
    then have "take (b + n) mem' = take (b + n) mem"
      using mem' fits by simp
    then have "drop b (take (b + n) mem') = drop b (take (b + n) mem)"
      by simp
    then show ?thesis by (simp add: drop_take)
  next
    assume "a + length ws \<le> b"
    then have "drop b mem' = drop b mem"
      using mem' fits by simp
    then show ?thesis by simp
  qed
  with len show ?thesis by (simp add: mem_read_def)
qed

end
