(* ===== verification/Amqp_Mem.thy ===== *)
theory Amqp_Mem
  imports Amqp_Prelude
begin

text \<open>
  librabbitmq/amqp\_mem.c: the memory pools every decoded frame lives in, and the per-channel pool
  table of a connection.

  The C heap is a record of the live blocks with their sizes; a request is numbered, and the
  oracle \<open>h_grant\<close> says whether the \<open>i\<close>-th request for \<open>n\<close> bytes is served, so every out-of-memory
  branch of the code is a branch of the model. Freeing a block that is not live raises \<open>h_fault\<close>.
  A pointer into a pool is a block and an offset. The lemmas show that a pool never hands out
  overlapping or out-of-bounds memory, that its \<^verbatim>\<open>assert\<close> cannot fail, that emptying it frees every
  block it recorded exactly once, and that the pool table is a map from channels to pools.
\<close>

named_theorems mem_simps \<open>definitions of the heap and of the pool operations\<close>

section \<open>The C heap\<close>

record heap =
  h_live :: "nat \<rightharpoonup> nat"
  h_calls :: nat
  h_grant :: "nat \<Rightarrow> nat \<Rightarrow> bool"
  h_fault :: bool

text \<open>\<^verbatim>\<open>malloc\<close> and \<^verbatim>\<open>calloc(1, n)\<close>, \<^verbatim>\<open>free\<close> and \<^verbatim>\<open>realloc\<close> of the C library.\<close>

definition heap_malloc :: "nat \<Rightarrow> heap \<Rightarrow> nat option \<times> heap" where
  "heap_malloc n h =
     (let a = h_calls h; h' = h\<lparr>h_calls := Suc a\<rparr>
      in if h_grant h a n then (Some a, h'\<lparr>h_live := (h_live h)(a \<mapsto> n)\<rparr>) else (None, h'))"

definition heap_free :: "nat option \<Rightarrow> heap \<Rightarrow> heap" where
  "heap_free p h =
     (case p of
        None \<Rightarrow> h
      | Some a \<Rightarrow> if h_live h a = None then h\<lparr>h_fault := True\<rparr> else h\<lparr>h_live := (h_live h)(a := None)\<rparr>)"

definition heap_realloc :: "nat option \<Rightarrow> nat \<Rightarrow> heap \<Rightarrow> nat option \<times> heap" where
  "heap_realloc p n h =
     (case heap_malloc n h of
        (None, h') \<Rightarrow> (None, h')
      | (Some a, h') \<Rightarrow> (Some a, heap_free p h'))"

section \<open>Pools\<close>

record amqp_pool_blocklist_t =
  blocklist :: "nat option"
  blocks :: "nat list"

abbreviation num_blocks :: "amqp_pool_blocklist_t \<Rightarrow> nat" where
  "num_blocks x \<equiv> length (blocks x)"

record amqp_pool_t =
  pagesize :: nat
  pages :: amqp_pool_blocklist_t
  large_blocks :: amqp_pool_blocklist_t
  next_page :: nat
  alloc_block :: "nat option"
  alloc_used :: nat

type_synonym ptr = "nat \<times> nat"
type_synonym pool_state = "amqp_pool_t \<times> heap"

definition empty_blocks :: amqp_pool_blocklist_t where
  "empty_blocks = \<lparr>blocklist = None, blocks = []\<rparr>"

definition init_amqp_pool :: "nat \<Rightarrow> amqp_pool_t" where
  "init_amqp_pool ps =
     \<lparr>pagesize = (if ps \<noteq> 0 then ps else 4096), pages = empty_blocks, large_blocks = empty_blocks,
      next_page = 0, alloc_block = None, alloc_used = 0\<rparr>"

definition empty_blocklist :: "amqp_pool_blocklist_t \<Rightarrow> heap \<Rightarrow> amqp_pool_blocklist_t \<times> heap" where
  "empty_blocklist x h =
     (empty_blocks,
      case blocklist x of
        None \<Rightarrow> h
      | Some a \<Rightarrow> heap_free (Some a) (fold (\<lambda>b. heap_free (Some b)) (blocks x) h))"

definition recycle_amqp_pool :: "amqp_pool_t \<Rightarrow> heap \<Rightarrow> pool_state" where
  "recycle_amqp_pool pool h =
     (let (x, h') = empty_blocklist (large_blocks pool) h
      in (pool\<lparr>large_blocks := x, next_page := 0, alloc_block := None, alloc_used := 0\<rparr>, h'))"

definition empty_amqp_pool :: "amqp_pool_t \<Rightarrow> heap \<Rightarrow> pool_state" where
  "empty_amqp_pool pool h =
     (let (pool', h') = recycle_amqp_pool pool h;
          (x, h'') = empty_blocklist (pages pool') h'
      in (pool'\<lparr>pages := x\<rparr>, h''))"

definition record_pool_block ::
  "amqp_pool_blocklist_t \<Rightarrow> nat \<Rightarrow> heap \<Rightarrow> bool \<times> amqp_pool_blocklist_t \<times> heap" where
  "record_pool_block x block h =
     (let blocklistlength = 8 * (num_blocks x + 1)
      in case (case blocklist x of
                 None \<Rightarrow> heap_malloc blocklistlength h
               | Some a \<Rightarrow> heap_realloc (Some a) blocklistlength h) of
           (None, h') \<Rightarrow> (False, x, h')
         | (Some a, h') \<Rightarrow> (True, \<lparr>blocklist = Some a, blocks = blocks x @ [block]\<rparr>, h'))"

text \<open>\<^verbatim>\<open>(amount + 7) & (~7)\<close> on \<^verbatim>\<open>size_t\<close>.\<close>

definition round_up8 :: "nat \<Rightarrow> nat" where
  "round_up8 amount = size_add amount 7 div 8 * 8"

text \<open>The last part of \<^verbatim>\<open>amqp_pool_alloc\<close>: take the next recorded page, or a new one.\<close>

definition pool_take_page :: "nat \<Rightarrow> (pool_state, ptr option) prog" where
  "pool_take_page amount = (\<lambda>(pool, h).
     if next_page pool \<ge> num_blocks (pages pool) then
       (case heap_malloc (pagesize pool) h of
          (None, h') \<Rightarrow> (Ok None, (pool\<lparr>alloc_block := None\<rparr>, h'))
        | (Some b, h') \<Rightarrow>
            (case record_pool_block (pages pool) b h' of
               (False, x, h'') \<Rightarrow> (Ok None, (pool\<lparr>alloc_block := Some b, pages := x\<rparr>, h''))
             | (True, x, h'') \<Rightarrow>
                 (Ok (Some (b, 0)),
                  (pool\<lparr>alloc_block := Some b, pages := x, next_page := num_blocks x,
                        alloc_used := amount\<rparr>, h''))))
     else
       (let b = blocks (pages pool) ! next_page pool
        in (Ok (Some (b, 0)),
            (pool\<lparr>alloc_block := Some b, next_page := next_page pool + 1, alloc_used := amount\<rparr>, h))))"

definition amqp_pool_alloc :: "nat \<Rightarrow> (pool_state, ptr option) prog" where
  "amqp_pool_alloc amount0 = (\<lambda>(pool, h).
     if amount0 = 0 then (Ok None, (pool, h))
     else let amount = round_up8 amount0 in
       if amount > pagesize pool then
         (case heap_malloc amount h of
            (None, h') \<Rightarrow> (Ok None, (pool, h'))
          | (Some result, h') \<Rightarrow>
              (case record_pool_block (large_blocks pool) result h' of
                 (False, x, h'') \<Rightarrow> (Ok None, (pool\<lparr>large_blocks := x\<rparr>, heap_free (Some result) h''))
               | (True, x, h'') \<Rightarrow> (Ok (Some (result, 0)), (pool\<lparr>large_blocks := x\<rparr>, h''))))
       else
         (case alloc_block pool of
            None \<Rightarrow> pool_take_page amount (pool, h)
          | Some b \<Rightarrow>
              if alloc_used pool > pagesize pool then (Undefined, (pool, h))
              else if size_add (alloc_used pool) amount \<le> pagesize pool then
                (Ok (Some (b, alloc_used pool)),
                 (pool\<lparr>alloc_used := size_add (alloc_used pool) amount\<rparr>, h))
              else pool_take_page amount (pool, h)))"

lemmas [mem_simps] =
  heap_malloc_def heap_free_def heap_realloc_def record_pool_block_def empty_blocks_def Let_def

section \<open>The pool table of a connection\<close>

text \<open>
  Each of the 16 buckets is a linked list of entries, newest first. The pools of a connection
  start with the connection's \<^verbatim>\<open>frame_max\<close> as their page size.
\<close>

type_synonym amqp_channel_t = uint16

record amqp_pool_table_entry_t =
  entry_block :: nat
  entry_pool :: amqp_pool_t
  entry_channel :: amqp_channel_t

type_synonym pool_table = "amqp_pool_table_entry_t list list"

definition POOL_TABLE_SIZE :: nat where
  "POOL_TABLE_SIZE = 16"

definition pool_index :: "amqp_channel_t \<Rightarrow> nat" where
  "pool_index channel = unat channel mod POOL_TABLE_SIZE"

fun find_entry :: "amqp_pool_table_entry_t list \<Rightarrow> amqp_channel_t \<Rightarrow> amqp_pool_t option" where
  "find_entry [] channel = None"
| "find_entry (entry # entries) channel =
     (if channel = entry_channel entry then Some (entry_pool entry) else find_entry entries channel)"

definition amqp_get_channel_pool :: "pool_table \<Rightarrow> amqp_channel_t \<Rightarrow> amqp_pool_t option" where
  "amqp_get_channel_pool table channel = find_entry (table ! pool_index channel) channel"

text \<open>\<^verbatim>\<open>sizeof(amqp_pool_table_entry_t)\<close>: the link, the pool and the channel.\<close>

definition sizeof_pool_table_entry :: nat where
  "sizeof_pool_table_entry = 80"

definition amqp_get_or_create_channel_pool ::
  "nat \<Rightarrow> amqp_channel_t \<Rightarrow> pool_table \<Rightarrow> heap \<Rightarrow> amqp_pool_t option \<times> pool_table \<times> heap" where
  "amqp_get_or_create_channel_pool frame_max channel table h =
     (let index = pool_index channel
      in case find_entry (table ! index) channel of
           Some pool \<Rightarrow> (Some pool, table, h)
         | None \<Rightarrow>
             (case heap_malloc sizeof_pool_table_entry h of
                (None, h') \<Rightarrow> (None, table, h')
              | (Some a, h') \<Rightarrow>
                  (let pool = init_amqp_pool frame_max;
                       entry = \<lparr>entry_block = a, entry_pool = pool, entry_channel = channel\<rparr>
                   in (Some pool, table[index := entry # table ! index], h'))))"

text \<open>A callee that works on a pool of the table through its pointer updates the entry in place.\<close>

fun set_entry ::
  "amqp_pool_table_entry_t list \<Rightarrow> amqp_channel_t \<Rightarrow> amqp_pool_t \<Rightarrow> amqp_pool_table_entry_t list" where
  "set_entry [] channel p = []"
| "set_entry (entry # entries) channel p =
     (if channel = entry_channel entry then entry\<lparr>entry_pool := p\<rparr> # entries
      else entry # set_entry entries channel p)"

definition set_channel_pool :: "pool_table \<Rightarrow> amqp_channel_t \<Rightarrow> amqp_pool_t \<Rightarrow> pool_table" where
  "set_channel_pool table channel p =
     table[pool_index channel := set_entry (table ! pool_index channel) channel p]"

section \<open>The pool invariant\<close>

text \<open>
  A block not yet requested is not live. \<open>pool_blocks\<close> lists every block a pool recorded and the
  arrays its block lists are kept in. The current page may be missing from the page list: when the
  list cannot grow, \<^verbatim>\<open>amqp_pool_alloc\<close> reports failure but keeps the page it obtained as
  \<^verbatim>\<open>alloc_block\<close>.
\<close>

definition heap_inv :: "heap \<Rightarrow> bool" where
  "heap_inv h \<longleftrightarrow> (\<forall>a. h_calls h \<le> a \<longrightarrow> h_live h a = None)"

definition list_array :: "amqp_pool_blocklist_t \<Rightarrow> nat list" where
  "list_array x = (case blocklist x of None \<Rightarrow> [] | Some a \<Rightarrow> [a])"

definition pool_blocks :: "amqp_pool_t \<Rightarrow> nat list" where
  "pool_blocks p = blocks (pages p) @ blocks (large_blocks p) @ list_array (pages p)
     @ list_array (large_blocks p)"

definition pool_inv :: "amqp_pool_t \<Rightarrow> heap \<Rightarrow> bool" where
  "pool_inv p h \<longleftrightarrow> heap_inv h
     \<and> 0 < pagesize p \<and> pagesize p \<le> ptrdiff_max
     \<and> alloc_used p \<le> pagesize p \<and> 8 dvd alloc_used p
     \<and> next_page p \<le> num_blocks (pages p)
     \<and> distinct (pool_blocks p)
     \<and> (\<forall>b \<in> set (pool_blocks p). h_live h b \<noteq> None)
     \<and> (\<forall>b \<in> set (blocks (pages p)). h_live h b = Some (pagesize p))
     \<and> (blocklist (pages p) = None \<longrightarrow> blocks (pages p) = [])
     \<and> (blocklist (large_blocks p) = None \<longrightarrow> blocks (large_blocks p) = [])
     \<and> (\<forall>b. alloc_block p = Some b \<longrightarrow> h_live h b = Some (pagesize p)
          \<and> b \<notin> set (drop (next_page p) (blocks (pages p)))
          \<and> b \<notin> set (blocks (large_blocks p)) \<and> b \<notin> set (list_array (pages p))
          \<and> b \<notin> set (list_array (large_blocks p)))"

lemma heap_inv_live_less: "heap_inv h \<Longrightarrow> h_live h a = Some n \<Longrightarrow> a < h_calls h"
  unfolding heap_inv_def by (rule ccontr) auto

lemma heap_malloc_Some:
  assumes "heap_malloc n h = (Some a, h')" and "heap_inv h"
  shows "heap_inv h'" "a = h_calls h" "h_live h a = None" "h_live h' = (h_live h)(a \<mapsto> n)"
    "h_calls h' = Suc (h_calls h)" "h_fault h' = h_fault h" "h_grant h' = h_grant h"
  using assms by (auto simp: heap_malloc_def heap_inv_def Let_def split: if_splits)

lemma heap_malloc_None:
  assumes "heap_malloc n h = (None, h')" and "heap_inv h"
  shows "heap_inv h'" "h_live h' = h_live h" "h_calls h' = Suc (h_calls h)"
    "h_fault h' = h_fault h" "h_grant h' = h_grant h"
  using assms by (auto simp: heap_malloc_def heap_inv_def Let_def split: if_splits)

lemma record_pool_block_False:
  assumes "record_pool_block x b h = (False, x', h')" and "heap_inv h"
  shows "x' = x" "heap_inv h'" "h_live h' = h_live h" "h_calls h \<le> h_calls h'"
    "h_fault h' = h_fault h" "h_grant h' = h_grant h"
  using assms
  by (auto simp: record_pool_block_def heap_realloc_def Let_def split: option.splits prod.splits
      dest: heap_malloc_None)

lemma record_pool_block_True:
  assumes r: "record_pool_block x b h = (True, x', h')" and inv: "heap_inv h"
    and live: "\<And>a. blocklist x = Some a \<Longrightarrow> h_live h a \<noteq> None"
  shows "x' = \<lparr>blocklist = Some (h_calls h), blocks = blocks x @ [b]\<rparr>"
    "heap_inv h'" "h_calls h \<le> h_calls h'" "h_fault h' = h_fault h" "h_grant h' = h_grant h"
    "h_live h' (h_calls h) \<noteq> None"
    "c \<noteq> h_calls h \<Longrightarrow> blocklist x \<noteq> Some c \<Longrightarrow> h_live h' c = h_live h c"
proof -
  let ?n = "8 * (num_blocks x + 1)"
  from r obtain a h1 where m: "heap_malloc ?n h = (Some a, h1)"
    and x': "x' = \<lparr>blocklist = Some a, blocks = blocks x @ [b]\<rparr>" and h': "h' = heap_free (blocklist x) h1"
    by (auto simp: record_pool_block_def heap_realloc_def heap_free_def Let_def
        split: option.splits prod.splits)
  note h1 = heap_malloc_Some [OF m inv]
  have "h' = (case blocklist x of None \<Rightarrow> h1 | Some a' \<Rightarrow> h1\<lparr>h_live := (h_live h1)(a' := None)\<rparr>)"
    using live h1 by (auto simp: h' heap_free_def split: option.splits)
  then show "x' = \<lparr>blocklist = Some (h_calls h), blocks = blocks x @ [b]\<rparr>"
    "heap_inv h'" "h_calls h \<le> h_calls h'" "h_fault h' = h_fault h" "h_grant h' = h_grant h"
    "h_live h' (h_calls h) \<noteq> None"
    "c \<noteq> h_calls h \<Longrightarrow> blocklist x \<noteq> Some c \<Longrightarrow> h_live h' c = h_live h c"
    using x' h1 live by (auto simp: heap_inv_def split: option.splits)
qed

text \<open>
  A region is a block, an offset and a length. \<open>pool_owns p h S\<close>: the regions in \<open>S\<close> were handed
  out by the pool and are still inside live blocks; none of them lies in a page the pool may still
  take, and those in the current page lie below \<^verbatim>\<open>alloc_used\<close>.
\<close>

type_synonym region = "nat \<times> nat \<times> nat"

definition disjoint_regions :: "region \<Rightarrow> region \<Rightarrow> bool" where
  "disjoint_regions = (\<lambda>(b1, o1, n1) (b2, o2, n2). b1 \<noteq> b2 \<or> o1 + n1 \<le> o2 \<or> o2 + n2 \<le> o1)"

definition region_ok :: "heap \<Rightarrow> region \<Rightarrow> bool" where
  "region_ok h = (\<lambda>(b, a, n). 8 dvd a \<and> (\<exists>sz. h_live h b = Some sz \<and> a + n \<le> sz))"

definition pool_owns :: "amqp_pool_t \<Rightarrow> heap \<Rightarrow> region set \<Rightarrow> bool" where
  "pool_owns p h S \<longleftrightarrow> (\<forall>(b, a, n) \<in> S. region_ok h (b, a, n) \<and> b < h_calls h
     \<and> b \<notin> set (list_array (pages p)) \<and> b \<notin> set (list_array (large_blocks p))
     \<and> b \<notin> set (drop (next_page p) (blocks (pages p)))
     \<and> (alloc_block p = Some b \<longrightarrow> a + n \<le> alloc_used p))"

text \<open>What one allocation guarantees, from a pool that owns the regions \<open>S\<close>.\<close>

definition alloc_post ::
  "amqp_pool_t \<Rightarrow> heap \<Rightarrow> region set \<Rightarrow> nat \<Rightarrow> ptr option outcome \<times> pool_state \<Rightarrow> bool" where
  "alloc_post p h S amount = (\<lambda>(r, p', h').
     pool_inv p' h' \<and> pagesize p' = pagesize p \<and> h_fault h' = h_fault h \<and> h_grant h' = h_grant h
     \<and> h_calls h \<le> h_calls h'
     \<and> (r = Ok None \<and> pool_owns p' h' S
        \<or> (\<exists>b a. r = Ok (Some (b, a)) \<and> region_ok h' (b, a, amount)
             \<and> (\<forall>x \<in> S. disjoint_regions (b, a, amount) x) \<and> pool_owns p' h' (insert (b, a, amount) S))))"

lemma alloc_post_reuse_page:
  assumes inv: "pool_inv p h" and owns: "pool_owns p h S" and amount: "amount \<le> pagesize p" "8 dvd amount"
    and more: "next_page p < num_blocks (pages p)"
  shows "alloc_post p h S amount (pool_take_page amount (p, h))"
proof -
  let ?np = "next_page p" and ?bs = "blocks (pages p)"
  let ?b = "?bs ! ?np"
  have dr: "drop ?np ?bs = ?b # drop (Suc ?np) ?bs"
    using more by (rule Cons_nth_drop_Suc [symmetric])
  from inv have "distinct ?bs"
    by (simp add: pool_inv_def pool_blocks_def)
  then have fresh: "?b \<notin> set (drop (Suc ?np) ?bs)"
    using dr by (metis distinct.simps(2) distinct_drop)
  have b: "?b \<in> set ?bs" using more by simp
  with inv have "?b \<notin> set (blocks (large_blocks p))" "?b \<notin> set (list_array (pages p))"
    "?b \<notin> set (list_array (large_blocks p))" "h_live h ?b = Some (pagesize p)"
    by (auto simp: pool_inv_def pool_blocks_def)
  then show ?thesis
    using inv owns amount more b fresh dr
    by (auto simp: alloc_post_def pool_take_page_def Let_def pool_inv_def pool_owns_def
        region_ok_def disjoint_regions_def pool_blocks_def heap_inv_live_less)
qed

text \<open>A pool stays valid in a heap that agrees with the old one on the pool's blocks.\<close>

lemma pool_inv_heap_cong:
  assumes "pool_inv p h" and "heap_inv h'"
    and "\<And>b. b \<in> set (pool_blocks p) \<or> alloc_block p = Some b \<Longrightarrow> h_live h' b = h_live h b"
  shows "pool_inv p h'"
  using assms unfolding pool_inv_def pool_blocks_def by auto

definition pool_arrays :: "amqp_pool_t \<Rightarrow> nat set" where
  "pool_arrays p = set (list_array (pages p)) \<union> set (list_array (large_blocks p))"

lemma pool_owns_step:
  assumes owns: "pool_owns p h S" and calls: "h_calls h \<le> h_calls h'"
    and live: "\<And>b. b < h_calls h \<Longrightarrow> b \<notin> pool_arrays p \<Longrightarrow> h_live h' b = h_live h b"
    and arrays: "\<And>b. b \<in> pool_arrays p' \<Longrightarrow> b \<in> pool_arrays p \<or> h_calls h \<le> b"
    and pages: "\<And>b. b \<in> set (drop (next_page p') (blocks (pages p'))) \<Longrightarrow>
        b \<in> set (drop (next_page p) (blocks (pages p))) \<or> h_calls h \<le> b"
    and current: "\<And>b. alloc_block p' = Some b \<Longrightarrow>
        h_calls h \<le> b \<or> b \<in> set (drop (next_page p) (blocks (pages p)))
        \<or> alloc_block p = Some b \<and> alloc_used p \<le> alloc_used p'"
  shows "pool_owns p' h' S"
proof -
  have "region_ok h' (b, a, n) \<and> b < h_calls h' \<and> b \<notin> pool_arrays p'
     \<and> b \<notin> set (drop (next_page p') (blocks (pages p'))) \<and> (alloc_block p' = Some b \<longrightarrow> a + n \<le> alloc_used p')"
    if "(b, a, n) \<in> S" for b a n
  proof -
    from owns that have o: "region_ok h (b, a, n)" "b < h_calls h" "b \<notin> pool_arrays p"
      "b \<notin> set (drop (next_page p) (blocks (pages p)))" "alloc_block p = Some b \<Longrightarrow> a + n \<le> alloc_used p"
      by (auto simp: pool_owns_def pool_arrays_def)
    show ?thesis
      using o live [OF o(2,3)] calls arrays [of b] pages [of b] current [of b]
      by (auto simp: region_ok_def)
  qed
  then show ?thesis by (auto simp: pool_owns_def pool_arrays_def)
qed

lemma pool_owns_insert:
  assumes "pool_owns p h S" and "region_ok h (b, a, n)" and "heap_inv h" and "b \<notin> pool_arrays p"
    and "b \<notin> set (drop (next_page p) (blocks (pages p)))" and "alloc_block p = Some b \<Longrightarrow> a + n \<le> alloc_used p"
  shows "pool_owns p h (insert (b, a, n) S)"
  using assms by (auto simp: pool_owns_def pool_arrays_def region_ok_def dest: heap_inv_live_less)

lemma pool_block_live:
  "pool_inv p h \<Longrightarrow> b \<in> set (pool_blocks p) \<or> alloc_block p = Some b \<Longrightarrow> h_live h b \<noteq> None"
  by (auto simp: pool_inv_def)

lemma pool_inv_set_alloc_block:
  assumes "pool_inv p h" and "h_live h b = Some (pagesize p)" and "b \<notin> set (pool_blocks p)"
  shows "pool_inv (p\<lparr>alloc_block := Some b\<rparr>) h"
  using assms set_drop_subset [of "next_page p" "blocks (pages p)"]
  by (auto simp: pool_inv_def pool_blocks_def)

lemma pool_inv_no_alloc_block: "pool_inv p h \<Longrightarrow> pool_inv (p\<lparr>alloc_block := None\<rparr>) h"
  by (auto simp: pool_inv_def pool_blocks_def)

text \<open>A page is allocated and its block list has grown: the page becomes the current one.\<close>

lemma pool_add_page:
  fixes p x b amount
  defines "p' \<equiv> p\<lparr>alloc_block := Some b, pages := x, next_page := num_blocks x, alloc_used := amount\<rparr>"
  assumes inv: "pool_inv p h" and live: "h_live h b = Some (pagesize p)"
    and fresh: "b \<notin> set (pool_blocks p)" "\<forall>(c, a, n) \<in> S. b \<noteq> c"
    and amount: "amount \<le> pagesize p" "8 dvd amount"
    and rec: "record_pool_block (pages p) b h = (True, x, h')" and owns: "pool_owns p h S"
  shows "h_live h' b = Some (pagesize p)" "h_calls h \<le> h_calls h'" "h_fault h' = h_fault h"
    "h_grant h' = h_grant h" "pool_inv p' h'" "pool_owns p' h' (insert (b, 0, amount) S)"
proof -
  from inv have hinv: "heap_inv h" by (simp add: pool_inv_def)
  have arr: "\<And>a. blocklist (pages p) = Some a \<Longrightarrow> h_live h a \<noteq> None"
    using inv by (auto simp: pool_inv_def pool_blocks_def list_array_def)
  note h' = record_pool_block_True [OF rec hinv arr]
  let ?a = "h_calls h"
  have afresh: "?a \<notin> set (pool_blocks p)" "?a \<noteq> b"
    using pool_block_live [OF inv, of ?a] hinv live by (auto simp: heap_inv_def)
  have kept: "h_live h' c = h_live h c"
    if "c \<in> set (blocks (pages p)) \<union> set (blocks (large_blocks p)) \<union> set (list_array (large_blocks p))" for c
    using that afresh(1) inv by (intro h'(7)) (auto simp: pool_inv_def pool_blocks_def list_array_def)
  have "blocklist (pages p) \<noteq> Some b"
    using fresh by (auto simp: pool_blocks_def list_array_def)
  then show b: "h_live h' b = Some (pagesize p)"
    using h'(7) [of b] afresh(2) live by simp
  show "h_calls h \<le> h_calls h'" "h_fault h' = h_fault h" "h_grant h' = h_grant h"
    using h'(3-5) by simp_all
  show "pool_inv p' h'"
    using inv h'(1-6) fresh(1) afresh amount kept b
    by (auto simp: pool_inv_def pool_blocks_def list_array_def p'_def)
  have "pool_owns (p'\<lparr>alloc_block := None\<rparr>) h' S"
    by (rule pool_owns_step [OF owns h'(3)])
      (use h'(1,7) in \<open>auto simp: p'_def pool_arrays_def list_array_def split: option.splits\<close>)
  then have "pool_owns p' h' S"
    using fresh(2) by (fastforce simp: pool_owns_def p'_def)
  then show "pool_owns p' h' (insert (b, 0, amount) S)"
    using b amount h'(1,2) fresh(1) afresh
    by (intro pool_owns_insert)
      (auto simp: p'_def region_ok_def pool_arrays_def list_array_def pool_blocks_def)
qed

lemma alloc_post_new_page:
  assumes inv: "pool_inv p h" and owns: "pool_owns p h S" and amount: "amount \<le> pagesize p" "8 dvd amount"
    and last: "num_blocks (pages p) \<le> next_page p"
  shows "alloc_post p h S amount (pool_take_page amount (p, h))"
proof (cases "heap_malloc (pagesize p) h")
  case (Pair r h1)
  from inv have hinv: "heap_inv h" by (simp add: pool_inv_def)
  show ?thesis
  proof (cases r)
    case None
    note h1 = heap_malloc_None [OF Pair [unfolded None] hinv]
    have "pool_inv (p\<lparr>alloc_block := None\<rparr>) h1"
      by (rule pool_inv_heap_cong [OF pool_inv_no_alloc_block [OF inv] h1(1)]) (simp add: h1)
    moreover have "pool_owns (p\<lparr>alloc_block := None\<rparr>) h1 S"
      by (rule pool_owns_step [OF owns]) (auto simp: h1 pool_arrays_def)
    ultimately show ?thesis
      using last Pair None h1 by (simp add: pool_take_page_def alloc_post_def)
  next
    case (Some b)
    note h1 = heap_malloc_Some [OF Pair [unfolded Some] hinv]
    have fresh: "b \<notin> set (pool_blocks p)" "alloc_block p \<noteq> Some b"
      using pool_block_live [OF inv, of b] h1(3) by auto
    have inv1: "pool_inv p h1"
      by (rule pool_inv_heap_cong [OF inv h1(1)]) (use fresh h1(4) in auto)
    have live: "h_live h1 b = Some (pagesize p)" using h1(4) by simp
    have disj: "\<forall>x \<in> S. disjoint_regions (b, 0, amount) x"
      using owns h1(2) by (auto simp: pool_owns_def disjoint_regions_def)
    obtain ok x h2 where rec: "record_pool_block (pages p) b h1 = (ok, x, h2)"
      by (metis surj_pair)
    show ?thesis
    proof (cases ok)
      case False
      then have rec': "record_pool_block (pages p) b h1 = (False, x, h2)" using rec by simp
      note h2 = record_pool_block_False [OF rec' h1(1)]
      have "pool_inv (p\<lparr>alloc_block := Some b, pages := x\<rparr>) h2"
        using pool_inv_set_alloc_block [OF inv1 live fresh(1)] h2
        by (auto simp: pool_inv_def pool_blocks_def)
      moreover have "pool_owns (p\<lparr>alloc_block := Some b, pages := x\<rparr>) h2 S"
        by (rule pool_owns_step [OF owns]) (use h1 h2 in \<open>auto simp: pool_arrays_def\<close>)
      ultimately show ?thesis
        using last Pair Some rec' h1 h2 by (simp add: pool_take_page_def alloc_post_def)
    next
      case True
      then have rec': "record_pool_block (pages p) b h1 = (True, x, h2)" using rec by simp
      have notS: "\<forall>(c, a, n) \<in> S. b \<noteq> c" using owns h1(2) by (auto simp: pool_owns_def)
      have owns1: "pool_owns p h1 S"
        by (rule pool_owns_step [OF owns]) (use h1 in auto)
      note page = pool_add_page [OF inv1 live fresh(1) notS amount rec' owns1]
      show ?thesis
        using page last Pair Some rec' h1 amount disj
        by (simp add: pool_take_page_def alloc_post_def region_ok_def)
    qed
  qed
qed

text \<open>An oversized request gets a block of its own.\<close>

lemma pool_inv_add_large:
  assumes inv: "pool_inv p h" and live: "h_live h b = Some n" and fresh: "b \<notin> set (pool_blocks p)"
    "alloc_block p \<noteq> Some b" and rec: "record_pool_block (large_blocks p) b h = (True, x, h')"
  shows "h_live h' b = Some n \<and> h_calls h \<le> h_calls h' \<and> h_fault h' = h_fault h \<and> h_grant h' = h_grant h
    \<and> pool_inv (p\<lparr>large_blocks := x\<rparr>) h'"
proof -
  from inv have hinv: "heap_inv h" by (simp add: pool_inv_def)
  have arr: "\<And>a. blocklist (large_blocks p) = Some a \<Longrightarrow> h_live h a \<noteq> None"
    using inv by (auto simp: pool_inv_def pool_blocks_def list_array_def)
  note h' = record_pool_block_True [OF rec hinv arr]
  let ?a = "h_calls h"
  have afresh: "?a \<notin> set (pool_blocks p)" "alloc_block p \<noteq> Some ?a" "?a \<noteq> b"
    using pool_block_live [OF inv, of ?a] hinv live by (auto simp: heap_inv_def)
  have kept: "h_live h' c = h_live h c"
    if "c \<in> set (blocks (pages p)) \<union> set (blocks (large_blocks p)) \<union> set (list_array (pages p))
      \<or> alloc_block p = Some c" for c
    using that afresh inv by (intro h'(7)) (auto simp: pool_inv_def pool_blocks_def list_array_def)
  have "blocklist (large_blocks p) \<noteq> Some b"
    using fresh by (auto simp: pool_blocks_def list_array_def)
  then have "h_live h' b = Some n"
    using h'(7) [of b] afresh(3) live by simp
  then show ?thesis
    using inv h'(1-6) fresh afresh kept
    by (auto simp: pool_inv_def pool_blocks_def list_array_def)
qed


lemma pool_large_alloc_fails:
  assumes inv: "pool_inv p h" and owns: "pool_owns p h S" and m: "heap_malloc amount h = (Some b, h1)"
    and rec: "record_pool_block (large_blocks p) b h1 = (False, x, h2)"
  shows "alloc_post p h S amount (Ok None, p\<lparr>large_blocks := x\<rparr>, heap_free (Some b) h2)"
proof -
  from inv have hinv: "heap_inv h" by (simp add: pool_inv_def)
  note h1 = heap_malloc_Some [OF m hinv]
  note h2 = record_pool_block_False [OF rec h1(1)]
  define h3 where "h3 = heap_free (Some b) h2"
  have h3: "h_live h3 = h_live h" "h_calls h \<le> h_calls h3" "h_fault h3 = h_fault h"
    "h_grant h3 = h_grant h" "heap_inv h3"
    using h1 h2 by (auto simp: h3_def heap_free_def heap_inv_def)
  have "pool_inv p h3"
    by (rule pool_inv_heap_cong [OF inv h3(5)]) (simp add: h3)
  moreover have "pool_owns p h3 S"
    by (rule pool_owns_step [OF owns]) (auto simp: h3)
  ultimately show ?thesis
    using h2(1) h3 by (simp add: alloc_post_def flip: h3_def)
qed

lemma pool_large_alloc_ok:
  assumes inv: "pool_inv p h" and owns: "pool_owns p h S" and m: "heap_malloc amount h = (Some b, h1)"
    and rec: "record_pool_block (large_blocks p) b h1 = (True, x, h2)"
  shows "alloc_post p h S amount (Ok (Some (b, 0)), p\<lparr>large_blocks := x\<rparr>, h2)"
proof -
  from inv have hinv: "heap_inv h" by (simp add: pool_inv_def)
  note h1 = heap_malloc_Some [OF m hinv]
  have fresh: "b \<notin> set (pool_blocks p)" "alloc_block p \<noteq> Some b"
    using pool_block_live [OF inv, of b] h1(3) by auto
  have inv1: "pool_inv p h1"
    by (rule pool_inv_heap_cong [OF inv h1(1)]) (use fresh h1(4) in auto)
  have live: "h_live h1 b = Some amount" using h1(4) by simp
  note large = pool_inv_add_large [OF inv1 live fresh rec]
  have arr: "\<And>a. blocklist (large_blocks p) = Some a \<Longrightarrow> h_live h1 a \<noteq> None"
    using inv1 by (auto simp: pool_inv_def pool_blocks_def list_array_def)
  note h2 = record_pool_block_True [OF rec h1(1) arr]
  have owns2: "pool_owns (p\<lparr>large_blocks := x\<rparr>) h2 S"
    by (rule pool_owns_step [OF owns])
      (use h1 h2 in \<open>auto simp: pool_arrays_def list_array_def\<close>)
  have "b \<notin> pool_arrays (p\<lparr>large_blocks := x\<rparr>)"
    using fresh(1) h2(1) h1(2,5) by (auto simp: pool_arrays_def list_array_def pool_blocks_def)
  moreover have "b \<notin> set (drop (next_page p) (blocks (pages p)))"
    using fresh(1) set_drop_subset [of "next_page p" "blocks (pages p)"] by (auto simp: pool_blocks_def)
  ultimately have "pool_owns (p\<lparr>large_blocks := x\<rparr>) h2 (insert (b, 0, amount) S)"
    using large fresh(2) by (intro pool_owns_insert owns2 h2(2)) (auto simp: region_ok_def)
  moreover have "\<forall>y \<in> S. disjoint_regions (b, 0, amount) y"
    using owns h1(2) by (auto simp: pool_owns_def disjoint_regions_def)
  ultimately show ?thesis
    using large h1 by (simp add: alloc_post_def region_ok_def)
qed

lemma alloc_post_large:
  assumes inv: "pool_inv p h" and owns: "pool_owns p h S" and n: "n \<noteq> 0"
    and big: "pagesize p < round_up8 n"
  shows "alloc_post p h S (round_up8 n) (amqp_pool_alloc n (p, h))"
proof (cases "heap_malloc (round_up8 n) h")
  case (Pair r h1)
  show ?thesis
  proof (cases r)
    case None
    from inv have "heap_inv h" by (simp add: pool_inv_def)
    note h1 = heap_malloc_None [OF Pair [unfolded None] this]
    have "pool_inv p h1" by (rule pool_inv_heap_cong [OF inv h1(1)]) (simp add: h1)
    moreover have "pool_owns p h1 S" by (rule pool_owns_step [OF owns]) (auto simp: h1)
    ultimately show ?thesis
      using n big Pair None h1 by (simp add: amqp_pool_alloc_def alloc_post_def)
  next
    case (Some b)
    with Pair have m: "heap_malloc (round_up8 n) h = (Some b, h1)" by simp
    obtain ok x h2 where rec: "record_pool_block (large_blocks p) b h1 = (ok, x, h2)"
      by (metis surj_pair)
    show ?thesis
      using pool_large_alloc_ok [OF inv owns m] pool_large_alloc_fails [OF inv owns m] rec n big m
      by (cases ok) (simp_all add: amqp_pool_alloc_def)
  qed
qed

lemma alloc_post_current_page:
  assumes inv: "pool_inv p h" and owns: "pool_owns p h S" and cur: "alloc_block p = Some b"
    and fits: "alloc_used p + amount \<le> pagesize p" and amount: "8 dvd amount"
  shows "alloc_post p h S amount
    (Ok (Some (b, alloc_used p)), p\<lparr>alloc_used := alloc_used p + amount\<rparr>, h)"
proof -
  let ?p = "p\<lparr>alloc_used := alloc_used p + amount\<rparr>"
  have "pool_owns ?p h S"
    using owns by (fastforce simp: pool_owns_def)
  moreover have "region_ok h (b, alloc_used p, amount)" "heap_inv h" "b \<notin> pool_arrays ?p"
    "b \<notin> set (drop (next_page ?p) (blocks (pages ?p)))"
    using inv cur fits by (auto simp: pool_inv_def region_ok_def pool_arrays_def)
  ultimately have "pool_owns ?p h (insert (b, alloc_used p, amount) S)"
    by (intro pool_owns_insert) auto
  moreover have "pool_inv ?p h"
    using inv fits amount by (auto simp: pool_inv_def pool_blocks_def)
  moreover have "\<forall>x \<in> S. disjoint_regions (b, alloc_used p, amount) x"
    using owns cur by (auto simp: pool_owns_def disjoint_regions_def)
  ultimately show ?thesis
    using \<open>region_ok h (b, alloc_used p, amount)\<close> by (simp add: alloc_post_def)
qed

lemma round_up8_dvd [simp]: "8 dvd round_up8 n"
  by (simp add: round_up8_def)

lemma round_up8_bounds:
  assumes "n + 7 < 2 ^ 64"
  shows "n \<le> round_up8 n" and "round_up8 n < n + 8"
  using assms by (simp_all add: round_up8_def)

lemma alloc_post_take_page:
  assumes "pool_inv p h" and "pool_owns p h S" and "amount \<le> pagesize p" and "8 dvd amount"
  shows "alloc_post p h S amount (pool_take_page amount (p, h))"
  using assms alloc_post_reuse_page alloc_post_new_page by (meson not_le)

theorem amqp_pool_alloc_post:
  assumes inv: "pool_inv p h" and owns: "pool_owns p h S" and n: "n \<noteq> 0"
  shows "alloc_post p h S (round_up8 n) (amqp_pool_alloc n (p, h))"
proof (cases "pagesize p < round_up8 n")
  case True
  then show ?thesis by (rule alloc_post_large [OF inv owns n])
next
  case False
  then have small: "round_up8 n \<le> pagesize p" by simp
  note page = alloc_post_take_page [OF inv owns small round_up8_dvd]
  from inv have used: "alloc_used p \<le> pagesize p" "pagesize p \<le> ptrdiff_max"
    by (simp_all add: pool_inv_def)
  then have add: "size_add (alloc_used p) (round_up8 n) = alloc_used p + round_up8 n"
    using small by (intro size_add_small) (simp add: ptrdiff_max_def)
  show ?thesis
  proof (cases "alloc_block p")
    case None
    then show ?thesis using page n False by (simp add: amqp_pool_alloc_def)
  next
    case (Some b)
    then show ?thesis
      using page n False add used alloc_post_current_page [OF inv owns Some _ round_up8_dvd, of n]
      by (auto simp: amqp_pool_alloc_def Let_def)
  qed
qed

text \<open>
  Blocks that are neither the pool's nor fresh are not affected by an allocation: \<open>foreign p h B\<close>
  says that the blocks \<open>B\<close> are live and none of them belongs to the pool.
\<close>

definition foreign :: "amqp_pool_t \<Rightarrow> heap \<Rightarrow> nat set \<Rightarrow> bool" where
  "foreign p h B \<longleftrightarrow> (\<forall>b \<in> B. h_live h b \<noteq> None \<and> b \<notin> set (pool_blocks p) \<and> alloc_block p \<noteq> Some b)"

definition pool_step :: "amqp_pool_t \<Rightarrow> heap \<Rightarrow> amqp_pool_t \<Rightarrow> heap \<Rightarrow> bool" where
  "pool_step p h p' h' \<longleftrightarrow>
     (\<forall>b. b < h_calls h \<longrightarrow> b \<notin> set (pool_blocks p) \<longrightarrow> alloc_block p \<noteq> Some b \<longrightarrow>
        h_live h' b = h_live h b \<and> b \<notin> set (pool_blocks p') \<and> alloc_block p' \<noteq> Some b)"

lemma pool_step_foreign: "pool_step p h p' h' \<Longrightarrow> heap_inv h \<Longrightarrow> foreign p h B \<Longrightarrow> foreign p' h' B"
  unfolding pool_step_def foreign_def heap_inv_def by (metis not_le)

lemma pool_step_record:
  assumes inv: "pool_inv p h" and m: "heap_malloc n h = (Some b, h1)"
    and rec: "record_pool_block x b h1 = (ok, x', h2)" and x: "x = pages p \<or> x = large_blocks p"
    and c: "c < h_calls h" "c \<notin> set (pool_blocks p)"
  shows "h_live h2 c = h_live h c" and "c \<noteq> b" and "c \<notin> set (blocks x')" and "c \<notin> set (list_array x')"
proof -
  from inv have hinv: "heap_inv h" by (simp add: pool_inv_def)
  note h1 = heap_malloc_Some [OF m hinv]
  show "c \<noteq> b" using c h1(2) by simp
  have arr: "h_live h1 a \<noteq> None" if "blocklist x = Some a" for a
    using that x pool_block_live [OF inv, of a] h1(4) by (auto simp: pool_blocks_def list_array_def)
  have cx: "c \<notin> set (blocks x)" "blocklist x \<noteq> Some c"
    using c x by (auto simp: pool_blocks_def list_array_def)
  have "h_live h2 c = h_live h c \<and> c \<notin> set (blocks x') \<and> c \<notin> set (list_array x')"
  proof (cases ok)
    case True
    with rec have "record_pool_block x b h1 = (True, x', h2)" by simp
    note h2 = record_pool_block_True [OF this h1(1) arr]
    show ?thesis
      using h2(1) h2(7) [of c] h1 cx c by (auto simp: list_array_def)
  next
    case False
    with rec have "record_pool_block x b h1 = (False, x', h2)" by simp
    note h2 = record_pool_block_False [OF this h1(1)]
    show ?thesis
      using h2 h1 cx c by (auto simp: list_array_def split: option.splits)
  qed
  then show "h_live h2 c = h_live h c" "c \<notin> set (blocks x')" "c \<notin> set (list_array x')" by simp_all
qed

lemma pool_step_take_page:
  assumes inv: "pool_inv p h" and run: "pool_take_page amount (p, h) = (r, p', h')"
  shows "pool_step p h p' h'"
proof (cases "next_page p < num_blocks (pages p)")
  case True
  then have "blocks (pages p) ! next_page p \<in> set (pool_blocks p)" by (simp add: pool_blocks_def)
  with True run show ?thesis
    by (auto simp: pool_step_def pool_take_page_def Let_def pool_blocks_def)
next
  case False
  from inv have hinv: "heap_inv h" by (simp add: pool_inv_def)
  show ?thesis
  proof (cases "fst (heap_malloc (pagesize p) h)")
    case None
    then obtain h1 where m: "heap_malloc (pagesize p) h = (None, h1)" by (metis prod.collapse)
    with False run heap_malloc_None [OF m hinv] show ?thesis
      by (auto simp: pool_step_def pool_take_page_def pool_blocks_def)
  next
    case (Some b)
    then obtain h1 where m: "heap_malloc (pagesize p) h = (Some b, h1)" by (metis prod.collapse)
    obtain ok x h2 where rec: "record_pool_block (pages p) b h1 = (ok, x, h2)" by (metis surj_pair)
    note step = pool_step_record [OF inv m rec disjI1 [OF refl]]
    have "h' = h2" "pages p' = x" "large_blocks p' = large_blocks p" "alloc_block p' = Some b"
      using False run m rec by (auto simp: pool_take_page_def split: bool.splits)
    with step show ?thesis by (auto simp: pool_step_def pool_blocks_def)
  qed
qed

lemma pool_step_alloc:
  assumes inv: "pool_inv p h" and run: "amqp_pool_alloc n (p, h) = (r, p', h')"
  shows "pool_step p h p' h'"
proof (cases "n \<noteq> 0 \<and> pagesize p < round_up8 n")
  case True
  from inv have hinv: "heap_inv h" by (simp add: pool_inv_def)
  show ?thesis
  proof (cases "fst (heap_malloc (round_up8 n) h)")
    case None
    then obtain h1 where m: "heap_malloc (round_up8 n) h = (None, h1)" by (metis prod.collapse)
    with True run heap_malloc_None [OF m hinv] show ?thesis
      by (auto simp: pool_step_def amqp_pool_alloc_def)
  next
    case (Some b)
    then obtain h1 where m: "heap_malloc (round_up8 n) h = (Some b, h1)" by (metis prod.collapse)
    obtain ok x h2 where rec: "record_pool_block (large_blocks p) b h1 = (ok, x, h2)" by (metis surj_pair)
    note step = pool_step_record [OF inv m rec disjI2 [OF refl]]
    have "p' = p\<lparr>large_blocks := x\<rparr>" "h' = h2 \<or> h' = heap_free (Some b) h2"
      using True run m rec by (auto simp: amqp_pool_alloc_def split: bool.splits)
    with step show ?thesis
      by (auto simp: pool_step_def pool_blocks_def heap_free_def)
  qed
next
  case False
  have "pool_step p h p' h'" if "p' = p\<lparr>alloc_used := k\<rparr>" "h' = h" for k
    using that by (simp add: pool_step_def pool_blocks_def)
  moreover have "pool_step p h p h" by (simp add: pool_step_def)
  ultimately show ?thesis
    using False run pool_step_take_page [OF inv]
    by (auto simp: amqp_pool_alloc_def Let_def split: option.splits if_splits)
qed

text \<open>
  A client's sequence of requests: the regions of the non-empty requests that were served, in order.
\<close>

fun alloc_all :: "nat list \<Rightarrow> (pool_state, region list) prog" where
  "alloc_all [] = ret []"
| "alloc_all (n # ns) =
     bindP (amqp_pool_alloc n) (\<lambda>r. bindP (alloc_all ns) (\<lambda>rs.
       ret (case r of None \<Rightarrow> rs | Some (b, a) \<Rightarrow> (b, a, n) # rs)))"

lemma disjoint_regions_mono:
  "disjoint_regions (b, a, n) x \<Longrightarrow> m \<le> n \<Longrightarrow> disjoint_regions (b, a, m) x"
  "disjoint_regions x (b, a, n) \<Longrightarrow> m \<le> n \<Longrightarrow> disjoint_regions x (b, a, m)"
  by (cases x; auto simp: disjoint_regions_def)+

lemma pool_owns_shrink:
  "pool_owns p h (insert (b, a, n) S) \<Longrightarrow> m \<le> n \<Longrightarrow> pool_owns p h (insert (b, a, m) S)"
  by (auto simp: pool_owns_def region_ok_def)

text \<open>One request, stated with the size the client asked for.\<close>

lemma amqp_pool_alloc_cases:
  assumes inv: "pool_inv p h" and owns: "pool_owns p h S" and n: "n \<le> ptrdiff_max"
  obtains (refused) p' h' where "amqp_pool_alloc n (p, h) = (Ok None, p', h')" "pool_inv p' h'"
      "pool_owns p' h' S" "h_fault h' = h_fault h"
  | (served) b a p' h' where "amqp_pool_alloc n (p, h) = (Ok (Some (b, a)), p', h')" "pool_inv p' h'"
      "pool_owns p' h' (insert (b, a, n) S)" "h_fault h' = h_fault h" "region_ok h' (b, a, n)"
      "\<forall>x \<in> S. disjoint_regions (b, a, n) x"
proof (cases "n = 0")
  case True
  then have "amqp_pool_alloc n (p, h) = (Ok None, p, h)" by (simp add: amqp_pool_alloc_def)
  with inv owns show ?thesis by (blast intro: refused)
next
  case False
  from n have le: "n \<le> round_up8 n"
    by (intro round_up8_bounds) (simp add: ptrdiff_max_def)
  obtain r p' h' where run: "amqp_pool_alloc n (p, h) = (r, p', h')"
    by (metis surj_pair)
  note post = amqp_pool_alloc_post [OF inv owns False, unfolded run alloc_post_def prod.case]
  then have common: "pool_inv p' h'" "h_fault h' = h_fault h" by simp_all
  from post consider "r = Ok None" "pool_owns p' h' S"
    | b a where "r = Ok (Some (b, a))" "region_ok h' (b, a, round_up8 n)"
      "\<forall>x \<in> S. disjoint_regions (b, a, round_up8 n) x"
      "pool_owns p' h' (insert (b, a, round_up8 n) S)"
    by blast
  then show ?thesis
  proof cases
    case 1
    then show ?thesis using refused run common by blast
  next
    case 2
    then have "region_ok h' (b, a, n)" "\<forall>x \<in> S. disjoint_regions (b, a, n) x"
      "pool_owns p' h' (insert (b, a, n) S)"
      using le disjoint_regions_mono(1) pool_owns_shrink by (auto simp: region_ok_def)
    then show ?thesis using served run common 2(1) by blast
  qed
qed

definition pairwise_disjoint :: "region list \<Rightarrow> bool" where
  "pairwise_disjoint rs \<longleftrightarrow> sorted_wrt disjoint_regions rs"

lemma disjoint_regions_sym: "disjoint_regions x y \<Longrightarrow> disjoint_regions y x"
  by (auto simp: disjoint_regions_def split: prod.splits)

lemma alloc_all_post:
  assumes "pool_inv p h" and "pool_owns p h S" and "\<forall>n \<in> set ns. n \<le> ptrdiff_max"
  shows "\<exists>rs p' h'. alloc_all ns (p, h) = (Ok rs, p', h') \<and> pool_inv p' h'
    \<and> pool_owns p' h' (S \<union> set rs) \<and> h_fault h' = h_fault h \<and> pairwise_disjoint rs
    \<and> (\<forall>r \<in> set rs. \<forall>x \<in> S. disjoint_regions x r)"
  using assms
proof (induction ns arbitrary: p h S)
  case Nil
  then show ?case by (auto simp: outcome_simps pairwise_disjoint_def)
next
  case (Cons n ns)
  from Cons.prems have n: "n \<le> ptrdiff_max" by simp
  from Cons.prems(1,2) n show ?case
  proof (cases rule: amqp_pool_alloc_cases)
    case (refused p' h')
    with Cons.IH [OF refused(2,3)] Cons.prems(3) show ?thesis
      by (auto simp: outcome_simps)
  next
    case (served b a p' h')
    obtain rs p'' h'' where run: "alloc_all ns (p', h') = (Ok rs, p'', h'')" "pool_inv p'' h''"
      "pool_owns p'' h'' (insert (b, a, n) S \<union> set rs)" "h_fault h'' = h_fault h'"
      "pairwise_disjoint rs" "\<forall>r \<in> set rs. \<forall>x \<in> insert (b, a, n) S. disjoint_regions x r"
      using Cons.IH [OF served(2,3)] Cons.prems(3) by auto
    with served show ?thesis
      by (auto simp: outcome_simps pairwise_disjoint_def dest: disjoint_regions_sym)
  qed
qed

lemma pool_inv_init:
  "heap_inv h \<Longrightarrow> ps \<le> ptrdiff_max \<Longrightarrow> pool_inv (init_amqp_pool ps) h"
  by (auto simp: pool_inv_def init_amqp_pool_def pool_blocks_def list_array_def empty_blocks_def ptrdiff_max_def)

lemma pool_owns_empty [simp]: "pool_owns p h {}"
  by (simp add: pool_owns_def)

text \<open>
  C6: for every sequence of requests to a fresh pool, and whatever requests the C library refuses,
  the pool's assertion never fails, no block is freed twice, the regions handed out lie inside live
  blocks at 8-byte aligned offsets, and no two of them overlap.
\<close>

theorem amqp_pool_alloc_disjoint:
  assumes "heap_inv h" and "ps \<le> ptrdiff_max" and "\<forall>n \<in> set ns. n \<le> ptrdiff_max"
  shows "\<exists>rs p' h'. alloc_all ns (init_amqp_pool ps, h) = (Ok rs, p', h') \<and> pool_inv p' h'
    \<and> h_fault h' = h_fault h \<and> (\<forall>r \<in> set rs. region_ok h' r) \<and> pairwise_disjoint rs"
proof -
  from assms(1,2) have "pool_inv (init_amqp_pool ps) h" by (rule pool_inv_init)
  from alloc_all_post [OF this pool_owns_empty assms(3)] show ?thesis
    by (fastforce simp: pool_owns_def)
qed

text \<open>A heap that serves every request, and one that has served nothing yet.\<close>

definition generous :: "heap \<Rightarrow> bool" where
  "generous h \<longleftrightarrow> (\<forall>i n. h_grant h i n)"

definition fresh_heap :: heap where
  "fresh_heap = \<lparr>h_live = Map.empty, h_calls = 0, h_grant = (\<lambda>i n. True), h_fault = False\<rparr>"

lemma fresh_heap_inv [simp]: "heap_inv fresh_heap" "generous fresh_heap"
  by (simp_all add: fresh_heap_def heap_inv_def generous_def)

theorem amqp_pool_alloc_disjoint_witness:
  "\<exists>rs p' h'. alloc_all [5, 70, 3] (init_amqp_pool 64, fresh_heap) = (Ok rs, p', h') \<and> pool_inv p' h'
    \<and> h_fault h' = h_fault fresh_heap \<and> (\<forall>r \<in> set rs. region_ok h' r) \<and> pairwise_disjoint rs"
  by (rule amqp_pool_alloc_disjoint) (simp_all add: ptrdiff_max_def)

lemma generous_malloc: "generous h \<Longrightarrow> \<exists>a h'. heap_malloc n h = (Some a, h')"
  by (simp add: heap_malloc_def generous_def Let_def)

lemma generous_record:
  assumes "generous h" shows "\<exists>x' h'. record_pool_block x b h = (True, x', h')"
  using assms by (auto simp: record_pool_block_def heap_realloc_def heap_malloc_def generous_def Let_def
      split: option.splits)

lemma heap_malloc_grant: "heap_malloc n h = (r, h') \<Longrightarrow> h_grant h' = h_grant h"
  by (auto simp: heap_malloc_def Let_def split: if_splits)

lemma generous_take_page:
  assumes "generous h" shows "\<exists>q s'. pool_take_page amount (p, h) = (Ok (Some q), s')"
proof -
  obtain b h1 where m: "heap_malloc (pagesize p) h = (Some b, h1)"
    using generous_malloc [OF assms] by blast
  with assms have "generous h1" by (auto simp: generous_def heap_malloc_grant)
  then obtain x h2 where "record_pool_block (pages p) b h1 = (True, x, h2)"
    using generous_record by blast
  with m show ?thesis by (simp add: pool_take_page_def Let_def)
qed

text \<open>When the C library serves every request, the pool serves every non-empty request.\<close>

lemma generous_pool_alloc:
  assumes inv: "pool_inv p h" and g: "generous h" and n: "n \<noteq> 0"
  obtains q p' h' where "amqp_pool_alloc n (p, h) = (Ok (Some q), p', h')" "pool_inv p' h'" "generous h'"
proof -
  obtain b h1 where m: "heap_malloc (round_up8 n) h = (Some b, h1)"
    using generous_malloc [OF g] by blast
  with g have "generous h1" by (auto simp: generous_def heap_malloc_grant)
  then obtain x h2 where r: "record_pool_block (large_blocks p) b h1 = (True, x, h2)"
    using generous_record by blast
  obtain q s' where page: "pool_take_page (round_up8 n) (p, h) = (Ok (Some q), s')"
    using generous_take_page [OF g] by blast
  from inv have "\<not> pagesize p < alloc_used p" by (simp add: pool_inv_def)
  then have "\<exists>q s'. amqp_pool_alloc n (p, h) = (Ok (Some q), s')"
    using m r n page by (auto simp: amqp_pool_alloc_def Let_def split: option.splits)
  then obtain q p' h' where run: "amqp_pool_alloc n (p, h) = (Ok (Some q), p', h')"
    by (metis surj_pair)
  from amqp_pool_alloc_post [OF inv pool_owns_empty n, unfolded run] g
  have "pool_inv p' h'" "generous h'"
    by (auto simp: alloc_post_def generous_def)
  with run that show ?thesis by blast
qed

section \<open>Recycling and emptying a pool\<close>

lemma fold_heap_free:
  assumes "distinct bs" and "\<forall>b \<in> set bs. h_live h b \<noteq> None"
  shows "fold (\<lambda>b. heap_free (Some b)) bs h = h\<lparr>h_live := h_live h |` (- set bs)\<rparr>"
  using assms
proof (induction bs arbitrary: h)
  case (Cons b bs)
  let ?h = "h\<lparr>h_live := (h_live h)(b := None)\<rparr>"
  have "fold (\<lambda>b. heap_free (Some b)) (b # bs) h = fold (\<lambda>b. heap_free (Some b)) bs ?h"
    using Cons.prems(2) by (auto simp: heap_free_def)
  also have "\<dots> = ?h\<lparr>h_live := h_live ?h |` (- set bs)\<rparr>"
    by (rule Cons.IH) (use Cons.prems in auto)
  also have "h_live ?h |` (- set bs) = h_live h |` (- set (b # bs))"
    by (auto simp: restrict_map_def fun_eq_iff)
  finally show ?case by simp
qed (simp add: restrict_map_def)

lemma empty_blocklist_frees:
  assumes "distinct (blocks x @ list_array x)" and "\<forall>b \<in> set (blocks x @ list_array x). h_live h b \<noteq> None"
    and "blocklist x = None \<Longrightarrow> blocks x = []"
  shows "empty_blocklist x h =
    (empty_blocks, h\<lparr>h_live := h_live h |` (- (set (blocks x) \<union> set (list_array x)))\<rparr>)"
proof (cases "blocklist x")
  case None
  with assms(3) show ?thesis by (simp add: empty_blocklist_def list_array_def restrict_map_def)
next
  case (Some a)
  have "h_live h |` (- set (blocks x)) |` (- {a}) = h_live h |` (- (set (blocks x) \<union> {a}))"
    by (auto simp: restrict_map_def)
  moreover have "(h_live h |` (- set (blocks x)))(a := None) = h_live h |` (- set (blocks x)) |` (- {a})"
    by (auto simp: restrict_map_def)
  ultimately show ?thesis
    using assms Some fold_heap_free [of "blocks x" h]
    by (auto simp: empty_blocklist_def list_array_def heap_free_def)
qed

lemma recycle_amqp_pool_frees:
  assumes "pool_inv p h"
  shows "recycle_amqp_pool p h =
    (p\<lparr>large_blocks := empty_blocks, next_page := 0, alloc_block := None, alloc_used := 0\<rparr>,
     h\<lparr>h_live := h_live h |` (- (set (blocks (large_blocks p)) \<union> set (list_array (large_blocks p))))\<rparr>)"
proof -
  have "empty_blocklist (large_blocks p) h = (empty_blocks,
      h\<lparr>h_live := h_live h |` (- (set (blocks (large_blocks p)) \<union> set (list_array (large_blocks p))))\<rparr>)"
    by (rule empty_blocklist_frees) (use assms in \<open>auto simp: pool_inv_def pool_blocks_def\<close>)
  then show ?thesis by (simp add: recycle_amqp_pool_def)
qed

lemma recycle_keeps_inv:
  assumes "pool_inv p h" and "recycle_amqp_pool p h = (p', h')"
  shows "pool_inv p' h'" and "pages p' = pages p" and "large_blocks p' = empty_blocks" and "h_fault h' = h_fault h"
    and "alloc_block p' = None" and "h_calls h' = h_calls h"
    and "h_live h' = h_live h |` (- (set (blocks (large_blocks p)) \<union> set (list_array (large_blocks p))))"
  using assms recycle_amqp_pool_frees [OF assms(1)]
  by (auto simp: pool_inv_def pool_blocks_def heap_inv_def restrict_map_def list_array_def empty_blocks_def)

text \<open>
  C22: recycling keeps the invariant and the recorded pages, and frees the oversized blocks and the
  array that recorded them, each exactly once and nothing else.
\<close>

theorem recycle_amqp_pool_inv:
  assumes "pool_inv p h" and "recycle_amqp_pool p h = (p', h')"
  shows "pool_inv p' h' \<and> pages p' = pages p \<and> large_blocks p' = empty_blocks \<and> h_fault h' = h_fault h
    \<and> h_live h' = h_live h |` (- (set (blocks (large_blocks p)) \<union> set (list_array (large_blocks p))))"
  using recycle_keeps_inv [OF assms] by simp

lemma small_pool_inv: "pool_inv (init_amqp_pool 64) fresh_heap"
  by (rule pool_inv_init) (simp_all add: ptrdiff_max_def)

theorem recycle_amqp_pool_inv_witness:
  "pool_inv (fst (recycle_amqp_pool (init_amqp_pool 64) fresh_heap))
    (snd (recycle_amqp_pool (init_amqp_pool 64) fresh_heap))"
  using recycle_amqp_pool_inv [OF small_pool_inv prod.collapse [symmetric]] by simp

lemma empty_pool_exact:
  assumes inv: "pool_inv p h" and run: "empty_amqp_pool p h = (p', h')"
  shows "pool_inv p' h'" and "pool_blocks p' = []" and "h_fault h' = h_fault h" and "h_calls h' = h_calls h"
    and "h_live h' = h_live h |` (- set (pool_blocks p))"
proof -
  obtain p1 h1 where rec: "recycle_amqp_pool p h = (p1, h1)" by fastforce
  note r = recycle_keeps_inv [OF inv rec]
  have "empty_blocklist (pages p1) h1 = (empty_blocks,
      h1\<lparr>h_live := h_live h1 |` (- (set (blocks (pages p1)) \<union> set (list_array (pages p1))))\<rparr>)"
    by (intro empty_blocklist_frees) (use r(1) in \<open>auto simp: pool_inv_def pool_blocks_def\<close>)
  then have p': "p' = p1\<lparr>pages := empty_blocks\<rparr>"
    and h': "h' = h1\<lparr>h_live := h_live h1 |` (- (set (blocks (pages p)) \<union> set (list_array (pages p))))\<rparr>"
    using run rec r by (auto simp: empty_amqp_pool_def)
  show "h_live h' = h_live h |` (- set (pool_blocks p))"
    using h' r by (auto simp: pool_blocks_def restrict_map_def fun_eq_iff)
  show "pool_blocks p' = []" using p' r by (simp add: pool_blocks_def list_array_def empty_blocks_def)
  show "h_fault h' = h_fault h" "h_calls h' = h_calls h" using h' r by simp_all
  have np: "next_page p1 = 0"
    using recycle_amqp_pool_frees [OF inv] rec by auto
  show "pool_inv p' h'"
    using p' h' r np by (auto simp: pool_inv_def pool_blocks_def heap_inv_def list_array_def empty_blocks_def restrict_map_def)
qed

text \<open>
  C21: emptying a pool frees every block the pool recorded exactly once (no fault is raised) and
  touches no other block, and leaves an empty pool.
\<close>

theorem empty_amqp_pool_frees_all:
  assumes "pool_inv p h" and "empty_amqp_pool p h = (p', h')"
  shows "pool_inv p' h' \<and> pool_blocks p' = [] \<and> h_fault h' = h_fault h
    \<and> h_live h' = h_live h |` (- set (pool_blocks p))"
  using empty_pool_exact [OF assms] by simp

theorem empty_amqp_pool_frees_all_witness:
  "h_live (snd (empty_amqp_pool (init_amqp_pool 64) fresh_heap)) =
    h_live fresh_heap |` (- set (pool_blocks (init_amqp_pool 64)))"
  using empty_amqp_pool_frees_all [OF small_pool_inv prod.collapse [symmetric]] by simp

definition second_refused :: heap where
  "second_refused = \<lparr>h_live = Map.empty, h_calls = 0, h_grant = (\<lambda>i n. i \<noteq> 1), h_fault = False\<rparr>"

text \<open>
  the page obtained when the page list cannot grow is used by the next request but is in no
  list: emptying the pool leaves it allocated. Here the second request to the C library (the page
  list) fails and all others succeed.
\<close>

theorem amqp_pool_unrecorded_page_leaks:
  "\<exists>p1 h1 p2 h2 p3 h3. amqp_pool_alloc 8 (init_amqp_pool 64, second_refused) = (Ok None, p1, h1)
     \<and> amqp_pool_alloc 8 (p1, h1) = (Ok (Some (0, 0)), p2, h2)
     \<and> empty_amqp_pool p2 h2 = (p3, h3) \<and> pool_blocks p3 = [] \<and> alloc_block p3 = None
     \<and> h_live h3 0 = Some 64"
  by (simp add: amqp_pool_alloc_def init_amqp_pool_def second_refused_def round_up8_def
      pool_take_page_def empty_amqp_pool_def recycle_amqp_pool_def empty_blocklist_def
      pool_blocks_def list_array_def mem_simps)

section \<open>The pool table as a map from channels to pools\<close>

text \<open>
  The contract the rest of the library relies on: \<open>look\<close> finds the pool of a channel, \<open>make\<close> finds
  or creates it, \<open>put\<close> stands for a write through the pool's pointer. The client lemmas follow from
  the laws alone.
\<close>

locale channel_pools =
  fixes inv :: "'t \<Rightarrow> bool"
    and look :: "'t \<Rightarrow> 'c \<Rightarrow> 'p option"
    and make :: "'c \<Rightarrow> 't \<Rightarrow> 'h \<Rightarrow> 'p option \<times> 't \<times> 'h"
    and put :: "'t \<Rightarrow> 'c \<Rightarrow> 'p \<Rightarrow> 't"
    and new :: 'p
  assumes make_inv: "inv t \<Longrightarrow> make c t h = (r, t', h') \<Longrightarrow> inv t'"
    and make_found: "look t c = Some p \<Longrightarrow> make c t h = (Some p, t, h)"
    and make_new: "inv t \<Longrightarrow> look t c = None \<Longrightarrow> make c t h = (r, t', h') \<Longrightarrow>
        (r = None \<and> t' = t) \<or> (r = Some new \<and> look t' = (look t)(c \<mapsto> new))"
    and put_inv: "inv t \<Longrightarrow> inv (put t c p)"
    and put_look: "inv t \<Longrightarrow> look t c \<noteq> None \<Longrightarrow> look (put t c p) = (look t)(c \<mapsto> p)"
begin

text \<open>A pool that \<open>make\<close> returned is the one found afterwards, by \<open>look\<close> or by \<open>make\<close> again.\<close>

lemma look_after_make:
  assumes "inv t" and "make c t h = (Some p, t', h')"
  shows "look t' c = Some p" and "make c t' h'' = (Some p, t', h'')"
proof -
  show *: "look t' c = Some p"
  proof (cases "look t c")
    case None
    from make_new [OF assms(1) None assms(2)] show ?thesis by auto
  next
    case (Some q)
    with make_found [OF Some, of h] assms(2) show ?thesis by simp
  qed
  show "make c t' h'' = (Some p, t', h'')"
    by (rule make_found [OF *])
qed

text \<open>Work on one channel's pool never changes another channel's.\<close>

lemma make_other:
  assumes "inv t" and "make c t h = (r, t', h')" and "d \<noteq> c"
  shows "look t' d = look t d"
  using assms make_found make_new [OF assms(1) _ assms(2)] by (cases "look t c") auto

lemma make_put:
  assumes "inv t" and "make c t h = (Some p, t', h')"
  shows "look (put t' c q) = (look t)(c \<mapsto> q)"
proof -
  note found = look_after_make(1) [OF assms]
  have inv': "inv t'" by (rule make_inv [OF assms])
  have "look t' d = look t d" if "d \<noteq> c" for d by (rule make_other [OF assms that])
  then have "(look t')(c \<mapsto> q) = (look t)(c \<mapsto> q)" by auto
  then show ?thesis using put_look [OF inv'] found by simp
qed

end

definition table_inv :: "pool_table \<Rightarrow> bool" where
  "table_inv table \<longleftrightarrow> length table = POOL_TABLE_SIZE
     \<and> (\<forall>i < POOL_TABLE_SIZE. \<forall>e \<in> set (table ! i). pool_index (entry_channel e) = i)"

lemma pool_index_less: "pool_index c < POOL_TABLE_SIZE"
  by (simp add: pool_index_def POOL_TABLE_SIZE_def)

lemma find_entry_None: "find_entry es c = None \<longleftrightarrow> c \<notin> entry_channel ` set es"
  by (induction es) auto

lemma find_set_entry:
  "find_entry (set_entry es c p) d =
     (if d = c \<and> find_entry es c \<noteq> None then Some p else find_entry es d)"
  by (induction es) auto

lemma set_entry_channels: "entry_channel ` set (set_entry es c p) = entry_channel ` set es"
  by (induction es) auto

lemma table_inv_update:
  assumes "table_inv t" and "\<And>e. e \<in> set es \<Longrightarrow> pool_index (entry_channel e) = i"
  shows "table_inv (t[i := es])"
  using assms by (cases "i < length t") (auto simp: table_inv_def nth_list_update split: if_splits)

lemma look_update:
  assumes "table_inv t" and "i < POOL_TABLE_SIZE"
  shows "amqp_get_channel_pool (t[i := es]) d =
    (if pool_index d = i then find_entry es d else amqp_get_channel_pool t d)"
  using assms by (auto simp: table_inv_def amqp_get_channel_pool_def)

lemma set_channel_pool_inv: "table_inv t \<Longrightarrow> table_inv (set_channel_pool t c p)"
  unfolding set_channel_pool_def
proof (rule table_inv_update)
  fix e
  assume t: "table_inv t" and "e \<in> set (set_entry (t ! pool_index c) c p)"
  then have "entry_channel e \<in> entry_channel ` set (t ! pool_index c)"
    using set_entry_channels by blast
  with t show "pool_index (entry_channel e) = pool_index c"
    using pool_index_less [of c] by (auto simp: table_inv_def)
qed

interpretation pool_table: channel_pools table_inv amqp_get_channel_pool
  "amqp_get_or_create_channel_pool fm" set_channel_pool "init_amqp_pool fm" for fm
proof
  fix t c and h h' :: heap and r t' p
  note idx = pool_index_less
  show "amqp_get_channel_pool t c = Some p \<Longrightarrow>
      amqp_get_or_create_channel_pool fm c t h = (Some p, t, h)" for h
    by (simp add: amqp_get_or_create_channel_pool_def amqp_get_channel_pool_def)
  assume t: "table_inv t"
  show "table_inv (set_channel_pool t c p)"
    by (rule set_channel_pool_inv [OF t])
  show "amqp_get_channel_pool t c \<noteq> None \<Longrightarrow>
      amqp_get_channel_pool (set_channel_pool t c p) = (amqp_get_channel_pool t)(c \<mapsto> p)"
    unfolding set_channel_pool_def
    by (rule ext, unfold look_update [OF t idx]) (auto simp: find_set_entry amqp_get_channel_pool_def)
  assume run: "amqp_get_or_create_channel_pool fm c t h = (r, t', h')"
  have "table_inv (t[pool_index c := \<lparr>entry_block = a, entry_pool = q, entry_channel = c\<rparr> # t ! pool_index c])"
    for a q
    by (rule table_inv_update [OF t]) (use t idx [of c] in \<open>auto simp: table_inv_def\<close>)
  then show "table_inv t'"
    using run t by (auto simp: amqp_get_or_create_channel_pool_def Let_def split: option.splits prod.splits)
  assume "amqp_get_channel_pool t c = None"
  then show "(r = None \<and> t' = t) \<or> (r = Some (init_amqp_pool fm) \<and>
      amqp_get_channel_pool t' = (amqp_get_channel_pool t)(c \<mapsto> init_amqp_pool fm))"
    using run t idx [of c]
    by (auto simp: amqp_get_or_create_channel_pool_def Let_def table_inv_def amqp_get_channel_pool_def fun_eq_iff
        nth_list_update split: option.splits prod.splits)
qed

text \<open>
  C20: the pool table implements a map, although channels share buckets. A channel that has a pool gets that very
  pool, and neither the table nor the heap changes; a channel that has none gets a new pool, exactly if there is memory for an
  entry, and the map changes at this channel only; otherwise the table is as it was. Writing the pool through
  the returned pointer changes the map at that channel only.
\<close>

theorem pool_table_refines_map:
  assumes "table_inv t" and "amqp_get_or_create_channel_pool fm c t h = (r, t', h')"
  shows "table_inv t'
    \<and> (case amqp_get_channel_pool t c of
         Some p \<Rightarrow> r = Some p \<and> t' = t \<and> h' = h
       | None \<Rightarrow>
           if h_grant h (h_calls h) sizeof_pool_table_entry
           then r = Some (init_amqp_pool fm) \<and> amqp_get_channel_pool t' = (amqp_get_channel_pool t)(c \<mapsto> init_amqp_pool fm)
           else r = None \<and> t' = t)
    \<and> (r \<noteq> None \<longrightarrow> amqp_get_channel_pool (set_channel_pool t' c q) = (amqp_get_channel_pool t)(c \<mapsto> q))"
proof (intro conjI impI)
  show "table_inv t'" by (rule pool_table.make_inv [OF assms])
  show "amqp_get_channel_pool (set_channel_pool t' c q) = (amqp_get_channel_pool t)(c \<mapsto> q)" if "r \<noteq> None"
    using that assms pool_table.make_put by blast
  show "case amqp_get_channel_pool t c of
         Some p \<Rightarrow> r = Some p \<and> t' = t \<and> h' = h
       | None \<Rightarrow>
           if h_grant h (h_calls h) sizeof_pool_table_entry
           then r = Some (init_amqp_pool fm) \<and> amqp_get_channel_pool t' = (amqp_get_channel_pool t)(c \<mapsto> init_amqp_pool fm)
           else r = None \<and> t' = t"
  proof (cases "amqp_get_channel_pool t c")
    case None
    have "r = None \<longleftrightarrow> \<not> h_grant h (h_calls h) sizeof_pool_table_entry"
      using None assms(2)
      by (auto simp: amqp_get_or_create_channel_pool_def amqp_get_channel_pool_def heap_malloc_def Let_def split: option.splits prod.splits if_splits)
    with pool_table.make_new [OF assms(1) None assms(2)] None show ?thesis by auto
  next
    case (Some p)
    with pool_table.make_found [OF Some, of fm h] assms(2) show ?thesis by simp
  qed
qed

definition empty_table :: pool_table where
  "empty_table = replicate POOL_TABLE_SIZE []"

lemma empty_table_inv [simp]: "table_inv empty_table"
  by (simp add: empty_table_def table_inv_def)

text \<open>The pool of a channel is created, written, and found again, as it was written.\<close>

theorem pool_table_refines_map_witness:
  "let (p, t', h') = amqp_get_or_create_channel_pool 4096 17 empty_table fresh_heap;
       t'' = set_channel_pool t' 17 (init_amqp_pool 64)
   in p = Some (init_amqp_pool 4096) \<and> amqp_get_or_create_channel_pool 4096 17 t'' h' = (Some (init_amqp_pool 64), t'', h')"
proof -
  have look: "amqp_get_channel_pool empty_table 17 = None"
    by (simp add: amqp_get_channel_pool_def empty_table_def pool_index_def POOL_TABLE_SIZE_def)
  obtain r t' h' where run: "amqp_get_or_create_channel_pool 4096 17 empty_table fresh_heap = (r, t', h')" by (metis surj_pair)
  note first = pool_table_refines_map [OF empty_table_inv run, of "init_amqp_pool 64"]
  then have r: "r = Some (init_amqp_pool 4096)" using look by (simp add: fresh_heap_def)
  let ?t = "set_channel_pool t' 17 (init_amqp_pool 64)"
  have inv: "table_inv ?t" and found: "amqp_get_channel_pool ?t 17 = Some (init_amqp_pool 64)"
    using first r pool_table.put_inv by auto
  obtain r2 t2 h2 where run2: "amqp_get_or_create_channel_pool 4096 17 ?t h' = (r2, t2, h2)" by (metis surj_pair)
  from pool_table_refines_map [OF inv run2] found run2 run r show ?thesis by simp
qed

section \<open>Byte strings\<close>

text \<open>
  \<^verbatim>\<open>amqp_bytes_t\<close>: a length and a pointer; \<open>bytes\<close> is the memory from the pointer to the end of the
  object it points into. The string is valid when the length stays inside that memory.
\<close>

record amqp_bytes_t =
  len :: nat
  bytes :: "byte list"

definition valid_bytes :: "amqp_bytes_t \<Rightarrow> bool" where
  "valid_bytes b \<longleftrightarrow> len b \<le> length (bytes b) \<and> length (bytes b) \<le> ptrdiff_max"

definition contents :: "amqp_bytes_t \<Rightarrow> byte list" where
  "contents b = take (len b) (bytes b)"

definition of_list :: "byte list \<Rightarrow> amqp_bytes_t" where
  "of_list bs = \<lparr>len = length bs, bytes = bs\<rparr>"

definition amqp_empty_bytes :: amqp_bytes_t where
  "amqp_empty_bytes = \<lparr>len = 0, bytes = []\<rparr>"

lemma contents_of_list [simp]: "contents (of_list bs) = bs" "len (of_list bs) = length bs"
  "bytes (of_list bs) = bs"
  by (simp_all add: contents_def of_list_def)

text \<open>A C string is its characters up to the terminating zero byte.\<close>

definition amqp_cstring_bytes :: "byte list \<Rightarrow> amqp_bytes_t outcome" where
  "amqp_cstring_bytes cstr =
     (if 0 \<in> set cstr then Ok \<lparr>len = length (takeWhile (\<lambda>c. c \<noteq> 0) cstr), bytes = cstr\<rparr>
      else Undefined)"

definition amqp_bytes_equal :: "amqp_bytes_t \<Rightarrow> amqp_bytes_t \<Rightarrow> bool outcome" where
  "amqp_bytes_equal r l =
     (if len r = len l then
        (case (mem_read 0 (len r) (bytes r), mem_read 0 (len r) (bytes l)) of
           (Some x, Some y) \<Rightarrow> Ok (x = y)
         | _ \<Rightarrow> Undefined)
      else Ok False)"

definition amqp_pool_alloc_bytes :: "nat \<Rightarrow> (pool_state, nat \<times> ptr option) prog" where
  "amqp_pool_alloc_bytes amount = bindP (amqp_pool_alloc amount) (\<lambda>p. ret (amount, p))"

text \<open>A duplicate is the new block, if any, with its contents.\<close>

definition amqp_bytes_malloc :: "nat \<Rightarrow> (heap, nat \<times> nat option) prog" where
  "amqp_bytes_malloc amount = (\<lambda>h. case heap_malloc amount h of (p, h') \<Rightarrow> (Ok (amount, p), h'))"

definition amqp_bytes_malloc_dup ::
  "amqp_bytes_t \<Rightarrow> (heap, nat \<times> (nat \<times> byte list) option) prog" where
  "amqp_bytes_malloc_dup src = (\<lambda>h.
     case heap_malloc (len src) h of
       (None, h') \<Rightarrow> (Ok (len src, None), h')
     | (Some a, h') \<Rightarrow>
         (case mem_read 0 (len src) (bytes src) of
            None \<Rightarrow> (Undefined, h')
          | Some bs \<Rightarrow> (Ok (len src, Some (a, bs)), h')))"

definition amqp_bytes_free :: "nat \<times> nat option \<Rightarrow> heap \<Rightarrow> heap" where
  "amqp_bytes_free b = heap_free (snd b)"

lemma amqp_bytes_equal_iff:
  "valid_bytes r \<Longrightarrow> valid_bytes l \<Longrightarrow> amqp_bytes_equal r l = Ok (contents r = contents l)"
  by (auto simp: amqp_bytes_equal_def mem_read_def contents_def valid_bytes_def
      dest: arg_cong [where f = length])

text \<open>
  On valid byte strings \<open>amqp_bytes_equal\<close> decides equality of the contents, and a duplicate
  made by \<open>amqp_bytes_malloc_dup\<close> compares equal to its source.
\<close>

lemma amqp_bytes_dup_equal:
  assumes "valid_bytes src" and "amqp_bytes_malloc_dup src h = (Ok (n, Some (a, bs)), h')"
  shows "amqp_bytes_equal src \<lparr>len = n, bytes = bs\<rparr> = Ok True"
    and "valid_bytes l \<Longrightarrow> amqp_bytes_equal src l = Ok (contents src = contents l)"
  using assms amqp_bytes_equal_iff
  by (auto simp: amqp_bytes_malloc_dup_def amqp_bytes_equal_def mem_read_def valid_bytes_def
      split: prod.splits option.splits)

end
