(* ===== verification/Amqp_Codec.thy ===== *)
theory Amqp_Codec
  imports Amqp_Mem
begin

text \<open>
  librabbitmq/amqp\_private.h: the byte-order primitives \<^verbatim>\<open>amqp_e8\<close> to \<^verbatim>\<open>amqp_d64\<close> and the bounded
  encoders and decoders that \<^verbatim>\<open>DECLARE_CODEC_BASE_TYPE\<close> declares, with \<^verbatim>\<open>amqp_encode_bytes\<close> and
  \<^verbatim>\<open>amqp_decode_bytes\<close>.

  Every codec of the library is a sequence of these primitives, so this theory also holds the two
  relations the round trips of tables, methods and properties are built from: \<open>encodes k m ws\<close> (the
  encoder \<open>m\<close> writes exactly \<open>ws\<close>, or fails when it does not fit) and \<open>reads enc m ws v\<close> (the decoder
  \<open>m\<close>, at the bytes \<open>ws\<close>, returns \<open>v\<close> and advances over them), each with its composition rules.
\<close>

section \<open>Byte order\<close>

text \<open>The object representation of an \<open>n\<close>-byte integer on a host of either byte order.\<close>

definition native_bytes :: "bool \<Rightarrow> nat \<Rightarrow> 'a::len word \<Rightarrow> byte list" where
  "native_bytes big n v =
     (let le = map (\<lambda>i. ucast (drop_bit (8 * i) v)) [0..<n] in if big then rev le else le)"

fun le_word :: "byte list \<Rightarrow> 'a::len word" where
  "le_word [] = 0"
| "le_word (b # bs) = ucast b OR push_bit 8 (le_word bs)"

definition native_word :: "bool \<Rightarrow> byte list \<Rightarrow> 'a::len word" where
  "native_word big bs = le_word (if big then rev bs else bs)"

text \<open>\<^verbatim>\<open>is_bigendian\<close> looks at the first byte of \<^verbatim>\<open>0x01020304\<close>.\<close>

definition is_bigendian :: "bool \<Rightarrow> bool" where
  "is_bigendian big = (native_bytes big 4 (0x01020304 :: uint32) ! 0 = 1)"

definition swap16 :: "uint16 \<Rightarrow> uint16" where
  "swap16 v = drop_bit 8 (v AND 0xFF00) OR push_bit 8 (v AND 0x00FF)"

definition swap32 :: "uint32 \<Rightarrow> uint32" where
  "swap32 v = drop_bit 24 (v AND 0xFF000000) OR drop_bit 8 (v AND 0x00FF0000)
    OR push_bit 8 (v AND 0x0000FF00) OR push_bit 24 (v AND 0x000000FF)"

definition swap64 :: "uint64 \<Rightarrow> uint64" where
  "swap64 v = drop_bit 56 (v AND 0xFF00000000000000) OR drop_bit 40 (v AND 0x00FF000000000000)
    OR drop_bit 24 (v AND 0x0000FF0000000000) OR drop_bit 8 (v AND 0x000000FF00000000)
    OR push_bit 8 (v AND 0x00000000FF000000) OR push_bit 24 (v AND 0x0000000000FF0000)
    OR push_bit 40 (v AND 0x000000000000FF00) OR push_bit 56 (v AND 0x00000000000000FF)"

definition amqp_e8 :: "bool \<Rightarrow> uint8 \<Rightarrow> byte list" where
  "amqp_e8 big val = native_bytes big 1 val"

definition amqp_d8 :: "bool \<Rightarrow> byte list \<Rightarrow> uint8" where
  "amqp_d8 big data = native_word big data"

definition amqp_e16 :: "bool \<Rightarrow> uint16 \<Rightarrow> byte list" where
  "amqp_e16 big val = native_bytes big 2 (if \<not> is_bigendian big then swap16 val else val)"

definition amqp_d16 :: "bool \<Rightarrow> byte list \<Rightarrow> uint16" where
  "amqp_d16 big data = (let val = native_word big data in if \<not> is_bigendian big then swap16 val else val)"

definition amqp_e32 :: "bool \<Rightarrow> uint32 \<Rightarrow> byte list" where
  "amqp_e32 big val = native_bytes big 4 (if \<not> is_bigendian big then swap32 val else val)"

definition amqp_d32 :: "bool \<Rightarrow> byte list \<Rightarrow> uint32" where
  "amqp_d32 big data = (let val = native_word big data in if \<not> is_bigendian big then swap32 val else val)"

definition amqp_e64 :: "bool \<Rightarrow> uint64 \<Rightarrow> byte list" where
  "amqp_e64 big val = native_bytes big 8 (if \<not> is_bigendian big then swap64 val else val)"

definition amqp_d64 :: "bool \<Rightarrow> byte list \<Rightarrow> uint64" where
  "amqp_d64 big data = (let val = native_word big data in if \<not> is_bigendian big then swap64 val else val)"

lemma is_bigendian_correct [simp]: "is_bigendian big = big"
  by (cases big) (simp_all add: is_bigendian_def native_bytes_def upt_rec)

text \<open>Network byte order, the specification of all of these: the most significant byte first.\<close>

definition be_bytes :: "nat \<Rightarrow> 'a::len word \<Rightarrow> byte list" where
  "be_bytes n v = map (\<lambda>i. ucast (drop_bit (8 * (n - 1 - i)) v)) [0..<n]"

lemma length_native_bytes [simp]: "length (native_bytes big n v) = n"
  by (simp add: native_bytes_def Let_def)

lemma length_be_bytes [simp]: "length (be_bytes n v) = n"
  by (simp add: be_bytes_def)

lemma native_bytes_big: "native_bytes True n v = rev (native_bytes False n v)"
  by (simp add: native_bytes_def)

lemma be_bytes_native: "be_bytes n v = native_bytes True n v"
  by (rule nth_equalityI) (simp_all add: be_bytes_def native_bytes_def rev_nth)

lemma bit_le_word:
  "bit (le_word bs :: 'a::len word) i \<longleftrightarrow>
     i < LENGTH('a) \<and> i div 8 < length bs \<and> bit (bs ! (i div 8)) (i mod 8)"
proof (induction bs arbitrary: i)
  case (Cons b bs)
  show ?case
  proof (cases "i < 8")
    case True
    then show ?thesis by (auto simp: bit_or_iff bit_push_bit_iff bit_unsigned_iff)
  next
    case False
    then have "i div 8 = Suc ((i - 8) div 8)" and "i mod 8 = (i - 8) mod 8"
      by (simp_all add: le_div_geq le_mod_geq)
    moreover have "\<not> bit b i" using False by (auto dest: bit_imp_le_length)
    ultimately show ?thesis
      using False Cons.IH [of "i - 8"] by (auto simp: bit_or_iff bit_push_bit_iff bit_unsigned_iff)
  qed
qed simp

lemma le_word_native_bytes:
  fixes v :: "'a::len word"
  assumes "8 * n = LENGTH('a)"
  shows "le_word (native_bytes False n v) = v"
proof (rule bit_word_eqI)
  fix i
  assume "i < LENGTH('a)"
  then have i: "i div 8 < n" "8 * (i div 8) + i mod 8 = i"
    using assms by auto
  then show "bit (le_word (native_bytes False n v) :: 'a word) i = bit v i"
    using \<open>i < LENGTH('a)\<close> by (simp add: bit_le_word native_bytes_def bit_unsigned_iff bit_drop_bit_eq)
qed

lemma native_word_bytes:
  fixes v :: "'a::len word"
  assumes "8 * n = LENGTH('a)"
  shows "native_word big (native_bytes big n v) = v"
  using le_word_native_bytes [OF assms] by (simp add: native_word_def native_bytes_big)

text \<open>
  What a byte swap has to do, once for the three widths: reverse the object representation.
\<close>

locale byte_swap =
  fixes n :: nat and swap :: "'a::len word \<Rightarrow> 'a word"
  assumes width: "8 * n = LENGTH('a)"
    and reverses: "native_bytes False n (swap v) = rev (native_bytes False n v)"
begin

lemma swap_swap: "swap (swap v) = v"
proof -
  have "native_bytes False n (swap (swap v)) = native_bytes False n v"
    by (simp add: reverses)
  then have "le_word (native_bytes False n (swap (swap v))) = (le_word (native_bytes False n v) :: 'a word)"
    by simp
  then show ?thesis by (simp add: le_word_native_bytes [OF width])
qed

lemma store_be: "native_bytes big n (if \<not> big then swap v else v) = be_bytes n v"
  by (simp add: be_bytes_native native_bytes_big reverses)

lemma load_be:
  "(let x = native_word big (be_bytes n v) in if \<not> big then swap x else x) = v"
  unfolding store_be [of big v, symmetric] by (simp add: native_word_bytes [OF width] swap_swap Let_def)

end

lemma byte_mask:
  "bit (push_bit k (mask 8) :: 'a::len word) i \<longleftrightarrow> k \<le> i \<and> i < k + 8 \<and> i < LENGTH('a)"
  by (auto simp: bit_push_bit_iff bit_mask_iff)

lemma masks16:
  "(0xFF00 :: uint16) = push_bit 8 (mask 8)" "(0x00FF :: uint16) = push_bit 0 (mask 8)"
  by (simp_all add: mask_eq_exp_minus_1)

lemma masks32:
  "(0xFF000000 :: uint32) = push_bit 24 (mask 8)" "(0x00FF0000 :: uint32) = push_bit 16 (mask 8)"
  "(0x0000FF00 :: uint32) = push_bit 8 (mask 8)" "(0x000000FF :: uint32) = push_bit 0 (mask 8)"
  by (simp_all add: mask_eq_exp_minus_1)

lemma masks64:
  "(0xFF00000000000000 :: uint64) = push_bit 56 (mask 8)" "(0x00FF000000000000 :: uint64) = push_bit 48 (mask 8)"
  "(0x0000FF0000000000 :: uint64) = push_bit 40 (mask 8)" "(0x000000FF00000000 :: uint64) = push_bit 32 (mask 8)"
  "(0xFF000000 :: uint64) = push_bit 24 (mask 8)" "(0x00FF0000 :: uint64) = push_bit 16 (mask 8)"
  "(0x0000FF00 :: uint64) = push_bit 8 (mask 8)" "(0x000000FF :: uint64) = push_bit 0 (mask 8)"
  by (simp_all add: mask_eq_exp_minus_1)

lemmas bit_byte_simps =
  byte_mask bit_or_iff bit_and_iff bit_push_bit_iff bit_drop_bit_eq bit_unsigned_iff

lemma store_byte: "native_bytes big 1 (v :: uint8) = be_bytes 1 v"
  by (cases big) (simp_all add: native_bytes_def be_bytes_def)

lemma load_byte: "native_word big (be_bytes 1 v) = (v :: uint8)"
  by (simp add: be_bytes_def native_word_def)

interpretation swap16: byte_swap 2 swap16
proof
  show "native_bytes False 2 (swap16 v) = rev (native_bytes False 2 v)" for v
    unfolding swap16_def masks16
    by (auto simp add: native_bytes_def upt_rec bit_byte_simps bit_mask_iff intro!: bit_word_eqI
        simp del: push_bit_of_0 push_bit_0_id)
qed simp

interpretation swap32: byte_swap 4 swap32
proof
  show "native_bytes False 4 (swap32 v) = rev (native_bytes False 4 v)" for v
    unfolding swap32_def masks32
    by (auto simp add: native_bytes_def upt_rec bit_byte_simps bit_mask_iff intro!: bit_word_eqI
        simp del: push_bit_of_0 push_bit_0_id)
qed simp

interpretation swap64: byte_swap 8 swap64
proof
  show "native_bytes False 8 (swap64 v) = rev (native_bytes False 8 v)" for v
    unfolding swap64_def masks64
    by (auto simp add: native_bytes_def upt_rec bit_byte_simps bit_mask_iff intro!: bit_word_eqI
        simp del: push_bit_of_0 push_bit_0_id)
qed simp

lemma amqp_e_be:
  "amqp_e8 big a = be_bytes 1 a" "amqp_e16 big b = be_bytes 2 b" "amqp_e32 big c = be_bytes 4 c"
  "amqp_e64 big d = be_bytes 8 d"
  unfolding amqp_e8_def amqp_e16_def amqp_e32_def amqp_e64_def is_bigendian_correct
  by (rule store_byte swap16.store_be swap32.store_be swap64.store_be)+

lemma amqp_d_be:
  "amqp_d8 big (be_bytes 1 a) = a" "amqp_d16 big (be_bytes 2 b) = b" "amqp_d32 big (be_bytes 4 c) = c"
  "amqp_d64 big (be_bytes 8 d) = d"
  unfolding amqp_d8_def amqp_d16_def amqp_d32_def amqp_d64_def is_bigendian_correct
  by (rule load_byte swap16.load_be swap32.load_be swap64.load_be)+

text \<open>
  C23: the encoding primitives write network byte order on hosts of either byte order, and what a
  host of one byte order encodes a host of any byte order decodes to the same number.
\<close>

theorem wire_order_host_independent:
  "amqp_e8 big a = be_bytes 1 a \<and> amqp_e16 big b = be_bytes 2 b \<and> amqp_e32 big c = be_bytes 4 c
    \<and> amqp_e64 big d = be_bytes 8 d
    \<and> amqp_d8 big' (amqp_e8 big a) = a \<and> amqp_d16 big' (amqp_e16 big b) = b
    \<and> amqp_d32 big' (amqp_e32 big c) = c \<and> amqp_d64 big' (amqp_e64 big d) = d"
  by (simp only: amqp_e_be amqp_d_be simp_thms)

text \<open>The wire format of the four widths.\<close>

definition ser8 :: "uint8 \<Rightarrow> byte list" where "ser8 v = be_bytes 1 v"
definition ser16 :: "uint16 \<Rightarrow> byte list" where "ser16 v = be_bytes 2 v"
definition ser32 :: "uint32 \<Rightarrow> byte list" where "ser32 v = be_bytes 4 v"
definition ser64 :: "uint64 \<Rightarrow> byte list" where "ser64 v = be_bytes 8 v"

lemma length_ser [simp]:
  "length (ser8 a) = 1" "length (ser16 b) = 2" "length (ser32 c) = 4" "length (ser64 d) = 8"
  by (simp_all add: ser8_def ser16_def ser32_def ser64_def)

lemma ser_not_Nil [simp]: "ser8 a \<noteq> []" "ser16 b \<noteq> []" "ser32 c \<noteq> []" "ser64 d \<noteq> []"
  by (auto dest: arg_cong [where f = length])

lemma amqp_e_ser:
  "amqp_e8 big a = ser8 a" "amqp_e16 big b = ser16 b" "amqp_e32 big c = ser32 c" "amqp_e64 big d = ser64 d"
  by (simp_all only: amqp_e_be ser8_def ser16_def ser32_def ser64_def)

lemma amqp_d_ser:
  "amqp_d8 big (ser8 a) = a" "amqp_d16 big (ser16 b) = b" "amqp_d32 big (ser32 c) = c"
  "amqp_d64 big (ser64 d) = d"
  by (simp_all only: amqp_d_be ser8_def ser16_def ser32_def ser64_def)

section \<open>Bounded decoding\<close>

text \<open>
  A decoder works on a fixed buffer; its state is the offset and the pool it allocates from. The
  primitives advance the offset even when they fail, as the macro does. Decoded byte strings are
  given by their contents.
\<close>

definition host_is_big :: bool where
  "host_is_big = False"

record dstate =
  offset :: nat
  dpool :: amqp_pool_t
  dheap :: heap

definition decode_base :: "nat \<Rightarrow> (byte list \<Rightarrow> 'a) \<Rightarrow> amqp_bytes_t \<Rightarrow> (dstate, 'a option) prog" where
  "decode_base n d encoded = (\<lambda>s.
     let off = offset s; s' = s\<lparr>offset := size_add off n\<rparr>
     in if offset s' \<le> len encoded then
          (case mem_read off n (bytes encoded) of
             None \<Rightarrow> (Undefined, s')
           | Some bs \<Rightarrow> (Ok (Some (d bs)), s'))
        else (Ok None, s'))"

definition amqp_decode_8 :: "amqp_bytes_t \<Rightarrow> (dstate, uint8 option) prog" where
  "amqp_decode_8 = decode_base 1 (amqp_d8 host_is_big)"

definition amqp_decode_16 :: "amqp_bytes_t \<Rightarrow> (dstate, uint16 option) prog" where
  "amqp_decode_16 = decode_base 2 (amqp_d16 host_is_big)"

definition amqp_decode_32 :: "amqp_bytes_t \<Rightarrow> (dstate, uint32 option) prog" where
  "amqp_decode_32 = decode_base 4 (amqp_d32 host_is_big)"

definition amqp_decode_64 :: "amqp_bytes_t \<Rightarrow> (dstate, uint64 option) prog" where
  "amqp_decode_64 = decode_base 8 (amqp_d64 host_is_big)"

definition amqp_decode_bytes :: "amqp_bytes_t \<Rightarrow> nat \<Rightarrow> (dstate, byte list option) prog" where
  "amqp_decode_bytes encoded n = decode_base n (\<lambda>bs. bs) encoded"

text \<open>A pool allocation inside a decoder.\<close>

definition pool_alloc :: "nat \<Rightarrow> (dstate, ptr option) prog" where
  "pool_alloc n = (\<lambda>s. case amqp_pool_alloc n (dpool s, dheap s) of
     (r, p, h) \<Rightarrow> (r, s\<lparr>dpool := p, dheap := h\<rparr>))"

text \<open>\<^verbatim>\<open>malloc\<close>, \<^verbatim>\<open>realloc\<close> and \<^verbatim>\<open>free\<close> of the arrays a decoder collects entries in.\<close>

definition c_malloc :: "nat \<Rightarrow> (dstate, nat option) prog" where
  "c_malloc n = (\<lambda>s. case heap_malloc n (dheap s) of (r, h) \<Rightarrow> (Ok r, s\<lparr>dheap := h\<rparr>))"

definition c_realloc :: "nat \<Rightarrow> nat \<Rightarrow> (dstate, nat option) prog" where
  "c_realloc b n = (\<lambda>s. case heap_realloc (Some b) n (dheap s) of (r, h) \<Rightarrow> (Ok r, s\<lparr>dheap := h\<rparr>))"

definition c_free :: "nat \<Rightarrow> (dstate, unit) prog" where
  "c_free b = (\<lambda>s. (Ok (), s\<lparr>dheap := heap_free (Some b) (dheap s)\<rparr>))"

definition get_offset :: "(dstate, nat) prog" where
  "get_offset = (\<lambda>s. (Ok (offset s), s))"

text \<open>
  Safety of decoders: the offset stays inside the buffer while decoding succeeds, and in any case
  the pool stays valid, nothing is freed twice, and the blocks \<open>B\<close> of the callers are untouched.
\<close>

definition d_fail :: "nat set \<Rightarrow> dstate \<Rightarrow> bool" where
  "d_fail B s \<longleftrightarrow> pool_inv (dpool s) (dheap s) \<and> \<not> h_fault (dheap s) \<and> foreign (dpool s) (dheap s) B"

definition d_ok :: "amqp_bytes_t \<Rightarrow> nat set \<Rightarrow> dstate \<Rightarrow> bool" where
  "d_ok encoded B s \<longleftrightarrow> valid_bytes encoded \<and> offset s \<le> len encoded \<and> d_fail B s"

abbreviation dsafe :: "amqp_bytes_t \<Rightarrow> nat set \<Rightarrow> (dstate, 'a) prog \<Rightarrow> bool" where
  "dsafe encoded B \<equiv> safe (d_ok encoded B) (d_fail B)"

abbreviation dsafe_opt :: "amqp_bytes_t \<Rightarrow> nat set \<Rightarrow> (dstate, 'a option) prog \<Rightarrow> bool" where
  "dsafe_opt encoded B \<equiv> safe_opt (d_ok encoded B) (d_fail B)"

text \<open>The same with the offset, for the progress of the decoding loops.\<close>

definition d_at :: "amqp_bytes_t \<Rightarrow> nat set \<Rightarrow> (nat \<Rightarrow> bool) \<Rightarrow> dstate \<Rightarrow> bool" where
  "d_at encoded B p s \<longleftrightarrow> d_ok encoded B s \<and> p (offset s)"

lemma d_ok_fail: "d_ok encoded B s \<Longrightarrow> d_fail B s"
  by (simp add: d_ok_def)

lemma d_at_ok: "d_at encoded B p s \<Longrightarrow> d_ok encoded B s"
  by (simp add: d_at_def)

lemma dsafe_throw [hoare_intros]: "dsafe encoded B (throw e)"
  by (rule hoare_throw) (rule d_ok_fail)

lemma hoare_decode_base:
  assumes "n < 2 ^ 63"
  shows "hoare_opt (d_at encoded B p) (decode_base n d encoded)
    (\<lambda>_. d_at encoded B (\<lambda>k. n \<le> k \<and> p (k - n))) (d_fail B)"
proof (rule hoareI)
  fix s
  assume "d_at encoded B p s"
  then have *: "d_ok encoded B s" "p (offset s)" by (simp_all add: d_at_def)
  then have "offset s + n < 2 ^ 64" "valid_bytes encoded" "len encoded \<le> length (bytes encoded)"
    using assms by (auto simp: d_ok_def valid_bytes_def ptrdiff_max_def)
  then show "settles (\<lambda>r s. case r of None \<Rightarrow> d_fail B s
      | Some x \<Rightarrow> d_at encoded B (\<lambda>k. n \<le> k \<and> p (k - n)) s) (d_fail B) (decode_base n d encoded s)"
    using * by (auto simp: decode_base_def mem_read_def Let_def d_at_def d_ok_def d_fail_def)
qed

lemma hoare_prims:
  "hoare_opt (d_at encoded B p) (amqp_decode_8 encoded) (\<lambda>_. d_at encoded B (\<lambda>k. 1 \<le> k \<and> p (k - 1))) (d_fail B)"
  "hoare_opt (d_at encoded B p) (amqp_decode_16 encoded) (\<lambda>_. d_at encoded B (\<lambda>k. 2 \<le> k \<and> p (k - 2))) (d_fail B)"
  "hoare_opt (d_at encoded B p) (amqp_decode_32 encoded) (\<lambda>_. d_at encoded B (\<lambda>k. 4 \<le> k \<and> p (k - 4))) (d_fail B)"
  "hoare_opt (d_at encoded B p) (amqp_decode_64 encoded) (\<lambda>_. d_at encoded B (\<lambda>k. 8 \<le> k \<and> p (k - 8))) (d_fail B)"
  "n < 2 ^ 63 \<Longrightarrow> hoare_opt (d_at encoded B p) (amqp_decode_bytes encoded n)
    (\<lambda>_. d_at encoded B (\<lambda>k. n \<le> k \<and> p (k - n))) (d_fail B)"
  unfolding amqp_decode_8_def amqp_decode_16_def amqp_decode_32_def amqp_decode_64_def amqp_decode_bytes_def
  by (rule hoare_decode_base; simp)+

lemma dsafe_decode_base:
  assumes "n < 2 ^ 63"
  shows "dsafe_opt encoded B (decode_base n d encoded)"
  using assms by (intro hoare_conseq [OF hoare_decode_base [where p = "\<lambda>_. True" and B = B]])
    (auto simp: d_at_def split: option.splits)

lemma dsafe_prims [hoare_intros]:
  "dsafe_opt encoded B (amqp_decode_8 encoded)" "dsafe_opt encoded B (amqp_decode_16 encoded)"
  "dsafe_opt encoded B (amqp_decode_32 encoded)" "dsafe_opt encoded B (amqp_decode_64 encoded)"
  "n < 2 ^ 63 \<Longrightarrow> dsafe_opt encoded B (amqp_decode_bytes encoded n)"
  unfolding amqp_decode_8_def amqp_decode_16_def amqp_decode_32_def amqp_decode_64_def amqp_decode_bytes_def
  by (rule dsafe_decode_base; simp)+

lemma pool_alloc_settles:
  assumes "pool_inv p h" and "amqp_pool_alloc n (p, h) = (r, p', h')"
  shows "\<exists>q. r = Ok q" and "pool_inv p' h'" and "h_fault h' = h_fault h"
proof -
  have "(\<exists>q. r = Ok q) \<and> pool_inv p' h' \<and> h_fault h' = h_fault h"
  proof (cases "n = 0")
    case True
    with assms show ?thesis by (auto simp: amqp_pool_alloc_def)
  next
    case False
    from amqp_pool_alloc_post [OF assms(1) pool_owns_empty False, unfolded assms(2)]
    show ?thesis by (auto simp: alloc_post_def)
  qed
  then show "\<exists>q. r = Ok q" "pool_inv p' h'" "h_fault h' = h_fault h" by simp_all
qed

lemma hoare_pool_alloc: "hoare (d_at encoded B p) (pool_alloc n) (\<lambda>_. d_at encoded B p) (d_fail B)"
proof (rule hoareI)
  fix s
  assume s: "d_at encoded B p s"
  obtain r p' h where run: "amqp_pool_alloc n (dpool s, dheap s) = (r, p', h)"
    by (metis surj_pair)
  from s have inv: "pool_inv (dpool s) (dheap s)" by (simp add: d_at_def d_ok_def d_fail_def)
  then have hinv: "heap_inv (dheap s)" by (simp add: pool_inv_def)
  note settled = pool_alloc_settles [OF inv run]
  from s have "foreign p' h B"
    using pool_step_foreign [OF pool_step_alloc [OF inv run] hinv] by (simp add: d_at_def d_ok_def d_fail_def)
  then show "settles (\<lambda>_. d_at encoded B p) (d_fail B) (pool_alloc n s)"
    using s settled run by (auto simp: pool_alloc_def d_at_def d_ok_def d_fail_def)
qed

lemma dsafe_pool_alloc [hoare_intros]: "dsafe encoded B (pool_alloc n)"
  by (rule hoare_conseq [OF hoare_pool_alloc [where p = "\<lambda>_. True" and B = B]]) (auto simp: d_at_def)

lemma dsafe_pool_alloc_opt [hoare_intros]: "dsafe_opt encoded B (pool_alloc n)"
  by (rule hoare_conseq [OF dsafe_pool_alloc]) (auto split: option.splits intro: d_ok_fail)

lemma foreign_mono: "foreign p h B \<Longrightarrow> A \<subseteq> B \<Longrightarrow> foreign p h A"
  by (auto simp: foreign_def)

text \<open>An array obtained by a decoder is a block of its own, given back exactly once.\<close>

lemma d_fail_malloc:
  assumes s: "d_fail B s" and run: "heap_malloc n (dheap s) = (r, h)"
  shows "d_fail B (s\<lparr>dheap := h\<rparr>)" and "r = Some b \<Longrightarrow> d_fail (insert b B) (s\<lparr>dheap := h\<rparr>) \<and> b \<notin> B"
proof -
  from s have inv: "pool_inv (dpool s) (dheap s)" and f: "foreign (dpool s) (dheap s) B"
    by (simp_all add: d_fail_def)
  then have hinv: "heap_inv (dheap s)" by (simp add: pool_inv_def)
  have "d_fail B (s\<lparr>dheap := h\<rparr>) \<and> (\<forall>b. r = Some b \<longrightarrow> d_fail (insert b B) (s\<lparr>dheap := h\<rparr>) \<and> b \<notin> B)"
  proof (cases r)
    case None
    note h = heap_malloc_None [OF run [unfolded None] hinv]
    have "pool_inv (dpool s) h" by (rule pool_inv_heap_cong [OF inv h(1)]) (simp add: h)
    with s f h None show ?thesis by (simp add: d_fail_def foreign_def)
  next
    case (Some b)
    note h = heap_malloc_Some [OF run [unfolded Some] hinv]
    have fresh: "b \<notin> set (pool_blocks (dpool s))" "alloc_block (dpool s) \<noteq> Some b"
      using pool_block_live [OF inv, of b] h(3) by auto
    have "pool_inv (dpool s) h" by (rule pool_inv_heap_cong [OF inv h(1)]) (use fresh h(4) in auto)
    with s f h fresh Some show ?thesis by (auto simp: d_fail_def foreign_def)
  qed
  then show "d_fail B (s\<lparr>dheap := h\<rparr>)" "r = Some b \<Longrightarrow> d_fail (insert b B) (s\<lparr>dheap := h\<rparr>) \<and> b \<notin> B"
    by simp_all
qed

lemma d_fail_free:
  assumes "d_fail (insert b B) s" and "b \<notin> B"
  shows "d_fail B (s\<lparr>dheap := heap_free (Some b) (dheap s)\<rparr>)"
proof -
  let ?h = "(dheap s)\<lparr>h_live := (h_live (dheap s))(b := None)\<rparr>"
  from assms have inv: "pool_inv (dpool s) (dheap s)" and f: "foreign (dpool s) (dheap s) (insert b B)"
    by (simp_all add: d_fail_def)
  then have free: "heap_free (Some b) (dheap s) = ?h"
    by (auto simp: heap_free_def foreign_def)
  have "heap_inv ?h" using inv by (simp add: pool_inv_def heap_inv_def)
  then have "pool_inv (dpool s) ?h"
    by (rule pool_inv_heap_cong [OF inv]) (use f in \<open>auto simp: foreign_def\<close>)
  then show ?thesis
    using assms f free by (auto simp: d_fail_def foreign_def)
qed

lemma hoare_c_malloc:
  "hoare_opt (d_at encoded B p) (c_malloc n) (\<lambda>b s. b \<notin> B \<and> d_at encoded (insert b B) p s) (d_fail B)"
proof (rule hoareI)
  fix s
  assume s: "d_at encoded B p s"
  obtain r h where run: "heap_malloc n (dheap s) = (r, h)" by fastforce
  from s have "d_fail B s" by (simp add: d_at_def d_ok_def)
  note m = d_fail_malloc [OF this run]
  show "settles (\<lambda>r s. case r of None \<Rightarrow> d_fail B s | Some b \<Rightarrow> b \<notin> B \<and> d_at encoded (insert b B) p s)
      (d_fail B) (c_malloc n s)"
    using s m run by (cases r) (auto simp: c_malloc_def d_at_def d_ok_def)
qed

lemma hoare_c_realloc:
  assumes "b \<notin> B"
  shows "hoare (d_at encoded (insert b B) p) (c_realloc b n)
    (\<lambda>r s. case r of None \<Rightarrow> d_at encoded (insert b B) p s
       | Some b' \<Rightarrow> b' \<notin> B \<and> d_at encoded (insert b' B) p s) J"
proof (rule hoareI)
  fix s
  assume s: "d_at encoded (insert b B) p s"
  obtain r h where run: "heap_malloc n (dheap s) = (r, h)" by fastforce
  from s have "d_fail (insert b B) s" by (simp add: d_at_def d_ok_def)
  note m = d_fail_malloc [OF this run]
  show "settles (\<lambda>r s. case r of None \<Rightarrow> d_at encoded (insert b B) p s
       | Some b' \<Rightarrow> b' \<notin> B \<and> d_at encoded (insert b' B) p s) J (c_realloc b n s)"
  proof (cases r)
    case None
    with s m run show ?thesis by (auto simp: c_realloc_def heap_realloc_def d_at_def d_ok_def)
  next
    case (Some b')
    with m(2) have b': "d_fail (insert b (insert b' B)) (s\<lparr>dheap := h\<rparr>)" "b' \<notin> insert b B"
      by (auto simp: insert_commute)
    then have "d_fail (insert b' B) (s\<lparr>dheap := heap_free (Some b) h\<rparr>)"
      using d_fail_free [OF b'(1)] assms by auto
    with s b' Some run show ?thesis
      by (auto simp: c_realloc_def heap_realloc_def d_at_def d_ok_def)
  qed
qed

lemma hoare_c_free:
  assumes "b \<notin> B"
  shows "hoare (d_at encoded (insert b B) p) (c_free b) (\<lambda>_. d_at encoded B p) J"
  using d_fail_free [OF _ assms] by (auto simp: hoare_def c_free_def d_at_def d_ok_def)

text \<open>A decoder that meets exactly the bytes \<open>ws\<close> returns \<open>v\<close> and stops behind them.\<close>

definition at :: "amqp_bytes_t \<Rightarrow> byte list \<Rightarrow> dstate \<Rightarrow> bool" where
  "at encoded ws s \<longleftrightarrow> valid_bytes encoded \<and> offset s + length ws \<le> len encoded
     \<and> take (length ws) (drop (offset s) (bytes encoded)) = ws"

definition ready :: "nat set \<Rightarrow> dstate \<Rightarrow> bool" where
  "ready B s \<longleftrightarrow> d_fail B s \<and> generous (dheap s)"

definition reads :: "amqp_bytes_t \<Rightarrow> (dstate, 'a) prog \<Rightarrow> byte list \<Rightarrow> 'a \<Rightarrow> bool" where
  "reads encoded m ws v \<longleftrightarrow> (\<forall>B s. at encoded ws s \<and> ready B s \<longrightarrow>
     (\<exists>s'. m s = (Ok v, s') \<and> offset s' = offset s + length ws \<and> ready B s'))"

named_theorems reads_intros \<open>composition rules for reads\<close>

lemma at_append:
  assumes "at encoded (ws @ vs) s"
  shows "at encoded ws s" and "offset s' = offset s + length ws \<Longrightarrow> at encoded vs s'"
proof -
  let ?m = "drop (offset s) (bytes encoded)"
  from assms have eq: "take (length ws + length vs) ?m = ws @ vs"
    by (simp add: at_def)
  then have "take (length ws) ?m = ws" and "take (length vs) (drop (length ws) ?m) = vs"
    by (metis append_eq_conv_conj min.absorb1 le_add1 take_take,
        metis append_eq_conv_conj drop_take diff_add_inverse)
  then show "at encoded ws s" and "offset s' = offset s + length ws \<Longrightarrow> at encoded vs s'"
    using assms by (auto simp: at_def add.commute)
qed

lemma readsI:
  "(\<And>B s. at encoded ws s \<Longrightarrow> ready B s \<Longrightarrow>
      \<exists>s'. m s = (Ok v, s') \<and> offset s' = offset s + length ws \<and> ready B s') \<Longrightarrow> reads encoded m ws v"
  by (simp add: reads_def)

lemma readsE:
  assumes "reads encoded m ws v" and "at encoded ws s" and "ready B s"
  obtains s' where "m s = (Ok v, s')" "offset s' = offset s + length ws" "ready B s'"
  using assms by (auto simp: reads_def)

lemma reads_bind:
  assumes m: "reads encoded m ws x" and k: "reads encoded (k x) vs y"
  shows "reads encoded (bindP m k) (ws @ vs) y"
proof (rule readsI)
  fix B s
  assume here: "at encoded (ws @ vs) s" and "ready B s"
  obtain s1 where s1: "m s = (Ok x, s1)" "offset s1 = offset s + length ws" "ready B s1"
    using readsE [OF m at_append(1) [OF here] \<open>ready B s\<close>] .
  obtain s2 where "k x s1 = (Ok y, s2)" "offset s2 = offset s1 + length vs" "ready B s2"
    using readsE [OF k at_append(2) [OF here s1(2)] s1(3)] .
  with s1 show "\<exists>s'. bindP m k s = (Ok y, s') \<and> offset s' = offset s + length (ws @ vs) \<and> ready B s'"
    by (simp add: outcome_simps)
qed

lemma reads_ret [reads_intros]: "reads encoded (ret v) [] v"
  by (auto simp: reads_def ret_def)

lemma reads_check: "reads encoded m ws (Some v) \<Longrightarrow> reads encoded (check m e) ws v"
  by (fastforce simp: reads_def outcome_simps)

lemma reads_decode_base:
  assumes "d ws = v"
  shows "reads encoded (decode_base (length ws) d encoded) ws (Some v)"
proof (rule readsI)
  fix B s
  assume here: "at encoded ws s" and "ready B s"
  then have "offset s + length ws \<le> length (bytes encoded)" "length (bytes encoded) < 2 ^ 63"
    by (auto simp: at_def valid_bytes_def ptrdiff_max_def)
  then have "size_add (offset s) (length ws) = offset s + length ws"
    by (intro size_add_small) simp
  with here \<open>ready B s\<close> \<open>offset s + length ws \<le> length (bytes encoded)\<close>
  show "\<exists>s'. decode_base (length ws) d encoded s = (Ok (Some v), s') \<and>
      offset s' = offset s + length ws \<and> ready B s'"
    using assms by (simp add: decode_base_def at_def mem_read_def ready_def d_fail_def Let_def)
qed

lemma reads_8 [reads_intros]: "reads encoded (amqp_decode_8 encoded) (ser8 v) (Some v)"
  using reads_decode_base [of "amqp_d8 host_is_big" "ser8 v" v encoded, OF amqp_d_ser(1)]
  by (simp add: amqp_decode_8_def)

lemma reads_16 [reads_intros]: "reads encoded (amqp_decode_16 encoded) (ser16 v) (Some v)"
  using reads_decode_base [of "amqp_d16 host_is_big" "ser16 v" v encoded, OF amqp_d_ser(2)]
  by (simp add: amqp_decode_16_def)

lemma reads_32 [reads_intros]: "reads encoded (amqp_decode_32 encoded) (ser32 v) (Some v)"
  using reads_decode_base [of "amqp_d32 host_is_big" "ser32 v" v encoded, OF amqp_d_ser(3)]
  by (simp add: amqp_decode_32_def)

lemma reads_64 [reads_intros]: "reads encoded (amqp_decode_64 encoded) (ser64 v) (Some v)"
  using reads_decode_base [of "amqp_d64 host_is_big" "ser64 v" v encoded, OF amqp_d_ser(4)]
  by (simp add: amqp_decode_64_def)

lemma reads_bytes [reads_intros]: "n = length ws \<Longrightarrow> reads encoded (amqp_decode_bytes encoded n) ws (Some ws)"
  by (simp add: amqp_decode_bytes_def reads_decode_base)

lemma ready_at: "at encoded ws s \<Longrightarrow> ready B s \<Longrightarrow> d_at encoded B ((=) (offset s)) s"
  by (simp add: at_def ready_def d_at_def d_ok_def)

lemma ready_pool_alloc:
  assumes "n \<noteq> 0" and "ready B s"
  obtains q s' where "pool_alloc n s = (Ok (Some q), s')" "offset s' = offset s" "ready B s'"
proof -
  from assms(2) have inv: "pool_inv (dpool s) (dheap s)" and g: "generous (dheap s)"
    and f: "foreign (dpool s) (dheap s) B" and ok: "\<not> h_fault (dheap s)"
    by (simp_all add: ready_def d_fail_def)
  from inv g assms(1) obtain q p h where run: "amqp_pool_alloc n (dpool s, dheap s) = (Ok (Some q), p, h)"
    and p: "pool_inv p h" "generous h"
    by (rule generous_pool_alloc)
  have "foreign p h B"
    using pool_step_foreign [OF pool_step_alloc [OF inv run] _ f] inv by (simp add: pool_inv_def)
  then have "ready B (s\<lparr>dpool := p, dheap := h\<rparr>)"
    using p ok pool_alloc_settles(3) [OF inv run] by (simp add: ready_def d_fail_def)
  then show ?thesis
    using that [of q "s\<lparr>dpool := p, dheap := h\<rparr>"] run by (simp add: pool_alloc_def)
qed

lemma reads_pool_alloc:
  assumes "n \<noteq> 0" and "\<And>p. reads encoded (k p) ws v"
  shows "reads encoded (bindP (check (pool_alloc n) e) k) ws v"
proof (rule readsI)
  fix B s
  assume here: "at encoded ws s" and "ready B s"
  from assms(1) \<open>ready B s\<close> obtain q s1 where s1: "pool_alloc n s = (Ok (Some q), s1)"
    "offset s1 = offset s" "ready B s1"
    by (rule ready_pool_alloc)
  have "at encoded ws s1" using here s1(2) by (simp add: at_def)
  then obtain s' where "k q s1 = (Ok v, s')" "offset s' = offset s1 + length ws" "ready B s'"
    using readsE [OF assms(2)] s1(3) by blast
  with s1 show "\<exists>s'. bindP (check (pool_alloc n) e) k s = (Ok v, s')
      \<and> offset s' = offset s + length ws \<and> ready B s'"
    by (simp add: outcome_simps)
qed

section \<open>Bounded encoding\<close>

record estate =
  e_len :: nat
  e_mem :: "byte list"
  e_off :: nat

definition encode_base :: "byte list \<Rightarrow> (estate, bool) prog" where
  "encode_base ws = (\<lambda>s.
     let off = e_off s; s' = s\<lparr>e_off := size_add off (length ws)\<rparr>
     in if e_off s' \<le> e_len s then
          (case mem_write off ws (e_mem s) of
             None \<Rightarrow> (Undefined, s')
           | Some m \<Rightarrow> (Ok True, s'\<lparr>e_mem := m\<rparr>))
        else (Ok False, s'))"

definition amqp_encode_8 :: "uint8 \<Rightarrow> (estate, bool) prog" where
  "amqp_encode_8 input = encode_base (amqp_e8 host_is_big input)"

definition amqp_encode_16 :: "uint16 \<Rightarrow> (estate, bool) prog" where
  "amqp_encode_16 input = encode_base (amqp_e16 host_is_big input)"

definition amqp_encode_32 :: "uint32 \<Rightarrow> (estate, bool) prog" where
  "amqp_encode_32 input = encode_base (amqp_e32 host_is_big input)"

definition amqp_encode_64 :: "uint64 \<Rightarrow> (estate, bool) prog" where
  "amqp_encode_64 input = encode_base (amqp_e64 host_is_big input)"

definition amqp_encode_bytes :: "byte list \<Rightarrow> (estate, bool) prog" where
  "amqp_encode_bytes input = (if length input = 0 then ret True else encode_base input)"

text \<open>
  While a table is encoded the offset may run up to 4 bytes past the end of the buffer (the size
  field is skipped first and filled in last), hence the slack \<open>k\<close>.
\<close>

definition e_ok :: "nat \<Rightarrow> estate \<Rightarrow> bool" where
  "e_ok k s \<longleftrightarrow> e_off s \<le> e_len s + k \<and> e_len s \<le> length (e_mem s) \<and> length (e_mem s) \<le> ptrdiff_max"

definition written :: "byte list \<Rightarrow> estate \<Rightarrow> estate" where
  "written ws s = s\<lparr>e_mem := take (e_off s) (e_mem s) @ ws @ drop (e_off s + length ws) (e_mem s),
     e_off := e_off s + length ws\<rparr>"

definition fits :: "byte list \<Rightarrow> estate \<Rightarrow> bool" where
  "fits ws s \<longleftrightarrow> ws = [] \<or> e_off s + length ws \<le> e_len s"

definition same_outside :: "estate \<Rightarrow> estate \<Rightarrow> bool" where
  "same_outside s s' \<longleftrightarrow> e_len s' = e_len s \<and> length (e_mem s') = length (e_mem s)
     \<and> take (e_off s) (e_mem s') = take (e_off s) (e_mem s)
     \<and> drop (e_len s) (e_mem s') = drop (e_len s) (e_mem s)"

text \<open>
  \<open>encodes k m ws\<close>: the encoder writes exactly \<open>ws\<close> at the offset when the buffer has room for it,
  and otherwise reports an error, without touching memory in front of the offset or outside the
  buffer. Either way the behaviour is defined.
\<close>

definition encodes :: "nat \<Rightarrow> (estate, unit) prog \<Rightarrow> byte list \<Rightarrow> bool" where
  "encodes k m ws \<longleftrightarrow> (\<forall>s. e_ok k s \<longrightarrow>
     (if fits ws s then m s = (Ok (), written ws s)
      else \<exists>e s'. m s = (Err e, s') \<and> same_outside s s'))"

abbreviation emits :: "(estate, unit) prog \<Rightarrow> byte list \<Rightarrow> bool" where
  "emits \<equiv> encodes 0"

named_theorems encodes_intros \<open>composition rules for encodes\<close>

lemma written_sel [simp]: "e_len (written ws s) = e_len s" "e_off (written ws s) = e_off s + length ws"
  by (simp_all add: written_def)

lemma written_Nil [simp]: "written [] s = s"
  by (simp add: written_def)

lemma e_ok_mono: "e_ok j s \<Longrightarrow> j \<le> k \<Longrightarrow> e_ok k s"
  by (simp add: e_ok_def)

lemma e_ok_written: "e_ok k s \<Longrightarrow> fits ws s \<Longrightarrow> e_ok (if ws = [] then k else 0) (written ws s)"
  by (auto simp: e_ok_def written_def fits_def)

lemma written_written: "e_ok k s \<Longrightarrow> fits ws s \<Longrightarrow> written vs (written ws s) = written (ws @ vs) s"
  by (cases "ws = []") (auto simp: e_ok_def written_def fits_def add.commute add.left_commute)

lemma written_outside: "e_ok k s \<Longrightarrow> fits ws s \<Longrightarrow> same_outside s (written ws s)"
  by (cases "ws = []") (auto simp: e_ok_def written_def fits_def same_outside_def)

lemma same_outside_trans:
  assumes "same_outside s s'" and "same_outside s' s''" and "e_off s \<le> e_off s'"
  shows "same_outside s s''"
proof -
  have "take (e_off s) (take (e_off s') (e_mem s'')) = take (e_off s) (take (e_off s') (e_mem s'))"
    using assms(2) by (simp add: same_outside_def)
  then show ?thesis using assms by (simp add: same_outside_def min.absorb1)
qed

lemma encodesI:
  assumes "\<And>s. e_ok k s \<Longrightarrow> fits ws s \<Longrightarrow> m s = (Ok (), written ws s)"
    and "\<And>s. e_ok k s \<Longrightarrow> \<not> fits ws s \<Longrightarrow> \<exists>e s'. m s = (Err e, s') \<and> same_outside s s'"
  shows "encodes k m ws"
  using assms by (simp add: encodes_def)

lemma encodesD:
  assumes "encodes k m ws" and "e_ok k s"
  shows "fits ws s \<Longrightarrow> m s = (Ok (), written ws s)"
    and "\<not> fits ws s \<Longrightarrow> \<exists>e s'. m s = (Err e, s') \<and> same_outside s s'"
  using assms unfolding encodes_def by (metis (no_types, lifting))+

lemma encodes_mono: "encodes k m ws \<Longrightarrow> j \<le> k \<Longrightarrow> encodes j m ws"
  using e_ok_mono by (force simp: encodes_def)

lemma encodes_seq:
  assumes m: "encodes k m ws" and k: "encodes (if ws = [] then k else 0) (f ()) vs"
  shows "encodes k (bindP m f) (ws @ vs)"
proof (rule encodesI)
  fix s
  assume s: "e_ok k s" and "fits (ws @ vs) s"
  then have ws: "fits ws s" and vs: "fits vs (written ws s)" by (auto simp: fits_def)
  show "bindP m f s = (Ok (), written (ws @ vs) s)"
    using encodesD(1) [OF m s ws] encodesD(1) [OF k e_ok_written [OF s ws] vs] written_written [OF s ws]
    by (simp add: outcome_simps)
next
  fix s
  assume s: "e_ok k s" and no: "\<not> fits (ws @ vs) s"
  show "\<exists>e s'. bindP m f s = (Err e, s') \<and> same_outside s s'"
  proof (cases "fits ws s")
    case True
    then have vs: "\<not> fits vs (written ws s)" using no by (auto simp: fits_def)
    obtain e s' where s': "f () (written ws s) = (Err e, s')" "same_outside (written ws s) s'"
      using encodesD(2) [OF k e_ok_written [OF s True] vs] by blast
    then have "same_outside s s'"
      using same_outside_trans [OF written_outside [OF s True]] by simp
    then show ?thesis
      using encodesD(1) [OF m s True] s' by (simp add: outcome_simps)
  next
    case False
    then show ?thesis using encodesD(2) [OF m s False] by (auto simp: outcome_simps)
  qed
qed

lemma encodes_bind: "encodes k m ws \<Longrightarrow> encodes k (f ()) vs \<Longrightarrow> encodes k (bindP m f) (ws @ vs)"
  by (rule encodes_seq) (auto intro: encodes_mono)

text \<open>Behind a non-empty field the offset is inside the buffer again.\<close>

lemma encodes_bind_slack:
  "encodes k m ws \<Longrightarrow> ws \<noteq> [] \<Longrightarrow> emits (f ()) vs \<Longrightarrow> encodes k (bindP m f) (ws @ vs)"
  by (rule encodes_seq) auto

lemma encodes_ret [encodes_intros]: "encodes k (ret ()) []"
  by (auto simp: encodes_def ret_def fits_def)

lemma encodes_base:
  assumes "length ws < 2 ^ 62" and "ws \<noteq> []" and "k \<le> 4"
  shows "encodes k (require (encode_base ws) e) ws"
  using assms
  by (auto simp: encodes_def encode_base_def require_def bindP_def ret_def throw_def e_ok_def
      ptrdiff_max_def mem_write_def written_def fits_def same_outside_def Let_def)

lemma encodes_prims [encodes_intros]:
  assumes "k \<le> 4"
  shows "encodes k (require (amqp_encode_8 a) e) (ser8 a)"
    "encodes k (require (amqp_encode_16 b) e) (ser16 b)"
    "encodes k (require (amqp_encode_32 c) e) (ser32 c)"
    "encodes k (require (amqp_encode_64 d) e) (ser64 d)"
  unfolding amqp_encode_8_def amqp_encode_16_def amqp_encode_32_def amqp_encode_64_def amqp_e_ser
  using assms by (intro encodes_base; simp)+

lemma encodes_bytes [encodes_intros]:
  assumes "length bs < 2 ^ 62" and "k \<le> 4"
  shows "encodes k (require (amqp_encode_bytes bs) e) bs"
proof (cases "bs = []")
  case True
  then show ?thesis
    using encodes_ret by (simp add: amqp_encode_bytes_def require_def bindP_def ret_def)
qed (use assms in \<open>simp add: amqp_encode_bytes_def encodes_base\<close>)

text \<open>The bytes an encoder wrote are where a decoder of the same buffer finds them.\<close>

lemma encodes_at:
  assumes "emits m ws" and "e_ok 0 s" and "m s = (Ok (), s')" and "e_off s = offset d"
  shows "at \<lparr>len = e_len s', bytes = e_mem s'\<rparr> ws d" and "e_off s' = e_off s + length ws"
proof -
  have fits: "fits ws s"
    using encodesD(2) [OF assms(1,2)] assms(3) by force
  from encodesD(1) [OF assms(1,2) fits] assms(3) have "s' = written ws s" by simp
  with fits assms(2,4) show "at \<lparr>len = e_len s', bytes = e_mem s'\<rparr> ws d" "e_off s' = e_off s + length ws"
    by (auto simp: at_def written_def valid_bytes_def e_ok_def fits_def)
qed

text \<open>
  The codec round trip, for any encoder and decoder that meet on the same wire format: what was
  written is read back, whatever surrounds it in the buffer.
\<close>

lemma codec_round_trip:
  assumes "emits m ws" and "\<And>encoded. reads encoded (dec encoded) ws v"
    and "e_ok 0 s" and "m s = (Ok (), s')" and "offset d = e_off s" and "ready {} d"
  shows "\<exists>d'. dec \<lparr>len = e_len s', bytes = e_mem s'\<rparr> d = (Ok v, d') \<and> offset d' = e_off s'"
proof -
  note here = encodes_at [OF assms(1,3,4) assms(5) [symmetric]]
  from readsE [OF assms(2) here(1) assms(6)] show ?thesis
    using here(2) assms(5) by metis
qed

end
