(* ===== verification/Amqp_Table.thy ===== *)
theory Amqp_Table
  imports Amqp_Codec "HOL-Library.List_Lexorder"
begin

text \<open>
  librabbitmq/amqp\_table.c: field values, arrays and tables, their decoder, encoder and clone, the
  key order used for sorting and the lookup by key.

  A table is the list of its entries; an array is the list of its values. The decoder is mutually
  recursive and loops until it has consumed the declared size, so it carries fuel; the theorems
  show that \<open>3 * len + 3\<close> steps always suffice. Encoder and clone are structurally recursive. The
  wire grammar \<open>ser_value\<close> is the reference both codecs are proved against.
\<close>

named_theorems kind_simps \<open>the field kinds as numbers\<close>

section \<open>Field values\<close>

datatype amqp_field_value_t =
    FV_BOOLEAN bool
  | FV_I8 uint8 | FV_U8 uint8 | FV_I16 uint16 | FV_U16 uint16
  | FV_I32 uint32 | FV_U32 uint32 | FV_I64 uint64 | FV_U64 uint64
  | FV_F32 uint32 | FV_F64 uint64
  | FV_DECIMAL uint8 uint32
  | FV_UTF8 "byte list" | FV_BYTES "byte list"
  | FV_ARRAY "amqp_field_value_t list"
  | FV_EMPTY_ARRAY
  | FV_TIMESTAMP uint64
  | FV_TABLE "amqp_table_entry_t list"
  | FV_VOID
  | FV_OTHER uint8
and amqp_table_entry_t = Entry (key: "byte list") (entry_value: amqp_field_value_t)

type_synonym amqp_table_t = "amqp_table_entry_t list"
type_synonym amqp_array_t = "amqp_field_value_t list"

text \<open>Signed and floating-point values are kept as the bits of the union; \<open>FV_OTHER\<close> is a value whose
  kind byte is none of the enumerated ones. The array of no entries comes in two forms: \<open>FV_ARRAY []\<close> with a null
  pointer, which the decoder makes, and \<open>FV_EMPTY_ARRAY\<close> with a pointer that is not null, which a caller may make.\<close>

definition AMQP_FIELD_KIND_BOOLEAN :: uint8 where [kind_simps]: "AMQP_FIELD_KIND_BOOLEAN = 0x74"
definition AMQP_FIELD_KIND_I8 :: uint8 where [kind_simps]: "AMQP_FIELD_KIND_I8 = 0x62"
definition AMQP_FIELD_KIND_U8 :: uint8 where [kind_simps]: "AMQP_FIELD_KIND_U8 = 0x42"
definition AMQP_FIELD_KIND_I16 :: uint8 where [kind_simps]: "AMQP_FIELD_KIND_I16 = 0x73"
definition AMQP_FIELD_KIND_U16 :: uint8 where [kind_simps]: "AMQP_FIELD_KIND_U16 = 0x75"
definition AMQP_FIELD_KIND_I32 :: uint8 where [kind_simps]: "AMQP_FIELD_KIND_I32 = 0x49"
definition AMQP_FIELD_KIND_U32 :: uint8 where [kind_simps]: "AMQP_FIELD_KIND_U32 = 0x69"
definition AMQP_FIELD_KIND_I64 :: uint8 where [kind_simps]: "AMQP_FIELD_KIND_I64 = 0x6C"
definition AMQP_FIELD_KIND_U64 :: uint8 where [kind_simps]: "AMQP_FIELD_KIND_U64 = 0x4C"
definition AMQP_FIELD_KIND_F32 :: uint8 where [kind_simps]: "AMQP_FIELD_KIND_F32 = 0x66"
definition AMQP_FIELD_KIND_F64 :: uint8 where [kind_simps]: "AMQP_FIELD_KIND_F64 = 0x64"
definition AMQP_FIELD_KIND_DECIMAL :: uint8 where [kind_simps]: "AMQP_FIELD_KIND_DECIMAL = 0x44"
definition AMQP_FIELD_KIND_UTF8 :: uint8 where [kind_simps]: "AMQP_FIELD_KIND_UTF8 = 0x53"
definition AMQP_FIELD_KIND_ARRAY :: uint8 where [kind_simps]: "AMQP_FIELD_KIND_ARRAY = 0x41"
definition AMQP_FIELD_KIND_TIMESTAMP :: uint8 where [kind_simps]: "AMQP_FIELD_KIND_TIMESTAMP = 0x54"
definition AMQP_FIELD_KIND_TABLE :: uint8 where [kind_simps]: "AMQP_FIELD_KIND_TABLE = 0x46"
definition AMQP_FIELD_KIND_VOID :: uint8 where [kind_simps]: "AMQP_FIELD_KIND_VOID = 0x56"
definition AMQP_FIELD_KIND_BYTES :: uint8 where [kind_simps]: "AMQP_FIELD_KIND_BYTES = 0x78"

fun field_kind :: "amqp_field_value_t \<Rightarrow> uint8" where
  "field_kind (FV_BOOLEAN b) = AMQP_FIELD_KIND_BOOLEAN"
| "field_kind (FV_I8 x) = AMQP_FIELD_KIND_I8"
| "field_kind (FV_U8 x) = AMQP_FIELD_KIND_U8"
| "field_kind (FV_I16 x) = AMQP_FIELD_KIND_I16"
| "field_kind (FV_U16 x) = AMQP_FIELD_KIND_U16"
| "field_kind (FV_I32 x) = AMQP_FIELD_KIND_I32"
| "field_kind (FV_U32 x) = AMQP_FIELD_KIND_U32"
| "field_kind (FV_I64 x) = AMQP_FIELD_KIND_I64"
| "field_kind (FV_U64 x) = AMQP_FIELD_KIND_U64"
| "field_kind (FV_F32 x) = AMQP_FIELD_KIND_F32"
| "field_kind (FV_F64 x) = AMQP_FIELD_KIND_F64"
| "field_kind (FV_DECIMAL d x) = AMQP_FIELD_KIND_DECIMAL"
| "field_kind (FV_UTF8 bs) = AMQP_FIELD_KIND_UTF8"
| "field_kind (FV_BYTES bs) = AMQP_FIELD_KIND_BYTES"
| "field_kind (FV_ARRAY vs) = AMQP_FIELD_KIND_ARRAY"
| "field_kind FV_EMPTY_ARRAY = AMQP_FIELD_KIND_ARRAY"
| "field_kind (FV_TIMESTAMP x) = AMQP_FIELD_KIND_TIMESTAMP"
| "field_kind (FV_TABLE es) = AMQP_FIELD_KIND_TABLE"
| "field_kind FV_VOID = AMQP_FIELD_KIND_VOID"
| "field_kind (FV_OTHER k) = k"

definition sizeof_field_value :: nat where
  "sizeof_field_value = 24"

definition sizeof_table_entry :: nat where
  "sizeof_table_entry = 40"

section \<open>Decoding\<close>

definition INITIAL_ARRAY_SIZE :: nat where
  "INITIAL_ARRAY_SIZE = 16"

definition INITIAL_TABLE_SIZE :: nat where
  "INITIAL_TABLE_SIZE = 16"

abbreviation bad :: amqp_status_enum where
  "bad \<equiv> AMQP_STATUS_BAD_AMQP_DATA"

text \<open>\<^verbatim>\<open>goto out\<close> from a failed call: release the temporary array and return the status.\<close>

definition on_err :: "('s, 'a) prog \<Rightarrow> ('s, unit) prog \<Rightarrow> ('s, 'a) prog" where
  "on_err m c = (\<lambda>s. case m s of
       (Err e, s') \<Rightarrow> (Err e, snd (c s'))
     | (r, s') \<Rightarrow> (r, s'))"

text \<open>The growth of the temporary array, and the copy of the collected entries into the pool.\<close>

definition grow_entries :: "nat \<Rightarrow> nat \<Rightarrow> nat \<Rightarrow> nat \<Rightarrow> (dstate, nat \<times> nat) prog" where
  "grow_entries elemsize num_entries entries allocated_entries =
     (if num_entries \<ge> allocated_entries then
        bindP (c_realloc entries (allocated_entries * 2 * elemsize)) (\<lambda>newentries.
          case newentries of
            None \<Rightarrow> bindP (c_free entries) (\<lambda>_. throw AMQP_STATUS_NO_MEMORY)
          | Some b \<Rightarrow> ret (b, allocated_entries * 2))
      else ret (entries, allocated_entries))"

text \<open>
  An access to the first \<open>n\<close> bytes of the temporary array: outside the block, or after it was freed, it is undefined.
\<close>

definition in_block :: "nat \<Rightarrow> nat \<Rightarrow> (dstate, unit) prog" where
  "in_block n entries = (\<lambda>s.
     case h_live (dheap s) entries of
       None \<Rightarrow> (Undefined, s)
     | Some k \<Rightarrow> if n \<le> k then (Ok (), s) else (Undefined, s))"

definition finish_entries :: "nat \<Rightarrow> 'a list \<Rightarrow> nat \<Rightarrow> (dstate, 'a list) prog" where
  "finish_entries elemsize es entries =
     bindP (pool_alloc (length es * elemsize)) (\<lambda>p.
       bindP (if p = None then ret () else in_block (length es * elemsize) entries) (\<lambda>_.
       bindP (c_free entries) (\<lambda>_.
         if p = None \<and> length es \<noteq> 0 then throw AMQP_STATUS_NO_MEMORY else ret es)))"

text \<open>The cases of the switch in \<^verbatim>\<open>amqp_decode_field_value\<close> that do not recurse.\<close>

definition decode_scalar :: "uint8 \<Rightarrow> amqp_bytes_t \<Rightarrow> (dstate, amqp_field_value_t) prog" where
  "decode_scalar kind encoded =
     (if kind = AMQP_FIELD_KIND_BOOLEAN then
        bindP (check (amqp_decode_8 encoded) bad) (\<lambda>val. ret (FV_BOOLEAN (val \<noteq> 0)))
      else if kind = AMQP_FIELD_KIND_I8 then
        bindP (check (amqp_decode_8 encoded) bad) (\<lambda>val. ret (FV_I8 val))
      else if kind = AMQP_FIELD_KIND_U8 then
        bindP (check (amqp_decode_8 encoded) bad) (\<lambda>val. ret (FV_U8 val))
      else if kind = AMQP_FIELD_KIND_I16 then
        bindP (check (amqp_decode_16 encoded) bad) (\<lambda>val. ret (FV_I16 val))
      else if kind = AMQP_FIELD_KIND_U16 then
        bindP (check (amqp_decode_16 encoded) bad) (\<lambda>val. ret (FV_U16 val))
      else if kind = AMQP_FIELD_KIND_I32 then
        bindP (check (amqp_decode_32 encoded) bad) (\<lambda>val. ret (FV_I32 val))
      else if kind = AMQP_FIELD_KIND_U32 then
        bindP (check (amqp_decode_32 encoded) bad) (\<lambda>val. ret (FV_U32 val))
      else if kind = AMQP_FIELD_KIND_I64 then
        bindP (check (amqp_decode_64 encoded) bad) (\<lambda>val. ret (FV_I64 val))
      else if kind = AMQP_FIELD_KIND_U64 then
        bindP (check (amqp_decode_64 encoded) bad) (\<lambda>val. ret (FV_U64 val))
      else if kind = AMQP_FIELD_KIND_F32 then
        bindP (check (amqp_decode_32 encoded) bad) (\<lambda>val. ret (FV_F32 val))
      else if kind = AMQP_FIELD_KIND_F64 then
        bindP (check (amqp_decode_64 encoded) bad) (\<lambda>val. ret (FV_F64 val))
      else if kind = AMQP_FIELD_KIND_DECIMAL then
        bindP (check (amqp_decode_8 encoded) bad) (\<lambda>decimals.
          bindP (check (amqp_decode_32 encoded) bad) (\<lambda>val. ret (FV_DECIMAL decimals val)))
      else if kind = AMQP_FIELD_KIND_UTF8 then
        bindP (check (amqp_decode_32 encoded) bad) (\<lambda>n.
          bindP (check (amqp_decode_bytes encoded (unat n)) bad) (\<lambda>bs. ret (FV_UTF8 bs)))
      else if kind = AMQP_FIELD_KIND_BYTES then
        bindP (check (amqp_decode_32 encoded) bad) (\<lambda>n.
          bindP (check (amqp_decode_bytes encoded (unat n)) bad) (\<lambda>bs. ret (FV_BYTES bs)))
      else if kind = AMQP_FIELD_KIND_TIMESTAMP then
        bindP (check (amqp_decode_64 encoded) bad) (\<lambda>val. ret (FV_TIMESTAMP val))
      else if kind = AMQP_FIELD_KIND_VOID then ret FV_VOID
      else throw bad)"

fun decode_field_value :: "nat \<Rightarrow> amqp_bytes_t \<Rightarrow> (dstate, amqp_field_value_t) prog"
  and decode_array :: "nat \<Rightarrow> amqp_bytes_t \<Rightarrow> (dstate, amqp_array_t) prog"
  and array_loop :: "nat \<Rightarrow> amqp_bytes_t \<Rightarrow> nat \<Rightarrow> nat \<Rightarrow> nat \<Rightarrow> amqp_array_t \<Rightarrow> (dstate, amqp_array_t) prog"
  and decode_table :: "nat \<Rightarrow> amqp_bytes_t \<Rightarrow> (dstate, amqp_table_t) prog"
  and table_loop :: "nat \<Rightarrow> amqp_bytes_t \<Rightarrow> nat \<Rightarrow> nat \<Rightarrow> nat \<Rightarrow> amqp_table_t \<Rightarrow> (dstate, amqp_table_t) prog"
where
  "decode_field_value 0 encoded = (\<lambda>s. (OutOfFuel, s))"
| "decode_field_value (Suc fuel) encoded =
     bindP (check (amqp_decode_8 encoded) bad) (\<lambda>kind.
       if kind = AMQP_FIELD_KIND_ARRAY then
         bindP (decode_array fuel encoded) (\<lambda>vs. ret (FV_ARRAY vs))
       else if kind = AMQP_FIELD_KIND_TABLE then
         bindP (decode_table fuel encoded) (\<lambda>es. ret (FV_TABLE es))
       else decode_scalar kind encoded)"
| "decode_array 0 encoded = (\<lambda>s. (OutOfFuel, s))"
| "decode_array (Suc fuel) encoded =
     bindP (check (amqp_decode_32 encoded) bad) (\<lambda>arraysize.
       bindP get_offset (\<lambda>off.
         if size_add (unat arraysize) off > len encoded then throw bad
         else bindP (check (c_malloc (INITIAL_ARRAY_SIZE * sizeof_field_value)) AMQP_STATUS_NO_MEMORY)
           (\<lambda>entries. array_loop fuel encoded (size_add off (unat arraysize)) entries INITIAL_ARRAY_SIZE [])))"
| "array_loop 0 encoded limit entries allocated vs = (\<lambda>s. (OutOfFuel, s))"
| "array_loop (Suc fuel) encoded limit entries allocated vs =
     bindP get_offset (\<lambda>off.
       if off < limit then
         bindP (grow_entries sizeof_field_value (length vs) entries allocated) (\<lambda>(entries, allocated).
           bindP (in_block ((length vs + 1) * sizeof_field_value) entries) (\<lambda>_.
             bindP (on_err (decode_field_value fuel encoded) (c_free entries)) (\<lambda>v.
               array_loop fuel encoded limit entries allocated (vs @ [v]))))
       else finish_entries sizeof_field_value vs entries)"
| "decode_table 0 encoded = (\<lambda>s. (OutOfFuel, s))"
| "decode_table (Suc fuel) encoded =
     bindP (check (amqp_decode_32 encoded) bad) (\<lambda>tablesize.
       bindP get_offset (\<lambda>off.
         if size_add (unat tablesize) off > len encoded then throw bad
         else bindP (check (c_malloc (INITIAL_TABLE_SIZE * sizeof_table_entry)) AMQP_STATUS_NO_MEMORY)
           (\<lambda>entries. table_loop fuel encoded (size_add off (unat tablesize)) entries INITIAL_TABLE_SIZE [])))"
| "table_loop 0 encoded limit entries allocated es = (\<lambda>s. (OutOfFuel, s))"
| "table_loop (Suc fuel) encoded limit entries allocated es =
     bindP get_offset (\<lambda>off.
       if off < limit then
         bindP (on_err (check (amqp_decode_8 encoded) bad) (c_free entries)) (\<lambda>keylen.
           bindP (grow_entries sizeof_table_entry (length es) entries allocated) (\<lambda>(entries, allocated).
             bindP (in_block ((length es + 1) * sizeof_table_entry) entries) (\<lambda>_.
               bindP (on_err (check (amqp_decode_bytes encoded (unat keylen)) bad) (c_free entries)) (\<lambda>k.
                 bindP (on_err (decode_field_value fuel encoded) (c_free entries)) (\<lambda>v.
                   table_loop fuel encoded limit entries allocated (es @ [Entry k v]))))))
       else finish_entries sizeof_table_entry es entries)"

definition amqp_decode_table :: "amqp_bytes_t \<Rightarrow> (dstate, amqp_table_t) prog" where
  "amqp_decode_table encoded = decode_table (3 * len encoded + 3) encoded"

definition amqp_decode_array :: "amqp_bytes_t \<Rightarrow> (dstate, amqp_array_t) prog" where
  "amqp_decode_array encoded = decode_array (3 * len encoded + 3) encoded"

definition amqp_decode_field_value :: "amqp_bytes_t \<Rightarrow> (dstate, amqp_field_value_t) prog" where
  "amqp_decode_field_value encoded = decode_field_value (3 * len encoded + 1) encoded"

section \<open>Blocks keep their size\<close>

definition evolves :: "heap \<Rightarrow> heap \<Rightarrow> bool" where
  "evolves h h' \<longleftrightarrow> h_calls h \<le> h_calls h'
     \<and> (\<forall>b < h_calls h. h_live h' b = h_live h b \<or> h_live h' b = None)"

definition dkeeps :: "(dstate, 'a) prog \<Rightarrow> bool" where
  "dkeeps m \<longleftrightarrow> (\<forall>s. evolves (dheap s) (dheap (snd (m s))))"

named_theorems keeps_intros \<open>decoders under which blocks keep their size\<close>

lemma evolves_refl [simp]: "evolves h h"
  by (simp add: evolves_def)

lemma evolves_trans: "evolves h h' \<Longrightarrow> evolves h' h'' \<Longrightarrow> evolves h h''"
  unfolding evolves_def by (metis order_less_le_trans order_trans)

lemma evolves_malloc: "evolves h (snd (heap_malloc n h))"
  by (simp add: evolves_def heap_malloc_def Let_def)

lemma evolves_free: "evolves h (heap_free p h)"
  by (auto simp: evolves_def heap_free_def split: option.splits)

lemma evolves_malloc_eq: "heap_malloc n h = (r, h') \<Longrightarrow> evolves h h'"
  using evolves_malloc [of h n] by simp

lemma evolves_realloc: "heap_realloc p n h = (r, h') \<Longrightarrow> evolves h h'"
  unfolding heap_realloc_def
  by (auto split: prod.splits option.splits intro: evolves_malloc_eq evolves_trans [OF evolves_malloc_eq evolves_free])

lemma evolves_record: "record_pool_block x b h = (r, x', h') \<Longrightarrow> evolves h h'"
  unfolding record_pool_block_def
  by (auto simp: Let_def split: prod.splits option.splits intro: evolves_malloc_eq evolves_realloc)

lemma evolves_take_page: "pool_take_page n (p, h) = (r, p', h') \<Longrightarrow> evolves h h'"
  unfolding pool_take_page_def
  by (auto simp: Let_def split: prod.splits option.splits bool.splits if_splits
      intro: evolves_malloc_eq evolves_trans [OF evolves_malloc_eq evolves_record])

lemma evolves_pool_alloc: "amqp_pool_alloc n (p, h) = (r, p', h') \<Longrightarrow> evolves h h'"
  unfolding amqp_pool_alloc_def
  by (auto simp: Let_def split: prod.splits option.splits bool.splits if_splits
      intro: evolves_take_page evolves_malloc_eq evolves_trans [OF evolves_malloc_eq evolves_record]
        evolves_trans [OF evolves_malloc_eq evolves_trans [OF evolves_record evolves_free]])

lemma dkeeps_bind [keeps_intros]:
  assumes "dkeeps m" and "\<And>x. dkeeps (k x)"
  shows "dkeeps (bindP m k)"
  unfolding dkeeps_def
proof
  fix s
  obtain r s' where m: "m s = (r, s')" by fastforce
  then have "evolves (dheap s) (dheap s')" using assms(1) by (metis dkeeps_def snd_conv)
  moreover have "evolves (dheap s') (dheap (snd (k x s')))" for x using assms(2) by (simp add: dkeeps_def)
  ultimately show "evolves (dheap s) (dheap (snd (bindP m k s)))"
    using m by (cases r) (auto simp: bindP_def intro: evolves_trans)
qed

lemma dkeeps_simple [keeps_intros]:
  "dkeeps (ret x)" "dkeeps (throw e)" "dkeeps get_offset" "dkeeps (\<lambda>s. (Undefined, s))" "dkeeps (\<lambda>s. (OutOfFuel, s))"
  by (simp_all add: dkeeps_def ret_def throw_def get_offset_def)

lemma dkeeps_check [keeps_intros]: "dkeeps m \<Longrightarrow> dkeeps (check m e)"
  unfolding check_def by (intro dkeeps_bind) (auto intro: keeps_intros split: option.splits)

lemma dkeeps_if [keeps_intros]: "(b \<Longrightarrow> dkeeps m) \<Longrightarrow> (\<not> b \<Longrightarrow> dkeeps m') \<Longrightarrow> dkeeps (if b then m else m')"
  by simp

lemma dkeeps_decode_base: "dkeeps (decode_base n d encoded)"
  by (auto simp: dkeeps_def decode_base_def Let_def split: option.splits)

lemma dkeeps_prims [keeps_intros]:
  "dkeeps (amqp_decode_8 encoded)" "dkeeps (amqp_decode_16 encoded)" "dkeeps (amqp_decode_32 encoded)"
  "dkeeps (amqp_decode_64 encoded)" "dkeeps (amqp_decode_bytes encoded n)"
  by (simp_all add: amqp_decode_8_def amqp_decode_16_def amqp_decode_32_def amqp_decode_64_def
      amqp_decode_bytes_def dkeeps_decode_base)

lemma dkeeps_alloc [keeps_intros]:
  "dkeeps (pool_alloc n)" "dkeeps (c_malloc n)" "dkeeps (c_realloc b n)" "dkeeps (c_free b)"
  using evolves_pool_alloc evolves_malloc_eq evolves_realloc evolves_free
  by (auto simp: dkeeps_def pool_alloc_def c_malloc_def c_realloc_def c_free_def split: prod.splits)

lemma dkeeps_on_err [keeps_intros]:
  assumes "dkeeps m" and "dkeeps c"
  shows "dkeeps (on_err m c)"
  unfolding dkeeps_def
proof
  fix s
  have "evolves (dheap s) (dheap (snd (m s)))" "evolves (dheap t) (dheap (snd (c t)))" for t
    using assms by (simp_all add: dkeeps_def)
  then show "evolves (dheap s) (dheap (snd (on_err m c s)))"
    by (cases "m s"; cases "fst (m s)") (auto simp: on_err_def intro: evolves_trans)
qed

lemma dkeeps_in_block [keeps_intros]: "dkeeps (in_block n b)"
  by (simp add: dkeeps_def in_block_def split: option.splits)

lemma dkeeps_entries [keeps_intros]: "dkeeps (grow_entries e n b a)" "dkeeps (finish_entries e es b)"
  unfolding grow_entries_def finish_entries_def
  by (intro keeps_intros; auto intro!: keeps_intros split: option.splits)+

lemma dkeeps_scalar [keeps_intros]: "dkeeps (decode_scalar kind encoded)"
  unfolding decode_scalar_def by (intro keeps_intros)

lemma dkeeps_decoders:
  "dkeeps (decode_field_value f encoded) \<and> dkeeps (decode_array f encoded)
    \<and> (\<forall>limit b a vs. dkeeps (array_loop f encoded limit b a vs)) \<and> dkeeps (decode_table f encoded)
    \<and> (\<forall>limit b a es. dkeeps (table_loop f encoded limit b a es))"
proof (induction f)
  case (Suc f)
  then show ?case
    by (auto intro!: keeps_intros split: prod.splits)
qed (auto intro: keeps_intros)

section \<open>Decoding is safe and terminates\<close>

text \<open>
  The temporary array in the block \<open>b\<close>: besides the blocks \<open>B\<close> of the callers it is alive, and its size is \<open>n\<close>.
\<close>

definition collecting :: "amqp_bytes_t \<Rightarrow> nat set \<Rightarrow> nat \<Rightarrow> nat \<Rightarrow> (nat \<Rightarrow> bool) \<Rightarrow> dstate \<Rightarrow> bool" where
  "collecting encoded B b n p s \<longleftrightarrow> d_at encoded (insert b B) p s \<and> h_live (dheap s) b = Some n"

lemma hoare_also:
  assumes "hoare P m Q J" and "\<And>s x s'. P s \<Longrightarrow> m s = (Ok x, s') \<Longrightarrow> Q x s' \<Longrightarrow> R x s'"
  shows "hoare P m (\<lambda>x s. Q x s \<and> R x s) J"
proof (rule hoareI)
  fix s assume s: "P s"
  obtain r s' where run: "m s = (r, s')" by fastforce
  have "settles Q J (r, s')" using hoareD [OF assms(1) s] run by simp
  with assms(2) [OF s] run show "settles (\<lambda>x s. Q x s \<and> R x s) J (m s)" by (cases r) auto
qed

lemma hoare_offset_if:
  "hoare P m Q J \<Longrightarrow> hoare P m' Q J \<Longrightarrow> hoare P (bindP get_offset (\<lambda>off. if off < limit then m else m')) Q J"
  by (simp add: hoare_def get_offset_def bindP_def)

lemma evolves_block: "evolves h h' \<Longrightarrow> heap_inv h \<Longrightarrow> h_live h b = Some n \<Longrightarrow> h_live h' b \<noteq> None \<Longrightarrow> h_live h' b = Some n"
  unfolding evolves_def heap_inv_def by (metis not_le option.distinct(1))

lemma d_fail_block:
  "d_fail (insert b B) s \<Longrightarrow> heap_inv (dheap s)" "d_fail (insert b B) s \<Longrightarrow> h_live (dheap s) b \<noteq> None"
  by (simp_all add: d_fail_def pool_inv_def foreign_def)

text \<open>Whatever a decoder does, the array keeps its size.\<close>

lemma hoare_collecting:
  assumes "hoare (d_at encoded (insert b B) p) m (\<lambda>_. d_at encoded (insert b B) q) J" and "dkeeps m"
  shows "hoare (collecting encoded B b n p) m (\<lambda>_. collecting encoded B b n q) J"
proof -
  have "hoare (collecting encoded B b n p) m (\<lambda>_. d_at encoded (insert b B) q) J"
    by (rule hoare_conseq [OF assms(1)]) (simp_all add: collecting_def)
  moreover have "h_live (dheap s') b = Some n"
    if "collecting encoded B b n p s" "m s = (Ok x, s')" "d_at encoded (insert b B) q s'" for s x s'
  proof (rule evolves_block)
    show "evolves (dheap s) (dheap s')" using assms(2) that(2) by (metis dkeeps_def snd_conv)
    show "heap_inv (dheap s)" "h_live (dheap s) b = Some n" "h_live (dheap s') b \<noteq> None"
      using that(1,3) d_fail_block by (auto simp: collecting_def d_at_def d_ok_def)
  qed
  ultimately show ?thesis unfolding collecting_def [of _ _ _ _ q] by (rule hoare_also)
qed

lemma hoare_in_block: "k \<le> n \<Longrightarrow> hoare (collecting encoded B b n p) (in_block k b) (\<lambda>_. collecting encoded B b n p) J"
  by (auto simp: hoare_def in_block_def collecting_def)


lemma hoare_d_at_exact:
  assumes "\<And>k. p k \<Longrightarrow> hoare (d_at encoded B ((=) k)) m Q J"
  shows "hoare (d_at encoded B p) m Q J"
  using assms by (auto simp: hoare_def d_at_def)

lemma hoare_conj_pre: "(C \<Longrightarrow> hoare P m Q J) \<Longrightarrow> hoare (\<lambda>s. C \<and> P s) m Q J"
  by (auto simp: hoare_def)

lemma d_at_weaken: "d_at encoded B p s \<Longrightarrow> (\<And>k. p k \<Longrightarrow> q k) \<Longrightarrow> d_at encoded B q s"
  by (simp add: d_at_def)

lemma hoare_on_err:
  assumes "hoare P m Q (d_fail (insert b B))" and "b \<notin> B"
  shows "hoare P (on_err m (c_free b)) Q (d_fail B)"
proof (rule hoareI)
  fix s
  assume "P s"
  with assms(1) have "settles Q (d_fail (insert b B)) (m s)" by (rule hoareD)
  then show "settles Q (d_fail B) (on_err m (c_free b) s)"
    using d_fail_free [OF _ assms(2)]
    by (cases "m s"; cases "fst (m s)") (auto simp: on_err_def c_free_def)
qed

lemma hoare_get_offset:
  "hoare (d_at encoded B p) get_offset (\<lambda>x s. p x \<and> d_at encoded B ((=) x) s) J"
  by (auto simp: hoare_def get_offset_def d_at_def)

lemma hoare_collecting_exact:
  assumes "\<And>k. p k \<Longrightarrow> hoare (collecting encoded B b n ((=) k)) m Q J"
  shows "hoare (collecting encoded B b n p) m Q J"
  using assms by (auto simp: hoare_def collecting_def d_at_def)

lemma collecting_weaken: "collecting encoded B b n p s \<Longrightarrow> (\<And>k. p k \<Longrightarrow> q k) \<Longrightarrow> collecting encoded B b n q s"
  by (auto simp: collecting_def d_at_def)

lemma c_realloc_size: "c_realloc b n s = (Ok (Some b'), s') \<Longrightarrow> d_fail (insert b B) s \<Longrightarrow> h_live (dheap s') b' = Some n"
proof -
  assume run: "c_realloc b n s = (Ok (Some b'), s')" and s: "d_fail (insert b B) s"
  then obtain h where h: "heap_malloc n (dheap s) = (Some b', h)" "s' = s\<lparr>dheap := heap_free (Some b) h\<rparr>"
    by (auto simp: c_realloc_def heap_realloc_def split: prod.splits option.splits)
  note m = heap_malloc_Some [OF h(1) d_fail_block(1) [OF s]]
  have "b \<noteq> b'" using m(3) d_fail_block(2) [OF s] by auto
  then show "h_live (dheap s') b' = Some n" using m(4) h(2) by (simp add: heap_free_def)
qed

text \<open>After growing there is room for one more entry than the array holds.\<close>

lemma hoare_grow_entries:
  assumes b: "b \<notin> B" and n: "n \<le> allocated" "0 < allocated"
  shows "hoare (collecting encoded B b (allocated * sz) p) (grow_entries sz n b allocated)
    (\<lambda>(b', a) s. (b' \<notin> B \<and> n < a) \<and> collecting encoded B b' (a * sz) p s) (d_fail B)"
proof (cases "n \<ge> allocated")
  case True
  have out: "hoare (d_at encoded (insert b B) p) (bindP (c_free b) (\<lambda>_. throw e)) Q (d_fail B)" for e Q
    by (rule hoare_bind [OF hoare_c_free [OF b]]) (auto intro: hoare_throw simp: d_at_def d_ok_def)
  have "hoare (d_at encoded (insert b B) p) (c_realloc b (allocated * 2 * sz)) (\<lambda>r s. (case r of None \<Rightarrow> d_at encoded (insert b B) p s
       | Some b' \<Rightarrow> b' \<notin> B \<and> d_at encoded (insert b' B) p s) \<and> (\<forall>b'. r = Some b' \<longrightarrow> h_live (dheap s) b' = Some (allocated * 2 * sz))) (d_fail B)"
    by (rule hoare_also [OF hoare_c_realloc [OF b]]) (auto simp: d_at_def d_ok_def intro: c_realloc_size)
  then have realloc: "hoare (collecting encoded B b (allocated * sz) p) (c_realloc b (allocated * 2 * sz)) (\<lambda>r s. case r of
       None \<Rightarrow> d_at encoded (insert b B) p s | Some b' \<Rightarrow> b' \<notin> B \<and> collecting encoded B b' (allocated * 2 * sz) p s) (d_fail B)"
    by (rule hoare_conseq) (auto simp: collecting_def split: option.splits)
  show ?thesis
    unfolding grow_entries_def if_P [OF True]
  proof (rule hoare_bind [OF realloc])
    fix r
    show "hoare (\<lambda>s. case r of None \<Rightarrow> d_at encoded (insert b B) p s | Some b' \<Rightarrow> b' \<notin> B \<and> collecting encoded B b' (allocated * 2 * sz) p s)
       (case r of None \<Rightarrow> bindP (c_free b) (\<lambda>_. throw AMQP_STATUS_NO_MEMORY) | Some b \<Rightarrow> ret (b, allocated * 2))
       (\<lambda>(b', a) s. (b' \<notin> B \<and> n < a) \<and> collecting encoded B b' (a * sz) p s) (d_fail B)"
      using n out by (cases r) (auto simp: hoare_def ret_def)
  qed
qed (use n in \<open>auto simp: grow_entries_def b intro: hoare_ret\<close>)

lemma hoare_finish_entries:
  assumes "b \<notin> B" and "length es * sz \<le> n"
  shows "hoare (collecting encoded B b n p) (finish_entries sz es b) (\<lambda>_. d_at encoded B p) (d_fail B)"
proof -
  have alloc: "hoare (collecting encoded B b n p) (pool_alloc k) (\<lambda>_. collecting encoded B b n p) (d_fail B)" for k
    by (rule hoare_conseq [OF hoare_collecting [OF hoare_pool_alloc [of encoded "insert b B"]]])
      (auto simp: d_fail_def elim: foreign_mono intro: keeps_intros)
  have copy: "hoare (collecting encoded B b n p) (if q = None then ret () else in_block (length es * sz) b) (\<lambda>_. collecting encoded B b n p) (d_fail B)"
    for q :: "ptr option" using hoare_in_block [OF assms(2)] by (auto intro: hoare_ret)
  have free: "hoare (collecting encoded B b n p) (c_free b) (\<lambda>_. d_at encoded B p) (d_fail B)"
    by (rule hoare_conseq [OF hoare_c_free [OF assms(1)]]) (simp_all add: collecting_def)
  show ?thesis
    unfolding finish_entries_def
    by (rule hoare_bind [OF alloc], rule hoare_bind [OF copy], rule hoare_bind [OF free])
      (auto intro: hoare_ret hoare_throw simp: d_at_def d_ok_def)
qed

lemma hoare_opt_above:
  assumes "\<And>p. hoare_opt (d_at encoded B p) m (\<lambda>_. d_at encoded B (\<lambda>k. n \<le> k \<and> p (k - n))) J"
  shows "safe_opt (d_at encoded B ((<) off)) J m"
  by (rule hoare_conseq [OF assms [of "(<) off"]])
    (auto split: option.splits elim: d_at_weaken)

lemma safe_above [hoare_intros]:
  "safe_opt (d_at encoded B ((<) off)) (d_fail B) (amqp_decode_8 encoded)"
  "safe_opt (d_at encoded B ((<) off)) (d_fail B) (amqp_decode_16 encoded)"
  "safe_opt (d_at encoded B ((<) off)) (d_fail B) (amqp_decode_32 encoded)"
  "safe_opt (d_at encoded B ((<) off)) (d_fail B) (amqp_decode_64 encoded)"
  "n < 2 ^ 63 \<Longrightarrow> safe_opt (d_at encoded B ((<) off)) (d_fail B) (amqp_decode_bytes encoded n)"
  "safe (d_at encoded B ((<) off)) (d_fail B) (throw e)"
       apply (rule hoare_opt_above, rule hoare_prims(1-4))+
    apply (rule hoare_opt_above, rule hoare_prims, assumption)
  apply (auto intro: hoare_throw simp: d_at_def d_ok_def)
  done

lemma unat_uint32_less: "unat (n :: uint32) < 2 ^ 63"
  by (rule less_trans [OF unsigned_less]) simp

lemma unat_uint8_less: "unat (n :: uint8) < 2 ^ 63"
  by (rule less_trans [OF unsigned_less]) simp

lemma safe_decode_scalar: "safe (d_at encoded B ((<) off)) (d_fail B) (decode_scalar kind encoded)"
  unfolding decode_scalar_def by (intro hoare_intros unat_uint32_less)

text \<open>
  The triples of the five mutually recursive parts, for the fuel each needs with \<open>n\<close> bytes left.
\<close>

definition value_ok :: "nat \<Rightarrow> bool" where
  "value_ok f \<longleftrightarrow> (\<forall>encoded B k. 3 * (len encoded - k) + 1 \<le> f \<longrightarrow>
     hoare (d_at encoded B ((=) k)) (decode_field_value f encoded) (\<lambda>_. d_at encoded B ((<) k)) (d_fail B))"

definition array_ok :: "nat \<Rightarrow> bool" where
  "array_ok f \<longleftrightarrow> (\<forall>encoded B k. 3 * (len encoded - k) + 3 \<le> f \<longrightarrow>
     hoare (d_at encoded B ((=) k)) (decode_array f encoded) (\<lambda>_. d_at encoded B ((<) k)) (d_fail B))"

definition array_loop_ok :: "nat \<Rightarrow> bool" where
  "array_loop_ok f \<longleftrightarrow> (\<forall>encoded B b limit a vs k. b \<notin> B \<longrightarrow> length vs \<le> a \<longrightarrow> 0 < a \<longrightarrow>
     3 * (len encoded - k) + 2 \<le> f \<longrightarrow>
     hoare (collecting encoded B b (a * sizeof_field_value) ((=) k)) (array_loop f encoded limit b a vs)
       (\<lambda>_. d_at encoded B ((\<le>) k)) (d_fail B))"

definition table_ok :: "nat \<Rightarrow> bool" where
  "table_ok f \<longleftrightarrow> (\<forall>encoded B k. 3 * (len encoded - k) + 3 \<le> f \<longrightarrow>
     hoare (d_at encoded B ((=) k)) (decode_table f encoded) (\<lambda>_. d_at encoded B ((<) k)) (d_fail B))"

definition table_loop_ok :: "nat \<Rightarrow> bool" where
  "table_loop_ok f \<longleftrightarrow> (\<forall>encoded B b limit a es k. b \<notin> B \<longrightarrow> length es \<le> a \<longrightarrow> 0 < a \<longrightarrow>
     3 * (len encoded - k) + 2 \<le> f \<longrightarrow>
     hoare (collecting encoded B b (a * sizeof_table_entry) ((=) k)) (table_loop f encoded limit b a es)
       (\<lambda>_. d_at encoded B ((\<le>) k)) (d_fail B))"

lemma hoare_next:
  assumes "\<And>k. n \<le> k \<Longrightarrow> k - n = j \<Longrightarrow> k \<le> len encoded \<Longrightarrow> hoare (d_at encoded B ((=) k)) m Q J"
  shows "hoare (d_at encoded B (\<lambda>k. n \<le> k \<and> j = k - n)) m Q J"
  using assms by (fastforce simp: hoare_def d_at_def d_ok_def)

lemma hoare_above_exact:
  assumes "\<And>k. j < k \<Longrightarrow> k \<le> len encoded \<Longrightarrow> hoare (d_at encoded B ((=) k)) m Q J"
  shows "hoare (d_at encoded B ((<) j)) m Q J"
  using assms by (fastforce simp: hoare_def d_at_def d_ok_def)

lemma hoare_above_mono:
  "hoare P m (\<lambda>_. d_at encoded B ((<) k)) J \<Longrightarrow> j \<le> k \<Longrightarrow> hoare P m (\<lambda>_. d_at encoded B ((<) j)) J"
  "hoare P m (\<lambda>_. d_at encoded B ((\<le>) k)) J \<Longrightarrow> j < k \<Longrightarrow> hoare P m (\<lambda>_. d_at encoded B ((<) j)) J"
  "hoare P m (\<lambda>_. d_at encoded B ((\<le>) k)) J \<Longrightarrow> j \<le> k \<Longrightarrow> hoare P m (\<lambda>_. d_at encoded B ((\<le>) j)) J"
  by (erule hoare_conseq; auto simp: d_at_def)+

lemma hoare_above_ret: "hoare (d_at encoded B ((<) k)) (ret x) (\<lambda>_. d_at encoded B ((<) k)) J"
  by (rule hoare_ret)

lemma value_ok_Suc:
  assumes "array_ok f" and "table_ok f"
  shows "value_ok (Suc f)"
  unfolding value_ok_def decode_field_value.simps
proof (intro allI impI, rule hoare_bind [OF hoare_check [OF hoare_prims(1)]], rule hoare_next)
  fix encoded :: amqp_bytes_t and B :: "nat set" and k kind j
  assume fuel: "3 * (len encoded - k) + 1 \<le> Suc f" and j: "1 \<le> j" "j - 1 = k" "j \<le> len encoded"
  then have "3 * (len encoded - j) + 3 \<le> f" by arith
  then have "hoare (d_at encoded B ((=) j)) (decode_array f encoded) (\<lambda>_. d_at encoded B ((<) j)) (d_fail B)"
    "hoare (d_at encoded B ((=) j)) (decode_table f encoded) (\<lambda>_. d_at encoded B ((<) j)) (d_fail B)"
    using assms by (simp_all add: array_ok_def table_ok_def)
  moreover have "k \<le> j" using j by simp
  ultimately have "hoare (d_at encoded B ((=) j)) (decode_array f encoded) (\<lambda>_. d_at encoded B ((<) k)) (d_fail B)"
    "hoare (d_at encoded B ((=) j)) (decode_table f encoded) (\<lambda>_. d_at encoded B ((<) k)) (d_fail B)"
    by (blast intro: hoare_above_mono(1))+
  moreover have "hoare (d_at encoded B ((=) j)) (decode_scalar kind encoded) (\<lambda>_. d_at encoded B ((<) k)) (d_fail B)"
    by (rule hoare_conseq [OF safe_decode_scalar [of encoded B k]]) (use j in \<open>auto elim: d_at_weaken\<close>)
  ultimately show "hoare (d_at encoded B ((=) j))
      (if kind = AMQP_FIELD_KIND_ARRAY then bindP (decode_array f encoded) (\<lambda>vs. ret (FV_ARRAY vs))
       else if kind = AMQP_FIELD_KIND_TABLE then bindP (decode_table f encoded) (\<lambda>es. ret (FV_TABLE es))
       else decode_scalar kind encoded) (\<lambda>_. d_at encoded B ((<) k)) (d_fail B)"
    by (auto intro: hoare_bind hoare_above_ret)
qed

lemma hoare_sized:
  assumes loop: "\<And>b limit. b \<notin> B \<Longrightarrow> hoare (collecting encoded B b n ((=) j)) (loop limit b)
      (\<lambda>_. d_at encoded B ((<) k)) (d_fail B)"
  shows "hoare (d_at encoded B ((=) j))
    (bindP get_offset (\<lambda>off.
       if size_add sz off > len encoded then throw bad
       else bindP (check (c_malloc n) AMQP_STATUS_NO_MEMORY) (\<lambda>b. loop (size_add off sz) b)))
    (\<lambda>_. d_at encoded B ((<) k)) (d_fail B)"
proof (rule hoare_bind [OF hoare_get_offset], rule hoare_conj_pre)
  fix off
  assume j: "j = off"
  have size: "h_live (dheap s') b = Some n" if "check (c_malloc n) AMQP_STATUS_NO_MEMORY s = (Ok b, s')" for s b s'
    using that by (auto simp: check_def c_malloc_def heap_malloc_def Let_def bindP_def ret_def throw_def split: prod.splits if_splits)
  have malloc: "hoare (d_at encoded B ((=) off)) (check (c_malloc n) AMQP_STATUS_NO_MEMORY)
      (\<lambda>b s. (b \<notin> B \<and> d_at encoded (insert b B) ((=) off) s) \<and> h_live (dheap s) b = Some n) (d_fail B)"
    by (rule hoare_also [OF hoare_check [OF hoare_c_malloc]]) (rule size)
  have "hoare (d_at encoded B ((=) off)) (bindP (check (c_malloc n) AMQP_STATUS_NO_MEMORY) (\<lambda>b. loop limit b))
      (\<lambda>_. d_at encoded B ((<) k)) (d_fail B)" for limit
  proof (rule hoare_bind [OF malloc])
    fix b
    show "hoare (\<lambda>s. (b \<notin> B \<and> d_at encoded (insert b B) ((=) off) s) \<and> h_live (dheap s) b = Some n) (loop limit b)
        (\<lambda>_. d_at encoded B ((<) k)) (d_fail B)"
      using loop [of b limit] j by (auto simp: hoare_def collecting_def)
  qed
  then show "hoare (d_at encoded B ((=) off))
      (if size_add sz off > len encoded then throw bad
       else bindP (check (c_malloc n) AMQP_STATUS_NO_MEMORY) (\<lambda>b. loop (size_add off sz) b))
      (\<lambda>_. d_at encoded B ((<) k)) (d_fail B)"
    by (auto intro: hoare_throw simp: d_at_def d_ok_def)
qed

lemma array_ok_Suc:
  assumes "array_loop_ok f"
  shows "array_ok (Suc f)"
  unfolding array_ok_def decode_array.simps
proof (intro allI impI, rule hoare_bind [OF hoare_check [OF hoare_prims(3)]], rule hoare_next, rule hoare_sized)
  fix encoded :: amqp_bytes_t and B :: "nat set" and k j b limit
  assume "3 * (len encoded - k) + 3 \<le> Suc f" and j: "4 \<le> j" "j - 4 = k" "j \<le> len encoded" and "b \<notin> B"
  then have "hoare (collecting encoded B b (INITIAL_ARRAY_SIZE * sizeof_field_value) ((=) j)) (array_loop f encoded limit b INITIAL_ARRAY_SIZE [])
      (\<lambda>_. d_at encoded B ((\<le>) j)) (d_fail B)"
    using assms by (simp add: array_loop_ok_def INITIAL_ARRAY_SIZE_def)
  then show "hoare (collecting encoded B b (INITIAL_ARRAY_SIZE * sizeof_field_value) ((=) j)) (array_loop f encoded limit b INITIAL_ARRAY_SIZE [])
      (\<lambda>_. d_at encoded B ((<) k)) (d_fail B)"
    by (rule hoare_above_mono(2)) (use j in simp)
qed

lemma table_ok_Suc:
  assumes "table_loop_ok f"
  shows "table_ok (Suc f)"
  unfolding table_ok_def decode_table.simps
proof (intro allI impI, rule hoare_bind [OF hoare_check [OF hoare_prims(3)]], rule hoare_next, rule hoare_sized)
  fix encoded :: amqp_bytes_t and B :: "nat set" and k j b limit
  assume "3 * (len encoded - k) + 3 \<le> Suc f" and j: "4 \<le> j" "j - 4 = k" "j \<le> len encoded" and "b \<notin> B"
  then have "hoare (collecting encoded B b (INITIAL_TABLE_SIZE * sizeof_table_entry) ((=) j)) (table_loop f encoded limit b INITIAL_TABLE_SIZE [])
      (\<lambda>_. d_at encoded B ((\<le>) j)) (d_fail B)"
    using assms by (simp add: table_loop_ok_def INITIAL_TABLE_SIZE_def)
  then show "hoare (collecting encoded B b (INITIAL_TABLE_SIZE * sizeof_table_entry) ((=) j)) (table_loop f encoded limit b INITIAL_TABLE_SIZE [])
      (\<lambda>_. d_at encoded B ((<) k)) (d_fail B)"
    by (rule hoare_above_mono(2)) (use j in simp)
qed

text \<open>One round of a loop: a value is decoded and the loop goes on behind it.\<close>

lemma hoare_loop_value:
  assumes v: "value_ok f" and fuel: "3 * (len encoded - k) + 1 \<le> f" and b: "b \<notin> B"
    and loop: "\<And>v j. k < j \<Longrightarrow> j \<le> len encoded \<Longrightarrow> hoare (collecting encoded B b n ((=) j)) (loop v)
      (\<lambda>_. d_at encoded B ((\<le>) j)) (d_fail B)"
  shows "hoare (collecting encoded B b n ((=) k))
    (bindP (on_err (decode_field_value f encoded) (c_free b)) loop) (\<lambda>_. d_at encoded B ((\<le>) k)) (d_fail B)"
proof (rule hoare_bind [OF hoare_on_err [OF _ b]])
  show "hoare (collecting encoded B b n ((=) k)) (decode_field_value f encoded)
      (\<lambda>_. collecting encoded B b n ((<) k)) (d_fail (insert b B))"
    using v fuel dkeeps_decoders by (intro hoare_collecting) (auto simp: value_ok_def)
  show "hoare (collecting encoded B b n ((<) k)) (loop v) (\<lambda>_. d_at encoded B ((\<le>) k)) (d_fail B)" for v
  proof (rule hoareI)
    fix s assume s: "collecting encoded B b n ((<) k) s"
    then have "k < offset s" "offset s \<le> len encoded" "collecting encoded B b n ((=) (offset s)) s"
      by (auto simp: collecting_def d_at_def d_ok_def)
    then show "settles (\<lambda>_. d_at encoded B ((\<le>) k)) (d_fail B) (loop v s)"
      using hoareD [OF loop [of "offset s" v], of s] by (auto elim!: settles_mono simp: d_at_def)
  qed
qed

lemma array_loop_ok_Suc:
  assumes v: "value_ok f" and loop: "array_loop_ok f"
  shows "array_loop_ok (Suc f)"
  unfolding array_loop_ok_def array_loop.simps
proof (intro allI impI)
  fix encoded :: amqp_bytes_t and B :: "nat set" and b limit a k and vs :: amqp_array_t
  let ?n = "a * sizeof_field_value" and ?Q = "\<lambda>_. d_at encoded B ((\<le>) k)"
  assume b: "b \<notin> B" and a: "length vs \<le> a" "0 < a" and fuel: "3 * (len encoded - k) + 2 \<le> Suc f"
  have round: "hoare (collecting encoded B b' (a' * sizeof_field_value) ((=) k))
      (bindP (in_block ((length vs + 1) * sizeof_field_value) b') (\<lambda>_.
         bindP (on_err (decode_field_value f encoded) (c_free b')) (\<lambda>v. array_loop f encoded limit b' a' (vs @ [v]))))
      ?Q (d_fail B)" if "b' \<notin> B" "length vs < a'" for b' a'
  proof (rule hoare_bind [OF hoare_in_block])
    show "(length vs + 1) * sizeof_field_value \<le> a' * sizeof_field_value" using that by (intro mult_le_mono1) simp
  qed (use loop fuel that in \<open>intro hoare_loop_value [OF v], auto simp: array_loop_ok_def\<close>)
  have finish: "hoare (collecting encoded B b ?n ((=) k)) (finish_entries sizeof_field_value vs b) ?Q (d_fail B)"
    by (rule hoare_conseq [OF hoare_finish_entries [OF b, of _ _ ?n encoded "(=) k"]]) (use a in \<open>auto elim: d_at_weaken\<close>)
  have step: "hoare (collecting encoded B b ?n ((=) k))
      (bindP (grow_entries sizeof_field_value (length vs) b a) (\<lambda>(b, a).
         bindP (in_block ((length vs + 1) * sizeof_field_value) b) (\<lambda>_.
           bindP (on_err (decode_field_value f encoded) (c_free b)) (\<lambda>v. array_loop f encoded limit b a (vs @ [v])))))
      ?Q (d_fail B)"
    by (rule hoare_bind [OF hoare_grow_entries [OF b a]]) (use round in \<open>auto intro!: hoare_conj_pre split: prod.splits\<close>)
  show "hoare (collecting encoded B b ?n ((=) k)) (bindP get_offset (\<lambda>off.
      if off < limit then
         bindP (grow_entries sizeof_field_value (length vs) b a) (\<lambda>(b, a).
         bindP (in_block ((length vs + 1) * sizeof_field_value) b) (\<lambda>_.
           bindP (on_err (decode_field_value f encoded) (c_free b)) (\<lambda>v. array_loop f encoded limit b a (vs @ [v]))))
       else finish_entries sizeof_field_value vs b)) ?Q (d_fail B)"
    by (rule hoare_offset_if [OF step finish])
qed

lemma table_loop_ok_Suc:
  assumes v: "value_ok f" and loop: "table_loop_ok f"
  shows "table_loop_ok (Suc f)"
  unfolding table_loop_ok_def table_loop.simps
proof (intro allI impI)
  fix encoded :: amqp_bytes_t and B :: "nat set" and b limit a k and es :: amqp_table_t
  let ?n = "a * sizeof_table_entry" and ?Q = "\<lambda>_. d_at encoded B ((\<le>) k)"
  assume b: "b \<notin> B" and a: "length es \<le> a" "0 < a" and fuel: "3 * (len encoded - k) + 2 \<le> Suc f"
  let ?keylen = "on_err (check (amqp_decode_8 encoded) bad) (c_free b)"
  let ?key = "\<lambda>keylen b. on_err (check (amqp_decode_bytes encoded (unat (keylen :: uint8))) bad) (c_free b)"
  let ?val = "\<lambda>k b a. bindP (on_err (decode_field_value f encoded) (c_free b)) (\<lambda>v.
      table_loop f encoded limit b a (es @ [Entry k v]))"
  let ?slot = "\<lambda>b. in_block ((length es + 1) * sizeof_table_entry) b"
  have round: "hoare (collecting encoded B b' (a' * sizeof_table_entry) ((=) j)) (?val key b' a') ?Q (d_fail B)"
    if "b' \<notin> B" "length es < a'" "k \<le> j" for b' a' key j
    using loop fuel that
    by (intro hoare_above_mono(3) [OF hoare_loop_value [OF v] that(3)]) (auto simp: table_loop_ok_def)
  have read_key: "hoare (collecting encoded B b' n ((\<le>) k)) (?key keylen b') (\<lambda>_. collecting encoded B b' n ((\<le>) k)) (d_fail B)"
    if "b' \<notin> B" for b' n keylen
    by (rule hoare_on_err [OF hoare_collecting that], rule hoare_conseq [OF hoare_check [OF hoare_prims(5) [OF unat_uint8_less, where p = "(\<le>) k"]]])
      (auto elim: d_at_weaken intro: keeps_intros)
  have key: "hoare (collecting encoded B b' (a' * sizeof_table_entry) ((\<le>) k)) (bindP (?slot b') (\<lambda>_. bindP (?key keylen b') (\<lambda>key. ?val key b' a')))
      ?Q (d_fail B)" if "b' \<notin> B" "length es < a'" for b' a' keylen
  proof (rule hoare_bind [OF hoare_in_block])
    show "(length es + 1) * sizeof_table_entry \<le> a' * sizeof_table_entry" using that by (intro mult_le_mono1) simp
  qed (rule hoare_bind [OF read_key [OF that(1)]], rule hoare_collecting_exact, rule round [OF that])
  have keylen: "hoare (collecting encoded B b ?n ((=) k)) ?keylen (\<lambda>_. collecting encoded B b ?n ((\<le>) k)) (d_fail B)"
    by (rule hoare_on_err [OF hoare_collecting b], rule hoare_conseq [OF hoare_check [OF hoare_prims(1) [where p = "(=) k"]]])
      (auto elim: d_at_weaken intro: keeps_intros)
  have step: "hoare (collecting encoded B b ?n ((=) k)) (bindP ?keylen (\<lambda>keylen.
         bindP (grow_entries sizeof_table_entry (length es) b a) (\<lambda>(b, a).
           bindP (?slot b) (\<lambda>_. bindP (?key keylen b) (\<lambda>key. ?val key b a))))) ?Q (d_fail B)"
    by (rule hoare_bind [OF keylen], rule hoare_bind [OF hoare_grow_entries [OF b a]])
      (use key in \<open>auto intro!: hoare_conj_pre split: prod.splits\<close>)
  have finish: "hoare (collecting encoded B b ?n ((=) k)) (finish_entries sizeof_table_entry es b) ?Q (d_fail B)"
    by (rule hoare_conseq [OF hoare_finish_entries [OF b, of _ _ ?n encoded "(=) k"]]) (use a in \<open>auto elim: d_at_weaken\<close>)
  show "hoare (collecting encoded B b ?n ((=) k)) (bindP get_offset (\<lambda>off.
      if off < limit then
        bindP ?keylen (\<lambda>keylen. bindP (grow_entries sizeof_table_entry (length es) b a) (\<lambda>(b, a).
           bindP (?slot b) (\<lambda>_. bindP (?key keylen b) (\<lambda>key. ?val key b a))))
       else finish_entries sizeof_table_entry es b)) ?Q (d_fail B)"
    by (rule hoare_offset_if [OF step finish])
qed

lemma decoders_ok: "value_ok f \<and> array_ok f \<and> array_loop_ok f \<and> table_ok f \<and> table_loop_ok f"
proof (induction f)
  case 0
  show ?case
    by (simp add: value_ok_def array_ok_def array_loop_ok_def table_ok_def table_loop_ok_def)
next
  case (Suc f)
  then show ?case
    by (blast intro: value_ok_Suc array_ok_Suc array_loop_ok_Suc table_ok_Suc table_loop_ok_Suc)
qed

lemma dsafe_decode_table [hoare_intros]: "dsafe encoded B (amqp_decode_table encoded)"
proof (rule hoareI)
  fix s
  assume "d_ok encoded B s"
  then have s: "d_at encoded B ((=) (offset s)) s" by (simp add: d_at_def)
  have "hoare (d_at encoded B ((=) (offset s))) (amqp_decode_table encoded)
      (\<lambda>_. d_at encoded B ((<) (offset s))) (d_fail B)"
    using decoders_ok by (simp add: table_ok_def amqp_decode_table_def)
  from hoareD [OF this s] show "settles (\<lambda>_. d_ok encoded B) (d_fail B) (amqp_decode_table encoded s)"
    by (rule settles_mono) (simp_all add: d_at_def)
qed

text \<open>
  C8: decoding a table never reads outside the buffer, never writes an entry outside the temporary array it
  collects entries in, never runs forever, never frees a block twice
  and leaves the pool valid, for every buffer contents (any nesting, any declared sizes) and every
  pattern of allocation failures. On success the offset is behind the start and inside the buffer;
  the only statuses it fails with leave the caller's blocks untouched.
\<close>

theorem amqp_decode_table_safe:
  assumes "valid_bytes encoded" and "offset s \<le> len encoded"
    and "pool_inv (dpool s) (dheap s)" and "\<not> h_fault (dheap s)" and "foreign (dpool s) (dheap s) B"
  shows "case amqp_decode_table encoded s of
      (Ok es, s') \<Rightarrow> offset s < offset s' \<and> offset s' \<le> len encoded \<and> d_fail B s'
    | (Err e, s') \<Rightarrow> d_fail B s'
    | (Undefined, s') \<Rightarrow> False
    | (OutOfFuel, s') \<Rightarrow> False"
proof -
  have s: "d_at encoded B ((=) (offset s)) s"
    using assms by (simp add: d_at_def d_ok_def d_fail_def)
  have "hoare (d_at encoded B ((=) (offset s))) (amqp_decode_table encoded)
      (\<lambda>_. d_at encoded B ((<) (offset s))) (d_fail B)"
    using decoders_ok by (simp add: table_ok_def amqp_decode_table_def)
  from hoareD [OF this s] show ?thesis
    by (auto simp: d_at_def d_ok_def settles_iff split: prod.splits)
qed

section \<open>Encoding\<close>

definition too_big :: amqp_status_enum where
  "too_big = AMQP_STATUS_TABLE_TOO_BIG"

definition get_eoff :: "(estate, nat) prog" where
  "get_eoff = (\<lambda>s. (Ok (e_off s), s))"

definition skip_size :: "(estate, unit) prog" where
  "skip_size = (\<lambda>s. (Ok (), s\<lparr>e_off := size_add (e_off s) 4\<rparr>))"

text \<open>\<^verbatim>\<open>amqp_encode_32(encoded, &start, v)\<close>: the size field is filled in through the saved offset.\<close>

definition encode_32_at :: "nat \<Rightarrow> uint32 \<Rightarrow> (estate, bool) prog" where
  "encode_32_at start v = (\<lambda>s.
     case amqp_encode_32 v (s\<lparr>e_off := start\<rparr>) of (r, s') \<Rightarrow> (r, s'\<lparr>e_off := e_off s\<rparr>))"

text \<open>The frame that \<^verbatim>\<open>amqp_encode_array\<close> and \<^verbatim>\<open>amqp_encode_table\<close> share around their loops.\<close>

definition sized :: "(estate, unit) prog \<Rightarrow> (estate, unit) prog" where
  "sized body =
     bindP get_eoff (\<lambda>start.
     bindP skip_size (\<lambda>_.
     bindP body (\<lambda>_.
     bindP get_eoff (\<lambda>off.
       require (encode_32_at start (of_nat (size_sub (size_sub off start) 4))) too_big))))"

fun amqp_encode_field_value :: "amqp_field_value_t \<Rightarrow> (estate, unit) prog"
  and encode_values :: "amqp_array_t \<Rightarrow> (estate, unit) prog"
  and encode_entries :: "amqp_table_t \<Rightarrow> (estate, unit) prog"
where
  "amqp_encode_field_value v =
     bindP (require (amqp_encode_8 (field_kind v)) bad) (\<lambda>_.
       case v of
         FV_BOOLEAN b \<Rightarrow> require (amqp_encode_8 (if b then 1 else 0)) too_big
       | FV_I8 x \<Rightarrow> require (amqp_encode_8 x) too_big
       | FV_U8 x \<Rightarrow> require (amqp_encode_8 x) too_big
       | FV_I16 x \<Rightarrow> require (amqp_encode_16 x) too_big
       | FV_U16 x \<Rightarrow> require (amqp_encode_16 x) too_big
       | FV_I32 x \<Rightarrow> require (amqp_encode_32 x) too_big
       | FV_U32 x \<Rightarrow> require (amqp_encode_32 x) too_big
       | FV_I64 x \<Rightarrow> require (amqp_encode_64 x) too_big
       | FV_U64 x \<Rightarrow> require (amqp_encode_64 x) too_big
       | FV_F32 x \<Rightarrow> require (amqp_encode_32 x) too_big
       | FV_F64 x \<Rightarrow> require (amqp_encode_64 x) too_big
       | FV_DECIMAL d x \<Rightarrow>
           bindP (require (amqp_encode_8 d) too_big) (\<lambda>_. require (amqp_encode_32 x) too_big)
       | FV_UTF8 bs \<Rightarrow>
           bindP (require (amqp_encode_32 (of_nat (length bs))) too_big) (\<lambda>_.
             require (amqp_encode_bytes bs) too_big)
       | FV_BYTES bs \<Rightarrow>
           bindP (require (amqp_encode_32 (of_nat (length bs))) too_big) (\<lambda>_.
             require (amqp_encode_bytes bs) too_big)
       | FV_ARRAY vs \<Rightarrow> sized (encode_values vs)
       | FV_EMPTY_ARRAY \<Rightarrow> sized (ret ())
       | FV_TIMESTAMP x \<Rightarrow> require (amqp_encode_64 x) too_big
       | FV_TABLE es \<Rightarrow> sized (encode_entries es)
       | FV_VOID \<Rightarrow> ret ()
       | FV_OTHER k \<Rightarrow> throw AMQP_STATUS_INVALID_PARAMETER)"
| "encode_values [] = ret ()"
| "encode_values (v # vs) = bindP (amqp_encode_field_value v) (\<lambda>_. encode_values vs)"
| "encode_entries [] = ret ()"
| "encode_entries (Entry k v # es) =
     bindP (require (amqp_encode_8 (of_nat (length k))) too_big) (\<lambda>_.
     bindP (require (amqp_encode_bytes k) too_big) (\<lambda>_.
     bindP (amqp_encode_field_value v) (\<lambda>_. encode_entries es)))"

definition amqp_encode_array :: "amqp_array_t \<Rightarrow> (estate, unit) prog" where
  "amqp_encode_array input = sized (encode_values input)"

definition amqp_encode_table :: "amqp_table_t \<Rightarrow> (estate, unit) prog" where
  "amqp_encode_table input = sized (encode_entries input)"

section \<open>The wire grammar\<close>

fun ser_payload :: "amqp_field_value_t \<Rightarrow> byte list"
  and ser_values :: "amqp_array_t \<Rightarrow> byte list"
  and ser_entries :: "amqp_table_t \<Rightarrow> byte list"
where
  "ser_payload (FV_BOOLEAN b) = ser8 (if b then 1 else 0)"
| "ser_payload (FV_I8 x) = ser8 x"
| "ser_payload (FV_U8 x) = ser8 x"
| "ser_payload (FV_I16 x) = ser16 x"
| "ser_payload (FV_U16 x) = ser16 x"
| "ser_payload (FV_I32 x) = ser32 x"
| "ser_payload (FV_U32 x) = ser32 x"
| "ser_payload (FV_I64 x) = ser64 x"
| "ser_payload (FV_U64 x) = ser64 x"
| "ser_payload (FV_F32 x) = ser32 x"
| "ser_payload (FV_F64 x) = ser64 x"
| "ser_payload (FV_DECIMAL d x) = ser8 d @ ser32 x"
| "ser_payload (FV_UTF8 bs) = ser32 (of_nat (length bs)) @ bs"
| "ser_payload (FV_BYTES bs) = ser32 (of_nat (length bs)) @ bs"
| "ser_payload (FV_ARRAY vs) = (let b = ser_values vs in ser32 (of_nat (length b)) @ b)"
| "ser_payload (FV_TIMESTAMP x) = ser64 x"
| "ser_payload (FV_TABLE es) = (let b = ser_entries es in ser32 (of_nat (length b)) @ b)"
| "ser_payload FV_VOID = []"
| "ser_payload FV_EMPTY_ARRAY = ser32 0"
| "ser_payload (FV_OTHER k) = []"
| "ser_values [] = []"
| "ser_values (v # vs) = ser8 (field_kind v) @ ser_payload v @ ser_values vs"
| "ser_entries [] = []"
| "ser_entries (Entry k v # es) =
     ser8 (of_nat (length k)) @ k @ ser8 (field_kind v) @ ser_payload v @ ser_entries es"

definition ser_value :: "amqp_field_value_t \<Rightarrow> byte list" where
  "ser_value v = ser8 (field_kind v) @ ser_payload v"

lemma ser_values_Cons: "ser_values (v # vs) = ser_value v @ ser_values vs"
  by (simp add: ser_value_def)

lemma ser_entries_Cons:
  "ser_entries (Entry k v # es) = ser8 (of_nat (length k)) @ k @ ser_value v @ ser_entries es"
  by (simp add: ser_value_def)

definition ser_table :: "amqp_table_t \<Rightarrow> byte list" where
  "ser_table es = ser32 (of_nat (length (ser_entries es))) @ ser_entries es"

text \<open>
  Values the grammar can represent: keys of at most 255 bytes, strings, arrays and tables of less
  than \<open>2 ^ 32\<close> bytes, and only the enumerated kinds.
\<close>

fun wf_value :: "amqp_field_value_t \<Rightarrow> bool"
  and wf_values :: "amqp_array_t \<Rightarrow> bool"
  and wf_entries :: "amqp_table_t \<Rightarrow> bool"
where
  "wf_value v = (case v of
      FV_UTF8 bs \<Rightarrow> length bs < 2 ^ 32
    | FV_BYTES bs \<Rightarrow> length bs < 2 ^ 32
    | FV_ARRAY vs \<Rightarrow> wf_values vs \<and> length (ser_values vs) < 2 ^ 32
    | FV_TABLE es \<Rightarrow> wf_entries es \<and> length (ser_entries es) < 2 ^ 32
    | FV_EMPTY_ARRAY \<Rightarrow> False
    | FV_OTHER k \<Rightarrow> False
    | _ \<Rightarrow> True)"
| "wf_values [] = True"
| "wf_values (v # vs) = (wf_value v \<and> wf_values vs)"
| "wf_entries [] = True"
| "wf_entries (Entry k v # es) = (length k < 2 ^ 8 \<and> wf_value v \<and> wf_entries es)"

definition wf_table :: "amqp_table_t \<Rightarrow> bool" where
  "wf_table es \<longleftrightarrow> wf_entries es \<and> length (ser_entries es) < 2 ^ 32"

lemma size_written_back:
  assumes "e_ok 0 s" and "fits (ser32 x @ ws) s"
  shows "amqp_encode_32 x ((written ws (s\<lparr>e_off := e_off s + 4\<rparr>))\<lparr>e_off := e_off s\<rparr>) =
    (Ok True, (written (ser32 x @ ws) s)\<lparr>e_off := e_off s + 4\<rparr>)"
proof -
  have "size_add (e_off s) 4 = e_off s + 4"
    using assms by (intro size_add_small) (auto simp: e_ok_def ptrdiff_max_def)
  moreover have "e_off s + 4 + length ws \<le> length (e_mem s)" "e_off s + 4 \<le> e_len s"
    using assms by (auto simp: e_ok_def fits_def)
  ultimately show ?thesis
    by (simp add: amqp_encode_32_def amqp_e_ser encode_base_def mem_write_def written_def Let_def
        add.commute add.left_commute)
qed

lemma sized_steps:
  assumes s: "e_ok 0 s"
  defines "s1 \<equiv> s\<lparr>e_off := e_off s + 4\<rparr>"
  shows "e_ok 4 s1" and "sized body s = bindP body (\<lambda>_. bindP get_eoff (\<lambda>off.
      require (encode_32_at (e_off s) (of_nat (size_sub (size_sub off (e_off s)) 4))) too_big)) s1"
proof -
  have "size_add (e_off s) 4 = e_off s + 4"
    using s by (intro size_add_small) (auto simp: e_ok_def ptrdiff_max_def)
  then show "sized body s = bindP body (\<lambda>_. bindP get_eoff (\<lambda>off.
      require (encode_32_at (e_off s) (of_nat (size_sub (size_sub off (e_off s)) 4))) too_big)) s1"
    by (simp add: sized_def s1_def get_eoff_def skip_size_def bindP_Ok)
  show "e_ok 4 s1" using s by (simp add: s1_def e_ok_def)
qed

lemma emits_sized:
  assumes body: "encodes 4 body ws" and n: "length ws < 2 ^ 32"
  shows "emits (sized body) (ser32 (of_nat (length ws)) @ ws)"
proof (rule encodesI)
  fix s
  assume s: "e_ok 0 s" and room: "fits (ser32 (of_nat (length ws)) @ ws) s"
  let ?s1 = "s\<lparr>e_off := e_off s + 4\<rparr>"
  from room have "fits ws ?s1" by (auto simp: fits_def)
  note body1 = encodesD(1) [OF body sized_steps(1) [OF s] this]
  show "sized body s = (Ok (), written (ser32 (of_nat (length ws)) @ ws) s)"
    unfolding sized_steps(2) [OF s]
    using body1 size_written_back [OF s room]
    by (simp add: bindP_Ok get_eoff_def encode_32_at_def require_def ret_def written_def)
next
  fix s
  assume s: "e_ok 0 s" and no: "\<not> fits (ser32 (of_nat (length ws)) @ ws) s"
  let ?s1 = "s\<lparr>e_off := e_off s + 4\<rparr>"
  show "\<exists>e s'. sized body s = (Err e, s') \<and> same_outside s s'"
  proof (cases "fits ws ?s1")
    case True
    with no have full: "ws = []" "e_len s < e_off s + 4" by (auto simp: fits_def)
    have "size_add (e_off s) 4 = e_off s + 4"
      using s by (intro size_add_small) (auto simp: e_ok_def ptrdiff_max_def)
    then show ?thesis
      unfolding sized_steps(2) [OF s]
      using encodesD(1) [OF body sized_steps(1) [OF s] True] full
      by (simp add: bindP_Ok get_eoff_def encode_32_at_def require_def throw_def amqp_encode_32_def
          amqp_e_ser encode_base_def bindP_def Let_def same_outside_def)
  next
    case False
    obtain e s' where s': "body ?s1 = (Err e, s')" "same_outside ?s1 s'"
      using encodesD(2) [OF body sized_steps(1) [OF s] False] by blast
    have "same_outside s ?s1" by (simp add: same_outside_def)
    then have "same_outside s s'" using s'(2) by (rule same_outside_trans) simp
    then show ?thesis
      unfolding sized_steps(2) [OF s] using s'(1) by (simp add: bindP_Err)
  qed
qed

lemma ser_value_not_Nil [simp]: "ser_value v \<noteq> []"
  by (simp add: ser_value_def)

lemma encodes_field_value:
  shows "wf_value v \<Longrightarrow> encodes 4 (amqp_encode_field_value v) (ser_value v)"
    and "wf_values vs \<Longrightarrow> encodes 4 (encode_values vs) (ser_values vs)"
    and "wf_entries es \<Longrightarrow> encodes 4 (encode_entries es) (ser_entries es)"
proof (induction v and vs and es rule: amqp_encode_field_value_encode_values_encode_entries.induct)
  case (1 v)
  show ?case
    unfolding amqp_encode_field_value.simps ser_value_def
    by (rule encodes_bind_slack)
      (use 1 in \<open>auto split: amqp_field_value_t.splits simp: Let_def
         intro!: encodes_intros encodes_bind emits_sized\<close>)
next
  case (3 v vs)
  then show ?case
    unfolding ser_values_Cons by (auto intro: encodes_bind simp del: amqp_encode_field_value.simps)
next
  case (5 k v es)
  then show ?case
    unfolding ser_entries_Cons
    by (auto intro!: encodes_bind encodes_intros simp del: amqp_encode_field_value.simps)
qed (auto intro: encodes_intros)

lemma emits_table [encodes_intros]: "wf_table es \<Longrightarrow> emits (amqp_encode_table es) (ser_table es)"
  unfolding amqp_encode_table_def ser_table_def wf_table_def
  by (rule emits_sized) (auto intro: encodes_field_value)

section \<open>Decoding what the grammar describes\<close>

lemma heap_free_grant: "h_grant (heap_free p h) = h_grant h"
  by (simp add: heap_free_def split: option.splits)

lemma ready_c_malloc:
  assumes "ready B s"
  obtains b s' where "c_malloc n s = (Ok (Some b), s')" "b \<notin> B" "offset s' = offset s" "ready (insert b B) s'"
proof -
  from assms obtain b h where run: "heap_malloc n (dheap s) = (Some b, h)"
    using generous_malloc [of "dheap s" n] by (auto simp: ready_def)
  from assms have "d_fail B s" by (simp add: ready_def)
  from d_fail_malloc(2) [OF this run] have "d_fail (insert b B) (s\<lparr>dheap := h\<rparr>)" "b \<notin> B" by simp_all
  then show ?thesis
    using that [of b "s\<lparr>dheap := h\<rparr>"] run assms
    by (auto simp: c_malloc_def ready_def generous_def heap_malloc_grant [OF run])
qed

lemma ready_c_free:
  assumes "ready (insert b B) s" and "b \<notin> B"
  shows "ready B (s\<lparr>dheap := heap_free (Some b) (dheap s)\<rparr>)"
  using assms d_fail_free by (auto simp: ready_def generous_def heap_free_grant)

lemma ready_heap: "ready (insert b B) s \<Longrightarrow> heap_inv (dheap s)" "ready (insert b B) s \<Longrightarrow> h_live (dheap s) b \<noteq> None"
  using d_fail_block by (auto simp: ready_def)

lemma ready_block:
  assumes "dkeeps m" and "m s = (r, s')" and "ready (insert b B) s" and "ready (insert b B) s'" and "h_live (dheap s) b = Some n"
  shows "h_live (dheap s') b = Some n"
proof (rule evolves_block)
  show "evolves (dheap s) (dheap s')" using assms(1,2) by (metis dkeeps_def snd_conv)
qed (use ready_heap assms in auto)

lemma in_block_Ok: "h_live (dheap s) b = Some n \<Longrightarrow> k \<le> n \<Longrightarrow> in_block k b s = (Ok (), s)"
  by (simp add: in_block_def)

lemma ready_grow_entries:
  assumes r: "ready (insert b B) s" and b: "b \<notin> B" and size: "h_live (dheap s) b = Some (a * sz)" and n: "n \<le> a" "0 < a"
  obtains b' a' s' where "grow_entries sz n b a s = (Ok (b', a'), s')" "b' \<notin> B" "offset s' = offset s"
    "ready (insert b' B) s'" "h_live (dheap s') b' = Some (a' * sz)" "n < a'"
proof (cases "n \<ge> a")
  case True
  from r obtain b' s1 where m: "c_malloc (a * 2 * sz) s = (Ok (Some b'), s1)" "b' \<notin> insert b B"
    "offset s1 = offset s" "ready (insert b' (insert b B)) s1"
    by (rule ready_c_malloc)
  let ?s = "s1\<lparr>dheap := heap_free (Some b) (dheap s1)\<rparr>"
  from m(2,4) b have "ready (insert b' B) ?s"
    by (intro ready_c_free) (auto simp: insert_commute)
  moreover have run: "c_realloc b (a * 2 * sz) s = (Ok (Some b'), ?s)"
    using m(1) by (auto simp: c_malloc_def c_realloc_def heap_realloc_def split: prod.splits)
  moreover have "h_live (dheap ?s) b' = Some (a * 2 * sz)" using c_realloc_size [OF run, of B] r unfolding ready_def by blast
  ultimately show ?thesis
    using that [of b' "a * 2" ?s] True n m(2,3) by (simp add: grow_entries_def outcome_simps)
next
  case False
  then show ?thesis using that [of b a s] r b size by (simp add: grow_entries_def ret_def)
qed

lemma ready_finish_entries:
  assumes r: "ready (insert b B) s" and b: "b \<notin> B" and sz: "sz \<noteq> 0" and size: "h_live (dheap s) b = Some n" "length es * sz \<le> n"
  obtains s' where "finish_entries sz es b s = (Ok es, s')" "offset s' = offset s" "ready B s'"
proof (cases "es = []")
  case True
  then have "finish_entries sz es b s = (Ok es, s\<lparr>dheap := heap_free (Some b) (dheap s)\<rparr>)"
    by (simp add: finish_entries_def pool_alloc_def amqp_pool_alloc_def c_free_def outcome_simps)
  then show ?thesis using that ready_c_free [OF r b] by simp
next
  case False
  with sz have "length es * sz \<noteq> 0" by simp
  then obtain q s1 where s1: "pool_alloc (length es * sz) s = (Ok (Some q), s1)" "offset s1 = offset s"
    "ready (insert b B) s1"
    using r by (rule ready_pool_alloc)
  have "h_live (dheap s1) b = Some n" by (rule ready_block [OF dkeeps_alloc(1) s1(1) r s1(3) size(1)])
  from in_block_Ok [OF this size(2)] s1
  have "finish_entries sz es b s = (Ok es, s1\<lparr>dheap := heap_free (Some b) (dheap s1)\<rparr>)"
    by (simp add: finish_entries_def c_free_def outcome_simps)
  then show ?thesis using that ready_c_free [OF s1(3) b] s1(2) by simp
qed

lemma on_err_Ok: "m s = (Ok x, s') \<Longrightarrow> on_err m c s = (Ok x, s')"
  by (simp add: on_err_def)

text \<open>What the loops do on the serialization of a list of values or entries.\<close>

definition reads_values :: "amqp_bytes_t \<Rightarrow> nat \<Rightarrow> amqp_array_t \<Rightarrow> bool" where
  "reads_values encoded f vs \<longleftrightarrow> (\<forall>B b a acc s. b \<notin> B \<and> at encoded (ser_values vs) s \<and> ready (insert b B) s
       \<and> h_live (dheap s) b = Some (a * sizeof_field_value) \<and> length acc \<le> a \<and> 0 < a \<longrightarrow>
     (\<exists>s'. array_loop f encoded (offset s + length (ser_values vs)) b a acc s = (Ok (acc @ vs), s')
        \<and> offset s' = offset s + length (ser_values vs) \<and> ready B s'))"

definition reads_entries :: "amqp_bytes_t \<Rightarrow> nat \<Rightarrow> amqp_table_t \<Rightarrow> bool" where
  "reads_entries encoded f es \<longleftrightarrow> (\<forall>B b a acc s. b \<notin> B \<and> at encoded (ser_entries es) s \<and> ready (insert b B) s
       \<and> h_live (dheap s) b = Some (a * sizeof_table_entry) \<and> length acc \<le> a \<and> 0 < a \<longrightarrow>
     (\<exists>s'. table_loop f encoded (offset s + length (ser_entries es)) b a acc s = (Ok (acc @ es), s')
        \<and> offset s' = offset s + length (ser_entries es) \<and> ready B s'))"

lemma reads_values_Nil: "reads_values encoded (Suc f) []"
  unfolding reads_values_def
proof (intro allI impI, elim conjE)
  fix B b a s and acc :: amqp_array_t
  assume "b \<notin> B" and r: "ready (insert b B) s" and "h_live (dheap s) b = Some (a * sizeof_field_value)" and "length acc \<le> a"
  with ready_finish_entries [of b B s sizeof_field_value "a * sizeof_field_value" acc]
  obtain s' where "finish_entries sizeof_field_value acc b s = (Ok acc, s')" "offset s' = offset s" "ready B s'"
    by (auto simp: sizeof_field_value_def)
  then show "\<exists>s'. array_loop (Suc f) encoded (offset s + length (ser_values [])) b a acc s = (Ok (acc @ []), s')
      \<and> offset s' = offset s + length (ser_values []) \<and> ready B s'"
    by (simp add: get_offset_def outcome_simps)
qed

lemma reads_entries_Nil: "reads_entries encoded (Suc f) []"
  unfolding reads_entries_def
proof (intro allI impI, elim conjE)
  fix B b a s and acc :: amqp_table_t
  assume "b \<notin> B" and r: "ready (insert b B) s" and "h_live (dheap s) b = Some (a * sizeof_table_entry)" and "length acc \<le> a"
  with ready_finish_entries [of b B s sizeof_table_entry "a * sizeof_table_entry" acc]
  obtain s' where "finish_entries sizeof_table_entry acc b s = (Ok acc, s')" "offset s' = offset s" "ready B s'"
    by (auto simp: sizeof_table_entry_def)
  then show "\<exists>s'. table_loop (Suc f) encoded (offset s + length (ser_entries [])) b a acc s = (Ok (acc @ []), s')
      \<and> offset s' = offset s + length (ser_entries []) \<and> ready B s'"
    by (simp add: get_offset_def outcome_simps)
qed

lemma reads_values_Cons:
  assumes v: "reads encoded (decode_field_value f encoded) (ser_value v) v" and vs: "reads_values encoded f vs"
  shows "reads_values encoded (Suc f) (v # vs)"
  unfolding reads_values_def
proof (intro allI impI, elim conjE)
  fix B b a s and acc :: amqp_array_t
  assume b: "b \<notin> B" and here: "at encoded (ser_values (v # vs)) s" and r: "ready (insert b B) s"
    and size: "h_live (dheap s) b = Some (a * sizeof_field_value)" "length acc \<le> a" "0 < a"
  from r b size obtain b' a' s1 where s1: "grow_entries sizeof_field_value (length acc) b a s = (Ok (b', a'), s1)"
    "b' \<notin> B" "offset s1 = offset s" "ready (insert b' B) s1" "h_live (dheap s1) b' = Some (a' * sizeof_field_value)" "length acc < a'"
    by (rule ready_grow_entries)
  have "(length acc + 1) * sizeof_field_value \<le> a' * sizeof_field_value" using s1(6) by (intro mult_le_mono1) simp
  note slot = in_block_Ok [OF s1(5) this]
  have here1: "at encoded (ser_value v @ ser_values vs) s1"
    using here s1(3) by (simp add: at_def ser_value_def)
  from v at_append(1) [OF here1] s1(4) obtain s2 where s2: "decode_field_value f encoded s1 = (Ok v, s2)"
    "offset s2 = offset s1 + length (ser_value v)" "ready (insert b' B) s2"
    by (rule readsE)
  have "h_live (dheap s2) b' = Some (a' * sizeof_field_value)" by (rule ready_block [OF dkeeps_decoders [THEN conjunct1] s2(1) s1(4) s2(3) s1(5)])
  moreover have "length (acc @ [v]) \<le> a'" "0 < a'" using s1(6) by auto
  moreover note vs s1(2) at_append(2) [OF here1 s2(2)] s2(3)
  ultimately obtain s3 where s3:
    "array_loop f encoded (offset s2 + length (ser_values vs)) b' a' (acc @ [v]) s2 = (Ok ((acc @ [v]) @ vs), s3)"
    "offset s3 = offset s2 + length (ser_values vs)" "ready B s3"
    unfolding reads_values_def by blast
  have "0 < length (ser_value v)" by simp
  then show "\<exists>s'. array_loop (Suc f) encoded (offset s + length (ser_values (v # vs))) b a acc s =
      (Ok (acc @ v # vs), s') \<and> offset s' = offset s + length (ser_values (v # vs)) \<and> ready B s'"
    using s1(1-4) s2 s3 slot unfolding ser_values_Cons
    by (simp add: get_offset_def bindP_Ok on_err_Ok add.assoc del: mult_Suc mult_Suc_right add_mult_distrib length_0_conv length_greater_0_conv ser_values.simps)
qed

lemma unat_of_nat_32: "n < 2 ^ 32 \<Longrightarrow> unat (of_nat n :: uint32) = n"
  by (simp add: unsigned_of_nat take_bit_nat_eq_self)

lemma unat_of_nat_8: "n < 2 ^ 8 \<Longrightarrow> unat (of_nat n :: uint8) = n"
  by (simp add: unsigned_of_nat take_bit_nat_eq_self)

lemma reads_entries_Cons:
  assumes v: "reads encoded (decode_field_value f encoded) (ser_value v) v" and es: "reads_entries encoded f es"
    and k: "length k < 2 ^ 8"
  shows "reads_entries encoded (Suc f) (Entry k v # es)"
  unfolding reads_entries_def
proof (intro allI impI, elim conjE)
  fix B b a s and acc :: amqp_table_t
  let ?n = "of_nat (length k) :: uint8"
  assume b: "b \<notin> B" and here: "at encoded (ser_entries (Entry k v # es)) s" and r: "ready (insert b B) s"
    and size: "h_live (dheap s) b = Some (a * sizeof_table_entry)" "length acc \<le> a" "0 < a"
  from here have here: "at encoded (ser8 ?n @ k @ ser_value v @ ser_entries es) s" by (simp only: ser_entries_Cons)
  from reads_8 at_append(1) [OF here] r obtain s1 where s1: "amqp_decode_8 encoded s = (Ok (Some ?n), s1)"
    "offset s1 = offset s + length (ser8 ?n)" "ready (insert b B) s1"
    by (rule readsE)
  note here1 = at_append(2) [OF here s1(2)]
  have "h_live (dheap s1) b = Some (a * sizeof_table_entry)" by (rule ready_block [OF dkeeps_prims(1) s1(1) r s1(3) size(1)])
  from s1(3) b this size(2,3) obtain b' a' s2 where s2: "grow_entries sizeof_table_entry (length acc) b a s1 = (Ok (b', a'), s2)"
    "b' \<notin> B" "offset s2 = offset s1" "ready (insert b' B) s2" "h_live (dheap s2) b' = Some (a' * sizeof_table_entry)" "length acc < a'"
    by (rule ready_grow_entries)
  have "(length acc + 1) * sizeof_table_entry \<le> a' * sizeof_table_entry" using s2(6) by (intro mult_le_mono1) simp
  note slot = in_block_Ok [OF s2(5) this]
  have here2: "at encoded (k @ ser_value v @ ser_entries es) s2"
    using here1 s2(3) by (simp add: at_def)
  from reads_bytes [OF unat_of_nat_8 [OF k]] at_append(1) [OF here2] s2(4)
  obtain s3 where s3: "amqp_decode_bytes encoded (unat ?n) s2 = (Ok (Some k), s3)"
    "offset s3 = offset s2 + length k" "ready (insert b' B) s3"
    by (rule readsE)
  note here3 = at_append(2) [OF here2 s3(2)]
  from v at_append(1) [OF here3] s3(3) obtain s4 where s4: "decode_field_value f encoded s3 = (Ok v, s4)"
    "offset s4 = offset s3 + length (ser_value v)" "ready (insert b' B) s4"
    by (rule readsE)
  have "h_live (dheap s3) b' = Some (a' * sizeof_table_entry)" by (rule ready_block [OF dkeeps_prims(5) s3(1) s2(4) s3(3) s2(5)])
  then have "h_live (dheap s4) b' = Some (a' * sizeof_table_entry)" by (rule ready_block [OF dkeeps_decoders [THEN conjunct1] s4(1) s3(3) s4(3)])
  moreover have "length (acc @ [Entry k v]) \<le> a'" "0 < a'" using s2(6) by auto
  moreover note es s2(2) at_append(2) [OF here3 s4(2)] s4(3)
  ultimately obtain s5 where s5:
    "table_loop f encoded (offset s4 + length (ser_entries es)) b' a' (acc @ [Entry k v]) s4 =
       (Ok ((acc @ [Entry k v]) @ es), s5)"
    "offset s5 = offset s4 + length (ser_entries es)" "ready B s5"
    unfolding reads_entries_def by blast
  show "\<exists>s'. table_loop (Suc f) encoded (offset s + length (ser_entries (Entry k v # es))) b a acc s =
      (Ok (acc @ Entry k v # es), s') \<and> offset s' = offset s + length (ser_entries (Entry k v # es)) \<and> ready B s'"
    using s1 s2(1-4) s3 s4 s5 slot unfolding ser_entries_Cons
    by (simp add: get_offset_def bindP_Ok on_err_Ok check_Some add.assoc del: mult_Suc mult_Suc_right add_mult_distrib ser_entries.simps)
qed

text \<open>The size field and the first temporary array, common to arrays and tables.\<close>

lemma reads_sized:
  assumes n: "length ws < 2 ^ 32"
    and loop: "\<And>B b s. b \<notin> B \<Longrightarrow> at encoded ws s \<Longrightarrow> ready (insert b B) s \<Longrightarrow> h_live (dheap s) b = Some k \<Longrightarrow>
      \<exists>s'. loop (offset s + length ws) b s = (Ok v, s') \<and> offset s' = offset s + length ws \<and> ready B s'"
  shows "reads encoded
    (bindP (check (amqp_decode_32 encoded) bad) (\<lambda>size.
       bindP get_offset (\<lambda>off.
         if size_add (unat size) off > len encoded then throw bad
         else bindP (check (c_malloc k) AMQP_STATUS_NO_MEMORY) (\<lambda>b. loop (size_add off (unat size)) b))))
    (ser32 (of_nat (length ws)) @ ws) v"
proof (rule reads_bind [OF reads_check [OF reads_32]], rule readsI)
  fix B s
  assume here: "at encoded ws s" and "ready B s"
  then obtain b s1 where s1: "c_malloc k s = (Ok (Some b), s1)" "b \<notin> B" "offset s1 = offset s"
    "ready (insert b B) s1"
    by (blast elim: ready_c_malloc)
  from here have bound: "offset s + length ws \<le> len encoded" "len encoded < 2 ^ 63"
    by (auto simp: at_def valid_bytes_def ptrdiff_max_def)
  then have add: "size_add (length ws) (offset s) = offset s + length ws"
    "size_add (offset s) (length ws) = offset s + length ws"
    by (simp_all add: add.commute)
  have "at encoded ws s1" using here s1(3) by (simp add: at_def)
  moreover have "h_live (dheap s1) b = Some k"
    using s1(1) by (auto simp: c_malloc_def heap_malloc_def Let_def split: if_splits prod.splits)
  ultimately obtain s' where "loop (offset s + length ws) b s1 = (Ok v, s')"
    "offset s' = offset s + length ws" "ready B s'"
    using loop [OF s1(2) _ s1(4)] s1(3) by auto
  then show "\<exists>s'. bindP get_offset (\<lambda>off.
      if size_add (unat (of_nat (length ws) :: uint32)) off > len encoded then throw bad
      else bindP (check (c_malloc k) AMQP_STATUS_NO_MEMORY)
        (\<lambda>b. loop (size_add off (unat (of_nat (length ws) :: uint32))) b)) s = (Ok v, s')
      \<and> offset s' = offset s + length ws \<and> ready B s'"
    using s1(1) bound add unat_of_nat_32 [OF n] by (simp add: get_offset_def outcome_simps)
qed

lemma reads_valuesD:
  assumes "reads_values encoded f vs" and "b \<notin> B" and "at encoded (ser_values vs) s" and "ready (insert b B) s"
    and "h_live (dheap s) b = Some (a * sizeof_field_value)" and "0 < a"
  shows "\<exists>s'. array_loop f encoded (offset s + length (ser_values vs)) b a [] s = (Ok vs, s')
    \<and> offset s' = offset s + length (ser_values vs) \<and> ready B s'"
  using assms(1) [unfolded reads_values_def, THEN spec, of B, THEN spec, of b, THEN spec, of a,
      THEN spec, of "[]", THEN spec, of s] assms(2-) by simp

lemma reads_entriesD:
  assumes "reads_entries encoded f es" and "b \<notin> B" and "at encoded (ser_entries es) s" and "ready (insert b B) s"
    and "h_live (dheap s) b = Some (a * sizeof_table_entry)" and "0 < a"
  shows "\<exists>s'. table_loop f encoded (offset s + length (ser_entries es)) b a [] s = (Ok es, s')
    \<and> offset s' = offset s + length (ser_entries es) \<and> ready B s'"
  using assms(1) [unfolded reads_entries_def, THEN spec, of B, THEN spec, of b, THEN spec, of a,
      THEN spec, of "[]", THEN spec, of s] assms(2-) by simp

lemma reads_array:
  assumes "length (ser_values vs) < 2 ^ 32" and "reads_values encoded f vs"
  shows "reads encoded (decode_array (Suc f) encoded) (ser32 (of_nat (length (ser_values vs))) @ ser_values vs) vs"
  unfolding decode_array.simps by (rule reads_sized [OF assms(1)]) (rule reads_valuesD [OF assms(2)], simp_all add: INITIAL_ARRAY_SIZE_def)

lemma reads_table_body:
  assumes "length (ser_entries es) < 2 ^ 32" and "reads_entries encoded f es"
  shows "reads encoded (decode_table (Suc f) encoded) (ser_table es) es"
  unfolding decode_table.simps ser_table_def
  by (rule reads_sized [OF assms(1)]) (rule reads_entriesD [OF assms(2)], simp_all add: INITIAL_TABLE_SIZE_def)

lemma reads_then_ret: "reads encoded m ws x \<Longrightarrow> reads encoded (bindP m (\<lambda>x. ret (f x))) ws (f x)"
  using reads_bind [of encoded m ws x "\<lambda>x. ret (f x)" "[]" "f x"] reads_ret [of encoded "f x"] by simp

lemma reads_check_ret:
  "reads encoded m ws (Some x) \<Longrightarrow> reads encoded (bindP (check m e) (\<lambda>x. ret (f x))) ws (f x)"
  by (rule reads_then_ret [OF reads_check])

lemma reads_string:
  assumes "length bs < 2 ^ 32"
  shows "reads encoded (bindP (check (amqp_decode_32 encoded) bad) (\<lambda>n.
      bindP (check (amqp_decode_bytes encoded (unat n)) bad) (\<lambda>bs. ret (f bs))))
    (ser32 (of_nat (length bs)) @ bs) (f bs)"
  by (rule reads_bind [OF reads_check [OF reads_32]])
    (rule reads_check_ret [OF reads_bytes [OF unat_of_nat_32 [OF assms]]])

lemma reads_decimal:
  "reads encoded (bindP (check (amqp_decode_8 encoded) bad) (\<lambda>d.
      bindP (check (amqp_decode_32 encoded) bad) (\<lambda>x. ret (FV_DECIMAL d x)))) (ser8 d @ ser32 x) (FV_DECIMAL d x)"
  by (rule reads_bind [OF reads_check [OF reads_8]]) (rule reads_check_ret [OF reads_32])

lemma reads_boolean:
  "reads encoded (bindP (check (amqp_decode_8 encoded) bad) (\<lambda>val. ret (FV_BOOLEAN (val \<noteq> 0))))
     (ser8 (if b then 1 else 0)) (FV_BOOLEAN b)"
  using reads_check_ret [OF reads_8 [of encoded "if b then 1 else 0"], of bad "\<lambda>val. FV_BOOLEAN (val \<noteq> 0)"]
  by (cases b) auto

lemmas reads_scalar_rules =
  reads_boolean reads_decimal reads_string reads_ret
  reads_check_ret [OF reads_8] reads_check_ret [OF reads_16] reads_check_ret [OF reads_32]
  reads_check_ret [OF reads_64]

lemma reads_scalar:
  assumes "wf_value v" and "\<forall>vs. v \<noteq> FV_ARRAY vs" and "\<forall>es. v \<noteq> FV_TABLE es"
  shows "reads encoded (decode_scalar (field_kind v) encoded) (ser_payload v) v"
    and "field_kind v \<noteq> AMQP_FIELD_KIND_ARRAY" and "field_kind v \<noteq> AMQP_FIELD_KIND_TABLE"
proof -
  show "reads encoded (decode_scalar (field_kind v) encoded) (ser_payload v) v"
    using assms by (cases v) (simp_all add: decode_scalar_def kind_simps reads_scalar_rules)
  show "field_kind v \<noteq> AMQP_FIELD_KIND_ARRAY" "field_kind v \<noteq> AMQP_FIELD_KIND_TABLE"
    using assms by (cases v; simp add: kind_simps)+
qed

lemma reads_value_Suc:
  assumes wf: "wf_value v" and fuel: "3 * length (ser_value v) + 1 \<le> Suc f"
    and vs: "\<And>vs g. v = FV_ARRAY vs \<Longrightarrow> 3 * length (ser_values vs) + 2 \<le> g \<Longrightarrow> reads_values encoded g vs"
    and es: "\<And>es g. v = FV_TABLE es \<Longrightarrow> 3 * length (ser_entries es) + 2 \<le> g \<Longrightarrow> reads_entries encoded g es"
  shows "reads encoded (decode_field_value (Suc f) encoded) (ser_value v) v"
  unfolding decode_field_value.simps ser_value_def
proof (rule reads_bind [OF reads_check [OF reads_8]])
  consider (array) vs where "v = FV_ARRAY vs" | (table) es where "v = FV_TABLE es"
    | (scalar) "\<forall>vs. v \<noteq> FV_ARRAY vs" "\<forall>es. v \<noteq> FV_TABLE es" by blast
  then show "reads encoded
      (if field_kind v = AMQP_FIELD_KIND_ARRAY then bindP (decode_array f encoded) (\<lambda>vs. ret (FV_ARRAY vs))
       else if field_kind v = AMQP_FIELD_KIND_TABLE then bindP (decode_table f encoded) (\<lambda>es. ret (FV_TABLE es))
       else decode_scalar (field_kind v) encoded) (ser_payload v) v"
  proof cases
    case array
    with fuel obtain g where g: "f = Suc g" "3 * length (ser_values vs) + 2 \<le> g"
      by (cases f) (auto simp: ser_value_def Let_def)
    have "reads encoded (bindP (decode_array f encoded) (\<lambda>vs. ret (FV_ARRAY vs))) (ser_payload v) (FV_ARRAY vs)"
      using wf array reads_array [OF _ assms(3) [OF array g(2)]] g(1)
      by (simp add: Let_def reads_then_ret del: decode_array.simps)
    with array show ?thesis by simp
  next
    case table
    with fuel obtain g where g: "f = Suc g" "3 * length (ser_entries es) + 2 \<le> g"
      by (cases f) (auto simp: ser_value_def Let_def)
    have "reads encoded (bindP (decode_table f encoded) (\<lambda>es. ret (FV_TABLE es))) (ser_payload v) (FV_TABLE es)"
      using wf table reads_table_body [OF _ assms(4) [OF table g(2)]] g(1)
      by (simp add: Let_def reads_then_ret ser_table_def del: decode_table.simps)
    with table show ?thesis by (simp add: kind_simps)
  next
    case scalar
    then show ?thesis using reads_scalar [OF wf scalar] by simp
  qed
qed

lemma reads_all:
  shows "wf_value v \<Longrightarrow> 3 * length (ser_value v) + 1 \<le> f \<Longrightarrow>
      reads encoded (decode_field_value f encoded) (ser_value v) v"
    and "wf_values vs \<Longrightarrow> 3 * length (ser_values vs) + 2 \<le> f \<Longrightarrow> reads_values encoded f vs"
    and "wf_entries es \<Longrightarrow> 3 * length (ser_entries es) + 2 \<le> f \<Longrightarrow> reads_entries encoded f es"
proof (induction v and vs and es arbitrary: f and f and f
    rule: amqp_encode_field_value_encode_values_encode_entries.induct)
  case (1 v)
  then obtain g where g: "f = Suc g" by (cases f) auto
  show ?case
    unfolding g
    by (rule reads_value_Suc) (use 1 g in auto)
next
  case 2
  then show ?case by (cases f) (auto intro: reads_values_Nil)
next
  case (3 v vs)
  have "0 < length (ser_value v)" by simp
  with 3 obtain g where "f = Suc g" "3 * length (ser_value v) + 1 \<le> g" "3 * length (ser_values vs) + 2 \<le> g"
    unfolding ser_values_Cons by (cases f) (auto simp del: length_greater_0_conv)
  with 3 show ?case by (auto intro: reads_values_Cons)
next
  case 4
  then show ?case by (cases f) (auto intro: reads_entries_Nil)
next
  case (5 k v es)
  then obtain g where "f = Suc g" "3 * length (ser_value v) + 1 \<le> g" "3 * length (ser_entries es) + 2 \<le> g"
    unfolding ser_entries_Cons by (cases f) auto
  with 5 show ?case by (auto intro: reads_entries_Cons)
qed

lemma reads_table [reads_intros]:
  assumes "wf_table es"
  shows "reads encoded (amqp_decode_table encoded) (ser_table es) es"
proof (rule readsI)
  fix B s
  assume here: "at encoded (ser_table es) s" and r: "ready B s"
  then have "4 + length (ser_entries es) \<le> len encoded" by (simp add: at_def ser_table_def)
  then obtain g where g: "3 * len encoded + 3 = Suc g" "3 * length (ser_entries es) + 2 \<le> g" by simp
  have "reads encoded (decode_table (Suc g) encoded) (ser_table es) es"
    using assms reads_all(3) [OF _ g(2)] by (intro reads_table_body) (auto simp: wf_table_def)
  from readsE [OF this here r] show "\<exists>s'. amqp_decode_table encoded s = (Ok es, s')
      \<and> offset s' = offset s + length (ser_table es) \<and> ready B s'"
    unfolding amqp_decode_table_def g(1) by metis
qed

text \<open>
  C7: a well-formed table that the encoder accepts is decoded back to itself, entry for entry, from the very
  bytes it wrote, at any offset of any buffer and whatever surrounds them, and the decoder stops
  where the encoder did, given memory for the decoder. Well-formed is a table whose keys have at most 255 bytes, whose strings, arrays and
  tables fit their size fields, whose kinds are known and whose arrays of no entries have a null pointer, at every depth; the
  encoder accepts more, see \<open>table_key_length_truncated\<close>.
\<close>

theorem table_round_trip:
  assumes "wf_table es" and "e_ok 0 s" and "amqp_encode_table es s = (Ok (), s')"
    and "offset d = e_off s" and "ready {} d"
  shows "\<exists>d'. amqp_decode_table \<lparr>len = e_len s', bytes = e_mem s'\<rparr> d = (Ok es, d') \<and> offset d' = e_off s'"
  by (rule codec_round_trip [OF emits_table [OF assms(1)] reads_table [OF assms(1)] assms(2-5)])

text \<open>
  C19: encoding a well-formed table succeeds exactly when its wire format fits the buffer; then
  exactly those bytes are written and nothing else changes. Otherwise an error is reported, and
  neither the bytes in front of the table nor any memory outside the buffer changes.
\<close>

theorem amqp_encode_table_exact:
  assumes "wf_table es" and "e_ok 0 s"
  shows "if e_off s + length (ser_table es) \<le> e_len s
    then amqp_encode_table es s = (Ok (), written (ser_table es) s)
    else \<exists>e s'. amqp_encode_table es s = (Err e, s') \<and> same_outside s s'"
  using emits_table [OF assms(1)] assms(2) by (auto simp: encodes_def fits_def ser_table_def)

text \<open>
  the encoder writes the length of a key as one byte without checking it, so a key of more than
  255 bytes is accepted and written with a wrong length byte.
\<close>

theorem table_key_length_truncated:
  assumes "255 < length k" and "wf_value v" and "length k + length (ser_value v) < 2 ^ 31" and "e_ok 0 s"
    and "e_off s + (5 + length k + length (ser_value v)) \<le> e_len s"
  shows "\<exists>s'. amqp_encode_table [Entry k v] s = (Ok (), s')
    \<and> take (1 + length k) (drop (e_off s + 4) (e_mem s')) = ser8 (of_nat (length k)) @ k
    \<and> unat (of_nat (length k) :: uint8) < length k"
proof -
  let ?ws = "ser8 (of_nat (length k)) @ k @ ser_value v @ []"
  have "encodes 4 (encode_entries [Entry k v]) ?ws"
    using assms unfolding encode_entries.simps
    by (intro encodes_bind encodes_intros encodes_field_value(1)) auto
  then have "emits (amqp_encode_table [Entry k v]) (ser32 (of_nat (length ?ws)) @ ?ws)"
    unfolding amqp_encode_table_def using assms by (intro emits_sized) auto
  then have run: "amqp_encode_table [Entry k v] s = (Ok (), written (ser32 (of_nat (length ?ws)) @ ?ws) s)"
    by (rule encodesD(1)) (use assms in \<open>auto simp: fits_def\<close>)
  have "e_off s + 4 - min (length (e_mem s)) (e_off s) = 4"
    using assms by (simp add: e_ok_def)
  moreover have "unat (of_nat (length k) :: uint8) < length k"
    by (rule less_le_trans [OF unsigned_less]) (use assms(1) in simp)
  ultimately show ?thesis
    using run by (simp add: written_def)
qed

section \<open>Order, lookup and construction of entries\<close>

text \<open>\<^verbatim>\<open>memcmp\<close>: the sign of the first difference, bytes compared as unsigned numbers.\<close>

fun memcmp :: "byte list \<Rightarrow> byte list \<Rightarrow> int" where
  "memcmp (x # xs) (y # ys) = (if x = y then memcmp xs ys else if x < y then -1 else 1)"
| "memcmp _ _ = 0"

definition to_int :: "nat \<Rightarrow> int" where
  "to_int n = sint (of_nat n :: 32 word)"

definition amqp_table_entry_cmp :: "amqp_table_entry_t \<Rightarrow> amqp_table_entry_t \<Rightarrow> int" where
  "amqp_table_entry_cmp p1 p2 =
     (let minlen = (if length (key p2) < length (key p1) then length (key p2) else length (key p1));
          d = memcmp (take minlen (key p1)) (take minlen (key p2))
      in if d \<noteq> 0 then d else to_int (length (key p1)) - to_int (length (key p2)))"

fun amqp_table_get_entry_by_key :: "amqp_table_t \<Rightarrow> byte list \<Rightarrow> amqp_table_entry_t option" where
  "amqp_table_get_entry_by_key [] k = None"
| "amqp_table_get_entry_by_key (e # es) k =
     (if amqp_bytes_equal (of_list (key e)) (of_list k) = Ok True then Some e
      else amqp_table_get_entry_by_key es k)"

definition cstr :: "byte list \<Rightarrow> byte list" where
  "cstr s = takeWhile (\<lambda>c. c \<noteq> 0) s"

definition amqp_table_construct_utf8_entry :: "byte list \<Rightarrow> byte list \<Rightarrow> amqp_table_entry_t" where
  "amqp_table_construct_utf8_entry k v = Entry (cstr k) (FV_UTF8 (cstr v))"

definition amqp_table_construct_table_entry :: "byte list \<Rightarrow> amqp_table_t \<Rightarrow> amqp_table_entry_t" where
  "amqp_table_construct_table_entry k v = Entry (cstr k) (FV_TABLE v)"

definition amqp_table_construct_bool_entry :: "byte list \<Rightarrow> int \<Rightarrow> amqp_table_entry_t" where
  "amqp_table_construct_bool_entry k v = Entry (cstr k) (FV_BOOLEAN (v \<noteq> 0))"

lemma to_int_small: "n < 2 ^ 31 \<Longrightarrow> to_int n = int n"
  by (simp add: to_int_def signed_of_nat signed_take_bit_int_eq_self)

lemma memcmp_take_lex:
  "memcmp (take (min (length xs) (length ys)) xs) (take (min (length xs) (length ys)) ys) < 0 \<or>
     memcmp (take (min (length xs) (length ys)) xs) (take (min (length xs) (length ys)) ys) = 0 \<and> length xs < length ys
   \<longleftrightarrow> xs < ys"
  by (induction xs ys rule: memcmp.induct) (auto simp: neq_Nil_conv dest: dual_order.strict_implies_not_eq)

lemma memcmp_take_eq:
  "memcmp (take (min (length xs) (length ys)) xs) (take (min (length xs) (length ys)) ys) = 0 \<and> length xs = length ys
   \<longleftrightarrow> xs = ys"
  by (induction xs ys rule: memcmp.induct) auto

text \<open>
  the comparison function handed to \<^verbatim>\<open>qsort\<close> is the lexicographic order of the keys as unsigned
  bytes, for keys shorter than \<open>2 ^ 31\<close> bytes: negative exactly for smaller keys, zero exactly for
  equal keys. In particular it is a total order, so sorting is well defined.
\<close>

theorem amqp_table_entry_cmp_order:
  assumes "length (key e1) < 2 ^ 31" and "length (key e2) < 2 ^ 31"
  shows "(amqp_table_entry_cmp e1 e2 < 0 \<longleftrightarrow> key e1 < key e2)
    \<and> (amqp_table_entry_cmp e1 e2 = 0 \<longleftrightarrow> key e1 = key e2)
    \<and> (amqp_table_entry_cmp e1 e2 > 0 \<longleftrightarrow> key e2 < key e1)"
proof -
  let ?n = "if length (key e2) < length (key e1) then length (key e2) else length (key e1)"
  have n: "?n = min (length (key e1)) (length (key e2))" by simp
  have cmp: "amqp_table_entry_cmp e1 e2 =
      (let d = memcmp (take ?n (key e1)) (take ?n (key e2))
       in if d \<noteq> 0 then d else int (length (key e1)) - int (length (key e2)))"
    using assms by (simp add: amqp_table_entry_cmp_def to_int_small Let_def)
  have lt: "amqp_table_entry_cmp e1 e2 < 0 \<longleftrightarrow> key e1 < key e2"
    unfolding memcmp_take_lex [symmetric] cmp n by (auto simp: Let_def)
  have eq: "amqp_table_entry_cmp e1 e2 = 0 \<longleftrightarrow> key e1 = key e2"
    unfolding memcmp_take_eq [symmetric] cmp n by (auto simp: Let_def)
  from lt eq show ?thesis by (metis linorder_neqE linorder_not_less order_less_le not_less_iff_gr_or_eq)
qed

text \<open>The lookup finds the first entry with the key.\<close>

lemma get_entry_by_key_find:
  "list_all (\<lambda>e. length (key e) \<le> ptrdiff_max) es \<Longrightarrow> length k \<le> ptrdiff_max \<Longrightarrow>
   amqp_table_get_entry_by_key es k = List.find (\<lambda>e. key e = k) es"
  by (induction es) (auto simp: amqp_bytes_equal_iff valid_bytes_def)

section \<open>Cloning\<close>

text \<open>
  The clone of a byte string, of an array and of a table each take one allocation from the pool. An
  array or table without entries has a null entry pointer, as the decoder leaves it.
\<close>

definition clone_bytes :: "byte list \<Rightarrow> (pool_state, byte list) prog" where
  "clone_bytes bs = bindP (amqp_pool_alloc_bytes (length bs)) (\<lambda>(n, p).
     if p = None then throw AMQP_STATUS_NO_MEMORY else ret (take n bs))"

definition clone_block :: "nat \<Rightarrow> (pool_state, unit) prog" where
  "clone_block n = bindP (amqp_pool_alloc n) (\<lambda>p.
     if p = None then throw AMQP_STATUS_NO_MEMORY else ret ())"

definition clone_table :: "(pool_state, amqp_table_t) prog \<Rightarrow> nat \<Rightarrow> (pool_state, amqp_table_t) prog" where
  "clone_table loop num_entries =
     (if num_entries = 0 then ret []
      else bindP (clone_block (num_entries * sizeof_table_entry)) (\<lambda>_. loop))"

fun amqp_field_value_clone :: "amqp_field_value_t \<Rightarrow> (pool_state, amqp_field_value_t) prog"
  and clone_values :: "amqp_array_t \<Rightarrow> (pool_state, amqp_array_t) prog"
  and clone_entries :: "amqp_table_t \<Rightarrow> (pool_state, amqp_table_t) prog"
where
  "amqp_field_value_clone original =
     (case original of
        FV_UTF8 bs \<Rightarrow>
          if length bs = 0 then ret (FV_UTF8 []) else bindP (clone_bytes bs) (\<lambda>c. ret (FV_UTF8 c))
      | FV_BYTES bs \<Rightarrow>
          if length bs = 0 then ret (FV_BYTES []) else bindP (clone_bytes bs) (\<lambda>c. ret (FV_BYTES c))
      | FV_ARRAY vs \<Rightarrow>
          if length vs = 0 then ret (FV_ARRAY [])
          else bindP (clone_block (length vs * sizeof_field_value)) (\<lambda>_.
            bindP (clone_values vs) (\<lambda>c. ret (FV_ARRAY c)))
      | FV_EMPTY_ARRAY \<Rightarrow> bindP (clone_block (0 * sizeof_field_value)) (\<lambda>_. ret FV_EMPTY_ARRAY)
      | FV_TABLE es \<Rightarrow> bindP (clone_table (clone_entries es) (length es)) (\<lambda>c. ret (FV_TABLE c))
      | FV_OTHER k \<Rightarrow> throw AMQP_STATUS_INVALID_PARAMETER
      | v \<Rightarrow> ret v)"
| "clone_values [] = ret []"
| "clone_values (v # vs) =
     bindP (amqp_field_value_clone v) (\<lambda>c. bindP (clone_values vs) (\<lambda>cs. ret (c # cs)))"
| "clone_entries [] = ret []"
| "clone_entries (Entry k v # es) =
     (if length k = 0 then throw AMQP_STATUS_INVALID_PARAMETER
      else bindP (clone_bytes k) (\<lambda>ck.
        bindP (amqp_field_value_clone v) (\<lambda>c. bindP (clone_entries es) (\<lambda>cs. ret (Entry ck c # cs)))))"

definition amqp_table_clone :: "amqp_table_t \<Rightarrow> (pool_state, amqp_table_t) prog" where
  "amqp_table_clone original = clone_table (clone_entries original) (length original)"

text \<open>
  What can be cloned: no entry, at any depth, has an empty key, an unknown kind, or an array of no entries with a
  pointer that is not null: for that one the pool is asked for a block of no bytes, and answers with a null pointer.
\<close>

fun clonable_value :: "amqp_field_value_t \<Rightarrow> bool"
  and clonable_values :: "amqp_array_t \<Rightarrow> bool"
  and clonable_entries :: "amqp_table_t \<Rightarrow> bool"
where
  "clonable_value v = (case v of
      FV_ARRAY vs \<Rightarrow> clonable_values vs | FV_TABLE es \<Rightarrow> clonable_entries es | FV_EMPTY_ARRAY \<Rightarrow> False
    | FV_OTHER k \<Rightarrow> False | _ \<Rightarrow> True)"
| "clonable_values [] = True"
| "clonable_values (v # vs) = (clonable_value v \<and> clonable_values vs)"
| "clonable_entries [] = True"
| "clonable_entries (Entry k v # es) = (k \<noteq> [] \<and> clonable_value v \<and> clonable_entries es)"

definition pool_ready :: "pool_state \<Rightarrow> bool" where
  "pool_ready = (\<lambda>(p, h). pool_inv p h)"

text \<open>
  \<open>clones m v ok\<close>: from a valid pool the program returns exactly \<open>v\<close>, and only if \<open>ok\<close>, or fails with
  the pool still valid; and from a pool that serves every request it returns if \<open>ok\<close>.
\<close>

definition pool_generous :: "pool_state \<Rightarrow> bool" where
  "pool_generous = (\<lambda>(p, h). pool_inv p h \<and> generous h)"

definition clones :: "(pool_state, 'a) prog \<Rightarrow> 'a \<Rightarrow> bool \<Rightarrow> bool" where
  "clones m v ok \<longleftrightarrow> hoare pool_ready m (\<lambda>x s. x = v \<and> ok \<and> pool_ready s) pool_ready
     \<and> (ok \<longrightarrow> (\<forall>s. pool_generous s \<longrightarrow> (\<exists>s'. m s = (Ok v, s') \<and> pool_generous s')))"

lemma clones_ret: "clones (ret v) v True"
  by (auto simp: clones_def hoare_def ret_def)

lemma clones_throw: "clones (throw e) v False"
  by (auto simp: clones_def hoare_def throw_def)

lemma clones_bind:
  assumes m: "clones m x a" and k: "clones (k x) y b"
  shows "clones (bindP m k) y (a \<and> b)"
proof -
  have "hoare pool_ready (bindP m k) (\<lambda>z s. z = y \<and> (a \<and> b) \<and> pool_ready s) pool_ready"
  proof (rule hoare_bind)
    show "hoare pool_ready m (\<lambda>z s. z = x \<and> a \<and> pool_ready s) pool_ready"
      using m by (simp add: clones_def)
    show "hoare (\<lambda>s. z = x \<and> a \<and> pool_ready s) (k z) (\<lambda>z s. z = y \<and> (a \<and> b) \<and> pool_ready s) pool_ready" for z
      using k by (auto simp: clones_def hoare_def elim!: settles_mono)
  qed
  moreover have "\<exists>s'. bindP m k s = (Ok y, s') \<and> pool_generous s'" if "a \<and> b" "pool_generous s" for s
    using that m k unfolding clones_def by (metis bindP_Ok)
  ultimately show ?thesis by (simp add: clones_def)
qed

lemma pool_alloc_clones:
  assumes "n \<noteq> 0"
  shows "hoare pool_ready (amqp_pool_alloc n) (\<lambda>_. pool_ready) pool_ready"
    and "pool_generous s \<Longrightarrow> \<exists>q s'. amqp_pool_alloc n s = (Ok (Some q), s') \<and> pool_generous s'"
proof -
  show "hoare pool_ready (amqp_pool_alloc n) (\<lambda>_. pool_ready) pool_ready"
  proof (rule hoareI)
    fix s
    assume "pool_ready s"
    then obtain p h where s: "s = (p, h)" "pool_inv p h" by (auto simp: pool_ready_def)
    obtain r p' h' where run: "amqp_pool_alloc n (p, h) = (r, p', h')" by (metis surj_pair)
    show "settles (\<lambda>_. pool_ready) pool_ready (amqp_pool_alloc n s)"
      using pool_alloc_settles [OF s(2) run] run s(1) by (auto simp: pool_ready_def)
  qed
  assume "pool_generous s"
  then obtain p h where s: "s = (p, h)" "pool_inv p h" "generous h" by (auto simp: pool_generous_def)
  from generous_pool_alloc [OF s(2,3) assms] obtain q p' h' where
    "amqp_pool_alloc n (p, h) = (Ok (Some q), p', h')" "pool_inv p' h'" "generous h'" .
  with s(1) show "\<exists>q s'. amqp_pool_alloc n s = (Ok (Some q), s') \<and> pool_generous s'"
    by (auto simp: pool_generous_def)
qed

lemma clones_alloc:
  assumes "n \<noteq> 0"
  shows "clones (bindP (amqp_pool_alloc n) (\<lambda>p. if p = None then throw AMQP_STATUS_NO_MEMORY else ret v)) v True"
proof -
  have "hoare pool_ready (if p = None then throw AMQP_STATUS_NO_MEMORY else ret v)
      (\<lambda>x s. x = v \<and> True \<and> pool_ready s) pool_ready" for p :: "ptr option"
    by (auto intro: hoare_ret hoare_throw)
  note hoare_bind [OF pool_alloc_clones(1) [OF assms] this]
  moreover have "\<exists>s'. bindP (amqp_pool_alloc n) (\<lambda>p. if p = None then throw AMQP_STATUS_NO_MEMORY else ret v) s
      = (Ok v, s') \<and> pool_generous s'" if "pool_generous s" for s
    using pool_alloc_clones(2) [OF assms that] by (auto simp: bindP_def ret_def)
  ultimately show ?thesis by (simp add: clones_def)
qed

lemma clones_block: "n \<noteq> 0 \<Longrightarrow> clones (clone_block n) () True"
  unfolding clone_block_def by (rule clones_alloc)

lemma clones_bytes:
  assumes "bs \<noteq> []"
  shows "clones (clone_bytes bs) bs True"
proof -
  have eq: "clone_bytes bs = bindP (amqp_pool_alloc (length bs)) (\<lambda>p.
      if p = None then throw AMQP_STATUS_NO_MEMORY else ret bs)"
    by (auto simp: clone_bytes_def amqp_pool_alloc_bytes_def bindP_def ret_def split: prod.splits outcome.splits)
  show ?thesis
    unfolding eq by (rule clones_alloc) (use assms in simp)
qed

lemma clones_then_ret: "clones m x a \<Longrightarrow> clones (bindP m (\<lambda>x. ret (f x))) (f x) a"
  using clones_bind [of m x a "\<lambda>x. ret (f x)" "f x" True] clones_ret [of "f x"] by auto

lemma clones_table:
  "clones loop es a \<Longrightarrow> n = length es \<Longrightarrow> (es = [] \<Longrightarrow> a) \<Longrightarrow> clones (clone_table loop n) es a"
  using clones_bind [OF clones_block, of "length es * sizeof_table_entry" "\<lambda>_. loop" es a] clones_ret [of es]
  by (auto simp: clone_table_def sizeof_table_entry_def)

lemma clones_all:
  shows "clones (amqp_field_value_clone v) v (clonable_value v)"
    and "clones (clone_values vs) vs (clonable_values vs)"
    and "clones (clone_entries es) es (clonable_entries es)"
proof (induction v and vs and es rule: amqp_encode_field_value_encode_values_encode_entries.induct)
  case (1 v)
  then show ?case
  proof (cases v)
    case (FV_ARRAY vs)
    have "clones (bindP (clone_block (length vs * sizeof_field_value)) (\<lambda>_.
        bindP (clone_values vs) (\<lambda>c. ret (FV_ARRAY c)))) (FV_ARRAY vs) (True \<and> clonable_values vs)" if "vs \<noteq> []"
      using that 1(1) [OF FV_ARRAY]
      by (intro clones_bind [OF clones_block] clones_then_ret) (auto simp: sizeof_field_value_def)
    then show ?thesis using FV_ARRAY clones_ret [of "FV_ARRAY []"] by (cases vs) auto
  next
    case (FV_TABLE es)
    have "clones (clone_table (clone_entries es) (length es)) es (clonable_entries es)"
      by (rule clones_table [OF 1(2) [OF FV_TABLE]]) auto
    then show ?thesis using FV_TABLE clones_then_ret by auto
  next
    case FV_EMPTY_ARRAY
    have "bindP (clone_block 0) (\<lambda>_. ret FV_EMPTY_ARRAY) = throw AMQP_STATUS_NO_MEMORY"
      by (rule ext) (auto simp: clone_block_def amqp_pool_alloc_def bindP_def throw_def split: prod.splits)
    then show ?thesis using FV_EMPTY_ARRAY clones_throw by simp
  qed (auto intro: clones_ret clones_throw clones_then_ret clones_bytes)
next
  case (3 v vs)
  then show ?case
    using clones_bind [OF 3(1), of "\<lambda>c. bindP (clone_values vs) (\<lambda>cs. ret (c # cs))" "v # vs"]
      clones_then_ret [OF 3(2), of "(#) v"]
    by (simp del: amqp_field_value_clone.simps clonable_value.simps)
next
  case (5 k v es)
  have "clones (bindP (amqp_field_value_clone v) (\<lambda>c. bindP (clone_entries es) (\<lambda>cs. ret (Entry k c # cs))))
      (Entry k v # es) (clonable_value v \<and> clonable_entries es)"
    by (rule clones_bind [OF 5(1)]) (rule clones_then_ret [OF 5(2)])
  then show ?case
    using clones_bind [OF clones_bytes, of k "\<lambda>ck. bindP (amqp_field_value_clone v) (\<lambda>c.
        bindP (clone_entries es) (\<lambda>cs. ret (Entry ck c # cs)))"] clones_throw
    by (auto simp del: amqp_field_value_clone.simps clonable_value.simps)
qed (auto intro: clones_ret)

text \<open>
  C24: cloning a table either returns an equal table or fails, in both cases with a valid pool and
  without undefined behaviour. With memory available it succeeds exactly when no entry at any depth
  has an empty key, an unknown kind, or an array of no entries whose pointer is not null; so a table with an
  empty key, which the decoder accepts, cannot be cloned.
\<close>

theorem amqp_table_clone_equal:
  assumes "pool_inv p h"
  shows "case amqp_table_clone es (p, h) of
      (Ok es', p', h') \<Rightarrow> es' = es \<and> clonable_entries es \<and> pool_inv p' h'
    | (Err e, p', h') \<Rightarrow> pool_inv p' h' \<and> (generous h \<longrightarrow> \<not> clonable_entries es)
    | _ \<Rightarrow> False"
proof -
  have "clones (amqp_table_clone es) es (clonable_entries es)"
    unfolding amqp_table_clone_def by (rule clones_table [OF clones_all(3)]) auto
  then have *: "settles (\<lambda>x s. x = es \<and> clonable_entries es \<and> pool_ready s) pool_ready (amqp_table_clone es (p, h))"
    "clonable_entries es \<Longrightarrow> generous h \<Longrightarrow> \<exists>s'. amqp_table_clone es (p, h) = (Ok es, s')"
    unfolding clones_def hoare_def using assms by (simp add: pool_ready_def, fastforce simp: pool_generous_def)
  then show ?thesis
    by (cases "amqp_table_clone es (p, h)") (auto simp: settles_iff pool_ready_def)
qed

section \<open>Concrete instances\<close>

definition sample_table :: amqp_table_t where
  "sample_table = [Entry [0x61] (FV_BOOLEAN True), Entry [0x62, 0x63] (FV_TABLE [Entry [] FV_VOID])]"

definition blank :: "nat \<Rightarrow> estate" where
  "blank n = \<lparr>e_len = n, e_mem = replicate n 0, e_off = 0\<rparr>"

definition start :: dstate where
  "start = \<lparr>offset = 0, dpool = init_amqp_pool 64, dheap = fresh_heap\<rparr>"

lemma blank_ok [simp]: "n \<le> ptrdiff_max \<Longrightarrow> e_ok 0 (blank n)"
  by (simp add: e_ok_def blank_def)

lemma start_ready [simp]: "ready {} start" "d_fail {} start"
  using small_pool_inv by (simp_all add: ready_def d_fail_def start_def foreign_def fresh_heap_def generous_def)

lemma start_offset [simp]: "offset start = 0"
  by (simp add: start_def)

lemma sample_wf [simp]: "wf_table sample_table"
  by (simp add: wf_table_def sample_table_def Let_def)

lemma sample_length: "length (ser_table sample_table) = 18"
  by (simp add: ser_table_def sample_table_def Let_def)

theorem amqp_decode_table_safe_witness:
  "case amqp_decode_table \<lparr>len = 3, bytes = [0, 0, 0]\<rparr> start of
      (Ok es, s') \<Rightarrow> offset start < offset s' \<and> offset s' \<le> len \<lparr>len = 3, bytes = [0, 0, 0 :: byte]\<rparr>
        \<and> d_fail {} s'
    | (Err e, s') \<Rightarrow> d_fail {} s'
    | (Undefined, s') \<Rightarrow> False
    | (OutOfFuel, s') \<Rightarrow> False"
  using amqp_decode_table_safe [of "\<lparr>len = 3, bytes = [0, 0, 0]\<rparr>" start "{}"] start_ready(2)
  by (simp add: d_fail_def valid_bytes_def ptrdiff_max_def)

theorem table_round_trip_witness:
  "\<exists>s' d'. amqp_encode_table sample_table (blank 32) = (Ok (), s')
    \<and> amqp_decode_table \<lparr>len = e_len s', bytes = e_mem s'\<rparr> start = (Ok sample_table, d') \<and> offset d' = e_off s'"
proof -
  have "amqp_encode_table sample_table (blank 32) = (Ok (), written (ser_table sample_table) (blank 32))"
    using encodesD(1) [OF emits_table [OF sample_wf] blank_ok [of 32]]
    by (simp add: fits_def sample_length blank_def ptrdiff_max_def)
  with table_round_trip [OF sample_wf blank_ok [of 32] this, of start] show ?thesis
    by (auto simp: ptrdiff_max_def blank_def)
qed

theorem amqp_encode_table_exact_witness:
  "amqp_encode_table sample_table (blank 32) = (Ok (), written (ser_table sample_table) (blank 32))
   \<and> (\<exists>e s'. amqp_encode_table sample_table (blank 17) = (Err e, s') \<and> same_outside (blank 17) s')"
  using amqp_encode_table_exact [OF sample_wf blank_ok [of 32]] amqp_encode_table_exact [OF sample_wf blank_ok [of 17]]
  by (simp add: sample_length blank_def ptrdiff_max_def)

theorem table_key_length_truncated_witness:
  "\<exists>s'. amqp_encode_table [Entry (replicate 256 0x41) FV_VOID] (blank 300) = (Ok (), s')
    \<and> take (1 + length (replicate 256 (0x41 :: byte))) (drop (e_off (blank 300) + 4) (e_mem s')) =
        ser8 (of_nat (length (replicate 256 (0x41 :: byte)))) @ replicate 256 0x41
    \<and> unat (of_nat (length (replicate 256 (0x41 :: byte))) :: uint8) < length (replicate 256 (0x41 :: byte))"
  by (rule table_key_length_truncated) (simp_all add: ser_value_def blank_def e_ok_def ptrdiff_max_def)

theorem amqp_table_entry_cmp_order_witness:
  "amqp_table_entry_cmp (Entry [0x61] FV_VOID) (Entry [0x61, 0x00] FV_VOID) < 0"
  using amqp_table_entry_cmp_order [of "Entry [0x61] FV_VOID" "Entry [0x61, 0x00] FV_VOID"] by simp

theorem amqp_table_clone_equal_witness:
  "\<exists>p' h'. amqp_table_clone [Entry [0x61] (FV_UTF8 [0x62])] (init_amqp_pool 64, fresh_heap) =
     (Ok [Entry [0x61] (FV_UTF8 [0x62])], p', h')"
  using amqp_table_clone_equal [OF small_pool_inv, of "[Entry [0x61] (FV_UTF8 [0x62])]"]
  by (auto split: prod.splits outcome.splits)

text \<open>The rules that run the table decoder on a concrete buffer.\<close>

lemmas fuel_numeral =
  decode_table.simps(2) [of "pred_numeral n" for n, folded numeral_eq_Suc]
  decode_field_value.simps(2) [of "pred_numeral n" for n, folded numeral_eq_Suc]
  table_loop.simps(2) [of "pred_numeral n" for n, folded numeral_eq_Suc]

lemmas run_decode = bindP_run check_Some check_None ret_def throw_def
  amqp_decode_8_def amqp_decode_32_def amqp_decode_bytes_def decode_base_def mem_read_def Let_def
  amqp_d8_def amqp_d32_def host_is_big_def native_word_def swap32_def size_add_def get_offset_def

lemmas run_alloc = c_malloc_def c_realloc_def c_free_def grow_entries_def in_block_def finish_entries_def on_err_def
  heap_malloc_def heap_free_def pool_alloc_def amqp_pool_alloc_def pool_take_page_def record_pool_block_def
  init_amqp_pool_def empty_blocks_def fresh_heap_def round_up8_def heap_realloc_def
  sizeof_table_entry_def sizeof_field_value_def INITIAL_TABLE_SIZE_def INITIAL_ARRAY_SIZE_def

text \<open>
  the declared size of a table bounds only where an entry may start. An entry that starts
  inside it is decoded to its end even when that lies behind the declared size: here the declared
  size is 1 and the table takes 3 bytes.
\<close>

theorem table_entry_beyond_declared_size:
  "\<exists>s'. amqp_decode_table \<lparr>len = 7, bytes = [0, 0, 0, 1, 0, 0x74, 1]\<rparr> start = (Ok [Entry [] (FV_BOOLEAN True)], s')
     \<and> offset s' > 4 + 1"
  by (simp add: amqp_decode_table_def fuel_numeral run_decode run_alloc start_def decode_scalar_def kind_simps
      cong: bindP_cong del: decode_table.simps)

end
