(* ===== verification/Amqp_Framing_Types.thy ===== *)
theory Amqp_Framing_Types
  imports Amqp_Table
begin

text \<open>
  include/rabbitmq-c/framing.h: the method numbers and the method structures, and the codecs of the
  field types the generated code in librabbitmq/amqp\_framing.c expands for each field: integers,
  short and long strings, tables, and up to eight consecutive bits in one octet.

  One constructor of \<open>amqp_method_t\<close> per structure, with the structure's name and its fields in
  order; the structures that only have a dummy member are constants. The wire grammar of a field is
  an opaque constant (\<open>ser_shortstr\<close>, \<open>ser_bits\<close>, ...) with one rule for its encoder and one for its
  decoder, so that the codec of a method is proved by composing the rules of its fields.
\<close>

named_theorems method_numbers \<open>the method numbers\<close>

type_synonym amqp_method_number_t = uint32

section \<open>Method numbers\<close>

definition AMQP_CONNECTION_START_METHOD :: amqp_method_number_t where [method_numbers]: "AMQP_CONNECTION_START_METHOD = 0x000A000A"
definition AMQP_CONNECTION_START_OK_METHOD :: amqp_method_number_t where [method_numbers]: "AMQP_CONNECTION_START_OK_METHOD = 0x000A000B"
definition AMQP_CONNECTION_SECURE_METHOD :: amqp_method_number_t where [method_numbers]: "AMQP_CONNECTION_SECURE_METHOD = 0x000A0014"
definition AMQP_CONNECTION_SECURE_OK_METHOD :: amqp_method_number_t where [method_numbers]: "AMQP_CONNECTION_SECURE_OK_METHOD = 0x000A0015"
definition AMQP_CONNECTION_TUNE_METHOD :: amqp_method_number_t where [method_numbers]: "AMQP_CONNECTION_TUNE_METHOD = 0x000A001E"
definition AMQP_CONNECTION_TUNE_OK_METHOD :: amqp_method_number_t where [method_numbers]: "AMQP_CONNECTION_TUNE_OK_METHOD = 0x000A001F"
definition AMQP_CONNECTION_OPEN_METHOD :: amqp_method_number_t where [method_numbers]: "AMQP_CONNECTION_OPEN_METHOD = 0x000A0028"
definition AMQP_CONNECTION_OPEN_OK_METHOD :: amqp_method_number_t where [method_numbers]: "AMQP_CONNECTION_OPEN_OK_METHOD = 0x000A0029"
definition AMQP_CONNECTION_CLOSE_METHOD :: amqp_method_number_t where [method_numbers]: "AMQP_CONNECTION_CLOSE_METHOD = 0x000A0032"
definition AMQP_CONNECTION_CLOSE_OK_METHOD :: amqp_method_number_t where [method_numbers]: "AMQP_CONNECTION_CLOSE_OK_METHOD = 0x000A0033"
definition AMQP_CONNECTION_BLOCKED_METHOD :: amqp_method_number_t where [method_numbers]: "AMQP_CONNECTION_BLOCKED_METHOD = 0x000A003C"
definition AMQP_CONNECTION_UNBLOCKED_METHOD :: amqp_method_number_t where [method_numbers]: "AMQP_CONNECTION_UNBLOCKED_METHOD = 0x000A003D"
definition AMQP_CONNECTION_UPDATE_SECRET_METHOD :: amqp_method_number_t where [method_numbers]: "AMQP_CONNECTION_UPDATE_SECRET_METHOD = 0x000A0046"
definition AMQP_CONNECTION_UPDATE_SECRET_OK_METHOD :: amqp_method_number_t where [method_numbers]: "AMQP_CONNECTION_UPDATE_SECRET_OK_METHOD = 0x000A0047"
definition AMQP_CHANNEL_OPEN_METHOD :: amqp_method_number_t where [method_numbers]: "AMQP_CHANNEL_OPEN_METHOD = 0x0014000A"
definition AMQP_CHANNEL_OPEN_OK_METHOD :: amqp_method_number_t where [method_numbers]: "AMQP_CHANNEL_OPEN_OK_METHOD = 0x0014000B"
definition AMQP_CHANNEL_FLOW_METHOD :: amqp_method_number_t where [method_numbers]: "AMQP_CHANNEL_FLOW_METHOD = 0x00140014"
definition AMQP_CHANNEL_FLOW_OK_METHOD :: amqp_method_number_t where [method_numbers]: "AMQP_CHANNEL_FLOW_OK_METHOD = 0x00140015"
definition AMQP_CHANNEL_CLOSE_METHOD :: amqp_method_number_t where [method_numbers]: "AMQP_CHANNEL_CLOSE_METHOD = 0x00140028"
definition AMQP_CHANNEL_CLOSE_OK_METHOD :: amqp_method_number_t where [method_numbers]: "AMQP_CHANNEL_CLOSE_OK_METHOD = 0x00140029"
definition AMQP_ACCESS_REQUEST_METHOD :: amqp_method_number_t where [method_numbers]: "AMQP_ACCESS_REQUEST_METHOD = 0x001E000A"
definition AMQP_ACCESS_REQUEST_OK_METHOD :: amqp_method_number_t where [method_numbers]: "AMQP_ACCESS_REQUEST_OK_METHOD = 0x001E000B"
definition AMQP_EXCHANGE_DECLARE_METHOD :: amqp_method_number_t where [method_numbers]: "AMQP_EXCHANGE_DECLARE_METHOD = 0x0028000A"
definition AMQP_EXCHANGE_DECLARE_OK_METHOD :: amqp_method_number_t where [method_numbers]: "AMQP_EXCHANGE_DECLARE_OK_METHOD = 0x0028000B"
definition AMQP_EXCHANGE_DELETE_METHOD :: amqp_method_number_t where [method_numbers]: "AMQP_EXCHANGE_DELETE_METHOD = 0x00280014"
definition AMQP_EXCHANGE_DELETE_OK_METHOD :: amqp_method_number_t where [method_numbers]: "AMQP_EXCHANGE_DELETE_OK_METHOD = 0x00280015"
definition AMQP_EXCHANGE_BIND_METHOD :: amqp_method_number_t where [method_numbers]: "AMQP_EXCHANGE_BIND_METHOD = 0x0028001E"
definition AMQP_EXCHANGE_BIND_OK_METHOD :: amqp_method_number_t where [method_numbers]: "AMQP_EXCHANGE_BIND_OK_METHOD = 0x0028001F"
definition AMQP_EXCHANGE_UNBIND_METHOD :: amqp_method_number_t where [method_numbers]: "AMQP_EXCHANGE_UNBIND_METHOD = 0x00280028"
definition AMQP_EXCHANGE_UNBIND_OK_METHOD :: amqp_method_number_t where [method_numbers]: "AMQP_EXCHANGE_UNBIND_OK_METHOD = 0x00280033"
definition AMQP_QUEUE_DECLARE_METHOD :: amqp_method_number_t where [method_numbers]: "AMQP_QUEUE_DECLARE_METHOD = 0x0032000A"
definition AMQP_QUEUE_DECLARE_OK_METHOD :: amqp_method_number_t where [method_numbers]: "AMQP_QUEUE_DECLARE_OK_METHOD = 0x0032000B"
definition AMQP_QUEUE_BIND_METHOD :: amqp_method_number_t where [method_numbers]: "AMQP_QUEUE_BIND_METHOD = 0x00320014"
definition AMQP_QUEUE_BIND_OK_METHOD :: amqp_method_number_t where [method_numbers]: "AMQP_QUEUE_BIND_OK_METHOD = 0x00320015"
definition AMQP_QUEUE_PURGE_METHOD :: amqp_method_number_t where [method_numbers]: "AMQP_QUEUE_PURGE_METHOD = 0x0032001E"
definition AMQP_QUEUE_PURGE_OK_METHOD :: amqp_method_number_t where [method_numbers]: "AMQP_QUEUE_PURGE_OK_METHOD = 0x0032001F"
definition AMQP_QUEUE_DELETE_METHOD :: amqp_method_number_t where [method_numbers]: "AMQP_QUEUE_DELETE_METHOD = 0x00320028"
definition AMQP_QUEUE_DELETE_OK_METHOD :: amqp_method_number_t where [method_numbers]: "AMQP_QUEUE_DELETE_OK_METHOD = 0x00320029"
definition AMQP_QUEUE_UNBIND_METHOD :: amqp_method_number_t where [method_numbers]: "AMQP_QUEUE_UNBIND_METHOD = 0x00320032"
definition AMQP_QUEUE_UNBIND_OK_METHOD :: amqp_method_number_t where [method_numbers]: "AMQP_QUEUE_UNBIND_OK_METHOD = 0x00320033"
definition AMQP_BASIC_QOS_METHOD :: amqp_method_number_t where [method_numbers]: "AMQP_BASIC_QOS_METHOD = 0x003C000A"
definition AMQP_BASIC_QOS_OK_METHOD :: amqp_method_number_t where [method_numbers]: "AMQP_BASIC_QOS_OK_METHOD = 0x003C000B"
definition AMQP_BASIC_CONSUME_METHOD :: amqp_method_number_t where [method_numbers]: "AMQP_BASIC_CONSUME_METHOD = 0x003C0014"
definition AMQP_BASIC_CONSUME_OK_METHOD :: amqp_method_number_t where [method_numbers]: "AMQP_BASIC_CONSUME_OK_METHOD = 0x003C0015"
definition AMQP_BASIC_CANCEL_METHOD :: amqp_method_number_t where [method_numbers]: "AMQP_BASIC_CANCEL_METHOD = 0x003C001E"
definition AMQP_BASIC_CANCEL_OK_METHOD :: amqp_method_number_t where [method_numbers]: "AMQP_BASIC_CANCEL_OK_METHOD = 0x003C001F"
definition AMQP_BASIC_PUBLISH_METHOD :: amqp_method_number_t where [method_numbers]: "AMQP_BASIC_PUBLISH_METHOD = 0x003C0028"
definition AMQP_BASIC_RETURN_METHOD :: amqp_method_number_t where [method_numbers]: "AMQP_BASIC_RETURN_METHOD = 0x003C0032"
definition AMQP_BASIC_DELIVER_METHOD :: amqp_method_number_t where [method_numbers]: "AMQP_BASIC_DELIVER_METHOD = 0x003C003C"
definition AMQP_BASIC_GET_METHOD :: amqp_method_number_t where [method_numbers]: "AMQP_BASIC_GET_METHOD = 0x003C0046"
definition AMQP_BASIC_GET_OK_METHOD :: amqp_method_number_t where [method_numbers]: "AMQP_BASIC_GET_OK_METHOD = 0x003C0047"
definition AMQP_BASIC_GET_EMPTY_METHOD :: amqp_method_number_t where [method_numbers]: "AMQP_BASIC_GET_EMPTY_METHOD = 0x003C0048"
definition AMQP_BASIC_ACK_METHOD :: amqp_method_number_t where [method_numbers]: "AMQP_BASIC_ACK_METHOD = 0x003C0050"
definition AMQP_BASIC_REJECT_METHOD :: amqp_method_number_t where [method_numbers]: "AMQP_BASIC_REJECT_METHOD = 0x003C005A"
definition AMQP_BASIC_RECOVER_ASYNC_METHOD :: amqp_method_number_t where [method_numbers]: "AMQP_BASIC_RECOVER_ASYNC_METHOD = 0x003C0064"
definition AMQP_BASIC_RECOVER_METHOD :: amqp_method_number_t where [method_numbers]: "AMQP_BASIC_RECOVER_METHOD = 0x003C006E"
definition AMQP_BASIC_RECOVER_OK_METHOD :: amqp_method_number_t where [method_numbers]: "AMQP_BASIC_RECOVER_OK_METHOD = 0x003C006F"
definition AMQP_BASIC_NACK_METHOD :: amqp_method_number_t where [method_numbers]: "AMQP_BASIC_NACK_METHOD = 0x003C0078"
definition AMQP_TX_SELECT_METHOD :: amqp_method_number_t where [method_numbers]: "AMQP_TX_SELECT_METHOD = 0x005A000A"
definition AMQP_TX_SELECT_OK_METHOD :: amqp_method_number_t where [method_numbers]: "AMQP_TX_SELECT_OK_METHOD = 0x005A000B"
definition AMQP_TX_COMMIT_METHOD :: amqp_method_number_t where [method_numbers]: "AMQP_TX_COMMIT_METHOD = 0x005A0014"
definition AMQP_TX_COMMIT_OK_METHOD :: amqp_method_number_t where [method_numbers]: "AMQP_TX_COMMIT_OK_METHOD = 0x005A0015"
definition AMQP_TX_ROLLBACK_METHOD :: amqp_method_number_t where [method_numbers]: "AMQP_TX_ROLLBACK_METHOD = 0x005A001E"
definition AMQP_TX_ROLLBACK_OK_METHOD :: amqp_method_number_t where [method_numbers]: "AMQP_TX_ROLLBACK_OK_METHOD = 0x005A001F"
definition AMQP_CONFIRM_SELECT_METHOD :: amqp_method_number_t where [method_numbers]: "AMQP_CONFIRM_SELECT_METHOD = 0x0055000A"
definition AMQP_CONFIRM_SELECT_OK_METHOD :: amqp_method_number_t where [method_numbers]: "AMQP_CONFIRM_SELECT_OK_METHOD = 0x0055000B"

section \<open>Method structures\<close>

datatype (plugins only: size) amqp_method_t =
    amqp_connection_start_t uint8 uint8 amqp_table_t "byte list" "byte list" \<comment> \<open>version\_major, version\_minor, server\_properties, mechanisms, locales\<close>
  | amqp_connection_start_ok_t amqp_table_t "byte list" "byte list" "byte list" \<comment> \<open>client\_properties, mechanism, response, locale\<close>
  | amqp_connection_secure_t "byte list" \<comment> \<open>challenge\<close>
  | amqp_connection_secure_ok_t "byte list" \<comment> \<open>response\<close>
  | amqp_connection_tune_t uint16 uint32 uint16 \<comment> \<open>channel\_max, frame\_max, heartbeat\<close>
  | amqp_connection_tune_ok_t uint16 uint32 uint16 \<comment> \<open>channel\_max, frame\_max, heartbeat\<close>
  | amqp_connection_open_t "byte list" "byte list" bool \<comment> \<open>virtual\_host, capabilities, insist\<close>
  | amqp_connection_open_ok_t "byte list" \<comment> \<open>known\_hosts\<close>
  | amqp_connection_close_t uint16 "byte list" uint16 uint16 \<comment> \<open>reply\_code, reply\_text, class\_id, method\_id\<close>
  | amqp_connection_close_ok_t
  | amqp_connection_blocked_t "byte list" \<comment> \<open>reason\<close>
  | amqp_connection_unblocked_t
  | amqp_connection_update_secret_t "byte list" "byte list" \<comment> \<open>new\_secret, reason\<close>
  | amqp_connection_update_secret_ok_t
  | amqp_channel_open_t "byte list" \<comment> \<open>out\_of\_band\<close>
  | amqp_channel_open_ok_t "byte list" \<comment> \<open>channel\_id\<close>
  | amqp_channel_flow_t bool \<comment> \<open>active\<close>
  | amqp_channel_flow_ok_t bool \<comment> \<open>active\<close>
  | amqp_channel_close_t uint16 "byte list" uint16 uint16 \<comment> \<open>reply\_code, reply\_text, class\_id, method\_id\<close>
  | amqp_channel_close_ok_t
  | amqp_access_request_t "byte list" bool bool bool bool bool \<comment> \<open>realm, exclusive, passive, active, write, read\<close>
  | amqp_access_request_ok_t uint16 \<comment> \<open>ticket\<close>
  | amqp_exchange_declare_t uint16 "byte list" "byte list" bool bool bool bool bool amqp_table_t \<comment> \<open>ticket, exchange, type, passive, durable, auto\_delete, internal, nowait, arguments\<close>
  | amqp_exchange_declare_ok_t
  | amqp_exchange_delete_t uint16 "byte list" bool bool \<comment> \<open>ticket, exchange, if\_unused, nowait\<close>
  | amqp_exchange_delete_ok_t
  | amqp_exchange_bind_t uint16 "byte list" "byte list" "byte list" bool amqp_table_t \<comment> \<open>ticket, destination, source, routing\_key, nowait, arguments\<close>
  | amqp_exchange_bind_ok_t
  | amqp_exchange_unbind_t uint16 "byte list" "byte list" "byte list" bool amqp_table_t \<comment> \<open>ticket, destination, source, routing\_key, nowait, arguments\<close>
  | amqp_exchange_unbind_ok_t
  | amqp_queue_declare_t uint16 "byte list" bool bool bool bool bool amqp_table_t \<comment> \<open>ticket, queue, passive, durable, exclusive, auto\_delete, nowait, arguments\<close>
  | amqp_queue_declare_ok_t "byte list" uint32 uint32 \<comment> \<open>queue, message\_count, consumer\_count\<close>
  | amqp_queue_bind_t uint16 "byte list" "byte list" "byte list" bool amqp_table_t \<comment> \<open>ticket, queue, exchange, routing\_key, nowait, arguments\<close>
  | amqp_queue_bind_ok_t
  | amqp_queue_purge_t uint16 "byte list" bool \<comment> \<open>ticket, queue, nowait\<close>
  | amqp_queue_purge_ok_t uint32 \<comment> \<open>message\_count\<close>
  | amqp_queue_delete_t uint16 "byte list" bool bool bool \<comment> \<open>ticket, queue, if\_unused, if\_empty, nowait\<close>
  | amqp_queue_delete_ok_t uint32 \<comment> \<open>message\_count\<close>
  | amqp_queue_unbind_t uint16 "byte list" "byte list" "byte list" amqp_table_t \<comment> \<open>ticket, queue, exchange, routing\_key, arguments\<close>
  | amqp_queue_unbind_ok_t
  | amqp_basic_qos_t uint32 uint16 bool \<comment> \<open>prefetch\_size, prefetch\_count, global\<close>
  | amqp_basic_qos_ok_t
  | amqp_basic_consume_t uint16 "byte list" "byte list" bool bool bool bool amqp_table_t \<comment> \<open>ticket, queue, consumer\_tag, no\_local, no\_ack, exclusive, nowait, arguments\<close>
  | amqp_basic_consume_ok_t "byte list" \<comment> \<open>consumer\_tag\<close>
  | amqp_basic_cancel_t "byte list" bool \<comment> \<open>consumer\_tag, nowait\<close>
  | amqp_basic_cancel_ok_t "byte list" \<comment> \<open>consumer\_tag\<close>
  | amqp_basic_publish_t uint16 "byte list" "byte list" bool bool \<comment> \<open>ticket, exchange, routing\_key, mandatory, immediate\<close>
  | amqp_basic_return_t uint16 "byte list" "byte list" "byte list" \<comment> \<open>reply\_code, reply\_text, exchange, routing\_key\<close>
  | amqp_basic_deliver_t "byte list" uint64 bool "byte list" "byte list" \<comment> \<open>consumer\_tag, delivery\_tag, redelivered, exchange, routing\_key\<close>
  | amqp_basic_get_t uint16 "byte list" bool \<comment> \<open>ticket, queue, no\_ack\<close>
  | amqp_basic_get_ok_t uint64 bool "byte list" "byte list" uint32 \<comment> \<open>delivery\_tag, redelivered, exchange, routing\_key, message\_count\<close>
  | amqp_basic_get_empty_t "byte list" \<comment> \<open>cluster\_id\<close>
  | amqp_basic_ack_t uint64 bool \<comment> \<open>delivery\_tag, multiple\<close>
  | amqp_basic_reject_t uint64 bool \<comment> \<open>delivery\_tag, requeue\<close>
  | amqp_basic_recover_async_t bool \<comment> \<open>requeue\<close>
  | amqp_basic_recover_t bool \<comment> \<open>requeue\<close>
  | amqp_basic_recover_ok_t
  | amqp_basic_nack_t uint64 bool bool \<comment> \<open>delivery\_tag, multiple, requeue\<close>
  | amqp_tx_select_t
  | amqp_tx_select_ok_t
  | amqp_tx_commit_t
  | amqp_tx_commit_ok_t
  | amqp_tx_rollback_t
  | amqp_tx_rollback_ok_t
  | amqp_confirm_select_t bool \<comment> \<open>nowait\<close>
  | amqp_confirm_select_ok_t

fun method_number :: "amqp_method_t \<Rightarrow> amqp_method_number_t" where
  "method_number (amqp_connection_start_t _ _ _ _ _) = AMQP_CONNECTION_START_METHOD"
| "method_number (amqp_connection_start_ok_t _ _ _ _) = AMQP_CONNECTION_START_OK_METHOD"
| "method_number (amqp_connection_secure_t _) = AMQP_CONNECTION_SECURE_METHOD"
| "method_number (amqp_connection_secure_ok_t _) = AMQP_CONNECTION_SECURE_OK_METHOD"
| "method_number (amqp_connection_tune_t _ _ _) = AMQP_CONNECTION_TUNE_METHOD"
| "method_number (amqp_connection_tune_ok_t _ _ _) = AMQP_CONNECTION_TUNE_OK_METHOD"
| "method_number (amqp_connection_open_t _ _ _) = AMQP_CONNECTION_OPEN_METHOD"
| "method_number (amqp_connection_open_ok_t _) = AMQP_CONNECTION_OPEN_OK_METHOD"
| "method_number (amqp_connection_close_t _ _ _ _) = AMQP_CONNECTION_CLOSE_METHOD"
| "method_number amqp_connection_close_ok_t = AMQP_CONNECTION_CLOSE_OK_METHOD"
| "method_number (amqp_connection_blocked_t _) = AMQP_CONNECTION_BLOCKED_METHOD"
| "method_number amqp_connection_unblocked_t = AMQP_CONNECTION_UNBLOCKED_METHOD"
| "method_number (amqp_connection_update_secret_t _ _) = AMQP_CONNECTION_UPDATE_SECRET_METHOD"
| "method_number amqp_connection_update_secret_ok_t = AMQP_CONNECTION_UPDATE_SECRET_OK_METHOD"
| "method_number (amqp_channel_open_t _) = AMQP_CHANNEL_OPEN_METHOD"
| "method_number (amqp_channel_open_ok_t _) = AMQP_CHANNEL_OPEN_OK_METHOD"
| "method_number (amqp_channel_flow_t _) = AMQP_CHANNEL_FLOW_METHOD"
| "method_number (amqp_channel_flow_ok_t _) = AMQP_CHANNEL_FLOW_OK_METHOD"
| "method_number (amqp_channel_close_t _ _ _ _) = AMQP_CHANNEL_CLOSE_METHOD"
| "method_number amqp_channel_close_ok_t = AMQP_CHANNEL_CLOSE_OK_METHOD"
| "method_number (amqp_access_request_t _ _ _ _ _ _) = AMQP_ACCESS_REQUEST_METHOD"
| "method_number (amqp_access_request_ok_t _) = AMQP_ACCESS_REQUEST_OK_METHOD"
| "method_number (amqp_exchange_declare_t _ _ _ _ _ _ _ _ _) = AMQP_EXCHANGE_DECLARE_METHOD"
| "method_number amqp_exchange_declare_ok_t = AMQP_EXCHANGE_DECLARE_OK_METHOD"
| "method_number (amqp_exchange_delete_t _ _ _ _) = AMQP_EXCHANGE_DELETE_METHOD"
| "method_number amqp_exchange_delete_ok_t = AMQP_EXCHANGE_DELETE_OK_METHOD"
| "method_number (amqp_exchange_bind_t _ _ _ _ _ _) = AMQP_EXCHANGE_BIND_METHOD"
| "method_number amqp_exchange_bind_ok_t = AMQP_EXCHANGE_BIND_OK_METHOD"
| "method_number (amqp_exchange_unbind_t _ _ _ _ _ _) = AMQP_EXCHANGE_UNBIND_METHOD"
| "method_number amqp_exchange_unbind_ok_t = AMQP_EXCHANGE_UNBIND_OK_METHOD"
| "method_number (amqp_queue_declare_t _ _ _ _ _ _ _ _) = AMQP_QUEUE_DECLARE_METHOD"
| "method_number (amqp_queue_declare_ok_t _ _ _) = AMQP_QUEUE_DECLARE_OK_METHOD"
| "method_number (amqp_queue_bind_t _ _ _ _ _ _) = AMQP_QUEUE_BIND_METHOD"
| "method_number amqp_queue_bind_ok_t = AMQP_QUEUE_BIND_OK_METHOD"
| "method_number (amqp_queue_purge_t _ _ _) = AMQP_QUEUE_PURGE_METHOD"
| "method_number (amqp_queue_purge_ok_t _) = AMQP_QUEUE_PURGE_OK_METHOD"
| "method_number (amqp_queue_delete_t _ _ _ _ _) = AMQP_QUEUE_DELETE_METHOD"
| "method_number (amqp_queue_delete_ok_t _) = AMQP_QUEUE_DELETE_OK_METHOD"
| "method_number (amqp_queue_unbind_t _ _ _ _ _) = AMQP_QUEUE_UNBIND_METHOD"
| "method_number amqp_queue_unbind_ok_t = AMQP_QUEUE_UNBIND_OK_METHOD"
| "method_number (amqp_basic_qos_t _ _ _) = AMQP_BASIC_QOS_METHOD"
| "method_number amqp_basic_qos_ok_t = AMQP_BASIC_QOS_OK_METHOD"
| "method_number (amqp_basic_consume_t _ _ _ _ _ _ _ _) = AMQP_BASIC_CONSUME_METHOD"
| "method_number (amqp_basic_consume_ok_t _) = AMQP_BASIC_CONSUME_OK_METHOD"
| "method_number (amqp_basic_cancel_t _ _) = AMQP_BASIC_CANCEL_METHOD"
| "method_number (amqp_basic_cancel_ok_t _) = AMQP_BASIC_CANCEL_OK_METHOD"
| "method_number (amqp_basic_publish_t _ _ _ _ _) = AMQP_BASIC_PUBLISH_METHOD"
| "method_number (amqp_basic_return_t _ _ _ _) = AMQP_BASIC_RETURN_METHOD"
| "method_number (amqp_basic_deliver_t _ _ _ _ _) = AMQP_BASIC_DELIVER_METHOD"
| "method_number (amqp_basic_get_t _ _ _) = AMQP_BASIC_GET_METHOD"
| "method_number (amqp_basic_get_ok_t _ _ _ _ _) = AMQP_BASIC_GET_OK_METHOD"
| "method_number (amqp_basic_get_empty_t _) = AMQP_BASIC_GET_EMPTY_METHOD"
| "method_number (amqp_basic_ack_t _ _) = AMQP_BASIC_ACK_METHOD"
| "method_number (amqp_basic_reject_t _ _) = AMQP_BASIC_REJECT_METHOD"
| "method_number (amqp_basic_recover_async_t _) = AMQP_BASIC_RECOVER_ASYNC_METHOD"
| "method_number (amqp_basic_recover_t _) = AMQP_BASIC_RECOVER_METHOD"
| "method_number amqp_basic_recover_ok_t = AMQP_BASIC_RECOVER_OK_METHOD"
| "method_number (amqp_basic_nack_t _ _ _) = AMQP_BASIC_NACK_METHOD"
| "method_number amqp_tx_select_t = AMQP_TX_SELECT_METHOD"
| "method_number amqp_tx_select_ok_t = AMQP_TX_SELECT_OK_METHOD"
| "method_number amqp_tx_commit_t = AMQP_TX_COMMIT_METHOD"
| "method_number amqp_tx_commit_ok_t = AMQP_TX_COMMIT_OK_METHOD"
| "method_number amqp_tx_rollback_t = AMQP_TX_ROLLBACK_METHOD"
| "method_number amqp_tx_rollback_ok_t = AMQP_TX_ROLLBACK_OK_METHOD"
| "method_number (amqp_confirm_select_t _) = AMQP_CONFIRM_SELECT_METHOD"
| "method_number amqp_confirm_select_ok_t = AMQP_CONFIRM_SELECT_OK_METHOD"

definition all_methods :: "amqp_method_number_t list" where
  "all_methods = [
     AMQP_CONNECTION_START_METHOD, AMQP_CONNECTION_START_OK_METHOD,
     AMQP_CONNECTION_SECURE_METHOD, AMQP_CONNECTION_SECURE_OK_METHOD,
     AMQP_CONNECTION_TUNE_METHOD, AMQP_CONNECTION_TUNE_OK_METHOD,
     AMQP_CONNECTION_OPEN_METHOD, AMQP_CONNECTION_OPEN_OK_METHOD,
     AMQP_CONNECTION_CLOSE_METHOD, AMQP_CONNECTION_CLOSE_OK_METHOD,
     AMQP_CONNECTION_BLOCKED_METHOD, AMQP_CONNECTION_UNBLOCKED_METHOD,
     AMQP_CONNECTION_UPDATE_SECRET_METHOD, AMQP_CONNECTION_UPDATE_SECRET_OK_METHOD,
     AMQP_CHANNEL_OPEN_METHOD, AMQP_CHANNEL_OPEN_OK_METHOD,
     AMQP_CHANNEL_FLOW_METHOD, AMQP_CHANNEL_FLOW_OK_METHOD,
     AMQP_CHANNEL_CLOSE_METHOD, AMQP_CHANNEL_CLOSE_OK_METHOD,
     AMQP_ACCESS_REQUEST_METHOD, AMQP_ACCESS_REQUEST_OK_METHOD,
     AMQP_EXCHANGE_DECLARE_METHOD, AMQP_EXCHANGE_DECLARE_OK_METHOD,
     AMQP_EXCHANGE_DELETE_METHOD, AMQP_EXCHANGE_DELETE_OK_METHOD,
     AMQP_EXCHANGE_BIND_METHOD, AMQP_EXCHANGE_BIND_OK_METHOD,
     AMQP_EXCHANGE_UNBIND_METHOD, AMQP_EXCHANGE_UNBIND_OK_METHOD,
     AMQP_QUEUE_DECLARE_METHOD, AMQP_QUEUE_DECLARE_OK_METHOD,
     AMQP_QUEUE_BIND_METHOD, AMQP_QUEUE_BIND_OK_METHOD,
     AMQP_QUEUE_PURGE_METHOD, AMQP_QUEUE_PURGE_OK_METHOD,
     AMQP_QUEUE_DELETE_METHOD, AMQP_QUEUE_DELETE_OK_METHOD,
     AMQP_QUEUE_UNBIND_METHOD, AMQP_QUEUE_UNBIND_OK_METHOD,
     AMQP_BASIC_QOS_METHOD, AMQP_BASIC_QOS_OK_METHOD,
     AMQP_BASIC_CONSUME_METHOD, AMQP_BASIC_CONSUME_OK_METHOD,
     AMQP_BASIC_CANCEL_METHOD, AMQP_BASIC_CANCEL_OK_METHOD,
     AMQP_BASIC_PUBLISH_METHOD, AMQP_BASIC_RETURN_METHOD,
     AMQP_BASIC_DELIVER_METHOD, AMQP_BASIC_GET_METHOD,
     AMQP_BASIC_GET_OK_METHOD, AMQP_BASIC_GET_EMPTY_METHOD,
     AMQP_BASIC_ACK_METHOD, AMQP_BASIC_REJECT_METHOD,
     AMQP_BASIC_RECOVER_ASYNC_METHOD, AMQP_BASIC_RECOVER_METHOD,
     AMQP_BASIC_RECOVER_OK_METHOD, AMQP_BASIC_NACK_METHOD,
     AMQP_TX_SELECT_METHOD, AMQP_TX_SELECT_OK_METHOD,
     AMQP_TX_COMMIT_METHOD, AMQP_TX_COMMIT_OK_METHOD,
     AMQP_TX_ROLLBACK_METHOD, AMQP_TX_ROLLBACK_OK_METHOD,
     AMQP_CONFIRM_SELECT_METHOD, AMQP_CONFIRM_SELECT_OK_METHOD]"

section \<open>Structure sizes\<close>

text \<open>The LP64 layout of a structure: each member is aligned, the whole is padded to its alignment.\<close>

definition align_up :: "nat \<Rightarrow> nat \<Rightarrow> nat" where
  "align_up a n = (n + a - 1) div a * a"

fun struct_end :: "nat \<Rightarrow> (nat \<times> nat) list \<Rightarrow> nat" where
  "struct_end n [] = n"
| "struct_end n ((sz, a) # fs) = struct_end (align_up a n + sz) fs"

definition struct_size :: "(nat \<times> nat) list \<Rightarrow> nat" where
  "struct_size fs = align_up (foldr max (map snd fs) 1) (struct_end 0 fs)"

named_theorems struct_sizes \<open>the sizes of the method structures\<close>

definition sizeof_connection_start :: nat where [struct_sizes]:
  "sizeof_connection_start = struct_size [(1, 1), (1, 1), (16, 8), (16, 8), (16, 8)]"
definition sizeof_connection_start_ok :: nat where [struct_sizes]:
  "sizeof_connection_start_ok = struct_size [(16, 8), (16, 8), (16, 8), (16, 8)]"
definition sizeof_connection_secure :: nat where [struct_sizes]:
  "sizeof_connection_secure = struct_size [(16, 8)]"
definition sizeof_connection_secure_ok :: nat where [struct_sizes]:
  "sizeof_connection_secure_ok = struct_size [(16, 8)]"
definition sizeof_connection_tune :: nat where [struct_sizes]:
  "sizeof_connection_tune = struct_size [(2, 2), (4, 4), (2, 2)]"
definition sizeof_connection_tune_ok :: nat where [struct_sizes]:
  "sizeof_connection_tune_ok = struct_size [(2, 2), (4, 4), (2, 2)]"
definition sizeof_connection_open :: nat where [struct_sizes]:
  "sizeof_connection_open = struct_size [(16, 8), (16, 8), (4, 4)]"
definition sizeof_connection_open_ok :: nat where [struct_sizes]:
  "sizeof_connection_open_ok = struct_size [(16, 8)]"
definition sizeof_connection_close :: nat where [struct_sizes]:
  "sizeof_connection_close = struct_size [(2, 2), (16, 8), (2, 2), (2, 2)]"
definition sizeof_connection_close_ok :: nat where [struct_sizes]:
  "sizeof_connection_close_ok = struct_size [(1, 1)]"
definition sizeof_connection_blocked :: nat where [struct_sizes]:
  "sizeof_connection_blocked = struct_size [(16, 8)]"
definition sizeof_connection_unblocked :: nat where [struct_sizes]:
  "sizeof_connection_unblocked = struct_size [(1, 1)]"
definition sizeof_connection_update_secret :: nat where [struct_sizes]:
  "sizeof_connection_update_secret = struct_size [(16, 8), (16, 8)]"
definition sizeof_connection_update_secret_ok :: nat where [struct_sizes]:
  "sizeof_connection_update_secret_ok = struct_size [(1, 1)]"
definition sizeof_channel_open :: nat where [struct_sizes]:
  "sizeof_channel_open = struct_size [(16, 8)]"
definition sizeof_channel_open_ok :: nat where [struct_sizes]:
  "sizeof_channel_open_ok = struct_size [(16, 8)]"
definition sizeof_channel_flow :: nat where [struct_sizes]:
  "sizeof_channel_flow = struct_size [(4, 4)]"
definition sizeof_channel_flow_ok :: nat where [struct_sizes]:
  "sizeof_channel_flow_ok = struct_size [(4, 4)]"
definition sizeof_channel_close :: nat where [struct_sizes]:
  "sizeof_channel_close = struct_size [(2, 2), (16, 8), (2, 2), (2, 2)]"
definition sizeof_channel_close_ok :: nat where [struct_sizes]:
  "sizeof_channel_close_ok = struct_size [(1, 1)]"
definition sizeof_access_request :: nat where [struct_sizes]:
  "sizeof_access_request = struct_size [(16, 8), (4, 4), (4, 4), (4, 4), (4, 4), (4, 4)]"
definition sizeof_access_request_ok :: nat where [struct_sizes]:
  "sizeof_access_request_ok = struct_size [(2, 2)]"
definition sizeof_exchange_declare :: nat where [struct_sizes]:
  "sizeof_exchange_declare = struct_size [(2, 2), (16, 8), (16, 8), (4, 4), (4, 4), (4, 4), (4, 4), (4, 4), (16, 8)]"
definition sizeof_exchange_declare_ok :: nat where [struct_sizes]:
  "sizeof_exchange_declare_ok = struct_size [(1, 1)]"
definition sizeof_exchange_delete :: nat where [struct_sizes]:
  "sizeof_exchange_delete = struct_size [(2, 2), (16, 8), (4, 4), (4, 4)]"
definition sizeof_exchange_delete_ok :: nat where [struct_sizes]:
  "sizeof_exchange_delete_ok = struct_size [(1, 1)]"
definition sizeof_exchange_bind :: nat where [struct_sizes]:
  "sizeof_exchange_bind = struct_size [(2, 2), (16, 8), (16, 8), (16, 8), (4, 4), (16, 8)]"
definition sizeof_exchange_bind_ok :: nat where [struct_sizes]:
  "sizeof_exchange_bind_ok = struct_size [(1, 1)]"
definition sizeof_exchange_unbind :: nat where [struct_sizes]:
  "sizeof_exchange_unbind = struct_size [(2, 2), (16, 8), (16, 8), (16, 8), (4, 4), (16, 8)]"
definition sizeof_exchange_unbind_ok :: nat where [struct_sizes]:
  "sizeof_exchange_unbind_ok = struct_size [(1, 1)]"
definition sizeof_queue_declare :: nat where [struct_sizes]:
  "sizeof_queue_declare = struct_size [(2, 2), (16, 8), (4, 4), (4, 4), (4, 4), (4, 4), (4, 4), (16, 8)]"
definition sizeof_queue_declare_ok :: nat where [struct_sizes]:
  "sizeof_queue_declare_ok = struct_size [(16, 8), (4, 4), (4, 4)]"
definition sizeof_queue_bind :: nat where [struct_sizes]:
  "sizeof_queue_bind = struct_size [(2, 2), (16, 8), (16, 8), (16, 8), (4, 4), (16, 8)]"
definition sizeof_queue_bind_ok :: nat where [struct_sizes]:
  "sizeof_queue_bind_ok = struct_size [(1, 1)]"
definition sizeof_queue_purge :: nat where [struct_sizes]:
  "sizeof_queue_purge = struct_size [(2, 2), (16, 8), (4, 4)]"
definition sizeof_queue_purge_ok :: nat where [struct_sizes]:
  "sizeof_queue_purge_ok = struct_size [(4, 4)]"
definition sizeof_queue_delete :: nat where [struct_sizes]:
  "sizeof_queue_delete = struct_size [(2, 2), (16, 8), (4, 4), (4, 4), (4, 4)]"
definition sizeof_queue_delete_ok :: nat where [struct_sizes]:
  "sizeof_queue_delete_ok = struct_size [(4, 4)]"
definition sizeof_queue_unbind :: nat where [struct_sizes]:
  "sizeof_queue_unbind = struct_size [(2, 2), (16, 8), (16, 8), (16, 8), (16, 8)]"
definition sizeof_queue_unbind_ok :: nat where [struct_sizes]:
  "sizeof_queue_unbind_ok = struct_size [(1, 1)]"
definition sizeof_basic_qos :: nat where [struct_sizes]:
  "sizeof_basic_qos = struct_size [(4, 4), (2, 2), (4, 4)]"
definition sizeof_basic_qos_ok :: nat where [struct_sizes]:
  "sizeof_basic_qos_ok = struct_size [(1, 1)]"
definition sizeof_basic_consume :: nat where [struct_sizes]:
  "sizeof_basic_consume = struct_size [(2, 2), (16, 8), (16, 8), (4, 4), (4, 4), (4, 4), (4, 4), (16, 8)]"
definition sizeof_basic_consume_ok :: nat where [struct_sizes]:
  "sizeof_basic_consume_ok = struct_size [(16, 8)]"
definition sizeof_basic_cancel :: nat where [struct_sizes]:
  "sizeof_basic_cancel = struct_size [(16, 8), (4, 4)]"
definition sizeof_basic_cancel_ok :: nat where [struct_sizes]:
  "sizeof_basic_cancel_ok = struct_size [(16, 8)]"
definition sizeof_basic_publish :: nat where [struct_sizes]:
  "sizeof_basic_publish = struct_size [(2, 2), (16, 8), (16, 8), (4, 4), (4, 4)]"
definition sizeof_basic_return :: nat where [struct_sizes]:
  "sizeof_basic_return = struct_size [(2, 2), (16, 8), (16, 8), (16, 8)]"
definition sizeof_basic_deliver :: nat where [struct_sizes]:
  "sizeof_basic_deliver = struct_size [(16, 8), (8, 8), (4, 4), (16, 8), (16, 8)]"
definition sizeof_basic_get :: nat where [struct_sizes]:
  "sizeof_basic_get = struct_size [(2, 2), (16, 8), (4, 4)]"
definition sizeof_basic_get_ok :: nat where [struct_sizes]:
  "sizeof_basic_get_ok = struct_size [(8, 8), (4, 4), (16, 8), (16, 8), (4, 4)]"
definition sizeof_basic_get_empty :: nat where [struct_sizes]:
  "sizeof_basic_get_empty = struct_size [(16, 8)]"
definition sizeof_basic_ack :: nat where [struct_sizes]:
  "sizeof_basic_ack = struct_size [(8, 8), (4, 4)]"
definition sizeof_basic_reject :: nat where [struct_sizes]:
  "sizeof_basic_reject = struct_size [(8, 8), (4, 4)]"
definition sizeof_basic_recover_async :: nat where [struct_sizes]:
  "sizeof_basic_recover_async = struct_size [(4, 4)]"
definition sizeof_basic_recover :: nat where [struct_sizes]:
  "sizeof_basic_recover = struct_size [(4, 4)]"
definition sizeof_basic_recover_ok :: nat where [struct_sizes]:
  "sizeof_basic_recover_ok = struct_size [(1, 1)]"
definition sizeof_basic_nack :: nat where [struct_sizes]:
  "sizeof_basic_nack = struct_size [(8, 8), (4, 4), (4, 4)]"
definition sizeof_tx_select :: nat where [struct_sizes]:
  "sizeof_tx_select = struct_size [(1, 1)]"
definition sizeof_tx_select_ok :: nat where [struct_sizes]:
  "sizeof_tx_select_ok = struct_size [(1, 1)]"
definition sizeof_tx_commit :: nat where [struct_sizes]:
  "sizeof_tx_commit = struct_size [(1, 1)]"
definition sizeof_tx_commit_ok :: nat where [struct_sizes]:
  "sizeof_tx_commit_ok = struct_size [(1, 1)]"
definition sizeof_tx_rollback :: nat where [struct_sizes]:
  "sizeof_tx_rollback = struct_size [(1, 1)]"
definition sizeof_tx_rollback_ok :: nat where [struct_sizes]:
  "sizeof_tx_rollback_ok = struct_size [(1, 1)]"
definition sizeof_confirm_select :: nat where [struct_sizes]:
  "sizeof_confirm_select = struct_size [(4, 4)]"
definition sizeof_confirm_select_ok :: nat where [struct_sizes]:
  "sizeof_confirm_select_ok = struct_size [(1, 1)]"


section \<open>Field codecs\<close>

definition decode_shortstr :: "amqp_bytes_t \<Rightarrow> (dstate, byte list) prog" where
  "decode_shortstr encoded =
     bindP (check (amqp_decode_8 encoded) bad) (\<lambda>n. check (amqp_decode_bytes encoded (unat n)) bad)"

definition decode_longstr :: "amqp_bytes_t \<Rightarrow> (dstate, byte list) prog" where
  "decode_longstr encoded =
     bindP (check (amqp_decode_32 encoded) bad) (\<lambda>n. check (amqp_decode_bytes encoded (unat n)) bad)"

definition encode_shortstr :: "byte list \<Rightarrow> (estate, unit) prog" where
  "encode_shortstr bs =
     (if 0xFF < length bs then throw bad
      else bindP (require (amqp_encode_8 (of_nat (length bs))) bad) (\<lambda>_. require (amqp_encode_bytes bs) bad))"

definition encode_longstr :: "byte list \<Rightarrow> (estate, unit) prog" where
  "encode_longstr bs =
     (if 0xFFFFFFFF < length bs then throw bad
      else bindP (require (amqp_encode_32 (of_nat (length bs))) bad) (\<lambda>_. require (amqp_encode_bytes bs) bad))"

text \<open>\<^verbatim>\<open>(bit_buffer & (1 << i)) ? 1 : 0\<close>, and the octet that \<^verbatim>\<open>bit_buffer |= (1 << i)\<close> collects.\<close>

definition test_flag :: "uint8 \<Rightarrow> nat \<Rightarrow> bool" where
  "test_flag bit_buffer i = (bit_buffer AND push_bit i 1 \<noteq> 0)"

fun or_flags :: "uint8 \<Rightarrow> nat \<Rightarrow> bool list \<Rightarrow> uint8" where
  "or_flags bit_buffer i [] = bit_buffer"
| "or_flags bit_buffer i (b # bs) =
     or_flags (if b then bit_buffer OR push_bit i 1 else bit_buffer) (Suc i) bs"

definition pack_flags :: "bool list \<Rightarrow> uint8" where
  "pack_flags bs = or_flags 0 0 bs"

definition ser_shortstr :: "byte list \<Rightarrow> byte list" where
  "ser_shortstr bs = ser8 (of_nat (length bs)) @ bs"

definition ser_longstr :: "byte list \<Rightarrow> byte list" where
  "ser_longstr bs = ser32 (of_nat (length bs)) @ bs"

definition ser_bits :: "bool list \<Rightarrow> byte list" where
  "ser_bits bs = ser8 (pack_flags bs)"

lemma test_flag_bit: "i < 8 \<Longrightarrow> test_flag b i = bit b i"
  by (simp add: test_flag_def bit_iff_and_push_bit_not_eq_0)

lemma bit_or_flags:
  "bit (or_flags x i bs) j \<longleftrightarrow> bit x j \<or> i \<le> j \<and> j < i + length bs \<and> j < 8 \<and> bs ! (j - i)"
proof (induction bs arbitrary: x i)
  case (Cons b bs)
  have "bs ! (j - Suc i) = (b # bs) ! (j - i)" if "Suc i \<le> j"
    using that by (metis Suc_diff_le diff_Suc_Suc nth_Cons_Suc)
  moreover have "bit (push_bit i 1 :: uint8) j \<longleftrightarrow> i = j \<and> j < 8"
    by (auto simp: bit_exp_iff)
  ultimately show ?case
    using Cons.IH by (auto simp: bit_or_iff not_less_eq_eq le_Suc_eq)
qed auto

lemma test_pack_flags: "i < length bs \<Longrightarrow> length bs \<le> 8 \<Longrightarrow> test_flag (pack_flags bs) i = bs ! i"
  by (simp add: test_flag_bit pack_flags_def bit_or_flags)

lemma test_pack_flags_literal [simp]:
  "test_flag (pack_flags [a]) 0 = a"
  "test_flag (pack_flags [a, b]) 0 = a" "test_flag (pack_flags [a, b]) (Suc 0) = b"
  "test_flag (pack_flags [a, b, c]) 0 = a" "test_flag (pack_flags [a, b, c]) (Suc 0) = b"
  "test_flag (pack_flags [a, b, c]) 2 = c"
  "test_flag (pack_flags [a, b, c, d]) 0 = a" "test_flag (pack_flags [a, b, c, d]) (Suc 0) = b"
  "test_flag (pack_flags [a, b, c, d]) 2 = c" "test_flag (pack_flags [a, b, c, d]) 3 = d"
  "test_flag (pack_flags [a, b, c, d, e]) 0 = a" "test_flag (pack_flags [a, b, c, d, e]) (Suc 0) = b"
  "test_flag (pack_flags [a, b, c, d, e]) 2 = c" "test_flag (pack_flags [a, b, c, d, e]) 3 = d"
  "test_flag (pack_flags [a, b, c, d, e]) 4 = e"
  by (simp_all add: test_pack_flags)

named_theorems field_reads \<open>decoders of the field types\<close>
named_theorems field_emits \<open>encoders of the field types\<close>

lemma reads_shortstr [field_reads]:
  assumes "length bs < 2 ^ 8"
  shows "reads encoded (decode_shortstr encoded) (ser_shortstr bs) bs"
  unfolding decode_shortstr_def ser_shortstr_def
  by (rule reads_bind [OF reads_check [OF reads_8]]) (rule reads_check [OF reads_bytes [OF unat_of_nat_8 [OF assms]]])

lemma reads_longstr [field_reads]:
  assumes "length bs < 2 ^ 32"
  shows "reads encoded (decode_longstr encoded) (ser_longstr bs) bs"
  unfolding decode_longstr_def ser_longstr_def
  by (rule reads_bind [OF reads_check [OF reads_32]]) (rule reads_check [OF reads_bytes [OF unat_of_nat_32 [OF assms]]])

lemma reads_bits [field_reads]: "reads encoded (check (amqp_decode_8 encoded) e) (ser_bits bs) (pack_flags bs)"
  unfolding ser_bits_def by (rule reads_check [OF reads_8])

lemmas reads_ints [field_reads] =
  reads_check [OF reads_8] reads_check [OF reads_16] reads_check [OF reads_32] reads_check [OF reads_64]

declare reads_table [field_reads]

lemma emits_shortstr [field_emits]: "length bs < 2 ^ 8 \<Longrightarrow> emits (encode_shortstr bs) (ser_shortstr bs)"
  unfolding encode_shortstr_def ser_shortstr_def by (auto intro!: encodes_bind encodes_intros)

lemma emits_longstr [field_emits]: "length bs < 2 ^ 32 \<Longrightarrow> emits (encode_longstr bs) (ser_longstr bs)"
  unfolding encode_longstr_def ser_longstr_def by (auto intro!: encodes_bind encodes_intros)

lemma emits_bits [field_emits]: "emits (require (amqp_encode_8 (pack_flags bs)) e) (ser_bits bs)"
  unfolding ser_bits_def by (rule encodes_prims) simp

lemmas emits_ints [field_emits] = encodes_prims [of 0, simplified]

declare emits_table [field_emits]

lemma dsafe_strings [hoare_intros]:
  "dsafe encoded B (decode_shortstr encoded)" "dsafe encoded B (decode_longstr encoded)"
  unfolding decode_shortstr_def decode_longstr_def
  by (intro hoare_intros unat_uint8_less unat_uint32_less)+

text \<open>A field followed by the rest of the structure, and the last field.\<close>

lemmas reads_fields = reads_bind reads_then_ret reads_ret field_reads

end
