(* ===== verification/Amqp_Framing_Decode.thy ===== *)
theory Amqp_Framing_Decode
  imports Amqp_Framing_Types
begin

text \<open>
  librabbitmq/amqp\_framing.c, \<^verbatim>\<open>amqp_decode_method\<close>: one definition per case of the switch, in the
  order of the source, and the switch as a finite map from method numbers to decoders. Each decoder
  allocates its structure from the pool, then reads the fields in order.

  The lemmas show that every decoder is safe on arbitrary input, for each of the structures.
\<close>

named_theorems decoder_defs \<open>the decoders of the method structures\<close>

definition decode_connection_start :: "amqp_bytes_t \<Rightarrow> (dstate, amqp_method_t) prog" where [decoder_defs]:
  "decode_connection_start encoded = bindP (check (pool_alloc sizeof_connection_start)
    AMQP_STATUS_NO_MEMORY) (\<lambda>_.
     bindP (check (amqp_decode_8 encoded) bad) (\<lambda>version_major.
     bindP (check (amqp_decode_8 encoded) bad) (\<lambda>version_minor.
     bindP (amqp_decode_table encoded) (\<lambda>server_properties.
     bindP (decode_longstr encoded) (\<lambda>mechanisms.
     bindP (decode_longstr encoded) (\<lambda>locales.
     ret (amqp_connection_start_t version_major version_minor server_properties mechanisms
       locales)))))))"

definition decode_connection_start_ok :: "amqp_bytes_t \<Rightarrow> (dstate, amqp_method_t) prog" where [decoder_defs]:
  "decode_connection_start_ok encoded = bindP (check (pool_alloc sizeof_connection_start_ok)
    AMQP_STATUS_NO_MEMORY) (\<lambda>_.
     bindP (amqp_decode_table encoded) (\<lambda>client_properties.
     bindP (decode_shortstr encoded) (\<lambda>mechanism.
     bindP (decode_longstr encoded) (\<lambda>response.
     bindP (decode_shortstr encoded) (\<lambda>locale.
     ret (amqp_connection_start_ok_t client_properties mechanism response locale))))))"

definition decode_connection_secure :: "amqp_bytes_t \<Rightarrow> (dstate, amqp_method_t) prog" where [decoder_defs]:
  "decode_connection_secure encoded = bindP (check (pool_alloc sizeof_connection_secure)
    AMQP_STATUS_NO_MEMORY) (\<lambda>_.
     bindP (decode_longstr encoded) (\<lambda>challenge.
     ret (amqp_connection_secure_t challenge)))"

definition decode_connection_secure_ok :: "amqp_bytes_t \<Rightarrow> (dstate, amqp_method_t) prog" where [decoder_defs]:
  "decode_connection_secure_ok encoded = bindP (check (pool_alloc sizeof_connection_secure_ok)
    AMQP_STATUS_NO_MEMORY) (\<lambda>_.
     bindP (decode_longstr encoded) (\<lambda>response.
     ret (amqp_connection_secure_ok_t response)))"

definition decode_connection_tune :: "amqp_bytes_t \<Rightarrow> (dstate, amqp_method_t) prog" where [decoder_defs]:
  "decode_connection_tune encoded = bindP (check (pool_alloc sizeof_connection_tune)
    AMQP_STATUS_NO_MEMORY) (\<lambda>_.
     bindP (check (amqp_decode_16 encoded) bad) (\<lambda>channel_max.
     bindP (check (amqp_decode_32 encoded) bad) (\<lambda>frame_max.
     bindP (check (amqp_decode_16 encoded) bad) (\<lambda>heartbeat.
     ret (amqp_connection_tune_t channel_max frame_max heartbeat)))))"

definition decode_connection_tune_ok :: "amqp_bytes_t \<Rightarrow> (dstate, amqp_method_t) prog" where [decoder_defs]:
  "decode_connection_tune_ok encoded = bindP (check (pool_alloc sizeof_connection_tune_ok)
    AMQP_STATUS_NO_MEMORY) (\<lambda>_.
     bindP (check (amqp_decode_16 encoded) bad) (\<lambda>channel_max.
     bindP (check (amqp_decode_32 encoded) bad) (\<lambda>frame_max.
     bindP (check (amqp_decode_16 encoded) bad) (\<lambda>heartbeat.
     ret (amqp_connection_tune_ok_t channel_max frame_max heartbeat)))))"

definition decode_connection_open :: "amqp_bytes_t \<Rightarrow> (dstate, amqp_method_t) prog" where [decoder_defs]:
  "decode_connection_open encoded = bindP (check (pool_alloc sizeof_connection_open)
    AMQP_STATUS_NO_MEMORY) (\<lambda>_.
     bindP (decode_shortstr encoded) (\<lambda>virtual_host.
     bindP (decode_shortstr encoded) (\<lambda>capabilities.
     bindP (check (amqp_decode_8 encoded) bad) (\<lambda>bit_buffer.
     ret (amqp_connection_open_t virtual_host capabilities (test_flag bit_buffer 0))))))"

definition decode_connection_open_ok :: "amqp_bytes_t \<Rightarrow> (dstate, amqp_method_t) prog" where [decoder_defs]:
  "decode_connection_open_ok encoded = bindP (check (pool_alloc sizeof_connection_open_ok)
    AMQP_STATUS_NO_MEMORY) (\<lambda>_.
     bindP (decode_shortstr encoded) (\<lambda>known_hosts.
     ret (amqp_connection_open_ok_t known_hosts)))"

definition decode_connection_close :: "amqp_bytes_t \<Rightarrow> (dstate, amqp_method_t) prog" where [decoder_defs]:
  "decode_connection_close encoded = bindP (check (pool_alloc sizeof_connection_close)
    AMQP_STATUS_NO_MEMORY) (\<lambda>_.
     bindP (check (amqp_decode_16 encoded) bad) (\<lambda>reply_code.
     bindP (decode_shortstr encoded) (\<lambda>reply_text.
     bindP (check (amqp_decode_16 encoded) bad) (\<lambda>class_id.
     bindP (check (amqp_decode_16 encoded) bad) (\<lambda>method_id.
     ret (amqp_connection_close_t reply_code reply_text class_id method_id))))))"

definition decode_connection_close_ok :: "amqp_bytes_t \<Rightarrow> (dstate, amqp_method_t) prog" where [decoder_defs]:
  "decode_connection_close_ok encoded = bindP (check (pool_alloc sizeof_connection_close_ok)
    AMQP_STATUS_NO_MEMORY) (\<lambda>_.
     ret amqp_connection_close_ok_t)"

definition decode_connection_blocked :: "amqp_bytes_t \<Rightarrow> (dstate, amqp_method_t) prog" where [decoder_defs]:
  "decode_connection_blocked encoded = bindP (check (pool_alloc sizeof_connection_blocked)
    AMQP_STATUS_NO_MEMORY) (\<lambda>_.
     bindP (decode_shortstr encoded) (\<lambda>reason.
     ret (amqp_connection_blocked_t reason)))"

definition decode_connection_unblocked :: "amqp_bytes_t \<Rightarrow> (dstate, amqp_method_t) prog" where [decoder_defs]:
  "decode_connection_unblocked encoded = bindP (check (pool_alloc sizeof_connection_unblocked)
    AMQP_STATUS_NO_MEMORY) (\<lambda>_.
     ret amqp_connection_unblocked_t)"

definition decode_connection_update_secret :: "amqp_bytes_t \<Rightarrow> (dstate, amqp_method_t) prog" where [decoder_defs]:
  "decode_connection_update_secret encoded = bindP (check (pool_alloc sizeof_connection_update_secret)
    AMQP_STATUS_NO_MEMORY) (\<lambda>_.
     bindP (decode_longstr encoded) (\<lambda>new_secret.
     bindP (decode_shortstr encoded) (\<lambda>reason.
     ret (amqp_connection_update_secret_t new_secret reason))))"

definition decode_connection_update_secret_ok :: "amqp_bytes_t \<Rightarrow> (dstate, amqp_method_t) prog" where [decoder_defs]:
  "decode_connection_update_secret_ok encoded = bindP (check (pool_alloc
    sizeof_connection_update_secret_ok) AMQP_STATUS_NO_MEMORY) (\<lambda>_.
     ret amqp_connection_update_secret_ok_t)"

definition decode_channel_open :: "amqp_bytes_t \<Rightarrow> (dstate, amqp_method_t) prog" where [decoder_defs]:
  "decode_channel_open encoded = bindP (check (pool_alloc sizeof_channel_open) AMQP_STATUS_NO_MEMORY)
    (\<lambda>_.
     bindP (decode_shortstr encoded) (\<lambda>out_of_band.
     ret (amqp_channel_open_t out_of_band)))"

definition decode_channel_open_ok :: "amqp_bytes_t \<Rightarrow> (dstate, amqp_method_t) prog" where [decoder_defs]:
  "decode_channel_open_ok encoded = bindP (check (pool_alloc sizeof_channel_open_ok)
    AMQP_STATUS_NO_MEMORY) (\<lambda>_.
     bindP (decode_longstr encoded) (\<lambda>channel_id.
     ret (amqp_channel_open_ok_t channel_id)))"

definition decode_channel_flow :: "amqp_bytes_t \<Rightarrow> (dstate, amqp_method_t) prog" where [decoder_defs]:
  "decode_channel_flow encoded = bindP (check (pool_alloc sizeof_channel_flow) AMQP_STATUS_NO_MEMORY)
    (\<lambda>_.
     bindP (check (amqp_decode_8 encoded) bad) (\<lambda>bit_buffer.
     ret (amqp_channel_flow_t (test_flag bit_buffer 0))))"

definition decode_channel_flow_ok :: "amqp_bytes_t \<Rightarrow> (dstate, amqp_method_t) prog" where [decoder_defs]:
  "decode_channel_flow_ok encoded = bindP (check (pool_alloc sizeof_channel_flow_ok)
    AMQP_STATUS_NO_MEMORY) (\<lambda>_.
     bindP (check (amqp_decode_8 encoded) bad) (\<lambda>bit_buffer.
     ret (amqp_channel_flow_ok_t (test_flag bit_buffer 0))))"

definition decode_channel_close :: "amqp_bytes_t \<Rightarrow> (dstate, amqp_method_t) prog" where [decoder_defs]:
  "decode_channel_close encoded = bindP (check (pool_alloc sizeof_channel_close) AMQP_STATUS_NO_MEMORY)
    (\<lambda>_.
     bindP (check (amqp_decode_16 encoded) bad) (\<lambda>reply_code.
     bindP (decode_shortstr encoded) (\<lambda>reply_text.
     bindP (check (amqp_decode_16 encoded) bad) (\<lambda>class_id.
     bindP (check (amqp_decode_16 encoded) bad) (\<lambda>method_id.
     ret (amqp_channel_close_t reply_code reply_text class_id method_id))))))"

definition decode_channel_close_ok :: "amqp_bytes_t \<Rightarrow> (dstate, amqp_method_t) prog" where [decoder_defs]:
  "decode_channel_close_ok encoded = bindP (check (pool_alloc sizeof_channel_close_ok)
    AMQP_STATUS_NO_MEMORY) (\<lambda>_.
     ret amqp_channel_close_ok_t)"

definition decode_access_request :: "amqp_bytes_t \<Rightarrow> (dstate, amqp_method_t) prog" where [decoder_defs]:
  "decode_access_request encoded = bindP (check (pool_alloc sizeof_access_request)
    AMQP_STATUS_NO_MEMORY) (\<lambda>_.
     bindP (decode_shortstr encoded) (\<lambda>realm.
     bindP (check (amqp_decode_8 encoded) bad) (\<lambda>bit_buffer.
     ret (amqp_access_request_t realm (test_flag bit_buffer 0) (test_flag bit_buffer 1) (test_flag
       bit_buffer 2) (test_flag bit_buffer 3) (test_flag bit_buffer 4)))))"

definition decode_access_request_ok :: "amqp_bytes_t \<Rightarrow> (dstate, amqp_method_t) prog" where [decoder_defs]:
  "decode_access_request_ok encoded = bindP (check (pool_alloc sizeof_access_request_ok)
    AMQP_STATUS_NO_MEMORY) (\<lambda>_.
     bindP (check (amqp_decode_16 encoded) bad) (\<lambda>ticket.
     ret (amqp_access_request_ok_t ticket)))"

definition decode_exchange_declare :: "amqp_bytes_t \<Rightarrow> (dstate, amqp_method_t) prog" where [decoder_defs]:
  "decode_exchange_declare encoded = bindP (check (pool_alloc sizeof_exchange_declare)
    AMQP_STATUS_NO_MEMORY) (\<lambda>_.
     bindP (check (amqp_decode_16 encoded) bad) (\<lambda>ticket.
     bindP (decode_shortstr encoded) (\<lambda>exchange.
     bindP (decode_shortstr encoded) (\<lambda>type'.
     bindP (check (amqp_decode_8 encoded) bad) (\<lambda>bit_buffer.
     bindP (amqp_decode_table encoded) (\<lambda>arguments.
     ret (amqp_exchange_declare_t ticket exchange type' (test_flag bit_buffer 0) (test_flag bit_buffer
       1) (test_flag bit_buffer 2) (test_flag bit_buffer 3) (test_flag bit_buffer 4) arguments)))))))"

definition decode_exchange_declare_ok :: "amqp_bytes_t \<Rightarrow> (dstate, amqp_method_t) prog" where [decoder_defs]:
  "decode_exchange_declare_ok encoded = bindP (check (pool_alloc sizeof_exchange_declare_ok)
    AMQP_STATUS_NO_MEMORY) (\<lambda>_.
     ret amqp_exchange_declare_ok_t)"

definition decode_exchange_delete :: "amqp_bytes_t \<Rightarrow> (dstate, amqp_method_t) prog" where [decoder_defs]:
  "decode_exchange_delete encoded = bindP (check (pool_alloc sizeof_exchange_delete)
    AMQP_STATUS_NO_MEMORY) (\<lambda>_.
     bindP (check (amqp_decode_16 encoded) bad) (\<lambda>ticket.
     bindP (decode_shortstr encoded) (\<lambda>exchange.
     bindP (check (amqp_decode_8 encoded) bad) (\<lambda>bit_buffer.
     ret (amqp_exchange_delete_t ticket exchange (test_flag bit_buffer 0) (test_flag bit_buffer 1))))))"

definition decode_exchange_delete_ok :: "amqp_bytes_t \<Rightarrow> (dstate, amqp_method_t) prog" where [decoder_defs]:
  "decode_exchange_delete_ok encoded = bindP (check (pool_alloc sizeof_exchange_delete_ok)
    AMQP_STATUS_NO_MEMORY) (\<lambda>_.
     ret amqp_exchange_delete_ok_t)"

definition decode_exchange_bind :: "amqp_bytes_t \<Rightarrow> (dstate, amqp_method_t) prog" where [decoder_defs]:
  "decode_exchange_bind encoded = bindP (check (pool_alloc sizeof_exchange_bind) AMQP_STATUS_NO_MEMORY)
    (\<lambda>_.
     bindP (check (amqp_decode_16 encoded) bad) (\<lambda>ticket.
     bindP (decode_shortstr encoded) (\<lambda>destination.
     bindP (decode_shortstr encoded) (\<lambda>source.
     bindP (decode_shortstr encoded) (\<lambda>routing_key.
     bindP (check (amqp_decode_8 encoded) bad) (\<lambda>bit_buffer.
     bindP (amqp_decode_table encoded) (\<lambda>arguments.
     ret (amqp_exchange_bind_t ticket destination source routing_key (test_flag bit_buffer 0)
       arguments))))))))"

definition decode_exchange_bind_ok :: "amqp_bytes_t \<Rightarrow> (dstate, amqp_method_t) prog" where [decoder_defs]:
  "decode_exchange_bind_ok encoded = bindP (check (pool_alloc sizeof_exchange_bind_ok)
    AMQP_STATUS_NO_MEMORY) (\<lambda>_.
     ret amqp_exchange_bind_ok_t)"

definition decode_exchange_unbind :: "amqp_bytes_t \<Rightarrow> (dstate, amqp_method_t) prog" where [decoder_defs]:
  "decode_exchange_unbind encoded = bindP (check (pool_alloc sizeof_exchange_unbind)
    AMQP_STATUS_NO_MEMORY) (\<lambda>_.
     bindP (check (amqp_decode_16 encoded) bad) (\<lambda>ticket.
     bindP (decode_shortstr encoded) (\<lambda>destination.
     bindP (decode_shortstr encoded) (\<lambda>source.
     bindP (decode_shortstr encoded) (\<lambda>routing_key.
     bindP (check (amqp_decode_8 encoded) bad) (\<lambda>bit_buffer.
     bindP (amqp_decode_table encoded) (\<lambda>arguments.
     ret (amqp_exchange_unbind_t ticket destination source routing_key (test_flag bit_buffer 0)
       arguments))))))))"

definition decode_exchange_unbind_ok :: "amqp_bytes_t \<Rightarrow> (dstate, amqp_method_t) prog" where [decoder_defs]:
  "decode_exchange_unbind_ok encoded = bindP (check (pool_alloc sizeof_exchange_unbind_ok)
    AMQP_STATUS_NO_MEMORY) (\<lambda>_.
     ret amqp_exchange_unbind_ok_t)"

definition decode_queue_declare :: "amqp_bytes_t \<Rightarrow> (dstate, amqp_method_t) prog" where [decoder_defs]:
  "decode_queue_declare encoded = bindP (check (pool_alloc sizeof_queue_declare) AMQP_STATUS_NO_MEMORY)
    (\<lambda>_.
     bindP (check (amqp_decode_16 encoded) bad) (\<lambda>ticket.
     bindP (decode_shortstr encoded) (\<lambda>queue.
     bindP (check (amqp_decode_8 encoded) bad) (\<lambda>bit_buffer.
     bindP (amqp_decode_table encoded) (\<lambda>arguments.
     ret (amqp_queue_declare_t ticket queue (test_flag bit_buffer 0) (test_flag bit_buffer 1) (test_flag
       bit_buffer 2) (test_flag bit_buffer 3) (test_flag bit_buffer 4) arguments))))))"

definition decode_queue_declare_ok :: "amqp_bytes_t \<Rightarrow> (dstate, amqp_method_t) prog" where [decoder_defs]:
  "decode_queue_declare_ok encoded = bindP (check (pool_alloc sizeof_queue_declare_ok)
    AMQP_STATUS_NO_MEMORY) (\<lambda>_.
     bindP (decode_shortstr encoded) (\<lambda>queue.
     bindP (check (amqp_decode_32 encoded) bad) (\<lambda>message_count.
     bindP (check (amqp_decode_32 encoded) bad) (\<lambda>consumer_count.
     ret (amqp_queue_declare_ok_t queue message_count consumer_count)))))"

definition decode_queue_bind :: "amqp_bytes_t \<Rightarrow> (dstate, amqp_method_t) prog" where [decoder_defs]:
  "decode_queue_bind encoded = bindP (check (pool_alloc sizeof_queue_bind) AMQP_STATUS_NO_MEMORY) (\<lambda>_.
     bindP (check (amqp_decode_16 encoded) bad) (\<lambda>ticket.
     bindP (decode_shortstr encoded) (\<lambda>queue.
     bindP (decode_shortstr encoded) (\<lambda>exchange.
     bindP (decode_shortstr encoded) (\<lambda>routing_key.
     bindP (check (amqp_decode_8 encoded) bad) (\<lambda>bit_buffer.
     bindP (amqp_decode_table encoded) (\<lambda>arguments.
     ret (amqp_queue_bind_t ticket queue exchange routing_key (test_flag bit_buffer 0)
       arguments))))))))"

definition decode_queue_bind_ok :: "amqp_bytes_t \<Rightarrow> (dstate, amqp_method_t) prog" where [decoder_defs]:
  "decode_queue_bind_ok encoded = bindP (check (pool_alloc sizeof_queue_bind_ok) AMQP_STATUS_NO_MEMORY)
    (\<lambda>_.
     ret amqp_queue_bind_ok_t)"

definition decode_queue_purge :: "amqp_bytes_t \<Rightarrow> (dstate, amqp_method_t) prog" where [decoder_defs]:
  "decode_queue_purge encoded = bindP (check (pool_alloc sizeof_queue_purge) AMQP_STATUS_NO_MEMORY) (\<lambda>_.
     bindP (check (amqp_decode_16 encoded) bad) (\<lambda>ticket.
     bindP (decode_shortstr encoded) (\<lambda>queue.
     bindP (check (amqp_decode_8 encoded) bad) (\<lambda>bit_buffer.
     ret (amqp_queue_purge_t ticket queue (test_flag bit_buffer 0))))))"

definition decode_queue_purge_ok :: "amqp_bytes_t \<Rightarrow> (dstate, amqp_method_t) prog" where [decoder_defs]:
  "decode_queue_purge_ok encoded = bindP (check (pool_alloc sizeof_queue_purge_ok)
    AMQP_STATUS_NO_MEMORY) (\<lambda>_.
     bindP (check (amqp_decode_32 encoded) bad) (\<lambda>message_count.
     ret (amqp_queue_purge_ok_t message_count)))"

definition decode_queue_delete :: "amqp_bytes_t \<Rightarrow> (dstate, amqp_method_t) prog" where [decoder_defs]:
  "decode_queue_delete encoded = bindP (check (pool_alloc sizeof_queue_delete) AMQP_STATUS_NO_MEMORY)
    (\<lambda>_.
     bindP (check (amqp_decode_16 encoded) bad) (\<lambda>ticket.
     bindP (decode_shortstr encoded) (\<lambda>queue.
     bindP (check (amqp_decode_8 encoded) bad) (\<lambda>bit_buffer.
     ret (amqp_queue_delete_t ticket queue (test_flag bit_buffer 0) (test_flag bit_buffer 1) (test_flag
       bit_buffer 2))))))"

definition decode_queue_delete_ok :: "amqp_bytes_t \<Rightarrow> (dstate, amqp_method_t) prog" where [decoder_defs]:
  "decode_queue_delete_ok encoded = bindP (check (pool_alloc sizeof_queue_delete_ok)
    AMQP_STATUS_NO_MEMORY) (\<lambda>_.
     bindP (check (amqp_decode_32 encoded) bad) (\<lambda>message_count.
     ret (amqp_queue_delete_ok_t message_count)))"

definition decode_queue_unbind :: "amqp_bytes_t \<Rightarrow> (dstate, amqp_method_t) prog" where [decoder_defs]:
  "decode_queue_unbind encoded = bindP (check (pool_alloc sizeof_queue_unbind) AMQP_STATUS_NO_MEMORY)
    (\<lambda>_.
     bindP (check (amqp_decode_16 encoded) bad) (\<lambda>ticket.
     bindP (decode_shortstr encoded) (\<lambda>queue.
     bindP (decode_shortstr encoded) (\<lambda>exchange.
     bindP (decode_shortstr encoded) (\<lambda>routing_key.
     bindP (amqp_decode_table encoded) (\<lambda>arguments.
     ret (amqp_queue_unbind_t ticket queue exchange routing_key arguments)))))))"

definition decode_queue_unbind_ok :: "amqp_bytes_t \<Rightarrow> (dstate, amqp_method_t) prog" where [decoder_defs]:
  "decode_queue_unbind_ok encoded = bindP (check (pool_alloc sizeof_queue_unbind_ok)
    AMQP_STATUS_NO_MEMORY) (\<lambda>_.
     ret amqp_queue_unbind_ok_t)"

definition decode_basic_qos :: "amqp_bytes_t \<Rightarrow> (dstate, amqp_method_t) prog" where [decoder_defs]:
  "decode_basic_qos encoded = bindP (check (pool_alloc sizeof_basic_qos) AMQP_STATUS_NO_MEMORY) (\<lambda>_.
     bindP (check (amqp_decode_32 encoded) bad) (\<lambda>prefetch_size.
     bindP (check (amqp_decode_16 encoded) bad) (\<lambda>prefetch_count.
     bindP (check (amqp_decode_8 encoded) bad) (\<lambda>bit_buffer.
     ret (amqp_basic_qos_t prefetch_size prefetch_count (test_flag bit_buffer 0))))))"

definition decode_basic_qos_ok :: "amqp_bytes_t \<Rightarrow> (dstate, amqp_method_t) prog" where [decoder_defs]:
  "decode_basic_qos_ok encoded = bindP (check (pool_alloc sizeof_basic_qos_ok) AMQP_STATUS_NO_MEMORY)
    (\<lambda>_.
     ret amqp_basic_qos_ok_t)"

definition decode_basic_consume :: "amqp_bytes_t \<Rightarrow> (dstate, amqp_method_t) prog" where [decoder_defs]:
  "decode_basic_consume encoded = bindP (check (pool_alloc sizeof_basic_consume) AMQP_STATUS_NO_MEMORY)
    (\<lambda>_.
     bindP (check (amqp_decode_16 encoded) bad) (\<lambda>ticket.
     bindP (decode_shortstr encoded) (\<lambda>queue.
     bindP (decode_shortstr encoded) (\<lambda>consumer_tag.
     bindP (check (amqp_decode_8 encoded) bad) (\<lambda>bit_buffer.
     bindP (amqp_decode_table encoded) (\<lambda>arguments.
     ret (amqp_basic_consume_t ticket queue consumer_tag (test_flag bit_buffer 0) (test_flag bit_buffer
       1) (test_flag bit_buffer 2) (test_flag bit_buffer 3) arguments)))))))"

definition decode_basic_consume_ok :: "amqp_bytes_t \<Rightarrow> (dstate, amqp_method_t) prog" where [decoder_defs]:
  "decode_basic_consume_ok encoded = bindP (check (pool_alloc sizeof_basic_consume_ok)
    AMQP_STATUS_NO_MEMORY) (\<lambda>_.
     bindP (decode_shortstr encoded) (\<lambda>consumer_tag.
     ret (amqp_basic_consume_ok_t consumer_tag)))"

definition decode_basic_cancel :: "amqp_bytes_t \<Rightarrow> (dstate, amqp_method_t) prog" where [decoder_defs]:
  "decode_basic_cancel encoded = bindP (check (pool_alloc sizeof_basic_cancel) AMQP_STATUS_NO_MEMORY)
    (\<lambda>_.
     bindP (decode_shortstr encoded) (\<lambda>consumer_tag.
     bindP (check (amqp_decode_8 encoded) bad) (\<lambda>bit_buffer.
     ret (amqp_basic_cancel_t consumer_tag (test_flag bit_buffer 0)))))"

definition decode_basic_cancel_ok :: "amqp_bytes_t \<Rightarrow> (dstate, amqp_method_t) prog" where [decoder_defs]:
  "decode_basic_cancel_ok encoded = bindP (check (pool_alloc sizeof_basic_cancel_ok)
    AMQP_STATUS_NO_MEMORY) (\<lambda>_.
     bindP (decode_shortstr encoded) (\<lambda>consumer_tag.
     ret (amqp_basic_cancel_ok_t consumer_tag)))"

definition decode_basic_publish :: "amqp_bytes_t \<Rightarrow> (dstate, amqp_method_t) prog" where [decoder_defs]:
  "decode_basic_publish encoded = bindP (check (pool_alloc sizeof_basic_publish) AMQP_STATUS_NO_MEMORY)
    (\<lambda>_.
     bindP (check (amqp_decode_16 encoded) bad) (\<lambda>ticket.
     bindP (decode_shortstr encoded) (\<lambda>exchange.
     bindP (decode_shortstr encoded) (\<lambda>routing_key.
     bindP (check (amqp_decode_8 encoded) bad) (\<lambda>bit_buffer.
     ret (amqp_basic_publish_t ticket exchange routing_key (test_flag bit_buffer 0) (test_flag
       bit_buffer 1)))))))"

definition decode_basic_return :: "amqp_bytes_t \<Rightarrow> (dstate, amqp_method_t) prog" where [decoder_defs]:
  "decode_basic_return encoded = bindP (check (pool_alloc sizeof_basic_return) AMQP_STATUS_NO_MEMORY)
    (\<lambda>_.
     bindP (check (amqp_decode_16 encoded) bad) (\<lambda>reply_code.
     bindP (decode_shortstr encoded) (\<lambda>reply_text.
     bindP (decode_shortstr encoded) (\<lambda>exchange.
     bindP (decode_shortstr encoded) (\<lambda>routing_key.
     ret (amqp_basic_return_t reply_code reply_text exchange routing_key))))))"

definition decode_basic_deliver :: "amqp_bytes_t \<Rightarrow> (dstate, amqp_method_t) prog" where [decoder_defs]:
  "decode_basic_deliver encoded = bindP (check (pool_alloc sizeof_basic_deliver) AMQP_STATUS_NO_MEMORY)
    (\<lambda>_.
     bindP (decode_shortstr encoded) (\<lambda>consumer_tag.
     bindP (check (amqp_decode_64 encoded) bad) (\<lambda>delivery_tag.
     bindP (check (amqp_decode_8 encoded) bad) (\<lambda>bit_buffer.
     bindP (decode_shortstr encoded) (\<lambda>exchange.
     bindP (decode_shortstr encoded) (\<lambda>routing_key.
     ret (amqp_basic_deliver_t consumer_tag delivery_tag (test_flag bit_buffer 0) exchange
       routing_key)))))))"

definition decode_basic_get :: "amqp_bytes_t \<Rightarrow> (dstate, amqp_method_t) prog" where [decoder_defs]:
  "decode_basic_get encoded = bindP (check (pool_alloc sizeof_basic_get) AMQP_STATUS_NO_MEMORY) (\<lambda>_.
     bindP (check (amqp_decode_16 encoded) bad) (\<lambda>ticket.
     bindP (decode_shortstr encoded) (\<lambda>queue.
     bindP (check (amqp_decode_8 encoded) bad) (\<lambda>bit_buffer.
     ret (amqp_basic_get_t ticket queue (test_flag bit_buffer 0))))))"

definition decode_basic_get_ok :: "amqp_bytes_t \<Rightarrow> (dstate, amqp_method_t) prog" where [decoder_defs]:
  "decode_basic_get_ok encoded = bindP (check (pool_alloc sizeof_basic_get_ok) AMQP_STATUS_NO_MEMORY)
    (\<lambda>_.
     bindP (check (amqp_decode_64 encoded) bad) (\<lambda>delivery_tag.
     bindP (check (amqp_decode_8 encoded) bad) (\<lambda>bit_buffer.
     bindP (decode_shortstr encoded) (\<lambda>exchange.
     bindP (decode_shortstr encoded) (\<lambda>routing_key.
     bindP (check (amqp_decode_32 encoded) bad) (\<lambda>message_count.
     ret (amqp_basic_get_ok_t delivery_tag (test_flag bit_buffer 0) exchange routing_key
       message_count)))))))"

definition decode_basic_get_empty :: "amqp_bytes_t \<Rightarrow> (dstate, amqp_method_t) prog" where [decoder_defs]:
  "decode_basic_get_empty encoded = bindP (check (pool_alloc sizeof_basic_get_empty)
    AMQP_STATUS_NO_MEMORY) (\<lambda>_.
     bindP (decode_shortstr encoded) (\<lambda>cluster_id.
     ret (amqp_basic_get_empty_t cluster_id)))"

definition decode_basic_ack :: "amqp_bytes_t \<Rightarrow> (dstate, amqp_method_t) prog" where [decoder_defs]:
  "decode_basic_ack encoded = bindP (check (pool_alloc sizeof_basic_ack) AMQP_STATUS_NO_MEMORY) (\<lambda>_.
     bindP (check (amqp_decode_64 encoded) bad) (\<lambda>delivery_tag.
     bindP (check (amqp_decode_8 encoded) bad) (\<lambda>bit_buffer.
     ret (amqp_basic_ack_t delivery_tag (test_flag bit_buffer 0)))))"

definition decode_basic_reject :: "amqp_bytes_t \<Rightarrow> (dstate, amqp_method_t) prog" where [decoder_defs]:
  "decode_basic_reject encoded = bindP (check (pool_alloc sizeof_basic_reject) AMQP_STATUS_NO_MEMORY)
    (\<lambda>_.
     bindP (check (amqp_decode_64 encoded) bad) (\<lambda>delivery_tag.
     bindP (check (amqp_decode_8 encoded) bad) (\<lambda>bit_buffer.
     ret (amqp_basic_reject_t delivery_tag (test_flag bit_buffer 0)))))"

definition decode_basic_recover_async :: "amqp_bytes_t \<Rightarrow> (dstate, amqp_method_t) prog" where [decoder_defs]:
  "decode_basic_recover_async encoded = bindP (check (pool_alloc sizeof_basic_recover_async)
    AMQP_STATUS_NO_MEMORY) (\<lambda>_.
     bindP (check (amqp_decode_8 encoded) bad) (\<lambda>bit_buffer.
     ret (amqp_basic_recover_async_t (test_flag bit_buffer 0))))"

definition decode_basic_recover :: "amqp_bytes_t \<Rightarrow> (dstate, amqp_method_t) prog" where [decoder_defs]:
  "decode_basic_recover encoded = bindP (check (pool_alloc sizeof_basic_recover) AMQP_STATUS_NO_MEMORY)
    (\<lambda>_.
     bindP (check (amqp_decode_8 encoded) bad) (\<lambda>bit_buffer.
     ret (amqp_basic_recover_t (test_flag bit_buffer 0))))"

definition decode_basic_recover_ok :: "amqp_bytes_t \<Rightarrow> (dstate, amqp_method_t) prog" where [decoder_defs]:
  "decode_basic_recover_ok encoded = bindP (check (pool_alloc sizeof_basic_recover_ok)
    AMQP_STATUS_NO_MEMORY) (\<lambda>_.
     ret amqp_basic_recover_ok_t)"

definition decode_basic_nack :: "amqp_bytes_t \<Rightarrow> (dstate, amqp_method_t) prog" where [decoder_defs]:
  "decode_basic_nack encoded = bindP (check (pool_alloc sizeof_basic_nack) AMQP_STATUS_NO_MEMORY) (\<lambda>_.
     bindP (check (amqp_decode_64 encoded) bad) (\<lambda>delivery_tag.
     bindP (check (amqp_decode_8 encoded) bad) (\<lambda>bit_buffer.
     ret (amqp_basic_nack_t delivery_tag (test_flag bit_buffer 0) (test_flag bit_buffer 1)))))"

definition decode_tx_select :: "amqp_bytes_t \<Rightarrow> (dstate, amqp_method_t) prog" where [decoder_defs]:
  "decode_tx_select encoded = bindP (check (pool_alloc sizeof_tx_select) AMQP_STATUS_NO_MEMORY) (\<lambda>_.
     ret amqp_tx_select_t)"

definition decode_tx_select_ok :: "amqp_bytes_t \<Rightarrow> (dstate, amqp_method_t) prog" where [decoder_defs]:
  "decode_tx_select_ok encoded = bindP (check (pool_alloc sizeof_tx_select_ok) AMQP_STATUS_NO_MEMORY)
    (\<lambda>_.
     ret amqp_tx_select_ok_t)"

definition decode_tx_commit :: "amqp_bytes_t \<Rightarrow> (dstate, amqp_method_t) prog" where [decoder_defs]:
  "decode_tx_commit encoded = bindP (check (pool_alloc sizeof_tx_commit) AMQP_STATUS_NO_MEMORY) (\<lambda>_.
     ret amqp_tx_commit_t)"

definition decode_tx_commit_ok :: "amqp_bytes_t \<Rightarrow> (dstate, amqp_method_t) prog" where [decoder_defs]:
  "decode_tx_commit_ok encoded = bindP (check (pool_alloc sizeof_tx_commit_ok) AMQP_STATUS_NO_MEMORY)
    (\<lambda>_.
     ret amqp_tx_commit_ok_t)"

definition decode_tx_rollback :: "amqp_bytes_t \<Rightarrow> (dstate, amqp_method_t) prog" where [decoder_defs]:
  "decode_tx_rollback encoded = bindP (check (pool_alloc sizeof_tx_rollback) AMQP_STATUS_NO_MEMORY) (\<lambda>_.
     ret amqp_tx_rollback_t)"

definition decode_tx_rollback_ok :: "amqp_bytes_t \<Rightarrow> (dstate, amqp_method_t) prog" where [decoder_defs]:
  "decode_tx_rollback_ok encoded = bindP (check (pool_alloc sizeof_tx_rollback_ok)
    AMQP_STATUS_NO_MEMORY) (\<lambda>_.
     ret amqp_tx_rollback_ok_t)"

definition decode_confirm_select :: "amqp_bytes_t \<Rightarrow> (dstate, amqp_method_t) prog" where [decoder_defs]:
  "decode_confirm_select encoded = bindP (check (pool_alloc sizeof_confirm_select)
    AMQP_STATUS_NO_MEMORY) (\<lambda>_.
     bindP (check (amqp_decode_8 encoded) bad) (\<lambda>bit_buffer.
     ret (amqp_confirm_select_t (test_flag bit_buffer 0))))"

definition decode_confirm_select_ok :: "amqp_bytes_t \<Rightarrow> (dstate, amqp_method_t) prog" where [decoder_defs]:
  "decode_confirm_select_ok encoded = bindP (check (pool_alloc sizeof_confirm_select_ok)
    AMQP_STATUS_NO_MEMORY) (\<lambda>_.
     ret amqp_confirm_select_ok_t)"

definition method_decoders :: "(amqp_method_number_t \<times> (amqp_bytes_t \<Rightarrow> (dstate, amqp_method_t) prog)) list" where
  "method_decoders = [
     (AMQP_CONNECTION_START_METHOD, decode_connection_start),
     (AMQP_CONNECTION_START_OK_METHOD, decode_connection_start_ok),
     (AMQP_CONNECTION_SECURE_METHOD, decode_connection_secure),
     (AMQP_CONNECTION_SECURE_OK_METHOD, decode_connection_secure_ok),
     (AMQP_CONNECTION_TUNE_METHOD, decode_connection_tune),
     (AMQP_CONNECTION_TUNE_OK_METHOD, decode_connection_tune_ok),
     (AMQP_CONNECTION_OPEN_METHOD, decode_connection_open),
     (AMQP_CONNECTION_OPEN_OK_METHOD, decode_connection_open_ok),
     (AMQP_CONNECTION_CLOSE_METHOD, decode_connection_close),
     (AMQP_CONNECTION_CLOSE_OK_METHOD, decode_connection_close_ok),
     (AMQP_CONNECTION_BLOCKED_METHOD, decode_connection_blocked),
     (AMQP_CONNECTION_UNBLOCKED_METHOD, decode_connection_unblocked),
     (AMQP_CONNECTION_UPDATE_SECRET_METHOD, decode_connection_update_secret),
     (AMQP_CONNECTION_UPDATE_SECRET_OK_METHOD, decode_connection_update_secret_ok),
     (AMQP_CHANNEL_OPEN_METHOD, decode_channel_open),
     (AMQP_CHANNEL_OPEN_OK_METHOD, decode_channel_open_ok),
     (AMQP_CHANNEL_FLOW_METHOD, decode_channel_flow),
     (AMQP_CHANNEL_FLOW_OK_METHOD, decode_channel_flow_ok),
     (AMQP_CHANNEL_CLOSE_METHOD, decode_channel_close),
     (AMQP_CHANNEL_CLOSE_OK_METHOD, decode_channel_close_ok),
     (AMQP_ACCESS_REQUEST_METHOD, decode_access_request),
     (AMQP_ACCESS_REQUEST_OK_METHOD, decode_access_request_ok),
     (AMQP_EXCHANGE_DECLARE_METHOD, decode_exchange_declare),
     (AMQP_EXCHANGE_DECLARE_OK_METHOD, decode_exchange_declare_ok),
     (AMQP_EXCHANGE_DELETE_METHOD, decode_exchange_delete),
     (AMQP_EXCHANGE_DELETE_OK_METHOD, decode_exchange_delete_ok),
     (AMQP_EXCHANGE_BIND_METHOD, decode_exchange_bind),
     (AMQP_EXCHANGE_BIND_OK_METHOD, decode_exchange_bind_ok),
     (AMQP_EXCHANGE_UNBIND_METHOD, decode_exchange_unbind),
     (AMQP_EXCHANGE_UNBIND_OK_METHOD, decode_exchange_unbind_ok),
     (AMQP_QUEUE_DECLARE_METHOD, decode_queue_declare),
     (AMQP_QUEUE_DECLARE_OK_METHOD, decode_queue_declare_ok),
     (AMQP_QUEUE_BIND_METHOD, decode_queue_bind),
     (AMQP_QUEUE_BIND_OK_METHOD, decode_queue_bind_ok),
     (AMQP_QUEUE_PURGE_METHOD, decode_queue_purge),
     (AMQP_QUEUE_PURGE_OK_METHOD, decode_queue_purge_ok),
     (AMQP_QUEUE_DELETE_METHOD, decode_queue_delete),
     (AMQP_QUEUE_DELETE_OK_METHOD, decode_queue_delete_ok),
     (AMQP_QUEUE_UNBIND_METHOD, decode_queue_unbind),
     (AMQP_QUEUE_UNBIND_OK_METHOD, decode_queue_unbind_ok),
     (AMQP_BASIC_QOS_METHOD, decode_basic_qos),
     (AMQP_BASIC_QOS_OK_METHOD, decode_basic_qos_ok),
     (AMQP_BASIC_CONSUME_METHOD, decode_basic_consume),
     (AMQP_BASIC_CONSUME_OK_METHOD, decode_basic_consume_ok),
     (AMQP_BASIC_CANCEL_METHOD, decode_basic_cancel),
     (AMQP_BASIC_CANCEL_OK_METHOD, decode_basic_cancel_ok),
     (AMQP_BASIC_PUBLISH_METHOD, decode_basic_publish),
     (AMQP_BASIC_RETURN_METHOD, decode_basic_return),
     (AMQP_BASIC_DELIVER_METHOD, decode_basic_deliver),
     (AMQP_BASIC_GET_METHOD, decode_basic_get),
     (AMQP_BASIC_GET_OK_METHOD, decode_basic_get_ok),
     (AMQP_BASIC_GET_EMPTY_METHOD, decode_basic_get_empty),
     (AMQP_BASIC_ACK_METHOD, decode_basic_ack),
     (AMQP_BASIC_REJECT_METHOD, decode_basic_reject),
     (AMQP_BASIC_RECOVER_ASYNC_METHOD, decode_basic_recover_async),
     (AMQP_BASIC_RECOVER_METHOD, decode_basic_recover),
     (AMQP_BASIC_RECOVER_OK_METHOD, decode_basic_recover_ok),
     (AMQP_BASIC_NACK_METHOD, decode_basic_nack),
     (AMQP_TX_SELECT_METHOD, decode_tx_select),
     (AMQP_TX_SELECT_OK_METHOD, decode_tx_select_ok),
     (AMQP_TX_COMMIT_METHOD, decode_tx_commit),
     (AMQP_TX_COMMIT_OK_METHOD, decode_tx_commit_ok),
     (AMQP_TX_ROLLBACK_METHOD, decode_tx_rollback),
     (AMQP_TX_ROLLBACK_OK_METHOD, decode_tx_rollback_ok),
     (AMQP_CONFIRM_SELECT_METHOD, decode_confirm_select),
     (AMQP_CONFIRM_SELECT_OK_METHOD, decode_confirm_select_ok)]"

text \<open>The offset is local to \<^verbatim>\<open>amqp_decode_method\<close> and starts at 0.\<close>

definition amqp_decode_method ::
  "amqp_method_number_t \<Rightarrow> amqp_bytes_t \<Rightarrow> (dstate, amqp_method_t) prog" where
  "amqp_decode_method methodNumber encoded = (\<lambda>s.
     (case map_of method_decoders methodNumber of
        None \<Rightarrow> throw AMQP_STATUS_UNKNOWN_METHOD
      | Some decoder \<Rightarrow> decoder encoded) (s\<lparr>offset := 0\<rparr>))"

lemma dsafe_decode_method_case: "(n, d) \<in> set method_decoders \<Longrightarrow> dsafe encoded B (d encoded)"
  unfolding method_decoders_def decoder_defs
  by (auto intro!: hoare_intros simp only: set_simps insert_iff empty_iff prod.inject simp_thms)

end
