(* ===== verification/Amqp_Framing_Encode.thy ===== *)
theory Amqp_Framing_Encode
  imports Amqp_Framing_Types
begin

text \<open>
  librabbitmq/amqp\_framing.c, \<^verbatim>\<open>amqp_encode_method\<close>: one definition per case of the switch that has
  fields, in the order of the source. The caller passes the structure through an untyped pointer;
  passing a structure that does not belong to the method number is undefined behaviour.

  \<open>ser_method\<close> is the wire grammar of all methods and \<open>wf_method\<close> the field lengths it can represent;
  the lemmas show that each encoder writes exactly its grammar, or fails when the buffer is full.
\<close>

named_theorems encoder_defs \<open>the encoders of the method structures\<close>

definition encode_connection_start :: "uint8 \<Rightarrow> uint8 \<Rightarrow> amqp_table_t
    \<Rightarrow> byte list \<Rightarrow> byte list \<Rightarrow> (estate, unit) prog" where
    [encoder_defs]:
  "encode_connection_start version_major version_minor server_properties mechanisms locales =
     bindP (require (amqp_encode_8 version_major) bad) (\<lambda>_.
     bindP (require (amqp_encode_8 version_minor) bad) (\<lambda>_.
     bindP (amqp_encode_table server_properties) (\<lambda>_.
     bindP (encode_longstr mechanisms) (\<lambda>_.
     encode_longstr locales))))"

definition encode_connection_start_ok :: "amqp_table_t \<Rightarrow> byte list \<Rightarrow> byte list
    \<Rightarrow> byte list \<Rightarrow> (estate, unit) prog" where [encoder_defs]:
  "encode_connection_start_ok client_properties mechanism response locale =
     bindP (amqp_encode_table client_properties) (\<lambda>_.
     bindP (encode_shortstr mechanism) (\<lambda>_.
     bindP (encode_longstr response) (\<lambda>_.
     encode_shortstr locale)))"

definition encode_connection_secure :: "byte list \<Rightarrow> (estate, unit) prog" where [encoder_defs]:
  "encode_connection_secure challenge =
     encode_longstr challenge"

definition encode_connection_secure_ok :: "byte list \<Rightarrow> (estate, unit) prog" where [encoder_defs]:
  "encode_connection_secure_ok response =
     encode_longstr response"

definition encode_connection_tune :: "uint16 \<Rightarrow> uint32 \<Rightarrow> uint16 \<Rightarrow>
    (estate, unit) prog" where [encoder_defs]:
  "encode_connection_tune channel_max frame_max heartbeat =
     bindP (require (amqp_encode_16 channel_max) bad) (\<lambda>_.
     bindP (require (amqp_encode_32 frame_max) bad) (\<lambda>_.
     require (amqp_encode_16 heartbeat) bad))"

definition encode_connection_tune_ok :: "uint16 \<Rightarrow> uint32 \<Rightarrow> uint16 \<Rightarrow>
    (estate, unit) prog" where [encoder_defs]:
  "encode_connection_tune_ok channel_max frame_max heartbeat =
     bindP (require (amqp_encode_16 channel_max) bad) (\<lambda>_.
     bindP (require (amqp_encode_32 frame_max) bad) (\<lambda>_.
     require (amqp_encode_16 heartbeat) bad))"

definition encode_connection_open :: "byte list \<Rightarrow> byte list \<Rightarrow> bool \<Rightarrow>
    (estate, unit) prog" where [encoder_defs]:
  "encode_connection_open virtual_host capabilities insist =
     bindP (encode_shortstr virtual_host) (\<lambda>_.
     bindP (encode_shortstr capabilities) (\<lambda>_.
     require (amqp_encode_8 (pack_flags [insist])) bad))"

definition encode_connection_open_ok :: "byte list \<Rightarrow> (estate, unit) prog" where [encoder_defs]:
  "encode_connection_open_ok known_hosts =
     encode_shortstr known_hosts"

definition encode_connection_close :: "uint16 \<Rightarrow> byte list \<Rightarrow> uint16 \<Rightarrow>
    uint16 \<Rightarrow> (estate, unit) prog" where [encoder_defs]:
  "encode_connection_close reply_code reply_text class_id method_id =
     bindP (require (amqp_encode_16 reply_code) bad) (\<lambda>_.
     bindP (encode_shortstr reply_text) (\<lambda>_.
     bindP (require (amqp_encode_16 class_id) bad) (\<lambda>_.
     require (amqp_encode_16 method_id) bad)))"

definition encode_connection_blocked :: "byte list \<Rightarrow> (estate, unit) prog" where [encoder_defs]:
  "encode_connection_blocked reason =
     encode_shortstr reason"

definition encode_connection_update_secret :: "byte list \<Rightarrow> byte list \<Rightarrow> (estate,
    unit) prog" where [encoder_defs]:
  "encode_connection_update_secret new_secret reason =
     bindP (encode_longstr new_secret) (\<lambda>_.
     encode_shortstr reason)"

definition encode_channel_open :: "byte list \<Rightarrow> (estate, unit) prog" where [encoder_defs]:
  "encode_channel_open out_of_band =
     encode_shortstr out_of_band"

definition encode_channel_open_ok :: "byte list \<Rightarrow> (estate, unit) prog" where [encoder_defs]:
  "encode_channel_open_ok channel_id =
     encode_longstr channel_id"

definition encode_channel_flow :: "bool \<Rightarrow> (estate, unit) prog" where [encoder_defs]:
  "encode_channel_flow active =
     require (amqp_encode_8 (pack_flags [active])) bad"

definition encode_channel_flow_ok :: "bool \<Rightarrow> (estate, unit) prog" where [encoder_defs]:
  "encode_channel_flow_ok active =
     require (amqp_encode_8 (pack_flags [active])) bad"

definition encode_channel_close :: "uint16 \<Rightarrow> byte list \<Rightarrow> uint16 \<Rightarrow>
    uint16 \<Rightarrow> (estate, unit) prog" where [encoder_defs]:
  "encode_channel_close reply_code reply_text class_id method_id =
     bindP (require (amqp_encode_16 reply_code) bad) (\<lambda>_.
     bindP (encode_shortstr reply_text) (\<lambda>_.
     bindP (require (amqp_encode_16 class_id) bad) (\<lambda>_.
     require (amqp_encode_16 method_id) bad)))"

definition encode_access_request :: "byte list \<Rightarrow> bool \<Rightarrow> bool \<Rightarrow> bool
    \<Rightarrow> bool \<Rightarrow> bool \<Rightarrow> (estate, unit) prog" where [encoder_defs]:
  "encode_access_request realm exclusive passive active write read =
     bindP (encode_shortstr realm) (\<lambda>_.
     require (amqp_encode_8 (pack_flags [exclusive, passive, active, write, read])) bad)"

definition encode_access_request_ok :: "uint16 \<Rightarrow> (estate, unit) prog" where [encoder_defs]:
  "encode_access_request_ok ticket =
     require (amqp_encode_16 ticket) bad"

definition encode_exchange_declare :: "uint16 \<Rightarrow> byte list \<Rightarrow> byte list
    \<Rightarrow> bool \<Rightarrow> bool \<Rightarrow> bool \<Rightarrow> bool \<Rightarrow> bool
    \<Rightarrow> amqp_table_t \<Rightarrow> (estate, unit) prog" where [encoder_defs]:
  "encode_exchange_declare ticket exchange type' passive durable auto_delete internal nowait arguments =
     bindP (require (amqp_encode_16 ticket) bad) (\<lambda>_.
     bindP (encode_shortstr exchange) (\<lambda>_.
     bindP (encode_shortstr type') (\<lambda>_.
     bindP (require (amqp_encode_8 (pack_flags [passive, durable, auto_delete, internal, nowait])) bad)
       (\<lambda>_.
     amqp_encode_table arguments))))"

definition encode_exchange_delete :: "uint16 \<Rightarrow> byte list \<Rightarrow> bool \<Rightarrow>
    bool \<Rightarrow> (estate, unit) prog" where [encoder_defs]:
  "encode_exchange_delete ticket exchange if_unused nowait =
     bindP (require (amqp_encode_16 ticket) bad) (\<lambda>_.
     bindP (encode_shortstr exchange) (\<lambda>_.
     require (amqp_encode_8 (pack_flags [if_unused, nowait])) bad))"

definition encode_exchange_bind :: "uint16 \<Rightarrow> byte list \<Rightarrow> byte list \<Rightarrow>
    byte list \<Rightarrow> bool \<Rightarrow> amqp_table_t \<Rightarrow> (estate, unit) prog" where
    [encoder_defs]:
  "encode_exchange_bind ticket destination source routing_key nowait arguments =
     bindP (require (amqp_encode_16 ticket) bad) (\<lambda>_.
     bindP (encode_shortstr destination) (\<lambda>_.
     bindP (encode_shortstr source) (\<lambda>_.
     bindP (encode_shortstr routing_key) (\<lambda>_.
     bindP (require (amqp_encode_8 (pack_flags [nowait])) bad) (\<lambda>_.
     amqp_encode_table arguments)))))"

definition encode_exchange_unbind :: "uint16 \<Rightarrow> byte list \<Rightarrow> byte list
    \<Rightarrow> byte list \<Rightarrow> bool \<Rightarrow> amqp_table_t \<Rightarrow> (estate, unit)
    prog" where [encoder_defs]:
  "encode_exchange_unbind ticket destination source routing_key nowait arguments =
     bindP (require (amqp_encode_16 ticket) bad) (\<lambda>_.
     bindP (encode_shortstr destination) (\<lambda>_.
     bindP (encode_shortstr source) (\<lambda>_.
     bindP (encode_shortstr routing_key) (\<lambda>_.
     bindP (require (amqp_encode_8 (pack_flags [nowait])) bad) (\<lambda>_.
     amqp_encode_table arguments)))))"

definition encode_queue_declare :: "uint16 \<Rightarrow> byte list \<Rightarrow> bool \<Rightarrow> bool
    \<Rightarrow> bool \<Rightarrow> bool \<Rightarrow> bool \<Rightarrow> amqp_table_t \<Rightarrow>
    (estate, unit) prog" where [encoder_defs]:
  "encode_queue_declare ticket queue passive durable exclusive auto_delete nowait arguments =
     bindP (require (amqp_encode_16 ticket) bad) (\<lambda>_.
     bindP (encode_shortstr queue) (\<lambda>_.
     bindP (require (amqp_encode_8 (pack_flags [passive, durable, exclusive, auto_delete, nowait])) bad)
       (\<lambda>_.
     amqp_encode_table arguments)))"

definition encode_queue_declare_ok :: "byte list \<Rightarrow> uint32 \<Rightarrow> uint32 \<Rightarrow>
    (estate, unit) prog" where [encoder_defs]:
  "encode_queue_declare_ok queue message_count consumer_count =
     bindP (encode_shortstr queue) (\<lambda>_.
     bindP (require (amqp_encode_32 message_count) bad) (\<lambda>_.
     require (amqp_encode_32 consumer_count) bad))"

definition encode_queue_bind :: "uint16 \<Rightarrow> byte list \<Rightarrow> byte list \<Rightarrow>
    byte list \<Rightarrow> bool \<Rightarrow> amqp_table_t \<Rightarrow> (estate, unit) prog" where
    [encoder_defs]:
  "encode_queue_bind ticket queue exchange routing_key nowait arguments =
     bindP (require (amqp_encode_16 ticket) bad) (\<lambda>_.
     bindP (encode_shortstr queue) (\<lambda>_.
     bindP (encode_shortstr exchange) (\<lambda>_.
     bindP (encode_shortstr routing_key) (\<lambda>_.
     bindP (require (amqp_encode_8 (pack_flags [nowait])) bad) (\<lambda>_.
     amqp_encode_table arguments)))))"

definition encode_queue_purge :: "uint16 \<Rightarrow> byte list \<Rightarrow> bool \<Rightarrow> (estate, unit) prog" where [encoder_defs]:
  "encode_queue_purge ticket queue nowait =
     bindP (require (amqp_encode_16 ticket) bad) (\<lambda>_.
     bindP (encode_shortstr queue) (\<lambda>_.
     require (amqp_encode_8 (pack_flags [nowait])) bad))"

definition encode_queue_purge_ok :: "uint32 \<Rightarrow> (estate, unit) prog" where [encoder_defs]:
  "encode_queue_purge_ok message_count =
     require (amqp_encode_32 message_count) bad"

definition encode_queue_delete :: "uint16 \<Rightarrow> byte list \<Rightarrow> bool \<Rightarrow> bool
    \<Rightarrow> bool \<Rightarrow> (estate, unit) prog" where [encoder_defs]:
  "encode_queue_delete ticket queue if_unused if_empty nowait =
     bindP (require (amqp_encode_16 ticket) bad) (\<lambda>_.
     bindP (encode_shortstr queue) (\<lambda>_.
     require (amqp_encode_8 (pack_flags [if_unused, if_empty, nowait])) bad))"

definition encode_queue_delete_ok :: "uint32 \<Rightarrow> (estate, unit) prog" where [encoder_defs]:
  "encode_queue_delete_ok message_count =
     require (amqp_encode_32 message_count) bad"

definition encode_queue_unbind :: "uint16 \<Rightarrow> byte list \<Rightarrow> byte list \<Rightarrow>
    byte list \<Rightarrow> amqp_table_t \<Rightarrow> (estate, unit) prog" where [encoder_defs]:
  "encode_queue_unbind ticket queue exchange routing_key arguments =
     bindP (require (amqp_encode_16 ticket) bad) (\<lambda>_.
     bindP (encode_shortstr queue) (\<lambda>_.
     bindP (encode_shortstr exchange) (\<lambda>_.
     bindP (encode_shortstr routing_key) (\<lambda>_.
     amqp_encode_table arguments))))"

definition encode_basic_qos :: "uint32 \<Rightarrow> uint16 \<Rightarrow> bool \<Rightarrow> (estate, unit) prog" where [encoder_defs]:
  "encode_basic_qos prefetch_size prefetch_count global' =
     bindP (require (amqp_encode_32 prefetch_size) bad) (\<lambda>_.
     bindP (require (amqp_encode_16 prefetch_count) bad) (\<lambda>_.
     require (amqp_encode_8 (pack_flags [global'])) bad))"

definition encode_basic_consume :: "uint16 \<Rightarrow> byte list \<Rightarrow> byte list \<Rightarrow>
    bool \<Rightarrow> bool \<Rightarrow> bool \<Rightarrow> bool \<Rightarrow> amqp_table_t
    \<Rightarrow> (estate, unit) prog" where [encoder_defs]:
  "encode_basic_consume ticket queue consumer_tag no_local no_ack exclusive nowait arguments =
     bindP (require (amqp_encode_16 ticket) bad) (\<lambda>_.
     bindP (encode_shortstr queue) (\<lambda>_.
     bindP (encode_shortstr consumer_tag) (\<lambda>_.
     bindP (require (amqp_encode_8 (pack_flags [no_local, no_ack, exclusive, nowait])) bad) (\<lambda>_.
     amqp_encode_table arguments))))"

definition encode_basic_consume_ok :: "byte list \<Rightarrow> (estate, unit) prog" where [encoder_defs]:
  "encode_basic_consume_ok consumer_tag =
     encode_shortstr consumer_tag"

definition encode_basic_cancel :: "byte list \<Rightarrow> bool \<Rightarrow> (estate, unit) prog" where [encoder_defs]:
  "encode_basic_cancel consumer_tag nowait =
     bindP (encode_shortstr consumer_tag) (\<lambda>_.
     require (amqp_encode_8 (pack_flags [nowait])) bad)"

definition encode_basic_cancel_ok :: "byte list \<Rightarrow> (estate, unit) prog" where [encoder_defs]:
  "encode_basic_cancel_ok consumer_tag =
     encode_shortstr consumer_tag"

definition encode_basic_publish :: "uint16 \<Rightarrow> byte list \<Rightarrow> byte list \<Rightarrow>
    bool \<Rightarrow> bool \<Rightarrow> (estate, unit) prog" where [encoder_defs]:
  "encode_basic_publish ticket exchange routing_key mandatory immediate =
     bindP (require (amqp_encode_16 ticket) bad) (\<lambda>_.
     bindP (encode_shortstr exchange) (\<lambda>_.
     bindP (encode_shortstr routing_key) (\<lambda>_.
     require (amqp_encode_8 (pack_flags [mandatory, immediate])) bad)))"

definition encode_basic_return :: "uint16 \<Rightarrow> byte list \<Rightarrow> byte list \<Rightarrow>
    byte list \<Rightarrow> (estate, unit) prog" where [encoder_defs]:
  "encode_basic_return reply_code reply_text exchange routing_key =
     bindP (require (amqp_encode_16 reply_code) bad) (\<lambda>_.
     bindP (encode_shortstr reply_text) (\<lambda>_.
     bindP (encode_shortstr exchange) (\<lambda>_.
     encode_shortstr routing_key)))"

definition encode_basic_deliver :: "byte list \<Rightarrow> uint64 \<Rightarrow> bool \<Rightarrow> byte
    list \<Rightarrow> byte list \<Rightarrow> (estate, unit) prog" where [encoder_defs]:
  "encode_basic_deliver consumer_tag delivery_tag redelivered exchange routing_key =
     bindP (encode_shortstr consumer_tag) (\<lambda>_.
     bindP (require (amqp_encode_64 delivery_tag) bad) (\<lambda>_.
     bindP (require (amqp_encode_8 (pack_flags [redelivered])) bad) (\<lambda>_.
     bindP (encode_shortstr exchange) (\<lambda>_.
     encode_shortstr routing_key))))"

definition encode_basic_get :: "uint16 \<Rightarrow> byte list \<Rightarrow> bool \<Rightarrow> (estate, unit) prog" where [encoder_defs]:
  "encode_basic_get ticket queue no_ack =
     bindP (require (amqp_encode_16 ticket) bad) (\<lambda>_.
     bindP (encode_shortstr queue) (\<lambda>_.
     require (amqp_encode_8 (pack_flags [no_ack])) bad))"

definition encode_basic_get_ok :: "uint64 \<Rightarrow> bool \<Rightarrow> byte list \<Rightarrow> byte
    list \<Rightarrow> uint32 \<Rightarrow> (estate, unit) prog" where [encoder_defs]:
  "encode_basic_get_ok delivery_tag redelivered exchange routing_key message_count =
     bindP (require (amqp_encode_64 delivery_tag) bad) (\<lambda>_.
     bindP (require (amqp_encode_8 (pack_flags [redelivered])) bad) (\<lambda>_.
     bindP (encode_shortstr exchange) (\<lambda>_.
     bindP (encode_shortstr routing_key) (\<lambda>_.
     require (amqp_encode_32 message_count) bad))))"

definition encode_basic_get_empty :: "byte list \<Rightarrow> (estate, unit) prog" where [encoder_defs]:
  "encode_basic_get_empty cluster_id =
     encode_shortstr cluster_id"

definition encode_basic_ack :: "uint64 \<Rightarrow> bool \<Rightarrow> (estate, unit) prog" where [encoder_defs]:
  "encode_basic_ack delivery_tag multiple =
     bindP (require (amqp_encode_64 delivery_tag) bad) (\<lambda>_.
     require (amqp_encode_8 (pack_flags [multiple])) bad)"

definition encode_basic_reject :: "uint64 \<Rightarrow> bool \<Rightarrow> (estate, unit) prog" where [encoder_defs]:
  "encode_basic_reject delivery_tag requeue =
     bindP (require (amqp_encode_64 delivery_tag) bad) (\<lambda>_.
     require (amqp_encode_8 (pack_flags [requeue])) bad)"

definition encode_basic_recover_async :: "bool \<Rightarrow> (estate, unit) prog" where [encoder_defs]:
  "encode_basic_recover_async requeue =
     require (amqp_encode_8 (pack_flags [requeue])) bad"

definition encode_basic_recover :: "bool \<Rightarrow> (estate, unit) prog" where [encoder_defs]:
  "encode_basic_recover requeue =
     require (amqp_encode_8 (pack_flags [requeue])) bad"

definition encode_basic_nack :: "uint64 \<Rightarrow> bool \<Rightarrow> bool \<Rightarrow> (estate, unit) prog" where [encoder_defs]:
  "encode_basic_nack delivery_tag multiple requeue =
     bindP (require (amqp_encode_64 delivery_tag) bad) (\<lambda>_.
     require (amqp_encode_8 (pack_flags [multiple, requeue])) bad)"

definition encode_confirm_select :: "bool \<Rightarrow> (estate, unit) prog" where [encoder_defs]:
  "encode_confirm_select nowait =
     require (amqp_encode_8 (pack_flags [nowait])) bad"

fun encode_fields :: "amqp_method_t \<Rightarrow> (estate, unit) prog" where
  "encode_fields (amqp_connection_start_t version_major version_minor server_properties mechanisms
    locales) = encode_connection_start version_major version_minor server_properties mechanisms locales"
| "encode_fields (amqp_connection_start_ok_t client_properties mechanism response locale) =
    encode_connection_start_ok client_properties mechanism response locale"
| "encode_fields (amqp_connection_secure_t challenge) = encode_connection_secure challenge"
| "encode_fields (amqp_connection_secure_ok_t response) = encode_connection_secure_ok response"
| "encode_fields (amqp_connection_tune_t channel_max frame_max heartbeat) = encode_connection_tune
    channel_max frame_max heartbeat"
| "encode_fields (amqp_connection_tune_ok_t channel_max frame_max heartbeat) = encode_connection_tune_ok
    channel_max frame_max heartbeat"
| "encode_fields (amqp_connection_open_t virtual_host capabilities insist) = encode_connection_open
    virtual_host capabilities insist"
| "encode_fields (amqp_connection_open_ok_t known_hosts) = encode_connection_open_ok known_hosts"
| "encode_fields (amqp_connection_close_t reply_code reply_text class_id method_id) =
    encode_connection_close reply_code reply_text class_id method_id"
| "encode_fields amqp_connection_close_ok_t = ret ()"
| "encode_fields (amqp_connection_blocked_t reason) = encode_connection_blocked reason"
| "encode_fields amqp_connection_unblocked_t = ret ()"
| "encode_fields (amqp_connection_update_secret_t new_secret reason) = encode_connection_update_secret
    new_secret reason"
| "encode_fields amqp_connection_update_secret_ok_t = ret ()"
| "encode_fields (amqp_channel_open_t out_of_band) = encode_channel_open out_of_band"
| "encode_fields (amqp_channel_open_ok_t channel_id) = encode_channel_open_ok channel_id"
| "encode_fields (amqp_channel_flow_t active) = encode_channel_flow active"
| "encode_fields (amqp_channel_flow_ok_t active) = encode_channel_flow_ok active"
| "encode_fields (amqp_channel_close_t reply_code reply_text class_id method_id) = encode_channel_close
    reply_code reply_text class_id method_id"
| "encode_fields amqp_channel_close_ok_t = ret ()"
| "encode_fields (amqp_access_request_t realm exclusive passive active write read) =
    encode_access_request realm exclusive passive active write read"
| "encode_fields (amqp_access_request_ok_t ticket) = encode_access_request_ok ticket"
| "encode_fields (amqp_exchange_declare_t ticket exchange type' passive durable auto_delete internal
    nowait arguments) = encode_exchange_declare ticket exchange type' passive durable auto_delete
    internal nowait arguments"
| "encode_fields amqp_exchange_declare_ok_t = ret ()"
| "encode_fields (amqp_exchange_delete_t ticket exchange if_unused nowait) = encode_exchange_delete
    ticket exchange if_unused nowait"
| "encode_fields amqp_exchange_delete_ok_t = ret ()"
| "encode_fields (amqp_exchange_bind_t ticket destination source routing_key nowait arguments) =
    encode_exchange_bind ticket destination source routing_key nowait arguments"
| "encode_fields amqp_exchange_bind_ok_t = ret ()"
| "encode_fields (amqp_exchange_unbind_t ticket destination source routing_key nowait arguments) =
    encode_exchange_unbind ticket destination source routing_key nowait arguments"
| "encode_fields amqp_exchange_unbind_ok_t = ret ()"
| "encode_fields (amqp_queue_declare_t ticket queue passive durable exclusive auto_delete nowait
    arguments) = encode_queue_declare ticket queue passive durable exclusive auto_delete nowait
    arguments"
| "encode_fields (amqp_queue_declare_ok_t queue message_count consumer_count) = encode_queue_declare_ok
    queue message_count consumer_count"
| "encode_fields (amqp_queue_bind_t ticket queue exchange routing_key nowait arguments) =
    encode_queue_bind ticket queue exchange routing_key nowait arguments"
| "encode_fields amqp_queue_bind_ok_t = ret ()"
| "encode_fields (amqp_queue_purge_t ticket queue nowait) = encode_queue_purge ticket queue nowait"
| "encode_fields (amqp_queue_purge_ok_t message_count) = encode_queue_purge_ok message_count"
| "encode_fields (amqp_queue_delete_t ticket queue if_unused if_empty nowait) = encode_queue_delete
    ticket queue if_unused if_empty nowait"
| "encode_fields (amqp_queue_delete_ok_t message_count) = encode_queue_delete_ok message_count"
| "encode_fields (amqp_queue_unbind_t ticket queue exchange routing_key arguments) = encode_queue_unbind
    ticket queue exchange routing_key arguments"
| "encode_fields amqp_queue_unbind_ok_t = ret ()"
| "encode_fields (amqp_basic_qos_t prefetch_size prefetch_count global') = encode_basic_qos
    prefetch_size prefetch_count global'"
| "encode_fields amqp_basic_qos_ok_t = ret ()"
| "encode_fields (amqp_basic_consume_t ticket queue consumer_tag no_local no_ack exclusive nowait
    arguments) = encode_basic_consume ticket queue consumer_tag no_local no_ack exclusive nowait
    arguments"
| "encode_fields (amqp_basic_consume_ok_t consumer_tag) = encode_basic_consume_ok consumer_tag"
| "encode_fields (amqp_basic_cancel_t consumer_tag nowait) = encode_basic_cancel consumer_tag nowait"
| "encode_fields (amqp_basic_cancel_ok_t consumer_tag) = encode_basic_cancel_ok consumer_tag"
| "encode_fields (amqp_basic_publish_t ticket exchange routing_key mandatory immediate) =
    encode_basic_publish ticket exchange routing_key mandatory immediate"
| "encode_fields (amqp_basic_return_t reply_code reply_text exchange routing_key) = encode_basic_return
    reply_code reply_text exchange routing_key"
| "encode_fields (amqp_basic_deliver_t consumer_tag delivery_tag redelivered exchange routing_key) =
    encode_basic_deliver consumer_tag delivery_tag redelivered exchange routing_key"
| "encode_fields (amqp_basic_get_t ticket queue no_ack) = encode_basic_get ticket queue no_ack"
| "encode_fields (amqp_basic_get_ok_t delivery_tag redelivered exchange routing_key message_count) =
    encode_basic_get_ok delivery_tag redelivered exchange routing_key message_count"
| "encode_fields (amqp_basic_get_empty_t cluster_id) = encode_basic_get_empty cluster_id"
| "encode_fields (amqp_basic_ack_t delivery_tag multiple) = encode_basic_ack delivery_tag multiple"
| "encode_fields (amqp_basic_reject_t delivery_tag requeue) = encode_basic_reject delivery_tag requeue"
| "encode_fields (amqp_basic_recover_async_t requeue) = encode_basic_recover_async requeue"
| "encode_fields (amqp_basic_recover_t requeue) = encode_basic_recover requeue"
| "encode_fields amqp_basic_recover_ok_t = ret ()"
| "encode_fields (amqp_basic_nack_t delivery_tag multiple requeue) = encode_basic_nack delivery_tag
    multiple requeue"
| "encode_fields amqp_tx_select_t = ret ()"
| "encode_fields amqp_tx_select_ok_t = ret ()"
| "encode_fields amqp_tx_commit_t = ret ()"
| "encode_fields amqp_tx_commit_ok_t = ret ()"
| "encode_fields amqp_tx_rollback_t = ret ()"
| "encode_fields amqp_tx_rollback_ok_t = ret ()"
| "encode_fields (amqp_confirm_select_t nowait) = encode_confirm_select nowait"
| "encode_fields amqp_confirm_select_ok_t = ret ()"

definition amqp_encode_method :: "amqp_method_number_t \<Rightarrow> amqp_method_t \<Rightarrow> (estate, nat) prog" where
  "amqp_encode_method methodNumber decoded =
     (if methodNumber \<notin> set all_methods then throw AMQP_STATUS_UNKNOWN_METHOD
      else if methodNumber \<noteq> method_number decoded then (\<lambda>s. (Undefined, s))
      else bindP (encode_fields decoded) (\<lambda>_. get_eoff))"

fun ser_method :: "amqp_method_t \<Rightarrow> byte list" where
  "ser_method (amqp_connection_start_t version_major version_minor server_properties mechanisms locales)
    = ser8 version_major @ ser8 version_minor @ ser_table server_properties @ ser_longstr mechanisms @
    ser_longstr locales"
| "ser_method (amqp_connection_start_ok_t client_properties mechanism response locale) = ser_table
    client_properties @ ser_shortstr mechanism @ ser_longstr response @ ser_shortstr locale"
| "ser_method (amqp_connection_secure_t challenge) = ser_longstr challenge"
| "ser_method (amqp_connection_secure_ok_t response) = ser_longstr response"
| "ser_method (amqp_connection_tune_t channel_max frame_max heartbeat) = ser16 channel_max @ ser32
    frame_max @ ser16 heartbeat"
| "ser_method (amqp_connection_tune_ok_t channel_max frame_max heartbeat) = ser16 channel_max @ ser32
    frame_max @ ser16 heartbeat"
| "ser_method (amqp_connection_open_t virtual_host capabilities insist) = ser_shortstr virtual_host @
    ser_shortstr capabilities @ ser_bits [insist]"
| "ser_method (amqp_connection_open_ok_t known_hosts) = ser_shortstr known_hosts"
| "ser_method (amqp_connection_close_t reply_code reply_text class_id method_id) = ser16 reply_code @
    ser_shortstr reply_text @ ser16 class_id @ ser16 method_id"
| "ser_method amqp_connection_close_ok_t = []"
| "ser_method (amqp_connection_blocked_t reason) = ser_shortstr reason"
| "ser_method amqp_connection_unblocked_t = []"
| "ser_method (amqp_connection_update_secret_t new_secret reason) = ser_longstr new_secret @
    ser_shortstr reason"
| "ser_method amqp_connection_update_secret_ok_t = []"
| "ser_method (amqp_channel_open_t out_of_band) = ser_shortstr out_of_band"
| "ser_method (amqp_channel_open_ok_t channel_id) = ser_longstr channel_id"
| "ser_method (amqp_channel_flow_t active) = ser_bits [active]"
| "ser_method (amqp_channel_flow_ok_t active) = ser_bits [active]"
| "ser_method (amqp_channel_close_t reply_code reply_text class_id method_id) = ser16 reply_code @
    ser_shortstr reply_text @ ser16 class_id @ ser16 method_id"
| "ser_method amqp_channel_close_ok_t = []"
| "ser_method (amqp_access_request_t realm exclusive passive active write read) = ser_shortstr realm @
    ser_bits [exclusive, passive, active, write, read]"
| "ser_method (amqp_access_request_ok_t ticket) = ser16 ticket"
| "ser_method (amqp_exchange_declare_t ticket exchange type' passive durable auto_delete internal nowait
    arguments) = ser16 ticket @ ser_shortstr exchange @ ser_shortstr type' @ ser_bits [passive, durable,
    auto_delete, internal, nowait] @ ser_table arguments"
| "ser_method amqp_exchange_declare_ok_t = []"
| "ser_method (amqp_exchange_delete_t ticket exchange if_unused nowait) = ser16 ticket @ ser_shortstr
    exchange @ ser_bits [if_unused, nowait]"
| "ser_method amqp_exchange_delete_ok_t = []"
| "ser_method (amqp_exchange_bind_t ticket destination source routing_key nowait arguments) = ser16
    ticket @ ser_shortstr destination @ ser_shortstr source @ ser_shortstr routing_key @ ser_bits
    [nowait] @ ser_table arguments"
| "ser_method amqp_exchange_bind_ok_t = []"
| "ser_method (amqp_exchange_unbind_t ticket destination source routing_key nowait arguments) = ser16
    ticket @ ser_shortstr destination @ ser_shortstr source @ ser_shortstr routing_key @ ser_bits
    [nowait] @ ser_table arguments"
| "ser_method amqp_exchange_unbind_ok_t = []"
| "ser_method (amqp_queue_declare_t ticket queue passive durable exclusive auto_delete nowait arguments)
    = ser16 ticket @ ser_shortstr queue @ ser_bits [passive, durable, exclusive, auto_delete, nowait] @
    ser_table arguments"
| "ser_method (amqp_queue_declare_ok_t queue message_count consumer_count) = ser_shortstr queue @ ser32
    message_count @ ser32 consumer_count"
| "ser_method (amqp_queue_bind_t ticket queue exchange routing_key nowait arguments) = ser16 ticket @
    ser_shortstr queue @ ser_shortstr exchange @ ser_shortstr routing_key @ ser_bits [nowait] @
    ser_table arguments"
| "ser_method amqp_queue_bind_ok_t = []"
| "ser_method (amqp_queue_purge_t ticket queue nowait) = ser16 ticket @ ser_shortstr queue @ ser_bits
    [nowait]"
| "ser_method (amqp_queue_purge_ok_t message_count) = ser32 message_count"
| "ser_method (amqp_queue_delete_t ticket queue if_unused if_empty nowait) = ser16 ticket @ ser_shortstr
    queue @ ser_bits [if_unused, if_empty, nowait]"
| "ser_method (amqp_queue_delete_ok_t message_count) = ser32 message_count"
| "ser_method (amqp_queue_unbind_t ticket queue exchange routing_key arguments) = ser16 ticket @
    ser_shortstr queue @ ser_shortstr exchange @ ser_shortstr routing_key @ ser_table arguments"
| "ser_method amqp_queue_unbind_ok_t = []"
| "ser_method (amqp_basic_qos_t prefetch_size prefetch_count global') = ser32 prefetch_size @ ser16
    prefetch_count @ ser_bits [global']"
| "ser_method amqp_basic_qos_ok_t = []"
| "ser_method (amqp_basic_consume_t ticket queue consumer_tag no_local no_ack exclusive nowait
    arguments) = ser16 ticket @ ser_shortstr queue @ ser_shortstr consumer_tag @ ser_bits [no_local,
    no_ack, exclusive, nowait] @ ser_table arguments"
| "ser_method (amqp_basic_consume_ok_t consumer_tag) = ser_shortstr consumer_tag"
| "ser_method (amqp_basic_cancel_t consumer_tag nowait) = ser_shortstr consumer_tag @ ser_bits [nowait]"
| "ser_method (amqp_basic_cancel_ok_t consumer_tag) = ser_shortstr consumer_tag"
| "ser_method (amqp_basic_publish_t ticket exchange routing_key mandatory immediate) = ser16 ticket @
    ser_shortstr exchange @ ser_shortstr routing_key @ ser_bits [mandatory, immediate]"
| "ser_method (amqp_basic_return_t reply_code reply_text exchange routing_key) = ser16 reply_code @
    ser_shortstr reply_text @ ser_shortstr exchange @ ser_shortstr routing_key"
| "ser_method (amqp_basic_deliver_t consumer_tag delivery_tag redelivered exchange routing_key) =
    ser_shortstr consumer_tag @ ser64 delivery_tag @ ser_bits [redelivered] @ ser_shortstr exchange @
    ser_shortstr routing_key"
| "ser_method (amqp_basic_get_t ticket queue no_ack) = ser16 ticket @ ser_shortstr queue @ ser_bits
    [no_ack]"
| "ser_method (amqp_basic_get_ok_t delivery_tag redelivered exchange routing_key message_count) = ser64
    delivery_tag @ ser_bits [redelivered] @ ser_shortstr exchange @ ser_shortstr routing_key @ ser32
    message_count"
| "ser_method (amqp_basic_get_empty_t cluster_id) = ser_shortstr cluster_id"
| "ser_method (amqp_basic_ack_t delivery_tag multiple) = ser64 delivery_tag @ ser_bits [multiple]"
| "ser_method (amqp_basic_reject_t delivery_tag requeue) = ser64 delivery_tag @ ser_bits [requeue]"
| "ser_method (amqp_basic_recover_async_t requeue) = ser_bits [requeue]"
| "ser_method (amqp_basic_recover_t requeue) = ser_bits [requeue]"
| "ser_method amqp_basic_recover_ok_t = []"
| "ser_method (amqp_basic_nack_t delivery_tag multiple requeue) = ser64 delivery_tag @ ser_bits
    [multiple, requeue]"
| "ser_method amqp_tx_select_t = []"
| "ser_method amqp_tx_select_ok_t = []"
| "ser_method amqp_tx_commit_t = []"
| "ser_method amqp_tx_commit_ok_t = []"
| "ser_method amqp_tx_rollback_t = []"
| "ser_method amqp_tx_rollback_ok_t = []"
| "ser_method (amqp_confirm_select_t nowait) = ser_bits [nowait]"
| "ser_method amqp_confirm_select_ok_t = []"

fun wf_method :: "amqp_method_t \<Rightarrow> bool" where
  "wf_method (amqp_connection_start_t _ _ server_properties mechanisms locales) = (wf_table
    server_properties \<and> length mechanisms < 2 ^ 32 \<and> length locales < 2 ^ 32)"
| "wf_method (amqp_connection_start_ok_t client_properties mechanism response locale) = (wf_table
    client_properties \<and> length mechanism < 2 ^ 8 \<and> length response < 2 ^ 32 \<and> length
    locale < 2 ^ 8)"
| "wf_method (amqp_connection_secure_t challenge) = (length challenge < 2 ^ 32)"
| "wf_method (amqp_connection_secure_ok_t response) = (length response < 2 ^ 32)"
| "wf_method (amqp_connection_tune_t _ _ _) = True"
| "wf_method (amqp_connection_tune_ok_t _ _ _) = True"
| "wf_method (amqp_connection_open_t virtual_host capabilities _) = (length virtual_host < 2 ^ 8 \<and>
    length capabilities < 2 ^ 8)"
| "wf_method (amqp_connection_open_ok_t known_hosts) = (length known_hosts < 2 ^ 8)"
| "wf_method (amqp_connection_close_t _ reply_text _ _) = (length reply_text < 2 ^ 8)"
| "wf_method amqp_connection_close_ok_t = True"
| "wf_method (amqp_connection_blocked_t reason) = (length reason < 2 ^ 8)"
| "wf_method amqp_connection_unblocked_t = True"
| "wf_method (amqp_connection_update_secret_t new_secret reason) = (length new_secret < 2 ^ 32 \<and>
    length reason < 2 ^ 8)"
| "wf_method amqp_connection_update_secret_ok_t = True"
| "wf_method (amqp_channel_open_t out_of_band) = (length out_of_band < 2 ^ 8)"
| "wf_method (amqp_channel_open_ok_t channel_id) = (length channel_id < 2 ^ 32)"
| "wf_method (amqp_channel_flow_t _) = True"
| "wf_method (amqp_channel_flow_ok_t _) = True"
| "wf_method (amqp_channel_close_t _ reply_text _ _) = (length reply_text < 2 ^ 8)"
| "wf_method amqp_channel_close_ok_t = True"
| "wf_method (amqp_access_request_t realm _ _ _ _ _) = (length realm < 2 ^ 8)"
| "wf_method (amqp_access_request_ok_t _) = True"
| "wf_method (amqp_exchange_declare_t _ exchange type' _ _ _ _ _ arguments) = (length exchange < 2 ^ 8
    \<and> length type' < 2 ^ 8 \<and> wf_table arguments)"
| "wf_method amqp_exchange_declare_ok_t = True"
| "wf_method (amqp_exchange_delete_t _ exchange _ _) = (length exchange < 2 ^ 8)"
| "wf_method amqp_exchange_delete_ok_t = True"
| "wf_method (amqp_exchange_bind_t _ destination source routing_key _ arguments) = (length destination <
    2 ^ 8 \<and> length source < 2 ^ 8 \<and> length routing_key < 2 ^ 8 \<and> wf_table arguments)"
| "wf_method amqp_exchange_bind_ok_t = True"
| "wf_method (amqp_exchange_unbind_t _ destination source routing_key _ arguments) = (length destination
    < 2 ^ 8 \<and> length source < 2 ^ 8 \<and> length routing_key < 2 ^ 8 \<and> wf_table arguments)"
| "wf_method amqp_exchange_unbind_ok_t = True"
| "wf_method (amqp_queue_declare_t _ queue _ _ _ _ _ arguments) = (length queue < 2 ^ 8 \<and> wf_table
    arguments)"
| "wf_method (amqp_queue_declare_ok_t queue _ _) = (length queue < 2 ^ 8)"
| "wf_method (amqp_queue_bind_t _ queue exchange routing_key _ arguments) = (length queue < 2 ^ 8 \<and>
    length exchange < 2 ^ 8 \<and> length routing_key < 2 ^ 8 \<and> wf_table arguments)"
| "wf_method amqp_queue_bind_ok_t = True"
| "wf_method (amqp_queue_purge_t _ queue _) = (length queue < 2 ^ 8)"
| "wf_method (amqp_queue_purge_ok_t _) = True"
| "wf_method (amqp_queue_delete_t _ queue _ _ _) = (length queue < 2 ^ 8)"
| "wf_method (amqp_queue_delete_ok_t _) = True"
| "wf_method (amqp_queue_unbind_t _ queue exchange routing_key arguments) = (length queue < 2 ^ 8 \<and>
    length exchange < 2 ^ 8 \<and> length routing_key < 2 ^ 8 \<and> wf_table arguments)"
| "wf_method amqp_queue_unbind_ok_t = True"
| "wf_method (amqp_basic_qos_t _ _ _) = True"
| "wf_method amqp_basic_qos_ok_t = True"
| "wf_method (amqp_basic_consume_t _ queue consumer_tag _ _ _ _ arguments) = (length queue < 2 ^ 8
    \<and> length consumer_tag < 2 ^ 8 \<and> wf_table arguments)"
| "wf_method (amqp_basic_consume_ok_t consumer_tag) = (length consumer_tag < 2 ^ 8)"
| "wf_method (amqp_basic_cancel_t consumer_tag _) = (length consumer_tag < 2 ^ 8)"
| "wf_method (amqp_basic_cancel_ok_t consumer_tag) = (length consumer_tag < 2 ^ 8)"
| "wf_method (amqp_basic_publish_t _ exchange routing_key _ _) = (length exchange < 2 ^ 8 \<and> length
    routing_key < 2 ^ 8)"
| "wf_method (amqp_basic_return_t _ reply_text exchange routing_key) = (length reply_text < 2 ^ 8 \<and>
    length exchange < 2 ^ 8 \<and> length routing_key < 2 ^ 8)"
| "wf_method (amqp_basic_deliver_t consumer_tag _ _ exchange routing_key) = (length consumer_tag < 2 ^ 8
    \<and> length exchange < 2 ^ 8 \<and> length routing_key < 2 ^ 8)"
| "wf_method (amqp_basic_get_t _ queue _) = (length queue < 2 ^ 8)"
| "wf_method (amqp_basic_get_ok_t _ _ exchange routing_key _) = (length exchange < 2 ^ 8 \<and> length
    routing_key < 2 ^ 8)"
| "wf_method (amqp_basic_get_empty_t cluster_id) = (length cluster_id < 2 ^ 8)"
| "wf_method (amqp_basic_ack_t _ _) = True"
| "wf_method (amqp_basic_reject_t _ _) = True"
| "wf_method (amqp_basic_recover_async_t _) = True"
| "wf_method (amqp_basic_recover_t _) = True"
| "wf_method amqp_basic_recover_ok_t = True"
| "wf_method (amqp_basic_nack_t _ _ _) = True"
| "wf_method amqp_tx_select_t = True"
| "wf_method amqp_tx_select_ok_t = True"
| "wf_method amqp_tx_commit_t = True"
| "wf_method amqp_tx_commit_ok_t = True"
| "wf_method amqp_tx_rollback_t = True"
| "wf_method amqp_tx_rollback_ok_t = True"
| "wf_method (amqp_confirm_select_t _) = True"
| "wf_method amqp_confirm_select_ok_t = True"
lemma emits_fields: "wf_method m \<Longrightarrow> emits (encode_fields m) (ser_method m)"
  by (cases m) (simp_all only: encode_fields.simps ser_method.simps wf_method.simps encoder_defs,
      (intro encodes_bind field_emits encodes_ret | simp)+)

lemma method_number_known: "method_number m \<in> set all_methods"
  by (cases m) (simp_all add: all_methods_def)

end
