(* ===== verification/Amqp_Framing.thy ===== *)
theory Amqp_Framing
  imports Amqp_Framing_Decode Amqp_Framing_Encode
begin

text \<open>
  librabbitmq/amqp\_framing.c: the two method codecs meet on the wire grammar. Every method the
  encoder accepts is decoded back to itself, decoding arbitrary bytes as any method is safe, and
  unknown method numbers are rejected by both. The tables of constant and method names are here too.
\<close>

section \<open>Methods: the two codecs meet on the wire grammar\<close>

text \<open>The case of the decoding switch that belongs to a structure.\<close>

fun decoder_of :: "amqp_method_t \<Rightarrow> amqp_bytes_t \<Rightarrow> (dstate, amqp_method_t) prog" where
  "decoder_of (amqp_connection_start_t _ _ _ _ _) = decode_connection_start"
| "decoder_of (amqp_connection_start_ok_t _ _ _ _) = decode_connection_start_ok"
| "decoder_of (amqp_connection_secure_t _) = decode_connection_secure"
| "decoder_of (amqp_connection_secure_ok_t _) = decode_connection_secure_ok"
| "decoder_of (amqp_connection_tune_t _ _ _) = decode_connection_tune"
| "decoder_of (amqp_connection_tune_ok_t _ _ _) = decode_connection_tune_ok"
| "decoder_of (amqp_connection_open_t _ _ _) = decode_connection_open"
| "decoder_of (amqp_connection_open_ok_t _) = decode_connection_open_ok"
| "decoder_of (amqp_connection_close_t _ _ _ _) = decode_connection_close"
| "decoder_of amqp_connection_close_ok_t = decode_connection_close_ok"
| "decoder_of (amqp_connection_blocked_t _) = decode_connection_blocked"
| "decoder_of amqp_connection_unblocked_t = decode_connection_unblocked"
| "decoder_of (amqp_connection_update_secret_t _ _) = decode_connection_update_secret"
| "decoder_of amqp_connection_update_secret_ok_t = decode_connection_update_secret_ok"
| "decoder_of (amqp_channel_open_t _) = decode_channel_open"
| "decoder_of (amqp_channel_open_ok_t _) = decode_channel_open_ok"
| "decoder_of (amqp_channel_flow_t _) = decode_channel_flow"
| "decoder_of (amqp_channel_flow_ok_t _) = decode_channel_flow_ok"
| "decoder_of (amqp_channel_close_t _ _ _ _) = decode_channel_close"
| "decoder_of amqp_channel_close_ok_t = decode_channel_close_ok"
| "decoder_of (amqp_access_request_t _ _ _ _ _ _) = decode_access_request"
| "decoder_of (amqp_access_request_ok_t _) = decode_access_request_ok"
| "decoder_of (amqp_exchange_declare_t _ _ _ _ _ _ _ _ _) = decode_exchange_declare"
| "decoder_of amqp_exchange_declare_ok_t = decode_exchange_declare_ok"
| "decoder_of (amqp_exchange_delete_t _ _ _ _) = decode_exchange_delete"
| "decoder_of amqp_exchange_delete_ok_t = decode_exchange_delete_ok"
| "decoder_of (amqp_exchange_bind_t _ _ _ _ _ _) = decode_exchange_bind"
| "decoder_of amqp_exchange_bind_ok_t = decode_exchange_bind_ok"
| "decoder_of (amqp_exchange_unbind_t _ _ _ _ _ _) = decode_exchange_unbind"
| "decoder_of amqp_exchange_unbind_ok_t = decode_exchange_unbind_ok"
| "decoder_of (amqp_queue_declare_t _ _ _ _ _ _ _ _) = decode_queue_declare"
| "decoder_of (amqp_queue_declare_ok_t _ _ _) = decode_queue_declare_ok"
| "decoder_of (amqp_queue_bind_t _ _ _ _ _ _) = decode_queue_bind"
| "decoder_of amqp_queue_bind_ok_t = decode_queue_bind_ok"
| "decoder_of (amqp_queue_purge_t _ _ _) = decode_queue_purge"
| "decoder_of (amqp_queue_purge_ok_t _) = decode_queue_purge_ok"
| "decoder_of (amqp_queue_delete_t _ _ _ _ _) = decode_queue_delete"
| "decoder_of (amqp_queue_delete_ok_t _) = decode_queue_delete_ok"
| "decoder_of (amqp_queue_unbind_t _ _ _ _ _) = decode_queue_unbind"
| "decoder_of amqp_queue_unbind_ok_t = decode_queue_unbind_ok"
| "decoder_of (amqp_basic_qos_t _ _ _) = decode_basic_qos"
| "decoder_of amqp_basic_qos_ok_t = decode_basic_qos_ok"
| "decoder_of (amqp_basic_consume_t _ _ _ _ _ _ _ _) = decode_basic_consume"
| "decoder_of (amqp_basic_consume_ok_t _) = decode_basic_consume_ok"
| "decoder_of (amqp_basic_cancel_t _ _) = decode_basic_cancel"
| "decoder_of (amqp_basic_cancel_ok_t _) = decode_basic_cancel_ok"
| "decoder_of (amqp_basic_publish_t _ _ _ _ _) = decode_basic_publish"
| "decoder_of (amqp_basic_return_t _ _ _ _) = decode_basic_return"
| "decoder_of (amqp_basic_deliver_t _ _ _ _ _) = decode_basic_deliver"
| "decoder_of (amqp_basic_get_t _ _ _) = decode_basic_get"
| "decoder_of (amqp_basic_get_ok_t _ _ _ _ _) = decode_basic_get_ok"
| "decoder_of (amqp_basic_get_empty_t _) = decode_basic_get_empty"
| "decoder_of (amqp_basic_ack_t _ _) = decode_basic_ack"
| "decoder_of (amqp_basic_reject_t _ _) = decode_basic_reject"
| "decoder_of (amqp_basic_recover_async_t _) = decode_basic_recover_async"
| "decoder_of (amqp_basic_recover_t _) = decode_basic_recover"
| "decoder_of amqp_basic_recover_ok_t = decode_basic_recover_ok"
| "decoder_of (amqp_basic_nack_t _ _ _) = decode_basic_nack"
| "decoder_of amqp_tx_select_t = decode_tx_select"
| "decoder_of amqp_tx_select_ok_t = decode_tx_select_ok"
| "decoder_of amqp_tx_commit_t = decode_tx_commit"
| "decoder_of amqp_tx_commit_ok_t = decode_tx_commit_ok"
| "decoder_of amqp_tx_rollback_t = decode_tx_rollback"
| "decoder_of amqp_tx_rollback_ok_t = decode_tx_rollback_ok"
| "decoder_of (amqp_confirm_select_t _) = decode_confirm_select"
| "decoder_of amqp_confirm_select_ok_t = decode_confirm_select_ok"

lemma distinct_decoders: "distinct (map fst method_decoders)"
  by (simp add: method_decoders_def method_numbers)

lemma decoder_lookup: "map_of method_decoders (method_number m) = Some (decoder_of m)"
  by (rule map_of_is_SomeI [OF distinct_decoders], cases m) (simp_all add: method_decoders_def)

lemma align_up_ge: "0 < a \<Longrightarrow> n \<le> align_up a n"
proof -
  assume a: "0 < a"
  have "n + a - 1 < (n + a - 1) div a * a + a"
    using a by (metis add_less_cancel_left div_mult_mod_eq mod_less_divisor)
  then show ?thesis by (simp add: align_up_def)
qed

lemma struct_end_ge: "\<forall>f \<in> set fs. 0 < snd f \<Longrightarrow> n \<le> struct_end n fs"
  by (induction n fs rule: struct_end.induct) (auto intro: order_trans [OF align_up_ge])

lemma struct_size_pos:
  assumes "0 < sz" and "0 < a" and "\<forall>f \<in> set fs. 0 < snd f"
  shows "struct_size ((sz, a) # fs) \<noteq> 0"
proof -
  have "0 < sz + align_up a 0" using assms by simp
  also have "\<dots> \<le> struct_end 0 ((sz, a) # fs)"
    using struct_end_ge [OF assms(3)] by (simp add: add.commute)
  also have "\<dots> \<le> struct_size ((sz, a) # fs)"
    unfolding struct_size_def using assms(2) by (intro align_up_ge) simp
  finally show ?thesis by simp
qed

lemma reads_last:
  "reads encoded m ws x \<Longrightarrow> f x = v \<Longrightarrow> reads encoded (bindP m (\<lambda>x. ret (f x))) ws v"
  using reads_then_ret by auto

lemma reads_constant: "v = w \<Longrightarrow> reads encoded (ret v) [] w"
  using reads_ret by simp

lemmas reads_structure = reads_pool_alloc reads_bind reads_last reads_constant field_reads

lemma reads_decoder: "wf_method m \<Longrightarrow> reads encoded (decoder_of m encoded) (ser_method m) m"
  by (cases m; simp only: decoder_of.simps ser_method.simps wf_method.simps decoder_defs;
      (rule reads_structure | simp add: struct_sizes struct_size_pos)+)

lemma reads_method:
  assumes "wf_method m" and "at encoded (ser_method m) (s\<lparr>offset := 0\<rparr>)" and "ready B s"
  shows "\<exists>s'. amqp_decode_method (method_number m) encoded s = (Ok m, s')
    \<and> offset s' = length (ser_method m) \<and> ready B s'"
proof -
  from assms(3) have "ready B (s\<lparr>offset := 0\<rparr>)" by (simp add: ready_def d_fail_def)
  from readsE [OF reads_decoder [OF assms(1)] assms(2) this] show ?thesis
    by (auto simp: amqp_decode_method_def decoder_lookup)
qed

lemma encode_method_exact:
  assumes "wf_method m" and "e_ok 0 s"
  shows "fits (ser_method m) s \<Longrightarrow> amqp_encode_method (method_number m) m s =
      (Ok (e_off s + length (ser_method m)), written (ser_method m) s)"
    and "\<not> fits (ser_method m) s \<Longrightarrow> \<exists>e s'. amqp_encode_method (method_number m) m s = (Err e, s')
      \<and> same_outside s s'"
proof -
  have run: "amqp_encode_method (method_number m) m = bindP (encode_fields m) (\<lambda>_. get_eoff)"
    by (simp add: amqp_encode_method_def method_number_known)
  show "amqp_encode_method (method_number m) m s =
      (Ok (e_off s + length (ser_method m)), written (ser_method m) s)" if "fits (ser_method m) s"
    unfolding run using encodesD(1) [OF emits_fields [OF assms(1)] assms(2) that]
    by (simp add: bindP_Ok get_eoff_def)
  show "\<exists>e s'. amqp_encode_method (method_number m) m s = (Err e, s') \<and> same_outside s s'"
    if "\<not> fits (ser_method m) s"
    unfolding run using encodesD(2) [OF emits_fields [OF assms(1)] assms(2) that]
    by (auto simp: bindP_Err)
qed

text \<open>
  C26: For each of the 66 methods, encoding at the start of a buffer succeeds exactly when the wire format
  fits; it then returns its length, writes exactly it and changes nothing else. Otherwise it reports
  an error and writes nothing outside the buffer.
\<close>

theorem amqp_encode_method_exact:
  assumes "wf_method m" and "e_ok 0 s" and "e_off s = 0"
  shows "if length (ser_method m) \<le> e_len s
    then amqp_encode_method (method_number m) m s = (Ok (length (ser_method m)), written (ser_method m) s)
    else \<exists>e s'. amqp_encode_method (method_number m) m s = (Err e, s') \<and> same_outside s s'"
proof -
  have "fits (ser_method m) s \<longleftrightarrow> length (ser_method m) \<le> e_len s"
    using assms(3) by (auto simp: fits_def)
  then show ?thesis using encode_method_exact [OF assms(1,2)] assms(3) by simp
qed

text \<open>
  C4: Every method structure, of each of the 66 methods, is decoded back to itself from the bytes its
  encoding wrote, given the length the encoder returned, and the decoder consumes exactly those.
\<close>

theorem method_round_trip:
  assumes wf: "wf_method m" and s: "e_ok 0 s" "e_off s = 0"
    and run: "amqp_encode_method (method_number m) m s = (Ok n, s')" and d: "ready {} d"
  shows "\<exists>d'. amqp_decode_method (method_number m) \<lparr>len = n, bytes = e_mem s'\<rparr> d = (Ok m, d') \<and> offset d' = n"
proof -
  have fit: "fits (ser_method m) s"
    using encode_method_exact(2) [OF wf s(1)] run by force
  with encode_method_exact(1) [OF wf s(1)] run s(2)
  have n: "n = length (ser_method m)" "s' = written (ser_method m) s" by auto
  have "at \<lparr>len = n, bytes = e_mem s'\<rparr> (ser_method m) (d\<lparr>offset := 0\<rparr>)"
    using n s fit by (auto simp: at_def valid_bytes_def written_def e_ok_def fits_def)
  from reads_method [OF wf this d] n show ?thesis by auto
qed

lemma dsafe_decode_method:
  assumes "valid_bytes encoded" and "d_fail B s"
  shows "settles (\<lambda>_. d_ok encoded B) (d_fail B) (amqp_decode_method n encoded s)"
proof -
  have s: "d_ok encoded B (s\<lparr>offset := 0\<rparr>)" using assms by (simp add: d_ok_def d_fail_def)
  show ?thesis
  proof (cases "map_of method_decoders n")
    case None
    with s show ?thesis by (simp add: amqp_decode_method_def throw_def d_ok_def)
  next
    case (Some dec)
    from dsafe_decode_method_case [OF map_of_SomeD [OF Some]] s Some show ?thesis
      by (auto simp: amqp_decode_method_def dest: hoareD)
  qed
qed


lemma fst_decoders: "map fst method_decoders = all_methods"
  by (simp add: method_decoders_def all_methods_def)

text \<open>
  A method number outside the 66 known ones is rejected by the decoder and by the encoder with
  \<^verbatim>\<open>AMQP_STATUS_UNKNOWN_METHOD\<close>.
\<close>

theorem unknown_method_rejected:
  assumes "n \<notin> set all_methods"
  shows "fst (amqp_decode_method n encoded d) = Err AMQP_STATUS_UNKNOWN_METHOD
    \<and> fst (amqp_encode_method n m s) = Err AMQP_STATUS_UNKNOWN_METHOD"
proof -
  have "map_of method_decoders n = None"
    using assms by (simp add: map_of_eq_None_iff flip: fst_decoders)
  then show ?thesis
    using assms by (simp add: amqp_decode_method_def amqp_encode_method_def throw_def)
qed

section \<open>Concrete instances\<close>

definition sample_method :: amqp_method_t where
  "sample_method = amqp_queue_declare_t 0 [0x71] False True False True False sample_table"

lemma sample_method_wf [simp]: "wf_method sample_method"
  by (simp add: sample_method_def)

lemma sample_method_length: "length (ser_method sample_method) = 23"
  by (simp add: sample_method_def ser_shortstr_def ser_bits_def sample_length)

theorem amqp_encode_method_exact_witness:
  "amqp_encode_method (method_number sample_method) sample_method (blank 40) =
     (Ok (length (ser_method sample_method)), written (ser_method sample_method) (blank 40))"
  using amqp_encode_method_exact [OF sample_method_wf blank_ok [of 40]]
  by (simp add: sample_method_length blank_def ptrdiff_max_def)

theorem method_round_trip_witness:
  "\<exists>n s' d'. amqp_encode_method (method_number sample_method) sample_method (blank 40) = (Ok n, s')
     \<and> amqp_decode_method (method_number sample_method) \<lparr>len = n, bytes = e_mem s'\<rparr> start = (Ok sample_method, d')
     \<and> offset d' = n"
proof -
  have "amqp_encode_method (method_number sample_method) sample_method (blank 40) =
      (Ok 23, written (ser_method sample_method) (blank 40))"
    using encode_method_exact(1) [OF sample_method_wf blank_ok [of 40]]
    by (simp add: fits_def sample_method_length blank_def ptrdiff_max_def)
  with method_round_trip [OF sample_method_wf blank_ok [of 40] _ this, of start] show ?thesis
    by (auto simp: ptrdiff_max_def blank_def)
qed


theorem unknown_method_rejected_witness:
  "fst (amqp_decode_method 0 \<lparr>len = 0, bytes = []\<rparr> start) = Err AMQP_STATUS_UNKNOWN_METHOD
   \<and> fst (amqp_encode_method 0 sample_method (blank 40)) = Err AMQP_STATUS_UNKNOWN_METHOD"
  using unknown_method_rejected [of 0] by (simp add: all_methods_def method_numbers)

section \<open>Constants and names\<close>

named_theorems protocol_constants \<open>the numbers of the protocol constants\<close>

definition AMQP_FRAME_METHOD :: int where [protocol_constants]: "AMQP_FRAME_METHOD = 1"
definition AMQP_FRAME_HEADER :: int where [protocol_constants]: "AMQP_FRAME_HEADER = 2"
definition AMQP_FRAME_BODY :: int where [protocol_constants]: "AMQP_FRAME_BODY = 3"
definition AMQP_FRAME_HEARTBEAT :: int where [protocol_constants]: "AMQP_FRAME_HEARTBEAT = 8"
definition AMQP_FRAME_MIN_SIZE :: int where [protocol_constants]: "AMQP_FRAME_MIN_SIZE = 4096"
definition AMQP_FRAME_END :: int where [protocol_constants]: "AMQP_FRAME_END = 206"
definition AMQP_REPLY_SUCCESS :: int where [protocol_constants]: "AMQP_REPLY_SUCCESS = 200"
definition AMQP_CONTENT_TOO_LARGE :: int where [protocol_constants]: "AMQP_CONTENT_TOO_LARGE = 311"
definition AMQP_NO_ROUTE :: int where [protocol_constants]: "AMQP_NO_ROUTE = 312"
definition AMQP_NO_CONSUMERS :: int where [protocol_constants]: "AMQP_NO_CONSUMERS = 313"
definition AMQP_ACCESS_REFUSED :: int where [protocol_constants]: "AMQP_ACCESS_REFUSED = 403"
definition AMQP_NOT_FOUND :: int where [protocol_constants]: "AMQP_NOT_FOUND = 404"
definition AMQP_RESOURCE_LOCKED :: int where [protocol_constants]: "AMQP_RESOURCE_LOCKED = 405"
definition AMQP_PRECONDITION_FAILED :: int where [protocol_constants]: "AMQP_PRECONDITION_FAILED = 406"
definition AMQP_CONNECTION_FORCED :: int where [protocol_constants]: "AMQP_CONNECTION_FORCED = 320"
definition AMQP_INVALID_PATH :: int where [protocol_constants]: "AMQP_INVALID_PATH = 402"
definition AMQP_FRAME_ERROR :: int where [protocol_constants]: "AMQP_FRAME_ERROR = 501"
definition AMQP_SYNTAX_ERROR :: int where [protocol_constants]: "AMQP_SYNTAX_ERROR = 502"
definition AMQP_COMMAND_INVALID :: int where [protocol_constants]: "AMQP_COMMAND_INVALID = 503"
definition AMQP_CHANNEL_ERROR :: int where [protocol_constants]: "AMQP_CHANNEL_ERROR = 504"
definition AMQP_UNEXPECTED_FRAME :: int where [protocol_constants]: "AMQP_UNEXPECTED_FRAME = 505"
definition AMQP_RESOURCE_ERROR :: int where [protocol_constants]: "AMQP_RESOURCE_ERROR = 506"
definition AMQP_NOT_ALLOWED :: int where [protocol_constants]: "AMQP_NOT_ALLOWED = 530"
definition AMQP_NOT_IMPLEMENTED :: int where [protocol_constants]: "AMQP_NOT_IMPLEMENTED = 540"
definition AMQP_INTERNAL_ERROR :: int where [protocol_constants]: "AMQP_INTERNAL_ERROR = 541"

definition constant_names :: "(int \<times> string) list" where
  "constant_names = [
     (AMQP_FRAME_METHOD, ''AMQP_FRAME_METHOD''),
     (AMQP_FRAME_HEADER, ''AMQP_FRAME_HEADER''),
     (AMQP_FRAME_BODY, ''AMQP_FRAME_BODY''),
     (AMQP_FRAME_HEARTBEAT, ''AMQP_FRAME_HEARTBEAT''),
     (AMQP_FRAME_MIN_SIZE, ''AMQP_FRAME_MIN_SIZE''),
     (AMQP_FRAME_END, ''AMQP_FRAME_END''),
     (AMQP_REPLY_SUCCESS, ''AMQP_REPLY_SUCCESS''),
     (AMQP_CONTENT_TOO_LARGE, ''AMQP_CONTENT_TOO_LARGE''),
     (AMQP_NO_ROUTE, ''AMQP_NO_ROUTE''),
     (AMQP_NO_CONSUMERS, ''AMQP_NO_CONSUMERS''),
     (AMQP_ACCESS_REFUSED, ''AMQP_ACCESS_REFUSED''),
     (AMQP_NOT_FOUND, ''AMQP_NOT_FOUND''),
     (AMQP_RESOURCE_LOCKED, ''AMQP_RESOURCE_LOCKED''),
     (AMQP_PRECONDITION_FAILED, ''AMQP_PRECONDITION_FAILED''),
     (AMQP_CONNECTION_FORCED, ''AMQP_CONNECTION_FORCED''),
     (AMQP_INVALID_PATH, ''AMQP_INVALID_PATH''),
     (AMQP_FRAME_ERROR, ''AMQP_FRAME_ERROR''),
     (AMQP_SYNTAX_ERROR, ''AMQP_SYNTAX_ERROR''),
     (AMQP_COMMAND_INVALID, ''AMQP_COMMAND_INVALID''),
     (AMQP_CHANNEL_ERROR, ''AMQP_CHANNEL_ERROR''),
     (AMQP_UNEXPECTED_FRAME, ''AMQP_UNEXPECTED_FRAME''),
     (AMQP_RESOURCE_ERROR, ''AMQP_RESOURCE_ERROR''),
     (AMQP_NOT_ALLOWED, ''AMQP_NOT_ALLOWED''),
     (AMQP_NOT_IMPLEMENTED, ''AMQP_NOT_IMPLEMENTED''),
     (AMQP_INTERNAL_ERROR, ''AMQP_INTERNAL_ERROR'')]"

definition amqp_constant_name :: "int \<Rightarrow> string" where
  "amqp_constant_name constantNumber =
     (case map_of constant_names constantNumber of None \<Rightarrow> ''(unknown)'' | Some name \<Rightarrow> name)"

definition amqp_constant_is_hard_error :: "int \<Rightarrow> bool" where
  "amqp_constant_is_hard_error constantNumber \<longleftrightarrow> constantNumber \<in> {
     AMQP_CONNECTION_FORCED, AMQP_INVALID_PATH, AMQP_FRAME_ERROR,
     AMQP_SYNTAX_ERROR, AMQP_COMMAND_INVALID, AMQP_CHANNEL_ERROR,
     AMQP_UNEXPECTED_FRAME, AMQP_RESOURCE_ERROR, AMQP_NOT_ALLOWED,
     AMQP_NOT_IMPLEMENTED, AMQP_INTERNAL_ERROR}"

definition method_names :: "(amqp_method_number_t \<times> string) list" where
  "method_names = [
     (AMQP_CONNECTION_START_METHOD, ''AMQP_CONNECTION_START_METHOD''),
     (AMQP_CONNECTION_START_OK_METHOD, ''AMQP_CONNECTION_START_OK_METHOD''),
     (AMQP_CONNECTION_SECURE_METHOD, ''AMQP_CONNECTION_SECURE_METHOD''),
     (AMQP_CONNECTION_SECURE_OK_METHOD, ''AMQP_CONNECTION_SECURE_OK_METHOD''),
     (AMQP_CONNECTION_TUNE_METHOD, ''AMQP_CONNECTION_TUNE_METHOD''),
     (AMQP_CONNECTION_TUNE_OK_METHOD, ''AMQP_CONNECTION_TUNE_OK_METHOD''),
     (AMQP_CONNECTION_OPEN_METHOD, ''AMQP_CONNECTION_OPEN_METHOD''),
     (AMQP_CONNECTION_OPEN_OK_METHOD, ''AMQP_CONNECTION_OPEN_OK_METHOD''),
     (AMQP_CONNECTION_CLOSE_METHOD, ''AMQP_CONNECTION_CLOSE_METHOD''),
     (AMQP_CONNECTION_CLOSE_OK_METHOD, ''AMQP_CONNECTION_CLOSE_OK_METHOD''),
     (AMQP_CONNECTION_BLOCKED_METHOD, ''AMQP_CONNECTION_BLOCKED_METHOD''),
     (AMQP_CONNECTION_UNBLOCKED_METHOD, ''AMQP_CONNECTION_UNBLOCKED_METHOD''),
     (AMQP_CONNECTION_UPDATE_SECRET_METHOD, ''AMQP_CONNECTION_UPDATE_SECRET_METHOD''),
     (AMQP_CONNECTION_UPDATE_SECRET_OK_METHOD, ''AMQP_CONNECTION_UPDATE_SECRET_OK_METHOD''),
     (AMQP_CHANNEL_OPEN_METHOD, ''AMQP_CHANNEL_OPEN_METHOD''),
     (AMQP_CHANNEL_OPEN_OK_METHOD, ''AMQP_CHANNEL_OPEN_OK_METHOD''),
     (AMQP_CHANNEL_FLOW_METHOD, ''AMQP_CHANNEL_FLOW_METHOD''),
     (AMQP_CHANNEL_FLOW_OK_METHOD, ''AMQP_CHANNEL_FLOW_OK_METHOD''),
     (AMQP_CHANNEL_CLOSE_METHOD, ''AMQP_CHANNEL_CLOSE_METHOD''),
     (AMQP_CHANNEL_CLOSE_OK_METHOD, ''AMQP_CHANNEL_CLOSE_OK_METHOD''),
     (AMQP_ACCESS_REQUEST_METHOD, ''AMQP_ACCESS_REQUEST_METHOD''),
     (AMQP_ACCESS_REQUEST_OK_METHOD, ''AMQP_ACCESS_REQUEST_OK_METHOD''),
     (AMQP_EXCHANGE_DECLARE_METHOD, ''AMQP_EXCHANGE_DECLARE_METHOD''),
     (AMQP_EXCHANGE_DECLARE_OK_METHOD, ''AMQP_EXCHANGE_DECLARE_OK_METHOD''),
     (AMQP_EXCHANGE_DELETE_METHOD, ''AMQP_EXCHANGE_DELETE_METHOD''),
     (AMQP_EXCHANGE_DELETE_OK_METHOD, ''AMQP_EXCHANGE_DELETE_OK_METHOD''),
     (AMQP_EXCHANGE_BIND_METHOD, ''AMQP_EXCHANGE_BIND_METHOD''),
     (AMQP_EXCHANGE_BIND_OK_METHOD, ''AMQP_EXCHANGE_BIND_OK_METHOD''),
     (AMQP_EXCHANGE_UNBIND_METHOD, ''AMQP_EXCHANGE_UNBIND_METHOD''),
     (AMQP_EXCHANGE_UNBIND_OK_METHOD, ''AMQP_EXCHANGE_UNBIND_OK_METHOD''),
     (AMQP_QUEUE_DECLARE_METHOD, ''AMQP_QUEUE_DECLARE_METHOD''),
     (AMQP_QUEUE_DECLARE_OK_METHOD, ''AMQP_QUEUE_DECLARE_OK_METHOD''),
     (AMQP_QUEUE_BIND_METHOD, ''AMQP_QUEUE_BIND_METHOD''),
     (AMQP_QUEUE_BIND_OK_METHOD, ''AMQP_QUEUE_BIND_OK_METHOD''),
     (AMQP_QUEUE_PURGE_METHOD, ''AMQP_QUEUE_PURGE_METHOD''),
     (AMQP_QUEUE_PURGE_OK_METHOD, ''AMQP_QUEUE_PURGE_OK_METHOD''),
     (AMQP_QUEUE_DELETE_METHOD, ''AMQP_QUEUE_DELETE_METHOD''),
     (AMQP_QUEUE_DELETE_OK_METHOD, ''AMQP_QUEUE_DELETE_OK_METHOD''),
     (AMQP_QUEUE_UNBIND_METHOD, ''AMQP_QUEUE_UNBIND_METHOD''),
     (AMQP_QUEUE_UNBIND_OK_METHOD, ''AMQP_QUEUE_UNBIND_OK_METHOD''),
     (AMQP_BASIC_QOS_METHOD, ''AMQP_BASIC_QOS_METHOD''),
     (AMQP_BASIC_QOS_OK_METHOD, ''AMQP_BASIC_QOS_OK_METHOD''),
     (AMQP_BASIC_CONSUME_METHOD, ''AMQP_BASIC_CONSUME_METHOD''),
     (AMQP_BASIC_CONSUME_OK_METHOD, ''AMQP_BASIC_CONSUME_OK_METHOD''),
     (AMQP_BASIC_CANCEL_METHOD, ''AMQP_BASIC_CANCEL_METHOD''),
     (AMQP_BASIC_CANCEL_OK_METHOD, ''AMQP_BASIC_CANCEL_OK_METHOD''),
     (AMQP_BASIC_PUBLISH_METHOD, ''AMQP_BASIC_PUBLISH_METHOD''),
     (AMQP_BASIC_RETURN_METHOD, ''AMQP_BASIC_RETURN_METHOD''),
     (AMQP_BASIC_DELIVER_METHOD, ''AMQP_BASIC_DELIVER_METHOD''),
     (AMQP_BASIC_GET_METHOD, ''AMQP_BASIC_GET_METHOD''),
     (AMQP_BASIC_GET_OK_METHOD, ''AMQP_BASIC_GET_OK_METHOD''),
     (AMQP_BASIC_GET_EMPTY_METHOD, ''AMQP_BASIC_GET_EMPTY_METHOD''),
     (AMQP_BASIC_ACK_METHOD, ''AMQP_BASIC_ACK_METHOD''),
     (AMQP_BASIC_REJECT_METHOD, ''AMQP_BASIC_REJECT_METHOD''),
     (AMQP_BASIC_RECOVER_ASYNC_METHOD, ''AMQP_BASIC_RECOVER_ASYNC_METHOD''),
     (AMQP_BASIC_RECOVER_METHOD, ''AMQP_BASIC_RECOVER_METHOD''),
     (AMQP_BASIC_RECOVER_OK_METHOD, ''AMQP_BASIC_RECOVER_OK_METHOD''),
     (AMQP_BASIC_NACK_METHOD, ''AMQP_BASIC_NACK_METHOD''),
     (AMQP_TX_SELECT_METHOD, ''AMQP_TX_SELECT_METHOD''),
     (AMQP_TX_SELECT_OK_METHOD, ''AMQP_TX_SELECT_OK_METHOD''),
     (AMQP_TX_COMMIT_METHOD, ''AMQP_TX_COMMIT_METHOD''),
     (AMQP_TX_COMMIT_OK_METHOD, ''AMQP_TX_COMMIT_OK_METHOD''),
     (AMQP_TX_ROLLBACK_METHOD, ''AMQP_TX_ROLLBACK_METHOD''),
     (AMQP_TX_ROLLBACK_OK_METHOD, ''AMQP_TX_ROLLBACK_OK_METHOD''),
     (AMQP_CONFIRM_SELECT_METHOD, ''AMQP_CONFIRM_SELECT_METHOD''),
     (AMQP_CONFIRM_SELECT_OK_METHOD, ''AMQP_CONFIRM_SELECT_OK_METHOD'')]"

definition amqp_method_name :: "amqp_method_number_t \<Rightarrow> string option" where
  "amqp_method_name methodNumber = map_of method_names methodNumber"

definition amqp_method_has_content :: "amqp_method_number_t \<Rightarrow> bool" where
  "amqp_method_has_content methodNumber \<longleftrightarrow> methodNumber \<in> {
     AMQP_BASIC_PUBLISH_METHOD, AMQP_BASIC_RETURN_METHOD, AMQP_BASIC_DELIVER_METHOD, AMQP_BASIC_GET_OK_METHOD}"

end
