(* ===== verification/Amqp_Properties.thy ===== *)
theory Amqp_Properties
  imports Amqp_Framing
begin

text \<open>
  librabbitmq/amqp\_framing.c, \<^verbatim>\<open>amqp_decode_properties\<close> and \<^verbatim>\<open>amqp_encode_properties\<close>: the content
  headers. Only class basic has properties; the other classes only have the flag words.

  A property that is not flagged is not written by the decoder, so a decoded structure keeps in it
  whatever the memory of the pool held: the decoder takes that content as an argument. The shift
  that collects the flag words is a shift of an \<^verbatim>\<open>int\<close>, to which the word is promoted: it is undefined from the third
  word on, where the width is reached, and for a second word with its highest bit, which is shifted into the sign.
\<close>

section \<open>The property structures\<close>

type_synonym amqp_flags_t = uint32

record amqp_basic_properties_t =
  flags :: amqp_flags_t
  content_type :: "byte list"
  content_encoding :: "byte list"
  headers :: amqp_table_t
  delivery_mode :: uint8
  priority :: uint8
  correlation_id :: "byte list"
  reply_to :: "byte list"
  expiration :: "byte list"
  message_id :: "byte list"
  timestamp :: uint64
  message_type :: "byte list"
  user_id :: "byte list"
  app_id :: "byte list"
  cluster_id :: "byte list"

text \<open>The structures of the other classes hold the flags and a dummy.\<close>

datatype amqp_properties_t =
    Basic_properties amqp_basic_properties_t
  | Plain_properties amqp_flags_t

definition AMQP_BASIC_CONTENT_TYPE_FLAG :: nat where "AMQP_BASIC_CONTENT_TYPE_FLAG = 15"
definition AMQP_BASIC_CONTENT_ENCODING_FLAG :: nat where "AMQP_BASIC_CONTENT_ENCODING_FLAG = 14"
definition AMQP_BASIC_HEADERS_FLAG :: nat where "AMQP_BASIC_HEADERS_FLAG = 13"
definition AMQP_BASIC_DELIVERY_MODE_FLAG :: nat where "AMQP_BASIC_DELIVERY_MODE_FLAG = 12"
definition AMQP_BASIC_PRIORITY_FLAG :: nat where "AMQP_BASIC_PRIORITY_FLAG = 11"
definition AMQP_BASIC_CORRELATION_ID_FLAG :: nat where "AMQP_BASIC_CORRELATION_ID_FLAG = 10"
definition AMQP_BASIC_REPLY_TO_FLAG :: nat where "AMQP_BASIC_REPLY_TO_FLAG = 9"
definition AMQP_BASIC_EXPIRATION_FLAG :: nat where "AMQP_BASIC_EXPIRATION_FLAG = 8"
definition AMQP_BASIC_MESSAGE_ID_FLAG :: nat where "AMQP_BASIC_MESSAGE_ID_FLAG = 7"
definition AMQP_BASIC_TIMESTAMP_FLAG :: nat where "AMQP_BASIC_TIMESTAMP_FLAG = 6"
definition AMQP_BASIC_TYPE_FLAG :: nat where "AMQP_BASIC_TYPE_FLAG = 5"
definition AMQP_BASIC_USER_ID_FLAG :: nat where "AMQP_BASIC_USER_ID_FLAG = 4"
definition AMQP_BASIC_APP_ID_FLAG :: nat where "AMQP_BASIC_APP_ID_FLAG = 3"
definition AMQP_BASIC_CLUSTER_ID_FLAG :: nat where "AMQP_BASIC_CLUSTER_ID_FLAG = 2"

text \<open>\<^verbatim>\<open>flags & (1 << i)\<close>; the constants above are the bit numbers.\<close>

definition has_flag :: "amqp_flags_t \<Rightarrow> nat \<Rightarrow> bool" where
  "has_flag fl i = (fl AND push_bit i 1 \<noteq> 0)"

definition sizeof_basic_properties :: nat where
  "sizeof_basic_properties = struct_size [(4, 4), (16, 8), (16, 8), (16, 8), (1, 1), (1, 1), (16, 8),
     (16, 8), (16, 8), (16, 8), (8, 8), (16, 8), (16, 8), (16, 8), (16, 8)]"

definition sizeof_plain_properties :: nat where
  "sizeof_plain_properties = struct_size [(4, 4), (1, 1)]"

definition known_classes :: "uint16 set" where
  "known_classes = {10, 20, 30, 40, 50, 60, 90, 85}"

section \<open>Decoding\<close>

text \<open>
  The do-while loop over the flag words. \<^verbatim>\<open>partial_flags << n\<close> has the type \<^verbatim>\<open>int\<close>: it is defined if \<open>n\<close> is less than
  the width and the value fits.
\<close>

definition defined_shift :: "uint16 \<Rightarrow> nat \<Rightarrow> bool" where
  "defined_shift w n \<longleftrightarrow> n < 32 \<and> uint w * 2 ^ n < 2 ^ 31"

function decode_flags :: "amqp_bytes_t \<Rightarrow> nat \<Rightarrow> amqp_flags_t \<Rightarrow> (dstate, amqp_flags_t) prog" where
  "decode_flags encoded flagword_index fl =
     bindP (check (amqp_decode_16 encoded) bad) (\<lambda>partial_flags.
       if \<not> defined_shift partial_flags (flagword_index * 16) then (\<lambda>s. (Undefined, s))
       else
         let fl' = fl OR push_bit (flagword_index * 16) (ucast partial_flags)
         in if partial_flags AND 1 \<noteq> 0 then decode_flags encoded (flagword_index + 1) fl' else ret fl')"
  by pat_completeness auto
termination
  by (relation "measure (\<lambda>(_, i, _). 2 - i)") (auto simp: defined_shift_def)

declare decode_flags.simps [simp del]

definition decode_field :: "bool \<Rightarrow> (dstate, 'a) prog \<Rightarrow> ('a \<Rightarrow> 'p \<Rightarrow> 'p) \<Rightarrow> 'p \<Rightarrow> (dstate, 'p) prog" where
  "decode_field present dec upd p = (if present then bindP dec (\<lambda>x. ret (upd x p)) else ret p)"

definition decode_basic_properties ::
  "amqp_flags_t \<Rightarrow> amqp_bytes_t \<Rightarrow> amqp_basic_properties_t \<Rightarrow> (dstate, amqp_basic_properties_t) prog" where
  "decode_basic_properties fl encoded p =
     bindP (decode_field (has_flag fl AMQP_BASIC_CONTENT_TYPE_FLAG) (decode_shortstr encoded)
       (\<lambda>x. content_type_update (\<lambda>_. x)) p) (\<lambda>p.
     bindP (decode_field (has_flag fl AMQP_BASIC_CONTENT_ENCODING_FLAG) (decode_shortstr encoded)
       (\<lambda>x. content_encoding_update (\<lambda>_. x)) p) (\<lambda>p.
     bindP (decode_field (has_flag fl AMQP_BASIC_HEADERS_FLAG) (amqp_decode_table encoded)
       (\<lambda>x. headers_update (\<lambda>_. x)) p) (\<lambda>p.
     bindP (decode_field (has_flag fl AMQP_BASIC_DELIVERY_MODE_FLAG) (check (amqp_decode_8 encoded) bad)
       (\<lambda>x. delivery_mode_update (\<lambda>_. x)) p) (\<lambda>p.
     bindP (decode_field (has_flag fl AMQP_BASIC_PRIORITY_FLAG) (check (amqp_decode_8 encoded) bad)
       (\<lambda>x. priority_update (\<lambda>_. x)) p) (\<lambda>p.
     bindP (decode_field (has_flag fl AMQP_BASIC_CORRELATION_ID_FLAG) (decode_shortstr encoded)
       (\<lambda>x. correlation_id_update (\<lambda>_. x)) p) (\<lambda>p.
     bindP (decode_field (has_flag fl AMQP_BASIC_REPLY_TO_FLAG) (decode_shortstr encoded)
       (\<lambda>x. reply_to_update (\<lambda>_. x)) p) (\<lambda>p.
     bindP (decode_field (has_flag fl AMQP_BASIC_EXPIRATION_FLAG) (decode_shortstr encoded)
       (\<lambda>x. expiration_update (\<lambda>_. x)) p) (\<lambda>p.
     bindP (decode_field (has_flag fl AMQP_BASIC_MESSAGE_ID_FLAG) (decode_shortstr encoded)
       (\<lambda>x. message_id_update (\<lambda>_. x)) p) (\<lambda>p.
     bindP (decode_field (has_flag fl AMQP_BASIC_TIMESTAMP_FLAG) (check (amqp_decode_64 encoded) bad)
       (\<lambda>x. timestamp_update (\<lambda>_. x)) p) (\<lambda>p.
     bindP (decode_field (has_flag fl AMQP_BASIC_TYPE_FLAG) (decode_shortstr encoded)
       (\<lambda>x. message_type_update (\<lambda>_. x)) p) (\<lambda>p.
     bindP (decode_field (has_flag fl AMQP_BASIC_USER_ID_FLAG) (decode_shortstr encoded)
       (\<lambda>x. user_id_update (\<lambda>_. x)) p) (\<lambda>p.
     bindP (decode_field (has_flag fl AMQP_BASIC_APP_ID_FLAG) (decode_shortstr encoded)
       (\<lambda>x. app_id_update (\<lambda>_. x)) p) (\<lambda>p.
     decode_field (has_flag fl AMQP_BASIC_CLUSTER_ID_FLAG) (decode_shortstr encoded)
       (\<lambda>x. cluster_id_update (\<lambda>_. x)) p)))))))))))))"

definition amqp_decode_properties ::
  "amqp_basic_properties_t \<Rightarrow> uint16 \<Rightarrow> amqp_bytes_t \<Rightarrow> (dstate, amqp_properties_t) prog" where
  "amqp_decode_properties memory class_id encoded = (\<lambda>s.
     bindP (decode_flags encoded 0 0) (\<lambda>fl.
       if class_id = 60 then
         bindP (check (pool_alloc sizeof_basic_properties) AMQP_STATUS_NO_MEMORY) (\<lambda>_.
           bindP (decode_basic_properties fl encoded (memory\<lparr>flags := fl\<rparr>)) (\<lambda>p. ret (Basic_properties p)))
       else if class_id \<in> known_classes then
         bindP (check (pool_alloc sizeof_plain_properties) AMQP_STATUS_NO_MEMORY) (\<lambda>_.
           ret (Plain_properties fl))
       else throw AMQP_STATUS_UNKNOWN_CLASS) (s\<lparr>offset := 0\<rparr>))"

section \<open>Encoding\<close>

text \<open>\<^verbatim>\<open>remaining_flags >> 16\<close> shrinks, so the loop ends.\<close>

lemma remainder_less: "(x :: amqp_flags_t) \<noteq> 0 \<Longrightarrow> unat (drop_bit 16 x) < unat x"
  by (simp add: drop_bit_eq_div unat_div unat_gt_0 div_less_dividend)

function encode_flags :: "amqp_flags_t \<Rightarrow> (estate, unit) prog" where
  "encode_flags remaining_flags =
     (let remainder = drop_bit 16 remaining_flags;
          partial_flags = (ucast (remaining_flags AND 0xFFFE) OR (if remainder \<noteq> 0 then 1 else 0) :: uint16)
      in bindP (require (amqp_encode_16 partial_flags) bad) (\<lambda>_.
           if remainder \<noteq> 0 then encode_flags remainder else ret ()))"
  by pat_completeness auto
termination
proof (relation "measure unat")
  fix remaining_flags remainder :: amqp_flags_t
  assume "remainder = drop_bit 16 remaining_flags" and "remainder \<noteq> 0"
  then show "(remainder, remaining_flags) \<in> measure unat"
    using remainder_less [of remaining_flags] by (cases "remaining_flags = 0") auto
qed simp

definition encode_field :: "bool \<Rightarrow> (estate, unit) prog \<Rightarrow> (estate, unit) prog" where
  "encode_field present enc = (if present then enc else ret ())"

definition encode_basic_properties :: "amqp_basic_properties_t \<Rightarrow> (estate, unit) prog" where
  "encode_basic_properties p = (let fl = flags p in
     bindP (encode_field (has_flag fl AMQP_BASIC_CONTENT_TYPE_FLAG) (encode_shortstr (content_type p))) (\<lambda>_.
     bindP (encode_field (has_flag fl AMQP_BASIC_CONTENT_ENCODING_FLAG) (encode_shortstr (content_encoding p))) (\<lambda>_.
     bindP (encode_field (has_flag fl AMQP_BASIC_HEADERS_FLAG) (amqp_encode_table (headers p))) (\<lambda>_.
     bindP (encode_field (has_flag fl AMQP_BASIC_DELIVERY_MODE_FLAG) (require (amqp_encode_8 (delivery_mode p)) bad)) (\<lambda>_.
     bindP (encode_field (has_flag fl AMQP_BASIC_PRIORITY_FLAG) (require (amqp_encode_8 (priority p)) bad)) (\<lambda>_.
     bindP (encode_field (has_flag fl AMQP_BASIC_CORRELATION_ID_FLAG) (encode_shortstr (correlation_id p))) (\<lambda>_.
     bindP (encode_field (has_flag fl AMQP_BASIC_REPLY_TO_FLAG) (encode_shortstr (reply_to p))) (\<lambda>_.
     bindP (encode_field (has_flag fl AMQP_BASIC_EXPIRATION_FLAG) (encode_shortstr (expiration p))) (\<lambda>_.
     bindP (encode_field (has_flag fl AMQP_BASIC_MESSAGE_ID_FLAG) (encode_shortstr (message_id p))) (\<lambda>_.
     bindP (encode_field (has_flag fl AMQP_BASIC_TIMESTAMP_FLAG) (require (amqp_encode_64 (timestamp p)) bad)) (\<lambda>_.
     bindP (encode_field (has_flag fl AMQP_BASIC_TYPE_FLAG) (encode_shortstr (message_type p))) (\<lambda>_.
     bindP (encode_field (has_flag fl AMQP_BASIC_USER_ID_FLAG) (encode_shortstr (user_id p))) (\<lambda>_.
     bindP (encode_field (has_flag fl AMQP_BASIC_APP_ID_FLAG) (encode_shortstr (app_id p))) (\<lambda>_.
     encode_field (has_flag fl AMQP_BASIC_CLUSTER_ID_FLAG) (encode_shortstr (cluster_id p))))))))))))))))"

text \<open>The flags are the first member of every property structure; the class decides on the cast.\<close>

fun properties_flags :: "amqp_properties_t \<Rightarrow> amqp_flags_t" where
  "properties_flags (Basic_properties p) = flags p"
| "properties_flags (Plain_properties fl) = fl"

definition amqp_encode_properties :: "uint16 \<Rightarrow> amqp_properties_t \<Rightarrow> (estate, nat) prog" where
  "amqp_encode_properties class_id decoded =
     bindP (encode_flags (properties_flags decoded)) (\<lambda>_.
       if class_id = 60 then
         (case decoded of
            Basic_properties p \<Rightarrow> bindP (encode_basic_properties p) (\<lambda>_. get_eoff)
          | Plain_properties fl \<Rightarrow> (\<lambda>s. (Undefined, s)))
       else if class_id \<in> known_classes then get_eoff
       else throw AMQP_STATUS_UNKNOWN_CLASS)"

section \<open>Flag words\<close>

text \<open>
  What survives the trip: bit 0 of each flag word is the continuation bit, not a flag. \<open>wire_flags\<close>
  are the flags the peer decodes.
\<close>

definition wire_flags :: "amqp_flags_t \<Rightarrow> amqp_flags_t" where
  "wire_flags fl = (fl AND 0xFFFEFFFE) OR (if drop_bit 16 fl \<noteq> 0 then 1 else 0)"

definition flag_word :: "amqp_flags_t \<Rightarrow> bool \<Rightarrow> uint16" where
  "flag_word x cont = ucast (x AND 0xFFFE) OR (if cont then 1 else 0)"

definition ser_flags :: "amqp_flags_t \<Rightarrow> byte list" where
  "ser_flags fl =
     (if drop_bit 16 fl = 0 then ser16 (flag_word fl False)
      else ser16 (flag_word fl True) @ ser16 (flag_word (drop_bit 16 fl) False))"

lemma flag_mask: "(0xFFFE :: uint32) = push_bit 1 (mask 15)" "(0xFFFEFFFE :: uint32) = push_bit 1 (mask 15) OR push_bit 17 (mask 15)"
  by (simp_all add: mask_eq_exp_minus_1 push_bit_eq_mult)

lemma bit_flag_mask:
  "bit (0xFFFE :: uint32) n \<longleftrightarrow> 1 \<le> n \<and> n < 16"
  "bit (0xFFFEFFFE :: uint32) n \<longleftrightarrow> (1 \<le> n \<and> n < 16) \<or> (17 \<le> n \<and> n < 32)"
  unfolding flag_mask bit_or_iff bit_push_bit_iff bit_mask_iff by auto

lemma bit_flag_word: "bit (flag_word x cont) n \<longleftrightarrow> (1 \<le> n \<and> n < 16 \<and> bit x n) \<or> (cont \<and> n = 0)"
  unfolding flag_word_def bit_or_iff bit_unsigned_iff bit_and_iff bit_flag_mask
  by (cases cont) (auto simp: bit_1_iff)

lemma bit_wire_flags: "bit (wire_flags fl) n \<longleftrightarrow>
    (bit fl n \<and> ((1 \<le> n \<and> n < 16) \<or> (17 \<le> n \<and> n < 32))) \<or> (drop_bit 16 fl \<noteq> 0 \<and> n = 0)"
  unfolding wire_flags_def bit_or_iff bit_and_iff bit_flag_mask
  by (cases "drop_bit 16 fl = 0") (auto simp: bit_1_iff)

lemma flag_word_odd: "flag_word x cont AND 1 \<noteq> 0 \<longleftrightarrow> cont"
  using bit_flag_word [of x cont 0] by (auto simp: bit_0 and_one_eq mod2_eq_if)

lemma drop_twice: "drop_bit 16 (drop_bit 16 (fl :: uint32)) = 0"
  by (rule bit_word_eqI) (auto simp: bit_simps dest: bit_imp_le_length)

lemma emits_flags [field_emits]: "emits (encode_flags fl) (ser_flags fl)"
proof (cases "drop_bit 16 fl = 0")
  case True
  then have "encode_flags fl = bindP (require (amqp_encode_16 (flag_word fl False)) bad) (\<lambda>_. ret ())"
    by (subst encode_flags.simps) (simp add: flag_word_def Let_def)
  moreover have "emits (bindP (require (amqp_encode_16 (flag_word fl False)) bad) (\<lambda>_. ret ()))
      (ser16 (flag_word fl False) @ [])"
    by (intro encodes_bind encodes_intros) simp
  ultimately show ?thesis using True by (simp add: ser_flags_def)
next
  case False
  let ?r = "drop_bit 16 fl"
  have "encode_flags ?r = bindP (require (amqp_encode_16 (flag_word ?r False)) bad) (\<lambda>_. ret ())"
    by (subst encode_flags.simps) (simp add: flag_word_def Let_def drop_twice del: drop_bit_drop_bit)
  moreover have "encode_flags fl = bindP (require (amqp_encode_16 (flag_word fl True)) bad) (\<lambda>_. encode_flags ?r)"
    by (subst encode_flags.simps) (simp add: flag_word_def Let_def False)
  moreover have "emits (bindP (require (amqp_encode_16 (flag_word fl True)) bad) (\<lambda>_.
      bindP (require (amqp_encode_16 (flag_word ?r False)) bad) (\<lambda>_. ret ())))
      (ser16 (flag_word fl True) @ ser16 (flag_word ?r False) @ [])"
    by (intro encodes_bind encodes_intros) simp_all
  ultimately show ?thesis using False by (simp add: ser_flags_def)
qed

lemma wire_flags_one:
  assumes "drop_bit 16 fl = 0"
  shows "0 OR push_bit (0 * 16) (ucast (flag_word fl False)) = wire_flags fl"
proof (rule bit_word_eqI)
  fix n
  assume n: "n < LENGTH(32)"
  have "\<not> bit fl n" if "16 \<le> n"
    using arg_cong [OF assms, of "\<lambda>x. bit x (n - 16)"] that by (simp add: bit_simps)
  then show "bit (0 OR push_bit (0 * 16) (ucast (flag_word fl False)) :: uint32) n = bit (wire_flags fl) n"
    using assms n by (auto simp: bit_wire_flags bit_flag_word bit_unsigned_iff)
qed

lemma wire_flags_two:
  assumes "drop_bit 16 fl \<noteq> 0"
  shows "(0 OR push_bit (0 * 16) (ucast (flag_word fl True)))
    OR push_bit ((0 + 1) * 16) (ucast (flag_word (drop_bit 16 fl) False)) = wire_flags fl"
  using assms
  by (intro bit_word_eqI) (auto simp: bit_wire_flags bit_flag_word bit_unsigned_iff bit_or_iff bit_push_bit_iff bit_drop_bit_eq)

lemma defined_shift_first [simp]: "defined_shift w 0" "\<not> defined_shift w 32"
proof -
  have "uint w < 2 ^ 16" using uint_bounded [of w] by simp
  then show "defined_shift w 0" "\<not> defined_shift w 32" by (simp_all add: defined_shift_def)
qed

lemma defined_shift_second: "defined_shift w 16 \<longleftrightarrow> \<not> bit w 15"
proof -
  have w: "uint w < 65536" "0 \<le> uint w" using uint_bounded [of w] by simp_all
  have "uint w div 32768 = (if 32768 \<le> uint w then 1 else 0)"
    using w by (auto simp: div_pos_pos_trivial div_pos_geq)
  then have high: "odd (uint w div 32768) \<longleftrightarrow> 32768 \<le> uint w" by simp
  have "bit w 15 \<longleftrightarrow> bit (uint w) 15" by (simp add: bit_uint_iff)
  also have "\<dots> \<longleftrightarrow> odd (uint w div 2 ^ 15)" by (rule bit_iff_odd)
  also have "\<dots> \<longleftrightarrow> 2 ^ 15 \<le> uint w" using high by simp
  finally show ?thesis by (auto simp: defined_shift_def)
qed

text \<open>The highest flag cannot be sent: the decoder of the second word is undefined for it.\<close>

lemma reads_flags [field_reads]:
  assumes "\<not> bit fl 31"
  shows "reads encoded (decode_flags encoded 0 0) (ser_flags fl) (wire_flags fl)"
proof (cases "drop_bit 16 fl = 0")
  case True
  have "reads encoded (decode_flags encoded 0 0) (ser16 (flag_word fl False) @ []) (wire_flags fl)"
    unfolding decode_flags.simps [of encoded 0 0]
    by (rule reads_bind [OF reads_check [OF reads_16]])
      (use wire_flags_one [OF True] flag_word_odd [of fl False] reads_ret in \<open>simp add: Let_def\<close>)
  then show ?thesis using True by (simp add: ser_flags_def)
next
  case False
  let ?f = "0 OR push_bit (0 * 16) (ucast (flag_word fl True))"
  have "\<not> bit (flag_word (drop_bit 16 fl) False) 15" using assms by (simp add: bit_flag_word bit_drop_bit_eq)
  then have shift: "defined_shift (flag_word (drop_bit 16 fl) False) 16" by (simp add: defined_shift_second)
  have "reads encoded (decode_flags encoded (0 + 1) ?f) (ser16 (flag_word (drop_bit 16 fl) False) @ []) (wire_flags fl)"
    unfolding decode_flags.simps [of encoded "0 + 1"]
    by (rule reads_bind [OF reads_check [OF reads_16]])
      (use wire_flags_two [OF False] flag_word_odd [of "drop_bit 16 fl" False] shift reads_ret in \<open>simp add: Let_def\<close>)
  then have "reads encoded (decode_flags encoded 0 0)
      (ser16 (flag_word fl True) @ ser16 (flag_word (drop_bit 16 fl) False)) (wire_flags fl)"
    unfolding decode_flags.simps [of encoded 0 0]
    by (intro reads_bind [OF reads_check [OF reads_16]])
      (use flag_word_odd [of fl True] in \<open>simp add: Let_def\<close>)
  then show ?thesis using False by (simp add: ser_flags_def)
qed

section \<open>The basic properties\<close>

definition ser_field :: "bool \<Rightarrow> byte list \<Rightarrow> byte list" where
  "ser_field present ws = (if present then ws else [])"

definition ser_basic :: "amqp_basic_properties_t \<Rightarrow> byte list" where
  "ser_basic p =
     ser_field (has_flag (flags p) AMQP_BASIC_CONTENT_TYPE_FLAG) (ser_shortstr (content_type p)) @
     ser_field (has_flag (flags p) AMQP_BASIC_CONTENT_ENCODING_FLAG) (ser_shortstr (content_encoding p)) @
     ser_field (has_flag (flags p) AMQP_BASIC_HEADERS_FLAG) (ser_table (headers p)) @
     ser_field (has_flag (flags p) AMQP_BASIC_DELIVERY_MODE_FLAG) (ser8 (delivery_mode p)) @
     ser_field (has_flag (flags p) AMQP_BASIC_PRIORITY_FLAG) (ser8 (priority p)) @
     ser_field (has_flag (flags p) AMQP_BASIC_CORRELATION_ID_FLAG) (ser_shortstr (correlation_id p)) @
     ser_field (has_flag (flags p) AMQP_BASIC_REPLY_TO_FLAG) (ser_shortstr (reply_to p)) @
     ser_field (has_flag (flags p) AMQP_BASIC_EXPIRATION_FLAG) (ser_shortstr (expiration p)) @
     ser_field (has_flag (flags p) AMQP_BASIC_MESSAGE_ID_FLAG) (ser_shortstr (message_id p)) @
     ser_field (has_flag (flags p) AMQP_BASIC_TIMESTAMP_FLAG) (ser64 (timestamp p)) @
     ser_field (has_flag (flags p) AMQP_BASIC_TYPE_FLAG) (ser_shortstr (message_type p)) @
     ser_field (has_flag (flags p) AMQP_BASIC_USER_ID_FLAG) (ser_shortstr (user_id p)) @
     ser_field (has_flag (flags p) AMQP_BASIC_APP_ID_FLAG) (ser_shortstr (app_id p)) @
     ser_field (has_flag (flags p) AMQP_BASIC_CLUSTER_ID_FLAG) (ser_shortstr (cluster_id p))"

definition wf_basic :: "amqp_basic_properties_t \<Rightarrow> bool" where
  "wf_basic p \<longleftrightarrow> \<not> bit (flags p) 31 \<and>
     (has_flag (flags p) AMQP_BASIC_CONTENT_TYPE_FLAG \<longrightarrow> length (content_type p) < 2 ^ 8) \<and>
     (has_flag (flags p) AMQP_BASIC_CONTENT_ENCODING_FLAG \<longrightarrow> length (content_encoding p) < 2 ^ 8) \<and>
     (has_flag (flags p) AMQP_BASIC_HEADERS_FLAG \<longrightarrow> wf_table (headers p)) \<and>
     (has_flag (flags p) AMQP_BASIC_CORRELATION_ID_FLAG \<longrightarrow> length (correlation_id p) < 2 ^ 8) \<and>
     (has_flag (flags p) AMQP_BASIC_REPLY_TO_FLAG \<longrightarrow> length (reply_to p) < 2 ^ 8) \<and>
     (has_flag (flags p) AMQP_BASIC_EXPIRATION_FLAG \<longrightarrow> length (expiration p) < 2 ^ 8) \<and>
     (has_flag (flags p) AMQP_BASIC_MESSAGE_ID_FLAG \<longrightarrow> length (message_id p) < 2 ^ 8) \<and>
     (has_flag (flags p) AMQP_BASIC_TYPE_FLAG \<longrightarrow> length (message_type p) < 2 ^ 8) \<and>
     (has_flag (flags p) AMQP_BASIC_USER_ID_FLAG \<longrightarrow> length (user_id p) < 2 ^ 8) \<and>
     (has_flag (flags p) AMQP_BASIC_APP_ID_FLAG \<longrightarrow> length (app_id p) < 2 ^ 8) \<and>
     (has_flag (flags p) AMQP_BASIC_CLUSTER_ID_FLAG \<longrightarrow> length (cluster_id p) < 2 ^ 8)"

text \<open>The flagged properties of \<open>p\<close> over the structure \<open>q\<close>.\<close>

definition overlay :: "amqp_basic_properties_t \<Rightarrow> amqp_basic_properties_t \<Rightarrow> amqp_basic_properties_t" where
  "overlay p q = \<lparr>
      flags = flags q,
      content_type = (if has_flag (flags p) AMQP_BASIC_CONTENT_TYPE_FLAG then content_type p else content_type q),
      content_encoding = (if has_flag (flags p) AMQP_BASIC_CONTENT_ENCODING_FLAG then content_encoding p else content_encoding q),
      headers = (if has_flag (flags p) AMQP_BASIC_HEADERS_FLAG then headers p else headers q),
      delivery_mode = (if has_flag (flags p) AMQP_BASIC_DELIVERY_MODE_FLAG then delivery_mode p else delivery_mode q),
      priority = (if has_flag (flags p) AMQP_BASIC_PRIORITY_FLAG then priority p else priority q),
      correlation_id = (if has_flag (flags p) AMQP_BASIC_CORRELATION_ID_FLAG then correlation_id p else correlation_id q),
      reply_to = (if has_flag (flags p) AMQP_BASIC_REPLY_TO_FLAG then reply_to p else reply_to q),
      expiration = (if has_flag (flags p) AMQP_BASIC_EXPIRATION_FLAG then expiration p else expiration q),
      message_id = (if has_flag (flags p) AMQP_BASIC_MESSAGE_ID_FLAG then message_id p else message_id q),
      timestamp = (if has_flag (flags p) AMQP_BASIC_TIMESTAMP_FLAG then timestamp p else timestamp q),
      message_type = (if has_flag (flags p) AMQP_BASIC_TYPE_FLAG then message_type p else message_type q),
      user_id = (if has_flag (flags p) AMQP_BASIC_USER_ID_FLAG then user_id p else user_id q),
      app_id = (if has_flag (flags p) AMQP_BASIC_APP_ID_FLAG then app_id p else app_id q),
      cluster_id = (if has_flag (flags p) AMQP_BASIC_CLUSTER_ID_FLAG then cluster_id p else cluster_id q)\<rparr>"

lemma if_properties:
  "(if b then \<lparr>flags = a0, content_type = a1, content_encoding = a2, headers = a3, delivery_mode =
     a4, priority = a5, correlation_id = a6, reply_to = a7, expiration = a8, message_id = a9,
     timestamp = a10, message_type = a11, user_id = a12, app_id = a13, cluster_id = a14\<rparr>
    else \<lparr>flags = b0, content_type = b1, content_encoding = b2, headers = b3, delivery_mode =
     b4, priority = b5, correlation_id = b6, reply_to = b7, expiration = b8, message_id = b9,
     timestamp = b10, message_type = b11, user_id = b12, app_id = b13, cluster_id = b14\<rparr>) =
    \<lparr>flags = if b then a0 else b0, content_type = if b then a1 else b1, content_encoding
    = if b then a2 else b2, headers = if b then a3 else b3, delivery_mode = if b then a4 else
    b4, priority = if b then a5 else b5, correlation_id = if b then a6 else b6, reply_to = if b
    then a7 else b7, expiration = if b then a8 else b8, message_id = if b then a9 else b9,
    timestamp = if b then a10 else b10, message_type = if b then a11 else b11, user_id = if b
    then a12 else b12, app_id = if b then a13 else b13, cluster_id = if b then a14 else
    b14\<rparr>"
  by simp

lemma emits_field [field_emits]: "(present \<Longrightarrow> emits enc ws) \<Longrightarrow> emits (encode_field present enc) (ser_field present ws)"
  by (simp add: encode_field_def ser_field_def encodes_ret)

lemma reads_field:
  "(present \<Longrightarrow> reads encoded dec ws x) \<Longrightarrow>
   reads encoded (decode_field present dec upd p) (ser_field present ws) (if present then upd x p else p)"
  by (auto simp: decode_field_def ser_field_def intro: reads_ret reads_then_ret [where f = "\<lambda>x. upd x p"])

text \<open>One property and the rest of the structure, and the last property.\<close>

lemma reads_field_then:
  assumes "present \<Longrightarrow> reads encoded dec ws x" and "(if present then upd x p else p) = p'"
    and "reads encoded (k p') vs v"
  shows "reads encoded (bindP (decode_field present dec upd p) k) (ser_field present ws @ vs) v"
  by (rule reads_bind [OF reads_field]) (use assms in auto)

lemma reads_field_last:
  assumes "present \<Longrightarrow> reads encoded dec ws x" and "(if present then upd x p else p) = v"
  shows "reads encoded (decode_field present dec upd p) (ser_field present ws) v"
  using reads_field [of present encoded dec ws x upd p] assms by auto

lemma emits_basic [field_emits]: "wf_basic p \<Longrightarrow> emits (encode_basic_properties p) (ser_basic p)"
  unfolding encode_basic_properties_def Let_def ser_basic_def
  by (intro encodes_bind field_emits) (simp_all add: wf_basic_def)

lemma has_flag_bit: "i < 32 \<Longrightarrow> has_flag fl i = bit fl i"
  by (simp add: has_flag_def bit_iff_and_push_bit_not_eq_0)

lemma has_flag_wire: "1 \<le> i \<Longrightarrow> i < 16 \<Longrightarrow> has_flag (wire_flags fl) i = has_flag fl i"
  by (simp add: has_flag_bit bit_wire_flags)

lemmas basic_flag_defs = AMQP_BASIC_CONTENT_TYPE_FLAG_def AMQP_BASIC_CONTENT_ENCODING_FLAG_def
  AMQP_BASIC_HEADERS_FLAG_def AMQP_BASIC_DELIVERY_MODE_FLAG_def AMQP_BASIC_PRIORITY_FLAG_def
  AMQP_BASIC_CORRELATION_ID_FLAG_def AMQP_BASIC_REPLY_TO_FLAG_def AMQP_BASIC_EXPIRATION_FLAG_def
  AMQP_BASIC_MESSAGE_ID_FLAG_def AMQP_BASIC_TIMESTAMP_FLAG_def AMQP_BASIC_TYPE_FLAG_def
  AMQP_BASIC_USER_ID_FLAG_def AMQP_BASIC_APP_ID_FLAG_def AMQP_BASIC_CLUSTER_ID_FLAG_def

lemma reads_basic:
  assumes "wf_basic p" and fl: "\<And>i. 1 \<le> i \<Longrightarrow> i < 16 \<Longrightarrow> has_flag fl i = has_flag (flags p) i"
  shows "reads encoded (decode_basic_properties fl encoded q) (ser_basic p) (overlay p q)"
proof -
  have same: "has_flag fl i = has_flag (flags p) i"
    if "i \<in> {AMQP_BASIC_CONTENT_TYPE_FLAG, AMQP_BASIC_CONTENT_ENCODING_FLAG,
      AMQP_BASIC_HEADERS_FLAG, AMQP_BASIC_DELIVERY_MODE_FLAG, AMQP_BASIC_PRIORITY_FLAG,
      AMQP_BASIC_CORRELATION_ID_FLAG, AMQP_BASIC_REPLY_TO_FLAG, AMQP_BASIC_EXPIRATION_FLAG,
      AMQP_BASIC_MESSAGE_ID_FLAG, AMQP_BASIC_TIMESTAMP_FLAG, AMQP_BASIC_TYPE_FLAG,
      AMQP_BASIC_USER_ID_FLAG, AMQP_BASIC_APP_ID_FLAG, AMQP_BASIC_CLUSTER_ID_FLAG}" for i
    by (rule fl) (use that in \<open>auto simp: basic_flag_defs\<close>)
  have wf: "has_flag (flags p) AMQP_BASIC_CONTENT_TYPE_FLAG \<Longrightarrow> length (content_type p) < 256"
    "has_flag (flags p) AMQP_BASIC_CONTENT_ENCODING_FLAG \<Longrightarrow> length (content_encoding p) < 256"
    "has_flag (flags p) AMQP_BASIC_HEADERS_FLAG \<Longrightarrow> wf_table (headers p)"
    "has_flag (flags p) AMQP_BASIC_CORRELATION_ID_FLAG \<Longrightarrow> length (correlation_id p) < 256"
    "has_flag (flags p) AMQP_BASIC_REPLY_TO_FLAG \<Longrightarrow> length (reply_to p) < 256"
    "has_flag (flags p) AMQP_BASIC_EXPIRATION_FLAG \<Longrightarrow> length (expiration p) < 256"
    "has_flag (flags p) AMQP_BASIC_MESSAGE_ID_FLAG \<Longrightarrow> length (message_id p) < 256"
    "has_flag (flags p) AMQP_BASIC_TYPE_FLAG \<Longrightarrow> length (message_type p) < 256"
    "has_flag (flags p) AMQP_BASIC_USER_ID_FLAG \<Longrightarrow> length (user_id p) < 256"
    "has_flag (flags p) AMQP_BASIC_APP_ID_FLAG \<Longrightarrow> length (app_id p) < 256"
    "has_flag (flags p) AMQP_BASIC_CLUSTER_ID_FLAG \<Longrightarrow> length (cluster_id p) < 256"
    using assms(1) by (simp_all add: wf_basic_def)
  show ?thesis
    unfolding decode_basic_properties_def ser_basic_def
    by (cases q, simp only: same insert_iff simp_thms)
      ((rule reads_field_then reads_field_last field_reads
         | simp add: wf if_properties overlay_def split del: if_split cong: if_cong)+)
qed

section \<open>Round trip and exactness\<close>

definition ser_properties :: "amqp_basic_properties_t \<Rightarrow> byte list" where
  "ser_properties p = ser_flags (flags p) @ ser_basic p"

lemma sizeof_properties_pos: "sizeof_basic_properties \<noteq> 0" "sizeof_plain_properties \<noteq> 0"
  by (simp_all add: sizeof_basic_properties_def sizeof_plain_properties_def struct_size_pos)

lemma encode_properties_exact:
  assumes "wf_basic p" and "e_ok 0 s"
  shows "fits (ser_properties p) s \<Longrightarrow> amqp_encode_properties 60 (Basic_properties p) s =
      (Ok (e_off s + length (ser_properties p)), written (ser_properties p) s)"
    and "\<not> fits (ser_properties p) s \<Longrightarrow>
      \<exists>e s'. amqp_encode_properties 60 (Basic_properties p) s = (Err e, s') \<and> same_outside s s'"
proof -
  let ?m = "bindP (encode_flags (flags p)) (\<lambda>_. encode_basic_properties p)"
  have run: "amqp_encode_properties 60 (Basic_properties p) = bindP ?m (\<lambda>_. get_eoff)"
    by (simp add: amqp_encode_properties_def bindP_assoc)
  have m: "emits ?m (ser_properties p)"
    unfolding ser_properties_def by (intro encodes_bind emits_flags emits_basic assms)
  show "amqp_encode_properties 60 (Basic_properties p) s =
      (Ok (e_off s + length (ser_properties p)), written (ser_properties p) s)" if "fits (ser_properties p) s"
    unfolding run using encodesD(1) [OF m assms(2) that] by (simp add: bindP_Ok get_eoff_def)
  show "\<exists>e s'. amqp_encode_properties 60 (Basic_properties p) s = (Err e, s') \<and> same_outside s s'"
    if "\<not> fits (ser_properties p) s"
    unfolding run using encodesD(2) [OF m assms(2) that] by (auto simp: bindP_Err)
qed

lemma reads_properties:
  assumes "wf_basic p" and "at encoded (ser_properties p) (s\<lparr>offset := 0\<rparr>)" and "ready B s"
  shows "\<exists>s'. amqp_decode_properties q 60 encoded s =
      (Ok (Basic_properties (overlay p (q\<lparr>flags := wire_flags (flags p)\<rparr>))), s')
    \<and> offset s' = length (ser_properties p) \<and> ready B s'"
proof -
  let ?q = "q\<lparr>flags := wire_flags (flags p)\<rparr>"
  let ?fields = "\<lambda>fl. bindP (decode_basic_properties fl encoded (q\<lparr>flags := fl\<rparr>)) (\<lambda>p. ret (Basic_properties p))"
  have "reads encoded (?fields (wire_flags (flags p))) (ser_basic p) (Basic_properties (overlay p ?q))"
    by (rule reads_last [OF reads_basic [OF assms(1)]]) (simp_all add: has_flag_wire)
  then have "reads encoded (bindP (decode_flags encoded 0 0) (\<lambda>fl.
      bindP (check (pool_alloc sizeof_basic_properties) AMQP_STATUS_NO_MEMORY) (\<lambda>_. ?fields fl)))
      (ser_properties p) (Basic_properties (overlay p ?q))"
    unfolding ser_properties_def
    by (intro reads_bind [OF reads_flags] reads_pool_alloc sizeof_properties_pos) (use assms(1) in \<open>simp_all add: wf_basic_def\<close>)
  moreover have "ready B (s\<lparr>offset := 0\<rparr>)" using assms(3) by (simp add: ready_def d_fail_def)
  ultimately show ?thesis
    using readsE [OF _ assms(2)] by (fastforce simp: amqp_decode_properties_def)
qed

text \<open>
  C27: The basic properties, encoded, are decoded back: the flagged ones are those of the message, the
  flags those of the message without the bits that are not flags, and a property that is not flagged
  is what the memory held. The decoder consumes exactly the length the encoder returned.
\<close>

theorem properties_round_trip:
  assumes wf: "wf_basic p" and s: "e_ok 0 s" "e_off s = 0"
    and run: "amqp_encode_properties 60 (Basic_properties p) s = (Ok n, s')" and d: "ready {} d"
  shows "\<exists>d'. amqp_decode_properties memory 60 \<lparr>len = n, bytes = e_mem s'\<rparr> d =
      (Ok (Basic_properties (overlay p (memory\<lparr>flags := wire_flags (flags p)\<rparr>))), d') \<and> offset d' = n"
proof -
  have fit: "fits (ser_properties p) s"
    using encode_properties_exact(2) [OF wf s(1)] run by force
  with encode_properties_exact(1) [OF wf s(1)] run s(2)
  have n: "n = length (ser_properties p)" "s' = written (ser_properties p) s" by auto
  have "at \<lparr>len = n, bytes = e_mem s'\<rparr> (ser_properties p) (d\<lparr>offset := 0\<rparr>)"
    using n s fit by (auto simp: at_def valid_bytes_def written_def e_ok_def fits_def)
  from reads_properties [OF wf this d] n show ?thesis by auto
qed

text \<open>
  C29: Encoding basic properties at the start of a buffer succeeds exactly when the wire format fits; it
  then returns its length and writes exactly it. Otherwise it reports an error and writes nothing
  outside the buffer.
\<close>

theorem amqp_encode_properties_exact:
  assumes "wf_basic p" and "e_ok 0 s" and "e_off s = 0"
  shows "if length (ser_properties p) \<le> e_len s
    then amqp_encode_properties 60 (Basic_properties p) s =
      (Ok (length (ser_properties p)), written (ser_properties p) s)
    else \<exists>e s'. amqp_encode_properties 60 (Basic_properties p) s = (Err e, s') \<and> same_outside s s'"
proof -
  have "fits (ser_properties p) s \<longleftrightarrow> length (ser_properties p) \<le> e_len s"
    using assms(3) by (auto simp: fits_def)
  then show ?thesis using encode_properties_exact [OF assms(1,2)] assms(3) by simp
qed

section \<open>Arbitrary bytes\<close>

text \<open>The continuation bit of the \<open>i\<close>-th flag word in front of the buffer.\<close>

definition continued :: "amqp_bytes_t \<Rightarrow> nat \<Rightarrow> bool" where
  "continued encoded i \<longleftrightarrow> 2 * i + 2 \<le> len encoded \<and> bit (bytes encoded ! (2 * i + 1)) 0"

lemma odd_flags: "(x :: uint16) AND 1 \<noteq> 0 \<longleftrightarrow> bit x 0"
  by (auto simp: bit_0 and_one_eq mod2_eq_if)

lemma amqp_d16_odd: "amqp_d16 host_is_big [a, b] AND 1 \<noteq> 0 \<longleftrightarrow> bit b 0"
  unfolding odd_flags amqp_d16_def host_is_big_def swap16_def masks16
  by (auto simp: native_word_def bit_byte_simps bit_mask_iff Let_def dest: bit_imp_le_length)

lemma take_word: "k + 2 \<le> length bs \<Longrightarrow> take 2 (drop k bs) = [bs ! k, bs ! (k + 1)]"
  by (simp add: numeral_2_eq_2 take_Suc_conv_app_nth)

lemma run_flag_word:
  assumes "valid_bytes encoded" and "offset s = 2 * i" and "2 * i \<le> len encoded"
  shows "check (amqp_decode_16 encoded) bad s =
    (if 2 * i + 2 \<le> len encoded
     then (Ok (amqp_d16 host_is_big [bytes encoded ! (2 * i), bytes encoded ! (2 * i + 1)]), s\<lparr>offset := 2 * i + 2\<rparr>)
     else (Err bad, s\<lparr>offset := 2 * i + 2\<rparr>))"
proof -
  have len: "len encoded \<le> length (bytes encoded)" "length (bytes encoded) < 2 ^ 63"
    using assms(1) by (simp_all add: valid_bytes_def ptrdiff_max_def)
  then have "size_add (2 * i) 2 = 2 * i + 2" using assms(3) by (intro size_add_small) simp
  with len assms show ?thesis
    by (simp add: amqp_decode_16_def decode_base_def check_def bindP_def ret_def throw_def mem_read_def
        take_word Let_def)
qed

lemma amqp_d16_high: "bit (amqp_d16 host_is_big [a, b]) 15 \<longleftrightarrow> bit a 7"
  unfolding amqp_d16_def host_is_big_def swap16_def masks16
  by (auto simp: native_word_def bit_byte_simps bit_mask_iff Let_def dest: bit_imp_le_length)

lemma decode_flags_first:
  assumes "valid_bytes encoded" and "offset s = 0"
  shows "if continued encoded 0
    then \<exists>fl'. decode_flags encoded 0 fl s = decode_flags encoded 1 fl' (s\<lparr>offset := 2\<rparr>)
    else decode_flags encoded 0 fl s = (Err bad, s\<lparr>offset := 2\<rparr>)
      \<or> 2 \<le> len encoded \<and> (\<exists>fl'. decode_flags encoded 0 fl s = (Ok fl', s\<lparr>offset := 2\<rparr>))"
  using run_flag_word [OF assms(1), of s 0] assms(2) amqp_d16_odd [of "bytes encoded ! 0" "bytes encoded ! 1"]
  unfolding decode_flags.simps [of encoded 0]
  by (auto simp: bindP_def ret_def Let_def continued_def numeral_2_eq_2)

lemma decode_flags_second:
  assumes "valid_bytes encoded" and "offset s = 2" and "2 \<le> len encoded"
  shows "if 4 \<le> len encoded \<and> bit (bytes encoded ! 2) 7 then decode_flags encoded 1 fl s = (Undefined, s\<lparr>offset := 4\<rparr>)
    else if continued encoded 1 then \<exists>fl'. decode_flags encoded 1 fl s = decode_flags encoded 2 fl' (s\<lparr>offset := 4\<rparr>)
    else decode_flags encoded 1 fl s = (Err bad, s\<lparr>offset := 4\<rparr>)
      \<or> 4 \<le> len encoded \<and> (\<exists>fl'. decode_flags encoded 1 fl s = (Ok fl', s\<lparr>offset := 4\<rparr>))"
proof -
  let ?w = "amqp_d16 host_is_big [bytes encoded ! 2, bytes encoded ! 3]" and ?s = "s\<lparr>offset := 4\<rparr>"
  have idx: "2 * 1 = (2 :: nat)" "2 + 1 = (3 :: nat)" "2 + 2 = (4 :: nat)" "1 + 1 = (2 :: nat)" "1 * 16 = (16 :: nat)" by simp_all
  note run = run_flag_word [OF assms(1), of s 1, unfolded idx, OF assms(2,3)]
  have cont: "continued encoded 1 \<longleftrightarrow> 4 \<le> len encoded \<and> bit (bytes encoded ! 3) 0" unfolding continued_def idx ..
  define fl' where "fl' = fl OR push_bit 16 (ucast ?w)"
  have "decode_flags encoded 1 fl s =
      (if 4 \<le> len encoded then if bit ?w 15 then (Undefined, ?s) else if ?w AND 1 \<noteq> 0 then decode_flags encoded 2 fl' ?s else (Ok fl', ?s)
       else (Err bad, ?s))"
    unfolding decode_flags.simps [of encoded 1] idx bindP_def run fl'_def by (simp add: defined_shift_second ret_def Let_def)
  then show ?thesis unfolding amqp_d16_odd amqp_d16_high cont by auto
qed

lemma decode_flags_third:
  assumes "valid_bytes encoded" and "offset s = 4" and "4 \<le> len encoded"
  shows "decode_flags encoded 2 fl s = (if 6 \<le> len encoded then Undefined else Err bad, s\<lparr>offset := 6\<rparr>)"
  using run_flag_word [OF assms(1), of s 2] assms(2,3)
  unfolding decode_flags.simps [of encoded 2] by (auto simp: bindP_def)

text \<open>A second flag word with its highest bit, or a third flag word.\<close>

definition undefined_flags :: "amqp_bytes_t \<Rightarrow> bool" where
  "undefined_flags encoded \<longleftrightarrow> continued encoded 0 \<and>
     (4 \<le> len encoded \<and> bit (bytes encoded ! 2) 7 \<or> 6 \<le> len encoded \<and> continued encoded 1)"

lemma decode_flags_outcome:
  assumes "valid_bytes encoded" and "offset s = 0"
  shows "\<exists>k. decode_flags encoded 0 0 s = (if undefined_flags encoded then Undefined else Err bad, s\<lparr>offset := k\<rparr>)
    \<or> \<not> undefined_flags encoded \<and> k \<le> len encoded \<and> (\<exists>fl. decode_flags encoded 0 0 s = (Ok fl, s\<lparr>offset := k\<rparr>))"
proof (cases "continued encoded 0")
  case False
  then show ?thesis
    using decode_flags_first [OF assms, of 0] by (auto simp: undefined_flags_def)
next
  case True
  then obtain fl where one: "decode_flags encoded 0 0 s = decode_flags encoded 1 fl (s\<lparr>offset := 2\<rparr>)"
    using decode_flags_first [OF assms, of 0] by auto
  have "2 \<le> len encoded" using True by (simp add: continued_def)
  note step = decode_flags_second [OF assms(1), of "s\<lparr>offset := 2\<rparr>" fl, simplified, OF this]
  consider (sign) "4 \<le> len encoded" "bit (bytes encoded ! 2) 7"
    | (third) "\<not> (4 \<le> len encoded \<and> bit (bytes encoded ! 2) 7)" "continued encoded 1"
    | (last) "\<not> (4 \<le> len encoded \<and> bit (bytes encoded ! 2) 7)" "\<not> continued encoded 1" by blast
  then show ?thesis
  proof cases
    case sign
    then show ?thesis using step one True by (auto simp: undefined_flags_def)
  next
    case third
    then obtain fl' where two: "decode_flags encoded 1 fl (s\<lparr>offset := 2\<rparr>) = decode_flags encoded 2 fl' (s\<lparr>offset := 4\<rparr>)"
      using step by auto
    have "4 \<le> len encoded" using third(2) by (simp add: continued_def)
    then have "decode_flags encoded 0 0 s = (if undefined_flags encoded then Undefined else Err bad, s\<lparr>offset := 6\<rparr>)"
      using decode_flags_third [OF assms(1), of "s\<lparr>offset := 4\<rparr>" fl'] True third one two by (simp add: undefined_flags_def)
    then show ?thesis by blast
  next
    case last
    then show ?thesis using step one by (auto simp: undefined_flags_def)
  qed
qed

lemma dsafe_field: "dsafe encoded B dec \<Longrightarrow> dsafe encoded B (decode_field present dec upd p)"
  unfolding decode_field_def by (intro hoare_intros)

lemma dsafe_basic [hoare_intros]: "dsafe encoded B (decode_basic_properties fl encoded p)"
  unfolding decode_basic_properties_def by (intro dsafe_field hoare_intros)

lemma decode_properties_outcome:
  assumes "valid_bytes encoded" and "d_fail B s"
  shows "case amqp_decode_properties memory class_id encoded s of
      (Ok p, s') \<Rightarrow> \<not> undefined_flags encoded \<and> offset s' \<le> len encoded \<and> d_fail B s'
    | (Err e, s') \<Rightarrow> \<not> undefined_flags encoded \<and> d_fail B s'
    | (Undefined, s') \<Rightarrow> undefined_flags encoded
    | (OutOfFuel, s') \<Rightarrow> False"
proof -
  let ?rest = "\<lambda>fl. if class_id = 60 then
         bindP (check (pool_alloc sizeof_basic_properties) AMQP_STATUS_NO_MEMORY) (\<lambda>_.
           bindP (decode_basic_properties fl encoded (memory\<lparr>flags := fl\<rparr>)) (\<lambda>p. ret (Basic_properties p)))
       else if class_id \<in> known_classes then
         bindP (check (pool_alloc sizeof_plain_properties) AMQP_STATUS_NO_MEMORY) (\<lambda>_.
           ret (Plain_properties fl))
       else throw AMQP_STATUS_UNKNOWN_CLASS"
  have rest: "settles (\<lambda>_. d_ok encoded B) (d_fail B) (?rest fl (s\<lparr>offset := k\<rparr>))" if "k \<le> len encoded" for fl k
  proof -
    have "dsafe encoded B (?rest fl)" by (intro hoare_intros)
    from hoareD [OF this] show ?thesis using that assms by (simp add: d_ok_def d_fail_def)
  qed
  have fail: "d_fail B (s\<lparr>offset := k\<rparr>)" for k using assms(2) by (simp add: d_fail_def)
  from decode_flags_outcome [OF assms(1), of "s\<lparr>offset := 0\<rparr>"] obtain k where
    "decode_flags encoded 0 0 (s\<lparr>offset := 0\<rparr>) = (if undefined_flags encoded then Undefined else Err bad, s\<lparr>offset := k\<rparr>)
      \<or> \<not> undefined_flags encoded \<and> k \<le> len encoded
        \<and> (\<exists>fl. decode_flags encoded 0 0 (s\<lparr>offset := 0\<rparr>) = (Ok fl, s\<lparr>offset := k\<rparr>))"
    by auto
  then show ?thesis
  proof (elim disjE conjE exE)
    assume "decode_flags encoded 0 0 (s\<lparr>offset := 0\<rparr>) = (if undefined_flags encoded then Undefined else Err bad, s\<lparr>offset := k\<rparr>)"
    then show ?thesis using fail by (simp add: amqp_decode_properties_def bindP_def)
  next
    fix fl
    assume no: "\<not> undefined_flags encoded" and k: "k \<le> len encoded"
      and "decode_flags encoded 0 0 (s\<lparr>offset := 0\<rparr>) = (Ok fl, s\<lparr>offset := k\<rparr>)"
    then have run: "amqp_decode_properties memory class_id encoded s = ?rest fl (s\<lparr>offset := k\<rparr>)"
      by (simp add: amqp_decode_properties_def bindP_Ok)
    obtain r s' where r: "amqp_decode_properties memory class_id encoded s = (r, s')" by fastforce
    with rest [OF k, of fl] run have "settles (\<lambda>_. d_ok encoded B) (d_fail B) (r, s')" by simp
    then show ?thesis using no r by (auto simp: settles_iff d_ok_def)
  qed
qed

text \<open>
  C28: Decoding arbitrary bytes as properties of an arbitrary class never reads outside the buffer,
  terminates, frees nothing twice and keeps the pool and the caller's blocks intact, under any
  allocation failures, and it is undefined exactly when a second flag word has its highest bit or a third flag
  word is read: the shift of an \<^verbatim>\<open>int\<close> that would collect it has no defined value.
\<close>

theorem amqp_decode_properties_outcome:
  assumes "valid_bytes encoded" and "d_fail B s"
  shows "case amqp_decode_properties memory class_id encoded s of
      (Ok p, s') \<Rightarrow> \<not> undefined_flags encoded \<and> offset s' \<le> len encoded \<and> d_fail B s'
    | (Err e, s') \<Rightarrow> \<not> undefined_flags encoded \<and> d_fail B s'
    | (Undefined, s') \<Rightarrow> undefined_flags encoded
    | (OutOfFuel, s') \<Rightarrow> False"
  by (rule decode_properties_outcome [OF assms])

text \<open>A class that is not in the protocol is rejected by both codecs, with the flags well formed.\<close>

theorem unknown_class_rejected:
  assumes "class_id \<notin> known_classes" and "\<not> bit fl 31" and "at encoded (ser_flags fl) (d\<lparr>offset := 0\<rparr>)" and "ready {} d"
    and "e_ok 0 s" and "fits (ser_flags (properties_flags p)) s"
  shows "fst (amqp_decode_properties memory class_id encoded d) = Err AMQP_STATUS_UNKNOWN_CLASS
    \<and> fst (amqp_encode_properties class_id p s) = Err AMQP_STATUS_UNKNOWN_CLASS"
proof -
  have "class_id \<noteq> 60" using assms(1) by (auto simp: known_classes_def)
  moreover have "ready {} (d\<lparr>offset := 0\<rparr>)" using assms(4) by (simp add: ready_def d_fail_def)
  then obtain d' where "decode_flags encoded 0 0 (d\<lparr>offset := 0\<rparr>) = (Ok (wire_flags fl), d')"
    using readsE [OF reads_flags [OF assms(2)] assms(3)] by blast
  ultimately show ?thesis
    using encodesD(1) [OF emits_flags assms(5,6)] assms(1)
    by (simp add: amqp_decode_properties_def amqp_encode_properties_def outcome_simps)
qed

section \<open>Concrete instances\<close>

definition sample_properties :: amqp_basic_properties_t where
  "sample_properties = \<lparr>flags = 0x9001, content_type = [0x74], content_encoding = [], headers = [],
     delivery_mode = 2, priority = 0, correlation_id = [], reply_to = [], expiration = [],
     message_id = [], timestamp = 0, message_type = [], user_id = [], app_id = [], cluster_id = []\<rparr>"

lemma sample_properties_flags:
  "has_flag (flags sample_properties) i \<longleftrightarrow> i \<in> {0, 12, 15}" if "i < 16"
proof -
  have "list_all (\<lambda>i. has_flag (flags sample_properties) i \<longleftrightarrow> i \<in> {0, 12, 15}) [0..<16]" by code_simp
  with that show ?thesis by (simp add: list_all_iff)
qed

lemma sample_properties_wf [simp]: "wf_basic sample_properties"
  by (simp add: wf_basic_def basic_flag_defs sample_properties_flags) (simp add: sample_properties_def)

lemma sample_properties_length: "length (ser_properties sample_properties) = 5"
proof -
  have "length (ser_flags (flags sample_properties)) = 2"
    by (simp add: ser_flags_def sample_properties_def drop_bit_eq_div)
  then show ?thesis
    by (simp add: ser_properties_def ser_basic_def ser_field_def basic_flag_defs sample_properties_flags)
      (simp add: sample_properties_def ser_shortstr_def)
qed

theorem amqp_encode_properties_exact_witness:
  "amqp_encode_properties 60 (Basic_properties sample_properties) (blank 40) =
     (Ok (length (ser_properties sample_properties)), written (ser_properties sample_properties) (blank 40))
   \<and> (\<exists>e s'. amqp_encode_properties 60 (Basic_properties sample_properties) (blank 4) = (Err e, s')
     \<and> same_outside (blank 4) s')"
  using amqp_encode_properties_exact [OF sample_properties_wf blank_ok [of 40]]
    amqp_encode_properties_exact [OF sample_properties_wf blank_ok [of 4]]
  by (simp add: sample_properties_length blank_def ptrdiff_max_def)

theorem properties_round_trip_witness:
  "\<exists>n s' d'. amqp_encode_properties 60 (Basic_properties sample_properties) (blank 40) = (Ok n, s')
     \<and> amqp_decode_properties sample_properties 60 \<lparr>len = n, bytes = e_mem s'\<rparr> start =
       (Ok (Basic_properties (overlay sample_properties (sample_properties\<lparr>flags := wire_flags (flags sample_properties)\<rparr>))), d')
     \<and> offset d' = n"
proof -
  have "amqp_encode_properties 60 (Basic_properties sample_properties) (blank 40) =
      (Ok 5, written (ser_properties sample_properties) (blank 40))"
    using encode_properties_exact(1) [OF sample_properties_wf blank_ok [of 40]]
    by (simp add: fits_def sample_properties_length blank_def ptrdiff_max_def)
  with properties_round_trip [OF sample_properties_wf blank_ok [of 40] _ this, of start] show ?thesis
    by (auto simp: ptrdiff_max_def blank_def)
qed

theorem amqp_decode_properties_outcome_witness:
  "fst (amqp_decode_properties sample_properties 60 \<lparr>len = 6, bytes = [0, 1, 0, 1, 0, 0]\<rparr> start) = Undefined
   \<and> fst (amqp_decode_properties sample_properties 60 \<lparr>len = 4, bytes = [0, 1, 0x80, 0]\<rparr> start) = Undefined"
proof -
  have bad: "undefined_flags \<lparr>len = 6, bytes = [0, 1, 0, 1, 0, 0]\<rparr>" "undefined_flags \<lparr>len = 4, bytes = [0, 1, 0x80, 0]\<rparr>"
    by (simp_all add: undefined_flags_def continued_def bit_iff_odd)
  show ?thesis
    using bad amqp_decode_properties_outcome [of "\<lparr>len = 6, bytes = [0, 1, 0, 1, 0, 0]\<rparr>" "{}" start sample_properties 60]
      amqp_decode_properties_outcome [of "\<lparr>len = 4, bytes = [0, 1, 0x80, 0]\<rparr>" "{}" start sample_properties 60]
    by (auto simp: valid_bytes_def ptrdiff_max_def split: prod.splits outcome.splits)
qed

theorem unknown_class_rejected_witness:
  "fst (amqp_decode_properties sample_properties 7 \<lparr>len = 2, bytes = ser_flags 0\<rparr> start) = Err AMQP_STATUS_UNKNOWN_CLASS
   \<and> fst (amqp_encode_properties 7 (Plain_properties 0) (blank 2)) = Err AMQP_STATUS_UNKNOWN_CLASS"
  by (rule unknown_class_rejected [where fl = 0])
    (simp_all add: known_classes_def at_def valid_bytes_def ser_flags_def ptrdiff_max_def fits_def blank_def e_ok_def)

end
