(* ===== verification/Amqp_Pools.thy ===== *)
theory Amqp_Pools
  imports Amqp_Properties "HOL-Library.Multiset"
begin

text \<open>
  The pools of a connection together. A decoder works on the pool of one channel; this theory shows
  that the pools of all the other channels, the entries of the pool table and the connection's own
  blocks are unharmed, and that destroying the table gives every block back exactly once.

  Two ingredients: blocks of the C heap keep their size while they live (\<open>evolves\<close>, in the theory of
  tables), which every decoder respects, and the decoders' safety with respect to the caller's blocks, proved in the
  theories of the codecs.
\<close>

section \<open>Blocks keep their size\<close>

lemma dkeeps_table [keeps_intros]: "dkeeps (amqp_decode_table encoded)"
  unfolding amqp_decode_table_def using dkeeps_decoders by blast

lemma dkeeps_strings [keeps_intros]: "dkeeps (decode_shortstr encoded)" "dkeeps (decode_longstr encoded)"
  unfolding decode_shortstr_def decode_longstr_def by (intro keeps_intros)+

lemma dkeeps_method_case: "(n, d) \<in> set method_decoders \<Longrightarrow> dkeeps (d encoded)"
  unfolding method_decoders_def decoder_defs
  by (auto intro!: keeps_intros simp only: set_simps insert_iff empty_iff prod.inject simp_thms)

lemma dkeeps_from_start: "dkeeps m \<Longrightarrow> dkeeps (\<lambda>s. m (s\<lparr>offset := 0\<rparr>))"
  by (auto simp: dkeeps_def dest: spec [where x = "_\<lparr>offset := 0\<rparr>"])

lemma dkeeps_method [keeps_intros]: "dkeeps (amqp_decode_method n encoded)"
  unfolding amqp_decode_method_def
  by (rule dkeeps_from_start) (auto intro: keeps_intros dkeeps_method_case dest: map_of_SomeD split: option.splits)

lemma dkeeps_flags [keeps_intros]: "dkeeps (decode_flags encoded i fl)"
proof (induction encoded i fl rule: decode_flags.induct)
  case (1 encoded i fl)
  then show ?case
    by (subst decode_flags.simps) (auto intro!: keeps_intros simp: Let_def)
qed

lemma dkeeps_field [keeps_intros]: "dkeeps dec \<Longrightarrow> dkeeps (decode_field present dec upd p)"
  unfolding decode_field_def by (intro keeps_intros)

lemma dkeeps_properties [keeps_intros]: "dkeeps (amqp_decode_properties memory class_id encoded)"
  unfolding amqp_decode_properties_def decode_basic_properties_def
  by (rule dkeeps_from_start) (intro keeps_intros)

section \<open>All pools of a connection\<close>

definition foot :: "amqp_pool_t \<Rightarrow> nat set" where
  "foot p = set (pool_blocks p) \<union> set_option (alloc_block p)"

definition entry_blocks :: "pool_table \<Rightarrow> nat set" where
  "entry_blocks t = entry_block ` set (concat t)"

text \<open>
  \<open>pools_inv t h B\<close>: every pool of the table is valid, the pools share no block with each other, with
  the entries of the table or with the blocks \<open>B\<close> of the connection, and all of these are allocated.
\<close>

definition pools_inv :: "pool_table \<Rightarrow> heap \<Rightarrow> nat set \<Rightarrow> bool" where
  "pools_inv t h B \<longleftrightarrow> table_inv t \<and> heap_inv h \<and> \<not> h_fault h
     \<and> distinct (map entry_channel (concat t)) \<and> distinct (map entry_block (concat t))
     \<and> B \<inter> entry_blocks t = {} \<and> (\<forall>b \<in> B \<union> entry_blocks t. h_live h b \<noteq> None)
     \<and> (\<forall>c p. amqp_get_channel_pool t c = Some p \<longrightarrow> pool_inv p h \<and> foot p \<inter> (B \<union> entry_blocks t) = {})
     \<and> (\<forall>c d p q. amqp_get_channel_pool t c = Some p \<longrightarrow> amqp_get_channel_pool t d = Some q \<longrightarrow> c \<noteq> d \<longrightarrow>
          foot p \<inter> foot q = {})"

lemma pools_invD:
  assumes "pools_inv t h B"
  shows "table_inv t" "heap_inv h" "\<not> h_fault h" "distinct (map entry_channel (concat t))"
    "distinct (map entry_block (concat t))" "B \<inter> entry_blocks t = {}"
    "b \<in> B \<union> entry_blocks t \<Longrightarrow> h_live h b \<noteq> None"
    "amqp_get_channel_pool t c = Some p \<Longrightarrow> pool_inv p h"
    "amqp_get_channel_pool t c = Some p \<Longrightarrow> foot p \<inter> (B \<union> entry_blocks t) = {}"
    "amqp_get_channel_pool t c = Some p \<Longrightarrow> amqp_get_channel_pool t d = Some q \<Longrightarrow> c \<noteq> d \<Longrightarrow> foot p \<inter> foot q = {}"
  using assms unfolding pools_inv_def by blast+

lemma pools_invI:
  assumes "table_inv t" "heap_inv h" "\<not> h_fault h" "distinct (map entry_channel (concat t))"
    "distinct (map entry_block (concat t))" "B \<inter> entry_blocks t = {}"
    "\<And>b. b \<in> B \<union> entry_blocks t \<Longrightarrow> h_live h b \<noteq> None"
    "\<And>c p. amqp_get_channel_pool t c = Some p \<Longrightarrow> pool_inv p h \<and> foot p \<inter> (B \<union> entry_blocks t) = {}"
    "\<And>c d p q. amqp_get_channel_pool t c = Some p \<Longrightarrow> amqp_get_channel_pool t d = Some q \<Longrightarrow> c \<noteq> d \<Longrightarrow>
      foot p \<inter> foot q = {}"
  shows "pools_inv t h B"
  using assms unfolding pools_inv_def by blast

text \<open>What is not of channel \<open>c\<close>.\<close>

definition others :: "pool_table \<Rightarrow> amqp_channel_t \<Rightarrow> nat set \<Rightarrow> nat set" where
  "others t c B = B \<union> entry_blocks t \<union> \<Union>{foot q | q d. d \<noteq> c \<and> amqp_get_channel_pool t d = Some q}"

lemma foot_live: "pool_inv p h \<Longrightarrow> b \<in> foot p \<Longrightarrow> h_live h b \<noteq> None"
  by (auto simp: pool_inv_def foot_def)

lemma foreign_others:
  assumes "pools_inv t h B" and "amqp_get_channel_pool t c = Some p"
  shows "foreign p h (others t c B)"
proof -
  have "b \<notin> foot p \<and> h_live h b \<noteq> None" if "b \<in> others t c B" for b
    using that pools_invD(7,9) [OF assms(1)] pools_invD(10) [OF assms(1) assms(2)] pools_invD(8) [OF assms(1)]
      foot_live assms(2) unfolding others_def by (auto simp: set_eq_iff; metis)
  then show ?thesis by (auto simp: foreign_def foot_def)
qed

lemma pool_inv_evolves:
  assumes "pool_inv p h" and "evolves h h'" and "heap_inv h'" and "\<And>b. b \<in> foot p \<Longrightarrow> h_live h' b \<noteq> None"
  shows "pool_inv p h'"
proof (rule pool_inv_heap_cong [OF assms(1,3)])
  fix b
  assume "b \<in> set (pool_blocks p) \<or> alloc_block p = Some b"
  then have b: "b \<in> foot p" by (auto simp: foot_def)
  then have "b < h_calls h"
    using foot_live [OF assms(1) b] assms(1) by (auto simp: pool_inv_def heap_inv_def not_less [symmetric])
  then show "h_live h' b = h_live h b"
    using assms(2) assms(4) [OF b] by (auto simp: evolves_def)
qed

lemma set_entry_blocks: "map entry_block (set_entry es c p) = map entry_block es"
    "map entry_channel (set_entry es c p) = map entry_channel es"
  by (induction es) auto

lemma map_concat_update:
  "i < length xss \<Longrightarrow> map f ys = map f (xss ! i) \<Longrightarrow> map f (concat (xss[i := ys])) = map f (concat xss)"
  by (induction xss arbitrary: i) (auto simp: nth_Cons split: nat.splits)

lemma set_channel_pool_entries:
  assumes "table_inv t"
  shows "map entry_block (concat (set_channel_pool t c p)) = map entry_block (concat t)"
    and "map entry_channel (concat (set_channel_pool t c p)) = map entry_channel (concat t)"
    and "entry_blocks (set_channel_pool t c p) = entry_blocks t"
proof -
  have i: "pool_index c < length t" using assms pool_index_less by (simp add: table_inv_def)
  show *: "map entry_block (concat (set_channel_pool t c p)) = map entry_block (concat t)"
    "map entry_channel (concat (set_channel_pool t c p)) = map entry_channel (concat t)"
    unfolding set_channel_pool_def by (rule map_concat_update [OF i set_entry_blocks(1)] map_concat_update [OF i set_entry_blocks(2)])+
  show "entry_blocks (set_channel_pool t c p) = entry_blocks t"
    using arg_cong [OF *(1), of set] by (simp add: entry_blocks_def)
qed

text \<open>Any work on one pool that respects the caller's blocks keeps the invariant of all of them.\<close>

lemma pools_inv_set:
  assumes inv: "pools_inv t h B" and c: "amqp_get_channel_pool t c = Some p"
    and p': "pool_inv p' h'" "\<not> h_fault h'" "foreign p' h' (others t c B)" and h': "evolves h h'"
  shows "pools_inv (set_channel_pool t c p') h' B"
proof -
  let ?t = "set_channel_pool t c p'"
  note t = pools_invD(1) [OF inv]
  have look: "amqp_get_channel_pool ?t = (amqp_get_channel_pool t)(c \<mapsto> p')"
    by (rule pool_table.put_look [OF t]) (simp add: c)
  have live: "h_live h' b \<noteq> None" "b \<notin> foot p'" if "b \<in> others t c B" for b
    using p'(3) that by (auto simp: foreign_def foot_def)
  have hinv: "heap_inv h'" using p'(1) by (simp add: pool_inv_def)
  have other: "pool_inv q h'" "foot q \<inter> foot p' = {}" if "d \<noteq> c" "amqp_get_channel_pool t d = Some q" for d q
  proof -
    have sub: "foot q \<subseteq> others t c B" using that by (auto simp: others_def)
    show "foot q \<inter> foot p' = {}" using sub live(2) by auto
    show "pool_inv q h'"
      by (rule pool_inv_evolves [OF pools_invD(8) [OF inv that(2)] h' hinv]) (use live(1) sub in blast)
  qed
  have base: "B \<union> entry_blocks t \<subseteq> others t c B" by (auto simp: others_def)
  note same = set_channel_pool_entries [OF t]
  have pools: "pool_inv q h' \<and> foot q \<inter> (B \<union> entry_blocks t) = {}"
    if "((amqp_get_channel_pool t)(c \<mapsto> p')) d = Some q" for d q
  proof (cases "d = c")
    case True
    then show ?thesis using that p'(1) live(2) base by auto
  next
    case False
    then show ?thesis using that other(1) pools_invD(9) [OF inv] by auto
  qed
  have apart: "foot q \<inter> foot q' = {}" if "((amqp_get_channel_pool t)(c \<mapsto> p')) d = Some q"
    "((amqp_get_channel_pool t)(c \<mapsto> p')) d' = Some q'" "d \<noteq> d'" for d d' q q'
    using that other(2) pools_invD(10) [OF inv, of d q d' q'] by (cases "d = c"; cases "d' = c") auto
  show ?thesis
  proof (rule pools_invI; (unfold same look)?)
    show "heap_inv h'" by (rule hinv)
    show "h_live h' b \<noteq> None" if "b \<in> B \<union> entry_blocks t" for b using that base live(1) by blast
  qed (use pools_invD(4-6) [OF inv] set_channel_pool_inv [OF t] p'(2) pools apart in blast)+
qed

definition on_pool :: "amqp_channel_t \<Rightarrow> (dstate, 'a) prog \<Rightarrow> (pool_table \<times> heap, 'a) prog" where
  "on_pool c m = (\<lambda>(t, h). case amqp_get_channel_pool t c of
       None \<Rightarrow> (Undefined, (t, h))
     | Some p \<Rightarrow> (case m \<lparr>offset = 0, dpool = p, dheap = h\<rparr> of
         (r, d) \<Rightarrow> (r, (set_channel_pool t c (dpool d), dheap d))))"

lemma pools_inv_on_pool:
  assumes inv: "pools_inv t h B" and c: "amqp_get_channel_pool t c = Some p" and m: "dkeeps m"
    and run: "m \<lparr>offset = 0, dpool = p, dheap = h\<rparr> = (r, d)" and d: "d_fail (others t c B) d"
  shows "pools_inv (set_channel_pool t c (dpool d)) (dheap d) B"
proof (rule pools_inv_set [OF inv c])
  show "evolves h (dheap d)" using m run by (metis dkeeps_def dstate.select_convs(3) snd_conv)
qed (use d in \<open>simp_all add: d_fail_def\<close>)

lemma d_fail_others:
  assumes "pools_inv t h B" and "amqp_get_channel_pool t c = Some p"
  shows "d_fail (others t c B) \<lparr>offset = k, dpool = p, dheap = h\<rparr>"
  using foreign_others [OF assms] pools_invD(3,8) [OF assms(1)] assms(2) by (auto simp: d_fail_def)

lemma pools_inv_heap:
  assumes "pools_inv t h B" and "heap_inv h'" and "\<not> h_fault h'" and "h_live h' = h_live h"
  shows "pools_inv t h' B"
  using assms pool_inv_heap_cong [of _ h h'] unfolding pools_inv_def by auto

lemma mset_concat_Cons: "i < length xss \<Longrightarrow> mset (concat (xss[i := y # xss ! i])) = add_mset y (mset (concat xss))"
  by (induction xss arbitrary: i) (auto simp: nth_Cons split: nat.splits)

lemma look_None:
  assumes "table_inv t" and "amqp_get_channel_pool t c = None"
  shows "c \<notin> entry_channel ` set (concat t)"
proof
  assume "c \<in> entry_channel ` set (concat t)"
  then obtain e es where e: "c = entry_channel e" "e \<in> set es" "es \<in> set t" by auto
  then obtain i where "i < POOL_TABLE_SIZE" "es = t ! i"
    using assms(1) by (auto simp: in_set_conv_nth table_inv_def)
  with e assms(1) have "es = t ! pool_index c" by (auto simp: table_inv_def)
  with e assms(2) show False by (auto simp: amqp_get_channel_pool_def find_entry_None)
qed

lemma pools_inv_create:
  assumes inv: "pools_inv t h B" and fm: "fm \<le> ptrdiff_max"
    and run: "amqp_get_or_create_channel_pool fm c t h = (r, t', h')"
  shows "pools_inv t' h' B" and "r = Some p \<Longrightarrow> amqp_get_channel_pool t' c = Some p"
proof -
  note t = pools_invD(1) [OF inv] and hinv = pools_invD(2) [OF inv]
  show "amqp_get_channel_pool t' c = Some p" if "r = Some p"
    using pool_table.look_after_make(1) [OF t] run that by blast
  show "pools_inv t' h' B"
  proof (cases "amqp_get_channel_pool t c")
    case (Some q)
    then show ?thesis using pool_table.make_found [OF Some, of fm h] run inv by simp
  next
    case None
    then have none: "find_entry (t ! pool_index c) c = None" by (simp add: amqp_get_channel_pool_def)
    obtain a h1 where m: "heap_malloc sizeof_pool_table_entry h = (a, h1)" by fastforce
    show ?thesis
    proof (cases a)
      case None': None
      then have "t' = t" "h' = h1"
        using run m none by (auto simp: amqp_get_or_create_channel_pool_def Let_def)
      then show ?thesis
        using pools_inv_heap [OF inv] heap_malloc_None [OF m [unfolded None'] hinv] pools_invD(3) [OF inv] by simp
    next
      case (Some b)
      let ?e = "\<lparr>entry_block = b, entry_pool = init_amqp_pool fm, entry_channel = c\<rparr>"
      have t': "t' = t[pool_index c := ?e # t ! pool_index c]" and h': "h' = h1" and "r = Some (init_amqp_pool fm)"
        using run m none Some by (auto simp: amqp_get_or_create_channel_pool_def Let_def)
      note h1 = heap_malloc_Some [OF m [unfolded Some] hinv]
      have i: "pool_index c < length t" using t pool_index_less by (simp add: table_inv_def)
      have ms: "mset (concat t') = add_mset ?e (mset (concat t))"
        unfolding t' by (rule mset_concat_Cons [OF i])
      have eb: "entry_blocks t' = insert b (entry_blocks t)"
        using arg_cong [OF ms, of set_mset] by (simp add: entry_blocks_def)
      have distinct: "distinct (map f (concat t')) \<longleftrightarrow> f ?e \<notin> f ` set (concat t) \<and> distinct (map f (concat t))" for f :: "_ \<Rightarrow> 'b"
        using mset_eq_imp_distinct_iff [of "map f (concat t')" "f ?e # map f (concat t)"] ms by simp
      have look: "amqp_get_channel_pool t' = (amqp_get_channel_pool t)(c \<mapsto> init_amqp_pool fm)"
        using pool_table.make_new [OF t None run] \<open>r = _\<close> by auto
      have fresh: "b \<notin> B \<union> entry_blocks t" "amqp_get_channel_pool t d = Some q \<Longrightarrow> b \<notin> foot q" for d q
        using pools_invD(7) [OF inv, of b] h1(3) foot_live [OF pools_invD(8) [OF inv, of d q], of b] by auto
      have "pool_inv q h1" if "amqp_get_channel_pool t d = Some q" for d q
        by (rule pool_inv_heap_cong [OF pools_invD(8) [OF inv that] h1(1)])
          (use fresh(2) [OF that] h1(4) in \<open>auto simp: foot_def\<close>)
      moreover have "pool_inv (init_amqp_pool fm) h1" by (rule pool_inv_init [OF h1(1) fm])
      moreover have "foot (init_amqp_pool fm) = {}"
        by (simp add: foot_def init_amqp_pool_def pool_blocks_def list_array_def empty_blocks_def)
      ultimately show ?thesis
        unfolding pools_inv_def distinct eb look h'
        using pool_table.make_inv [OF t run] h1 fresh pools_invD(3-7) [OF inv] look_None [OF t None]
          pools_invD(9) [OF inv] pools_invD(10) [OF inv]
        by (auto simp: entry_blocks_def split: if_splits)
    qed
  qed
qed

lemma foreign_sub:
  assumes "foreign p h B" and "foot p' \<subseteq> foot p" and "\<And>b. b \<notin> foot p \<Longrightarrow> h_live h' b = h_live h b"
  shows "foreign p' h' B"
  using assms by (fastforce simp: foreign_def foot_def)

text \<open>Recycling the pool of a channel.\<close>

lemma pools_inv_recycle:
  assumes inv: "pools_inv t h B" and c: "amqp_get_channel_pool t c = Some p"
    and run: "recycle_amqp_pool p h = (p', h')"
  shows "pools_inv (set_channel_pool t c p') h' B"
proof (rule pools_inv_set [OF inv c])
  note r = recycle_keeps_inv [OF pools_invD(8) [OF inv c] run]
  show "pool_inv p' h'" by (rule r)
  show "\<not> h_fault h'" using r pools_invD(3) [OF inv] by simp
  show "evolves h h'" using r by (auto simp: evolves_def restrict_map_def)
  show "foreign p' h' (others t c B)"
  proof (rule foreign_sub [OF foreign_others [OF inv c]])
    show "foot p' \<subseteq> foot p" using r by (auto simp: foot_def pool_blocks_def list_array_def empty_blocks_def)
    show "h_live h' b = h_live h b" if "b \<notin> foot p" for b
      using r that by (auto simp: foot_def pool_blocks_def restrict_map_def)
  qed
qed

section \<open>Destroying the table\<close>

text \<open>The loops of \<^verbatim>\<open>amqp_destroy_connection\<close> over the buckets and their entries.\<close>

fun destroy_entries :: "amqp_pool_table_entry_t list \<Rightarrow> heap \<Rightarrow> heap" where
  "destroy_entries [] h = h"
| "destroy_entries (entry # entries) h =
     destroy_entries entries (heap_free (Some (entry_block entry)) (snd (empty_amqp_pool (entry_pool entry) h)))"

definition destroy_pools :: "pool_table \<Rightarrow> heap \<Rightarrow> heap" where
  "destroy_pools t h = fold destroy_entries t h"

lemma destroy_entries_append: "destroy_entries (xs @ ys) h = destroy_entries ys (destroy_entries xs h)"
  by (induction xs arbitrary: h) simp_all

lemma destroy_pools_concat: "destroy_pools t h = destroy_entries (concat t) h"
  unfolding destroy_pools_def by (induction t arbitrary: h) (simp_all add: destroy_entries_append)

definition owned :: "amqp_pool_table_entry_t \<Rightarrow> nat set" where
  "owned e = insert (entry_block e) (set (pool_blocks (entry_pool e)))"

definition entries_inv :: "amqp_pool_table_entry_t list \<Rightarrow> heap \<Rightarrow> bool" where
  "entries_inv es h \<longleftrightarrow> heap_inv h \<and> distinct (map entry_block es) \<and> distinct es
     \<and> (\<forall>e \<in> set es. pool_inv (entry_pool e) h \<and> h_live h (entry_block e) \<noteq> None)
     \<and> (\<forall>e \<in> set es. \<forall>e' \<in> set es. entry_block e \<notin> foot (entry_pool e'))
     \<and> (\<forall>e \<in> set es. \<forall>e' \<in> set es. e \<noteq> e' \<longrightarrow> foot (entry_pool e) \<inter> foot (entry_pool e') = {})"

lemma destroy_entry:
  assumes "entries_inv (e # es) h" and "empty_amqp_pool (entry_pool e) h = (p, h1)"
  shows "h_live (heap_free (Some (entry_block e)) h1) = h_live h |` (- owned e)"
    and "h_fault (heap_free (Some (entry_block e)) h1) = h_fault h"
    and "entries_inv es (heap_free (Some (entry_block e)) h1)"
proof -
  let ?h = "heap_free (Some (entry_block e)) h1"
  from assms(1) have e: "pool_inv (entry_pool e) h" "h_live h (entry_block e) \<noteq> None"
    "entry_block e \<notin> foot (entry_pool e)" and hinv: "heap_inv h" and notin: "e \<notin> set es"
    "entry_block e \<notin> entry_block ` set es"
    by (simp_all add: entries_inv_def)
  note x = empty_pool_exact [OF e(1) assms(2)]
  have alive: "h_live h1 (entry_block e) \<noteq> None"
    using e x(5) by (auto simp: restrict_map_def foot_def)
  then show live: "h_live ?h = h_live h |` (- owned e)" and "h_fault ?h = h_fault h"
    using x by (auto simp: heap_free_def owned_def restrict_map_def fun_eq_iff)
  have calls: "h_calls ?h = h_calls h" using x(4) by (simp add: heap_free_def)
  have hinv': "heap_inv ?h" using hinv live calls by (auto simp: heap_inv_def restrict_map_def)
  show "entries_inv es ?h"
    unfolding entries_inv_def
  proof (intro conjI ballI impI)
    fix e'
    assume e': "e' \<in> set es"
    then have "e \<noteq> e'" using notin by auto
    with assms(1) e' have apart: "foot (entry_pool e') \<inter> foot (entry_pool e) = {}"
        "entry_block e \<notin> foot (entry_pool e')" "entry_block e' \<notin> foot (entry_pool e)"
      and ok: "pool_inv (entry_pool e') h" "h_live h (entry_block e') \<noteq> None"
      by (auto simp: entries_inv_def)
    have "entry_block e' \<noteq> entry_block e" using notin(2) e' by (metis image_eqI)
    with ok(2) apart(3) show "h_live ?h (entry_block e') \<noteq> None"
      by (auto simp: live restrict_map_def owned_def foot_def)
    show "pool_inv (entry_pool e') ?h"
      by (rule pool_inv_heap_cong [OF ok(1) hinv'])
        (use apart(1,2) in \<open>auto simp: live restrict_map_def owned_def foot_def\<close>)
  qed (use assms(1) hinv' in \<open>auto simp: entries_inv_def\<close>)
qed

lemma destroy_entries_exact:
  assumes "entries_inv es h"
  shows "h_live (destroy_entries es h) = h_live h |` (- \<Union>(owned ` set es)) \<and> h_fault (destroy_entries es h) = h_fault h"
  using assms
proof (induction es arbitrary: h)
  case (Cons e es)
  obtain p h1 where run: "empty_amqp_pool (entry_pool e) h = (p, h1)" by fastforce
  note d = destroy_entry [OF Cons.prems run]
  show ?case using Cons.IH [OF d(3)] d(1,2) run by (auto simp: restrict_map_def fun_eq_iff)
qed (simp add: restrict_map_def)

lemma find_entry_distinct:
  "distinct (map entry_channel es) \<Longrightarrow> e \<in> set es \<Longrightarrow> find_entry es (entry_channel e) = Some (entry_pool e)"
  by (induction es) (auto simp: image_iff)

lemma distinct_map_bucket: "distinct (map f (concat xss)) \<Longrightarrow> xs \<in> set xss \<Longrightarrow> distinct (map f xs)"
  by (induction xss) auto

lemma look_entry:
  assumes "table_inv t" and "distinct (map entry_channel (concat t))" and "e \<in> set (concat t)"
  shows "amqp_get_channel_pool t (entry_channel e) = Some (entry_pool e)"
proof -
  from assms(3) obtain es where es: "es \<in> set t" "e \<in> set es" by auto
  then obtain i where "i < length t" "es = t ! i" by (auto simp: in_set_conv_nth)
  with assms(1) es(2) have "es = t ! pool_index (entry_channel e)" by (simp add: table_inv_def)
  then show ?thesis
    using find_entry_distinct [OF distinct_map_bucket [OF assms(2) es(1)] es(2)]
    by (simp add: amqp_get_channel_pool_def)
qed

lemma pools_inv_entries:
  assumes "pools_inv t h B"
  shows "entries_inv (concat t) h"
proof -
  note d = pools_invD [OF assms]
  have channel: "entry_channel e \<noteq> entry_channel e'" if "e \<in> set (concat t)" "e' \<in> set (concat t)" "e \<noteq> e'" for e e'
    using d(4) that by (auto simp: distinct_map inj_on_def)
  have block: "entry_block e \<in> entry_blocks t" if "e \<in> set (concat t)" for e
    using that by (auto simp: entry_blocks_def)
  show ?thesis
    unfolding entries_inv_def
  proof (intro conjI ballI impI)
    fix e
    assume e: "e \<in> set (concat t)"
    note look = look_entry [OF d(1,4) e]
    show "pool_inv (entry_pool e) h" by (rule d(8) [OF look])
    show "h_live h (entry_block e) \<noteq> None" using d(7) block [OF e] by blast
    fix e'
    assume e': "e' \<in> set (concat t)"
    note look' = look_entry [OF d(1,4) e']
    show "entry_block e \<notin> foot (entry_pool e')" using d(9) [OF look'] block [OF e] by blast
    show "foot (entry_pool e) \<inter> foot (entry_pool e') = {}" if "e \<noteq> e'"
      by (rule d(10) [OF look look' channel [OF e e' that]])
  qed (use d(2,4,5) in \<open>auto simp: distinct_map\<close>)
qed

definition table_blocks :: "pool_table \<Rightarrow> nat set" where
  "table_blocks t = entry_blocks t \<union> \<Union>{set (pool_blocks p) | p c. amqp_get_channel_pool t c = Some p}"

lemma find_entry_in: "find_entry es c = Some p \<Longrightarrow> \<exists>e \<in> set es. entry_channel e = c \<and> entry_pool e = p"
  by (induction es) (auto split: if_splits)

lemma table_blocks_owned:
  assumes "table_inv t" and "distinct (map entry_channel (concat t))"
  shows "table_blocks t = \<Union>(owned ` set (concat t))"
proof -
  have "\<exists>e \<in> set (concat t). entry_pool e = p" if "amqp_get_channel_pool t c = Some p" for c p
    using find_entry_in that assms(1) pool_index_less [of c] nth_mem
    by (fastforce simp: amqp_get_channel_pool_def table_inv_def)
  then show ?thesis
    using look_entry [OF assms] by (fastforce simp: table_blocks_def owned_def entry_blocks_def)
qed

text \<open>
  Destroying the pool table frees every block of every pool and every entry, each exactly once, and
  nothing else; the connection's other blocks stay allocated.
\<close>

lemma destroy_pools_exact:
  assumes "pools_inv t h B"
  shows "h_live (destroy_pools t h) = h_live h |` (- table_blocks t)" and "\<not> h_fault (destroy_pools t h)"
    and "b \<in> B \<Longrightarrow> h_live (destroy_pools t h) b \<noteq> None"
proof -
  note d = pools_invD [OF assms]
  note x = destroy_entries_exact [OF pools_inv_entries [OF assms]]
  show live: "h_live (destroy_pools t h) = h_live h |` (- table_blocks t)"
    and "\<not> h_fault (destroy_pools t h)"
    using x d(3) by (simp_all add: destroy_pools_concat table_blocks_owned [OF d(1,4)])
  show "h_live (destroy_pools t h) b \<noteq> None" if "b \<in> B"
  proof -
    have "b \<notin> table_blocks t"
      using that d(6) d(9) unfolding table_blocks_def foot_def by blast
    then show ?thesis using live d(7) that by (auto simp: restrict_map_def)
  qed
qed

end
