(* ===== verification/Amqp_Time.thy ===== *)
theory Amqp_Time
  imports Amqp_Prelude
begin

text \<open>
  librabbitmq/amqp\_time.c: points in time and deadlines, as 64-bit counts of nanoseconds on the
  monotonic clock. The reading of the clock is an argument: \<open>now\<close> is what
  \<^verbatim>\<open>amqp_get_monotonic_timestamp\<close> returned, with 0 for a clock that failed. All arithmetic wraps as
  it does in C, and the conversions to \<^verbatim>\<open>int\<close> keep the low 32 bits.

  The lemmas give the exact deadline of a timeout, the precision of the remaining time, and the
  order in which a deadline expires; earliest deadlines form a semilattice with the infinite
  deadline as its neutral element. Two theorems show where the 64 and the 32 bits are too few.
\<close>

section \<open>Types and operations\<close>

record timeval =
  tv_sec :: int
  tv_usec :: int

record amqp_time_t =
  time_point_ns :: uint64

definition AMQP_NS_PER_S :: uint64 where "AMQP_NS_PER_S = 1000000000"
definition AMQP_NS_PER_MS :: uint64 where "AMQP_NS_PER_MS = 1000000"
definition AMQP_NS_PER_US :: uint64 where "AMQP_NS_PER_US = 1000"

lemmas ns_units = AMQP_NS_PER_S_def AMQP_NS_PER_MS_def AMQP_NS_PER_US_def

definition UINT64_MAX :: uint64 where "UINT64_MAX = - 1"

text \<open>The POSIX branch: the seconds and nanoseconds of \<^verbatim>\<open>clock_gettime\<close>, or its failure.\<close>

definition amqp_get_monotonic_timestamp :: "(int \<times> int) option \<Rightarrow> uint64" where
  "amqp_get_monotonic_timestamp tp = (case tp of
       None \<Rightarrow> 0
     | Some (sec, nsec) \<Rightarrow> word_of_int sec * AMQP_NS_PER_S + word_of_int nsec)"

definition amqp_time_infinite :: amqp_time_t where
  "amqp_time_infinite = \<lparr>time_point_ns = UINT64_MAX\<rparr>"

text \<open>A function with a status and an output writes the output in some of its failures, too.\<close>

definition add_delta :: "uint64 \<Rightarrow> uint64 \<Rightarrow> amqp_time_t \<Rightarrow> amqp_status_enum \<times> amqp_time_t" where
  "add_delta now_ns delta_ns time =
     (if now_ns = 0 then (AMQP_STATUS_TIMER_FAILURE, time)
      else let t = now_ns + delta_ns
        in (if now_ns > t \<or> delta_ns > t then AMQP_STATUS_INVALID_PARAMETER else AMQP_STATUS_OK,
            \<lparr>time_point_ns = t\<rparr>))"

definition amqp_time_from_now ::
  "uint64 \<Rightarrow> timeval option \<Rightarrow> amqp_time_t \<Rightarrow> amqp_status_enum \<times> amqp_time_t" where
  "amqp_time_from_now now_ns timeout time = (case timeout of
       None \<Rightarrow> (AMQP_STATUS_OK, amqp_time_infinite)
     | Some tv \<Rightarrow>
         if tv_sec tv < 0 \<or> tv_usec tv < 0 then (AMQP_STATUS_INVALID_PARAMETER, time)
         else add_delta now_ns
           (word_of_int (tv_sec tv) * AMQP_NS_PER_S + word_of_int (tv_usec tv) * AMQP_NS_PER_US) time)"

definition amqp_time_s_from_now ::
  "uint64 \<Rightarrow> int \<Rightarrow> amqp_time_t \<Rightarrow> amqp_status_enum \<times> amqp_time_t" where
  "amqp_time_s_from_now now_ns seconds time =
     (if 0 \<ge> seconds then (AMQP_STATUS_OK, amqp_time_infinite)
      else add_delta now_ns (word_of_int seconds * AMQP_NS_PER_S) time)"

definition to_c_int :: "uint64 \<Rightarrow> int" where
  "to_c_int w = sint (ucast w :: uint32)"

definition amqp_time_ms_until :: "uint64 \<Rightarrow> amqp_time_t \<Rightarrow> int" where
  "amqp_time_ms_until now_ns time =
     (if time_point_ns time = UINT64_MAX then - 1
      else if time_point_ns time = 0 then 0
      else if now_ns = 0 then status_code AMQP_STATUS_TIMER_FAILURE
      else if now_ns \<ge> time_point_ns time then 0
      else to_c_int ((time_point_ns time - now_ns) div AMQP_NS_PER_MS))"

text \<open>The output is the timeout for \<^verbatim>\<open>select\<close>: \<open>None\<close> is a null pointer, which waits forever.\<close>

definition amqp_time_tv_until :: "uint64 \<Rightarrow> amqp_time_t \<Rightarrow> timeval option outcome" where
  "amqp_time_tv_until now_ns time =
     (if time_point_ns time = UINT64_MAX then Ok None
      else if time_point_ns time = 0 then Ok (Some \<lparr>tv_sec = 0, tv_usec = 0\<rparr>)
      else if now_ns = 0 then Err AMQP_STATUS_TIMER_FAILURE
      else if now_ns \<ge> time_point_ns time then Ok (Some \<lparr>tv_sec = 0, tv_usec = 0\<rparr>)
      else let delta_ns = time_point_ns time - now_ns
        in Ok (Some \<lparr>tv_sec = to_c_int (delta_ns div AMQP_NS_PER_S),
          tv_usec = to_c_int ((delta_ns mod AMQP_NS_PER_S) div AMQP_NS_PER_US)\<rparr>))"

definition amqp_time_has_past :: "uint64 \<Rightarrow> amqp_time_t \<Rightarrow> amqp_status_enum" where
  "amqp_time_has_past now_ns time =
     (if time_point_ns time = UINT64_MAX then AMQP_STATUS_OK
      else if now_ns = 0 then AMQP_STATUS_TIMER_FAILURE
      else if now_ns > time_point_ns time then AMQP_STATUS_TIMEOUT
      else AMQP_STATUS_OK)"

definition amqp_time_first :: "amqp_time_t \<Rightarrow> amqp_time_t \<Rightarrow> amqp_time_t" where
  "amqp_time_first l r = (if time_point_ns l < time_point_ns r then l else r)"

definition amqp_time_equal :: "amqp_time_t \<Rightarrow> amqp_time_t \<Rightarrow> bool" where
  "amqp_time_equal l r \<longleftrightarrow> time_point_ns l = time_point_ns r"

section \<open>Deadlines\<close>

lemma uint_ns_units [simp]:
  "uint AMQP_NS_PER_S = 1000000000" "uint AMQP_NS_PER_MS = 1000000" "uint AMQP_NS_PER_US = 1000"
  by (simp_all add: ns_units)

text \<open>The two comparisons detect exactly the wrap-around of the sum.\<close>

lemma uint_add_no_wrap: "uint a + uint b < 2 ^ 64 \<Longrightarrow> uint (a + b :: uint64) = uint a + uint b"
  by (simp add: uint_word_ariths(1))

lemma mod_once: "(m :: int) \<le> x \<Longrightarrow> x < 2 * m \<Longrightarrow> x mod m = x - m"
  using minus_mod_self2 [of x m] mod_pos_pos_trivial [of "x - m" m] by simp

lemma wraps_iff: "(a :: uint64) > a + b \<or> b > a + b \<longleftrightarrow> 2 ^ 64 \<le> uint a + uint b"
proof (cases "uint a + uint b < 2 ^ 64")
  case True
  then have "uint (a + b) = uint a + uint b" by (rule uint_add_no_wrap)
  then show ?thesis using True uint_ge_0 [of a] uint_ge_0 [of b] unfolding word_less_def by linarith
next
  case False
  have a: "uint a < 2 ^ 64" and b: "uint b < 2 ^ 64" using uint_bounded [of a] uint_bounded [of b] by simp_all
  have "uint (a + b) = (uint a + uint b) mod 2 ^ 64" by (simp add: uint_word_ariths(1))
  also have "\<dots> = uint a + uint b - 2 ^ 64" by (rule mod_once) (use False a b in linarith)+
  finally show ?thesis using False a b unfolding word_less_def by linarith
qed

lemma add_delta_exact:
  assumes "now_ns \<noteq> 0"
  shows "fst (add_delta now_ns delta time) =
      (if uint now_ns + uint delta < 2 ^ 64 then AMQP_STATUS_OK else AMQP_STATUS_INVALID_PARAMETER)"
    and "uint now_ns + uint delta < 2 ^ 64 \<Longrightarrow>
      uint (time_point_ns (snd (add_delta now_ns delta time))) = uint now_ns + uint delta"
  using assms wraps_iff [of now_ns delta]
  by (auto simp: add_delta_def Let_def uint_add_no_wrap not_less)

definition timeval_ns :: "timeval \<Rightarrow> int" where
  "timeval_ns tv = tv_sec tv * 1000000000 + tv_usec tv * 1000"

lemma uint_delta:
  assumes "0 \<le> tv_sec tv" and "0 \<le> tv_usec tv" and "timeval_ns tv < 2 ^ 64"
  shows "uint (word_of_int (tv_sec tv) * AMQP_NS_PER_S + word_of_int (tv_usec tv) * AMQP_NS_PER_US :: uint64)
    = timeval_ns tv"
proof -
  have "(word_of_int (tv_sec tv) * AMQP_NS_PER_S + word_of_int (tv_usec tv) * AMQP_NS_PER_US :: uint64)
      = word_of_int (timeval_ns tv)"
    by (simp add: timeval_ns_def ns_units)
  also have "uint \<dots> = timeval_ns tv"
    unfolding uint_word_of_int using assms by (intro mod_pos_pos_trivial) (simp_all add: timeval_ns_def)
  finally show ?thesis .
qed

lemma time_from_now:
  assumes "timeval_ns tv < 2 ^ 64" and "0 \<le> tv_sec tv" and "0 \<le> tv_usec tv" and "now_ns \<noteq> 0"
  shows "fst (amqp_time_from_now now_ns (Some tv) t0) =
      (if uint now_ns + timeval_ns tv < 2 ^ 64 then AMQP_STATUS_OK else AMQP_STATUS_INVALID_PARAMETER)"
    and "uint now_ns + timeval_ns tv < 2 ^ 64 \<Longrightarrow>
      uint (time_point_ns (snd (amqp_time_from_now now_ns (Some tv) t0))) = uint now_ns + timeval_ns tv"
  using assms add_delta_exact [OF assms(4)] uint_delta [OF assms(2,3,1)]
  by (simp_all add: amqp_time_from_now_def)

text \<open>
  C30: A timeout of at most 64 bits of nanoseconds becomes a deadline exactly that far ahead, or is
  refused: when it is negative, when the clock fails, and when the deadline does not fit.
\<close>

theorem amqp_time_from_now_exact:
  assumes "timeval_ns tv < 2 ^ 64"
  shows "case amqp_time_from_now now_ns (Some tv) t0 of (status, t) \<Rightarrow>
    if tv_sec tv < 0 \<or> tv_usec tv < 0 then status = AMQP_STATUS_INVALID_PARAMETER \<and> t = t0
    else if now_ns = 0 then status = AMQP_STATUS_TIMER_FAILURE \<and> t = t0
    else if uint now_ns + timeval_ns tv < 2 ^ 64
      then status = AMQP_STATUS_OK \<and> uint (time_point_ns t) = uint now_ns + timeval_ns tv
      else status = AMQP_STATUS_INVALID_PARAMETER"
proof (cases "tv_sec tv < 0 \<or> tv_usec tv < 0 \<or> now_ns = 0")
  case True
  then show ?thesis by (auto simp: amqp_time_from_now_def add_delta_def)
next
  case False
  with time_from_now [OF assms, of now_ns t0] show ?thesis
    by (cases "amqp_time_from_now now_ns (Some tv) t0") simp
qed

theorem amqp_time_from_now_exact_witness:
  "case amqp_time_from_now 5 (Some \<lparr>tv_sec = 12, tv_usec = 7\<rparr>) amqp_time_infinite of (status, t) \<Rightarrow>
    status = AMQP_STATUS_OK \<and> uint (time_point_ns t) = 12000007005"
  using amqp_time_from_now_exact [of "\<lparr>tv_sec = 12, tv_usec = 7\<rparr>" amqp_time_infinite 5]
  by (simp add: timeval_ns_def split: prod.splits)

text \<open>
  The product of seconds and nanoseconds wraps before the sum is checked: a timeout of
  18446744074 seconds is accepted as a deadline less than a second ahead.
\<close>

theorem amqp_time_from_now_wraps:
  "amqp_time_from_now 1 (Some \<lparr>tv_sec = 18446744074, tv_usec = 0\<rparr>) t =
     (AMQP_STATUS_OK, \<lparr>time_point_ns = 290448385\<rparr>)"
  by (simp add: amqp_time_from_now_def add_delta_def ns_units Let_def)

section \<open>Time remaining\<close>

lemma to_c_int_small: "uint w < 2 ^ 31 \<Longrightarrow> to_c_int w = uint w"
proof -
  assume w: "uint w < 2 ^ 31"
  then have "uint (ucast w :: uint32) = uint w"
    by (simp add: unsigned_ucast_eq take_bit_int_eq_self)
  moreover have "signed_take_bit 31 (uint w) = uint w"
    by (rule signed_take_bit_int_eq_self) (use w uint_ge_0 [of w] in linarith)+
  ultimately show ?thesis by (simp add: to_c_int_def sint_uint)
qed

lemma uint_until:
  assumes "now_ns < t"
  shows "uint (t - now_ns :: uint64) = uint t - uint now_ns"
proof -
  have "uint t < 2 ^ 64" using uint_bounded [of t] by simp
  then have "(uint t - uint now_ns) mod 2 ^ 64 = uint t - uint now_ns"
    using assms uint_ge_0 [of now_ns] unfolding word_less_def by (intro mod_pos_pos_trivial; linarith)
  then show ?thesis by (simp add: uint_word_ariths(2))
qed

lemma quotient_bounds:
  fixes d k :: int
  assumes "0 \<le> d" and "0 < k"
  shows "0 \<le> d div k" and "d div k * k \<le> d" and "d < (d div k + 1) * k"
proof -
  have "d mod k < k" "0 \<le> d mod k" "d div k * k + d mod k = d" using assms by simp_all
  then show "d div k * k \<le> d" and "d < (d div k + 1) * k" unfolding distrib_right mult_1 by linarith+
qed (use assms in \<open>simp add: pos_imp_zdiv_nonneg_iff\<close>)

text \<open>
  C31: The milliseconds to a deadline less than $2^{31}$ milliseconds ahead, rounded down: waiting for them
  never passes the deadline and ends within a millisecond of it.
\<close>

theorem amqp_time_ms_until_precise:
  assumes "now_ns \<noteq> 0" and "now_ns < time_point_ns t" and "time_point_ns t \<noteq> UINT64_MAX"
    and "uint (time_point_ns t) - uint now_ns < 1000000 * 2 ^ 31"
  shows "0 \<le> amqp_time_ms_until now_ns t
    \<and> uint now_ns + amqp_time_ms_until now_ns t * 1000000 \<le> uint (time_point_ns t)
    \<and> uint (time_point_ns t) < uint now_ns + (amqp_time_ms_until now_ns t + 1) * 1000000"
proof -
  let ?d = "uint (time_point_ns t) - uint now_ns"
  have "uint ((time_point_ns t - now_ns) div AMQP_NS_PER_MS) = ?d div 1000000"
    by (simp add: uint_div uint_until [OF assms(2)])
  moreover from assms(4) have "?d div 1000000 < 2 ^ 31" by (simp add: div_less_iff_less_mult)
  moreover have "0 < time_point_ns t"
    by (rule le_less_trans [OF word_zero_le assms(2)])
  ultimately have "amqp_time_ms_until now_ns t = ?d div 1000000"
    using assms(1-3) by (simp add: amqp_time_ms_until_def to_c_int_small)
  moreover have "0 \<le> ?d" using assms(2) by (simp add: word_less_def)
  note quotient_bounds [OF this, of 1000000]
  ultimately show ?thesis by (simp add: algebra_simps)
qed

theorem amqp_time_ms_until_precise_witness:
  "0 \<le> amqp_time_ms_until 5 \<lparr>time_point_ns = 12000007005\<rparr>
    \<and> uint (5 :: uint64) + amqp_time_ms_until 5 \<lparr>time_point_ns = 12000007005\<rparr> * 1000000 \<le> 12000007005
    \<and> 12000007005 < uint (5 :: uint64) + (amqp_time_ms_until 5 \<lparr>time_point_ns = 12000007005\<rparr> + 1) * 1000000"
  using amqp_time_ms_until_precise [of 5 "\<lparr>time_point_ns = 12000007005\<rparr>"] by (simp add: UINT64_MAX_def)

text \<open>
  From $2^{31}$ milliseconds on, about 25 days, the remaining time becomes a negative number, which
  \<^verbatim>\<open>poll\<close> takes as an infinite timeout: the deadline is not kept.
\<close>

theorem amqp_time_ms_until_overflow:
  "amqp_time_ms_until 1 \<lparr>time_point_ns = 2147483648000001\<rparr> = - (2 ^ 31)"
  by (simp add: amqp_time_ms_until_def to_c_int_def ns_units UINT64_MAX_def word_le_def)

lemma timeval_split:
  fixes d :: int
  assumes "0 \<le> d"
  shows "0 \<le> d div 1000000000" "0 \<le> d mod 1000000000 div 1000" "d mod 1000000000 div 1000 < 1000000"
    "d div 1000000000 * 1000000000 + d mod 1000000000 div 1000 * 1000 \<le> d"
    "d < d div 1000000000 * 1000000000 + d mod 1000000000 div 1000 * 1000 + 1000"
proof -
  let ?r = "d mod 1000000000"
  have r: "0 \<le> ?r" "?r < 1000000000" by simp_all
  have d: "d div 1000000000 * 1000000000 + ?r = d" by (rule div_mult_mod_eq)
  note q = quotient_bounds [OF r(1), of 1000, simplified]
  show "0 \<le> d div 1000000000" using quotient_bounds(1) [OF assms, of 1000000000] by simp
  show "0 \<le> ?r div 1000" by (rule q)
  show "?r div 1000 < 1000000" using r(2) q(2) by linarith
  show "d div 1000000000 * 1000000000 + ?r div 1000 * 1000 \<le> d" using d q(2) by linarith
  show "d < d div 1000000000 * 1000000000 + ?r div 1000 * 1000 + 1000" using d q(3) by linarith
qed

text \<open>
  A deadline converted to a timeout for \<^verbatim>\<open>select\<close> and back at the same reading of the clock is the
  deadline rounded down to a microsecond of waiting.
\<close>

theorem amqp_time_tv_round_trip:
  assumes "now_ns \<noteq> 0" and "now_ns < time_point_ns t" and "time_point_ns t \<noteq> UINT64_MAX"
    and "uint (time_point_ns t) - uint now_ns < 1000000000 * 2 ^ 31"
  shows "\<exists>tv t'. amqp_time_tv_until now_ns t = Ok (Some tv) \<and> 0 \<le> tv_usec tv \<and> tv_usec tv < 1000000
    \<and> amqp_time_from_now now_ns (Some tv) t0 = (AMQP_STATUS_OK, t')
    \<and> uint (time_point_ns t') \<le> uint (time_point_ns t) \<and> uint (time_point_ns t) < uint (time_point_ns t') + 1000"
proof -
  let ?d = "uint (time_point_ns t) - uint now_ns"
  let ?tv = "\<lparr>tv_sec = ?d div 1000000000, tv_usec = ?d mod 1000000000 div 1000\<rparr>"
  have d: "0 \<le> ?d" using assms(2) by (simp add: word_less_def)
  have "?d div 1000000000 < 2 ^ 31" using assms(4) by (simp add: div_less_iff_less_mult)
  moreover note usec = timeval_split [OF d]
  moreover have "0 < time_point_ns t" by (rule le_less_trans [OF word_zero_le assms(2)])
  ultimately have tv: "amqp_time_tv_until now_ns t = Ok (Some ?tv)"
    using assms(1-3) by (simp add: amqp_time_tv_until_def to_c_int_small uint_div uint_mod uint_until Let_def)
  have le: "timeval_ns ?tv \<le> ?d" "?d < timeval_ns ?tv + 1000"
    using usec by (simp_all add: timeval_ns_def)
  have "uint (time_point_ns t) < 2 ^ 64" using uint_bounded [of "time_point_ns t"] by simp
  with le(1) uint_ge_0 [of now_ns] have fit: "timeval_ns ?tv < 2 ^ 64" "uint now_ns + timeval_ns ?tv < 2 ^ 64"
    by linarith+
  have "\<exists>t'. amqp_time_from_now now_ns (Some ?tv) t0 = (AMQP_STATUS_OK, t')
      \<and> uint (time_point_ns t') = uint now_ns + timeval_ns ?tv"
    using time_from_now [OF fit(1), of now_ns t0] fit(2) assms(1) usec(1,2)
    by (cases "amqp_time_from_now now_ns (Some ?tv) t0") simp
  then obtain t' where "amqp_time_from_now now_ns (Some ?tv) t0 = (AMQP_STATUS_OK, t')"
    "uint (time_point_ns t') = uint now_ns + timeval_ns ?tv" by blast
  with le usec(2,3) tv show ?thesis by (intro exI [of _ ?tv] exI [of _ t']) simp
qed

theorem amqp_time_tv_round_trip_witness:
  "\<exists>tv t'. amqp_time_tv_until 5 \<lparr>time_point_ns = 12000007005\<rparr> = Ok (Some tv) \<and> 0 \<le> tv_usec tv \<and> tv_usec tv < 1000000
    \<and> amqp_time_from_now 5 (Some tv) amqp_time_infinite = (AMQP_STATUS_OK, t')
    \<and> uint (time_point_ns t') \<le> 12000007005 \<and> 12000007005 < uint (time_point_ns t') + 1000"
  using amqp_time_tv_round_trip [of 5 "\<lparr>time_point_ns = 12000007005\<rparr>" amqp_time_infinite]
  by (simp add: UINT64_MAX_def)

section \<open>The earliest deadline\<close>

text \<open>
  Deadlines under \<^verbatim>\<open>amqp_time_first\<close> are a semilattice whose neutral element is the infinite deadline,
  so the loops that combine the caller's deadline with the heartbeat deadlines may do so in any order.
\<close>

interpretation time_first: semilattice_neutr amqp_time_first amqp_time_infinite
proof
  fix a b c
  show "amqp_time_first (amqp_time_first a b) c = amqp_time_first a (amqp_time_first b c)"
    by (auto simp: amqp_time_first_def)
  show "amqp_time_first a b = amqp_time_first b a"
    by (cases a, cases b) (auto simp: amqp_time_first_def)
  show "amqp_time_first a a = a" by (simp add: amqp_time_first_def)
  show "amqp_time_first a amqp_time_infinite = a"
  proof (cases "time_point_ns a = UINT64_MAX")
    case True
    then show ?thesis by (cases a) (simp add: amqp_time_first_def amqp_time_infinite_def)
  next
    case False
    then have "time_point_ns a < UINT64_MAX"
      using word_n1_ge [of "time_point_ns a"] by (simp add: UINT64_MAX_def less_le)
    then show ?thesis by (simp add: amqp_time_first_def amqp_time_infinite_def)
  qed
qed

text \<open>
  The earliest of several deadlines has passed exactly when one of them has, with a working clock,
  in whatever order they are combined.
\<close>

theorem earliest_deadline_passes:
  assumes "now_ns \<noteq> 0"
  shows "amqp_time_has_past now_ns (fold amqp_time_first ds amqp_time_infinite) = AMQP_STATUS_TIMEOUT
    \<longleftrightarrow> (\<exists>d \<in> set ds. amqp_time_has_past now_ns d = AMQP_STATUS_TIMEOUT)"
proof -
  have max: "\<not> UINT64_MAX < x" for x using word_n1_ge [of x] by (simp add: UINT64_MAX_def not_less)
  have past: "amqp_time_has_past now_ns d = AMQP_STATUS_TIMEOUT \<longleftrightarrow> time_point_ns d < now_ns" for d
    using assms max by (auto simp: amqp_time_has_past_def)
  have "amqp_time_has_past now_ns (fold amqp_time_first ds d) = AMQP_STATUS_TIMEOUT
      \<longleftrightarrow> amqp_time_has_past now_ns d = AMQP_STATUS_TIMEOUT \<or> (\<exists>e \<in> set ds. amqp_time_has_past now_ns e = AMQP_STATUS_TIMEOUT)" for d
    by (induction ds arbitrary: d) (auto simp: past amqp_time_first_def split: if_splits)
  then show ?thesis using max by (simp add: past amqp_time_infinite_def)
qed

theorem earliest_deadline_passes_witness:
  "amqp_time_has_past 7 (fold amqp_time_first [\<lparr>time_point_ns = 9\<rparr>, \<lparr>time_point_ns = 3\<rparr>] amqp_time_infinite)
    = AMQP_STATUS_TIMEOUT"
  using earliest_deadline_passes [of 7 "[\<lparr>time_point_ns = 9\<rparr>, \<lparr>time_point_ns = 3\<rparr>]"]
  by (simp add: amqp_time_has_past_def UINT64_MAX_def)

end
