(* ===== verification/Amqp_Connection.thy ===== *)
theory Amqp_Connection
  imports Amqp_Pools Amqp_Time
begin

text \<open>
  librabbitmq/amqp\_connection.c: the state of a connection, its creation, tuning and destruction,
  the state machine that assembles frames from the bytes of the socket, the frame encoder, and the
  release of buffers. Sending, which waits for the socket, is in \<open>Amqp_Socket\<close>.

  The inbound buffer is either the header buffer inside the connection, a block from the pool of a
  channel, or the null pointer a failed allocation left there. The bytes a buffer holds before they
  are written are unspecified and come from \<open>unspecified\<close>; an access outside a buffer is
  \<open>Undefined\<close>.
\<close>

section \<open>Frames and the state of a connection\<close>

datatype amqp_connection_state_enum =
    CONNECTION_STATE_IDLE | CONNECTION_STATE_INITIAL | CONNECTION_STATE_HEADER | CONNECTION_STATE_BODY

datatype amqp_payload_t =
    No_payload
  | Method amqp_method_number_t amqp_method_t
  | Properties uint16 uint64 amqp_properties_t "byte list"
  | Body_fragment "byte list"
  | Protocol_header uint8 uint8 uint8 uint8

text \<open>
  \<open>Method id decoded\<close>, \<open>Properties class_id body_size decoded raw\<close> and
  \<open>Protocol_header transport_high transport_low version_major version_minor\<close> are the structures of the
  union; the type of the frame says which one is meant.
\<close>

record amqp_frame_t =
  frame_type :: uint8
  frame_channel :: amqp_channel_t
  payload :: amqp_payload_t

definition HEADER_SIZE :: nat where "HEADER_SIZE = 7"
definition FOOTER_SIZE :: nat where "FOOTER_SIZE = 1"

definition AMQP_PSEUDOFRAME_PROTOCOL_HEADER :: uint8 where "AMQP_PSEUDOFRAME_PROTOCOL_HEADER = 0x41"

definition AMQP_INITIAL_FRAME_POOL_PAGE_SIZE :: int where "AMQP_INITIAL_FRAME_POOL_PAGE_SIZE = 65536"
definition AMQP_INITIAL_INBOUND_SOCK_BUFFER_SIZE :: nat where "AMQP_INITIAL_INBOUND_SOCK_BUFFER_SIZE = 131072"
definition AMQP_DEFAULT_LOGIN_TIMEOUT_SEC :: int where "AMQP_DEFAULT_LOGIN_TIMEOUT_SEC = 12"

lemmas frame_sizes [simp] = HEADER_SIZE_def FOOTER_SIZE_def

text \<open>The frame types as octets.\<close>

abbreviation FRAME_METHOD :: uint8 where "FRAME_METHOD \<equiv> 1"
abbreviation FRAME_HEADER :: uint8 where "FRAME_HEADER \<equiv> 2"
abbreviation FRAME_BODY :: uint8 where "FRAME_BODY \<equiv> 3"
abbreviation FRAME_HEARTBEAT :: uint8 where "FRAME_HEARTBEAT \<equiv> 8"
abbreviation FRAME_END :: uint8 where "FRAME_END \<equiv> 206"

datatype inbound = Header_buffer | Frame_buffer "byte list" | Null_buffer

text \<open>
  \<open>conn_block\<close> is the block of the structure itself. Of the outbound and the socket buffer the model
  keeps the block, the recorded length and the memory behind it. \<open>clock\<close> gives the readings of the
  clock in order; \<open>ticks\<close> counts them.
\<close>

record amqp_connection_state_t =
  conn_heap :: heap
  conn_block :: nat
  pool_table :: pool_table
  conn_state :: amqp_connection_state_enum
  channel_max :: int
  frame_max :: int
  heartbeat :: int
  next_recv_heartbeat :: amqp_time_t
  next_send_heartbeat :: amqp_time_t
  header_buffer :: "byte list"
  inbound_buffer :: inbound
  inbound_offset :: nat
  target_size :: nat
  outbound_block :: "nat option"
  outbound_len :: nat
  outbound_mem :: "byte list"
  sock_inbound_block :: "nat option"
  sock_inbound_buffer :: "byte list"
  sock_inbound_offset :: nat
  sock_inbound_limit :: nat
  first_queued_frame :: "amqp_frame_t list"
  properties_pool :: amqp_pool_t
  server_properties :: amqp_table_t
  client_properties :: amqp_table_t
  handshake_timeout :: "timeval option"
  rpc_timeout :: "timeval option"
  clock :: "nat \<Rightarrow> uint64"
  ticks :: nat

record unspecified =
  fresh_bytes :: "nat \<Rightarrow> byte"
  fresh_properties :: amqp_basic_properties_t

text \<open>Memory for examples.\<close>

definition sample_memory :: unspecified where
  "sample_memory = \<lparr>fresh_bytes = (\<lambda>i. 0), fresh_properties = sample_properties\<rparr>"

type_synonym 'a cprog = "(amqp_connection_state_t, 'a) prog"

text \<open>\<^verbatim>\<open>(size_t)\<close> of an \<^verbatim>\<open>int\<close>.\<close>

definition size_of_int :: "int \<Rightarrow> nat" where
  "size_of_int i = nat (i mod 2 ^ 64)"

section \<open>Heartbeats and tuning\<close>

definition amqp_heartbeat_send :: "amqp_connection_state_t \<Rightarrow> int" where
  "amqp_heartbeat_send st = heartbeat st"

definition amqp_heartbeat_recv :: "amqp_connection_state_t \<Rightarrow> int" where
  "amqp_heartbeat_recv st = 2 * heartbeat st"

definition read_clock :: "uint64 cprog" where
  "read_clock = (\<lambda>st. (Ok (clock st (ticks st)), st\<lparr>ticks := Suc (ticks st)\<rparr>))"

text \<open>\<^verbatim>\<open>amqp_time_s_from_now\<close> into a member of the state. A timeout of 0 does not read the clock.\<close>

definition set_deadline ::
  "((amqp_time_t \<Rightarrow> amqp_time_t) \<Rightarrow> amqp_connection_state_t \<Rightarrow> amqp_connection_state_t) \<Rightarrow>
   (amqp_connection_state_t \<Rightarrow> amqp_time_t) \<Rightarrow> int \<Rightarrow> unit cprog" where
  "set_deadline upd sel seconds = (\<lambda>st.
     if 0 \<ge> seconds then (Ok (), upd (\<lambda>_. snd (amqp_time_s_from_now 0 seconds (sel st))) st)
     else (case read_clock st of
         (_, st') \<Rightarrow>
           (case amqp_time_s_from_now (clock st (ticks st)) seconds (sel st) of
              (status, t) \<Rightarrow>
                (if status = AMQP_STATUS_OK then Ok () else Err status, upd (\<lambda>_. t) st'))))"

definition resize :: "unspecified \<Rightarrow> nat \<Rightarrow> byte list \<Rightarrow> byte list" where
  "resize u n bs = take n bs @ map (fresh_bytes u) [length bs..<n]"

text \<open>A connection that is not idle is a programming error: \<^verbatim>\<open>amqp_abort\<close>.\<close>

definition resize_outbound :: "unspecified \<Rightarrow> nat \<Rightarrow> unit cprog" where
  "resize_outbound u n = (\<lambda>st.
     case heap_realloc (outbound_block st) n (conn_heap st) of
       (None, h) \<Rightarrow> (Err AMQP_STATUS_NO_MEMORY, st\<lparr>outbound_len := n, conn_heap := h\<rparr>)
     | (Some b, h) \<Rightarrow>
         (Ok (), st\<lparr>outbound_len := n, conn_heap := h, outbound_block := Some b,
           outbound_mem := resize u n (outbound_mem st)\<rparr>))"

text \<open>The doubled interval is an \<^verbatim>\<open>int\<close>, too.\<close>

definition amqp_tune_connection :: "unspecified \<Rightarrow> int \<Rightarrow> int \<Rightarrow> int \<Rightarrow> unit cprog" where
  "amqp_tune_connection u chan_max fmax hb = (\<lambda>st.
     if conn_state st \<noteq> CONNECTION_STATE_IDLE then (Undefined, st)
     else
       let st1 = st\<lparr>channel_max := chan_max, frame_max := fmax, heartbeat := (if 0 > hb then 0 else hb)\<rparr> in
       bindP (set_deadline next_send_heartbeat_update next_send_heartbeat (amqp_heartbeat_send st1)) (\<lambda>_.
       bindP (if amqp_heartbeat_recv st1 \<ge> 2 ^ 31 then (\<lambda>st. (Undefined, st))
         else set_deadline next_recv_heartbeat_update next_recv_heartbeat (amqp_heartbeat_recv st1)) (\<lambda>_.
       resize_outbound u (size_of_int fmax))) st1)"

definition sizeof_connection :: nat where
  "sizeof_connection = 448"

text \<open>The structure that \<^verbatim>\<open>calloc\<close> returns: all zero.\<close>

definition zeroed_connection :: "(nat \<Rightarrow> uint64) \<Rightarrow> nat \<Rightarrow> heap \<Rightarrow> amqp_connection_state_t" where
  "zeroed_connection clk b h = \<lparr>
     conn_heap = h, conn_block = b, pool_table = replicate POOL_TABLE_SIZE [],
     conn_state = CONNECTION_STATE_IDLE, channel_max = 0, frame_max = 0, heartbeat = 0,
     next_recv_heartbeat = \<lparr>time_point_ns = 0\<rparr>, next_send_heartbeat = \<lparr>time_point_ns = 0\<rparr>,
     header_buffer = replicate (HEADER_SIZE + 1) 0, inbound_buffer = Null_buffer,
     inbound_offset = 0, target_size = 0, outbound_block = None, outbound_len = 0, outbound_mem = [],
     sock_inbound_block = None, sock_inbound_buffer = [], sock_inbound_offset = 0, sock_inbound_limit = 0,
     first_queued_frame = [], properties_pool = (init_amqp_pool 512)\<lparr>pagesize := 0\<rparr>, server_properties = [], client_properties = [],
     handshake_timeout = None, rpc_timeout = None, clock = clk, ticks = 0\<rparr>"

definition amqp_new_connection ::
  "unspecified \<Rightarrow> (nat \<Rightarrow> uint64) \<Rightarrow> heap \<Rightarrow> amqp_connection_state_t option \<times> heap" where
  "amqp_new_connection u clk h =
     (case heap_malloc sizeof_connection h of
        (None, h) \<Rightarrow> (None, h)
      | (Some b, h) \<Rightarrow>
          (case amqp_tune_connection u 0 AMQP_INITIAL_FRAME_POOL_PAGE_SIZE 0 (zeroed_connection clk b h) of
             (Ok _, st) \<Rightarrow>
               (case heap_malloc AMQP_INITIAL_INBOUND_SOCK_BUFFER_SIZE (conn_heap st) of
                  (None, h) \<Rightarrow> (None, heap_free (Some b) (heap_free None h))
                | (Some sb, h) \<Rightarrow>
                    (Some (st\<lparr>conn_heap := h, inbound_buffer := Header_buffer,
                       conn_state := CONNECTION_STATE_INITIAL, target_size := 8,
                       sock_inbound_block := Some sb,
                       sock_inbound_buffer := map (fresh_bytes u) [0..<AMQP_INITIAL_INBOUND_SOCK_BUFFER_SIZE],
                       properties_pool := init_amqp_pool 512,
                       handshake_timeout := Some \<lparr>tv_sec = AMQP_DEFAULT_LOGIN_TIMEOUT_SEC, tv_usec = 0\<rparr>\<rparr>), h))
           | (_, st) \<Rightarrow> (None, heap_free (Some b) (heap_free None (conn_heap st)))))"

text \<open>
  \<^verbatim>\<open>amqp_destroy_connection\<close> before and after it deletes the socket, for a connection that is there; the theory of the
  opening of sockets puts them together.
\<close>

definition destroy_buffers :: "amqp_connection_state_t \<Rightarrow> heap \<Rightarrow> heap" where
  "destroy_buffers st h =
     heap_free (sock_inbound_block st) (heap_free (outbound_block st) (destroy_pools (pool_table st) h))"

definition destroy_state :: "amqp_connection_state_t \<Rightarrow> heap \<Rightarrow> heap" where
  "destroy_state st h = heap_free (Some (conn_block st)) (snd (empty_amqp_pool (properties_pool st) h))"

definition amqp_get_channel_max :: "amqp_connection_state_t \<Rightarrow> int" where
  "amqp_get_channel_max st = channel_max st"

definition amqp_get_frame_max :: "amqp_connection_state_t \<Rightarrow> int" where
  "amqp_get_frame_max st = frame_max st"

definition amqp_get_heartbeat :: "amqp_connection_state_t \<Rightarrow> int" where
  "amqp_get_heartbeat st = heartbeat st"

section \<open>Assembling frames\<close>

definition return_to_idle :: "amqp_connection_state_t \<Rightarrow> amqp_connection_state_t" where
  "return_to_idle st = st\<lparr>inbound_buffer := Header_buffer, inbound_offset := 0,
     target_size := HEADER_SIZE, conn_state := CONNECTION_STATE_IDLE\<rparr>"

fun inbound_bytes :: "amqp_connection_state_t \<Rightarrow> inbound \<Rightarrow> byte list" where
  "inbound_bytes st Header_buffer = header_buffer st"
| "inbound_bytes st (Frame_buffer buf) = buf"
| "inbound_bytes st Null_buffer = []"

fun put_inbound :: "byte list \<Rightarrow> inbound \<Rightarrow> amqp_connection_state_t \<Rightarrow> amqp_connection_state_t" where
  "put_inbound bs Header_buffer st = st\<lparr>header_buffer := bs\<rparr>"
| "put_inbound bs (Frame_buffer _) st = st\<lparr>inbound_buffer := Frame_buffer bs\<rparr>"
| "put_inbound bs Null_buffer st = st"

text \<open>\<^verbatim>\<open>raw_frame\<close>: the memory the inbound buffer points to.\<close>

definition raw_frame :: "amqp_connection_state_t \<Rightarrow> byte list" where
  "raw_frame st = inbound_bytes st (inbound_buffer st)"

definition consume_data :: "byte list \<Rightarrow> (nat \<times> byte list) cprog" where
  "consume_data received_data = (\<lambda>st.
     let n = min (size_sub (target_size st) (inbound_offset st)) (length received_data)
     in case mem_write (inbound_offset st) (take n received_data) (raw_frame st) of
          None \<Rightarrow> (Undefined, st)
        | Some bs \<Rightarrow> (Ok (n, drop n received_data),
            put_inbound bs (inbound_buffer st) st\<lparr>inbound_offset := size_add (inbound_offset st) n\<rparr>))"

text \<open>\<^verbatim>\<open>amqp_d8(amqp_offset(raw_frame, k))\<close> and its relatives.\<close>

definition peek :: "nat \<Rightarrow> nat \<Rightarrow> (byte list \<Rightarrow> 'a) \<Rightarrow> 'a cprog" where
  "peek k n d = (\<lambda>st. case mem_read k n (raw_frame st) of
     None \<Rightarrow> (Undefined, st) | Some bs \<Rightarrow> (Ok (d bs), st))"

abbreviation "peek8 k \<equiv> peek k 1 (amqp_d8 host_is_big)"
abbreviation "peek16 k \<equiv> peek k 2 (amqp_d16 host_is_big)"
abbreviation "peek32 k \<equiv> peek k 4 (amqp_d32 host_is_big)"
abbreviation "peek64 k \<equiv> peek k 8 (amqp_d64 host_is_big)"

definition gets :: "(amqp_connection_state_t \<Rightarrow> 'a) \<Rightarrow> 'a cprog" where
  "gets f = (\<lambda>st. (Ok (f st), st))"

definition modify :: "(amqp_connection_state_t \<Rightarrow> amqp_connection_state_t) \<Rightarrow> unit cprog" where
  "modify f = (\<lambda>st. (Ok (), f st))"

definition channel_pool :: "amqp_channel_t \<Rightarrow> unit cprog" where
  "channel_pool c = (\<lambda>st.
     case amqp_get_or_create_channel_pool (size_of_int (frame_max st)) c (pool_table st) (conn_heap st) of
       (None, t, h) \<Rightarrow> (Err AMQP_STATUS_NO_MEMORY, st\<lparr>pool_table := t, conn_heap := h\<rparr>)
     | (Some _, t, h) \<Rightarrow> (Ok (), st\<lparr>pool_table := t, conn_heap := h\<rparr>))"

text \<open>A callee that gets the pool of a channel.\<close>

definition with_pool :: "amqp_channel_t \<Rightarrow> (dstate, 'a) prog \<Rightarrow> 'a cprog" where
  "with_pool c m = (\<lambda>st. case on_pool c m (pool_table st, conn_heap st) of
     (r, t, h) \<Rightarrow> (r, st\<lparr>pool_table := t, conn_heap := h\<rparr>))"

text \<open>The part of the frame from offset \<open>k\<close>, with the length computed as in the code.\<close>

definition payload_from :: "nat \<Rightarrow> amqp_connection_state_t \<Rightarrow> amqp_bytes_t" where
  "payload_from k st = \<lparr>len = size_sub (size_sub (target_size st) k) FOOTER_SIZE, bytes = drop k (raw_frame st)\<rparr>"

text \<open>The cases of the switch over the type of the frame.\<close>

definition method_frame :: "amqp_channel_t \<Rightarrow> amqp_frame_t cprog" where
  "method_frame channel =
     bindP (peek32 HEADER_SIZE) (\<lambda>id.
     bindP (gets (payload_from (HEADER_SIZE + 4))) (\<lambda>encoded.
     bindP (with_pool channel (amqp_decode_method id encoded)) (\<lambda>decoded.
     ret \<lparr>frame_type = FRAME_METHOD, frame_channel = channel, payload = Method id decoded\<rparr>)))"

definition header_frame :: "unspecified \<Rightarrow> amqp_channel_t \<Rightarrow> amqp_frame_t cprog" where
  "header_frame u channel =
     bindP (peek16 HEADER_SIZE) (\<lambda>class_id.
     bindP (peek64 (HEADER_SIZE + 4)) (\<lambda>body_size.
     bindP (gets (payload_from (HEADER_SIZE + 12))) (\<lambda>encoded.
     bindP (with_pool channel (amqp_decode_properties (fresh_properties u) class_id encoded)) (\<lambda>decoded.
     ret \<lparr>frame_type = FRAME_HEADER, frame_channel = channel,
       payload = Properties class_id body_size decoded (contents encoded)\<rparr>))))"

definition body_frame :: "amqp_channel_t \<Rightarrow> amqp_frame_t cprog" where
  "body_frame channel =
     bindP (gets (payload_from HEADER_SIZE)) (\<lambda>body.
     ret \<lparr>frame_type = FRAME_BODY, frame_channel = channel, payload = Body_fragment (contents body)\<rparr>)"

definition decode_frame :: "unspecified \<Rightarrow> uint8 \<Rightarrow> amqp_channel_t \<Rightarrow> amqp_frame_t cprog" where
  "decode_frame u ftype channel =
     (if ftype = FRAME_METHOD then method_frame channel
      else if ftype = FRAME_HEADER then header_frame u channel
      else if ftype = FRAME_BODY then body_frame channel
      else if ftype = FRAME_HEARTBEAT then
        ret \<lparr>frame_type = FRAME_HEARTBEAT, frame_channel = channel, payload = No_payload\<rparr>
      else ret \<lparr>frame_type = 0, frame_channel = channel, payload = No_payload\<rparr>)"

text \<open>\<^verbatim>\<open>case CONNECTION_STATE_BODY\<close>: the frame is complete.\<close>

definition finish_frame :: "unspecified \<Rightarrow> nat \<Rightarrow> (nat \<times> amqp_frame_t) cprog" where
  "finish_frame u bytes_consumed =
     bindP (gets target_size) (\<lambda>target.
     bindP (peek8 (size_sub target 1)) (\<lambda>footer.
     if footer \<noteq> FRAME_END then throw AMQP_STATUS_BAD_AMQP_DATA
     else
       bindP (peek8 0) (\<lambda>ftype.
       bindP (peek16 1) (\<lambda>channel.
       bindP (channel_pool channel) (\<lambda>_.
       bindP (decode_frame u ftype channel) (\<lambda>decoded_frame.
       bindP (modify return_to_idle) (\<lambda>_. ret (bytes_consumed, decoded_frame))))))))"

definition no_frame :: amqp_frame_t where
  "no_frame = \<lparr>frame_type = 0, frame_channel = 0, payload = No_payload\<rparr>"

definition INT32_MAX :: nat where "INT32_MAX = 2 ^ 31 - 1"

text \<open>
  \<^verbatim>\<open>case CONNECTION_STATE_HEADER\<close>: the frame header is complete. The frame gets a buffer from the
  pool of its channel, and the bytes that follow go there.
\<close>

definition allocate_frame :: "unspecified \<Rightarrow> unit cprog" where
  "allocate_frame u =
     bindP (peek16 1) (\<lambda>channel.
     bindP (peek32 3) (\<lambda>frame_size.
     if unat frame_size \<ge> INT32_MAX then throw AMQP_STATUS_BAD_AMQP_DATA
     else
       let target = unat frame_size + HEADER_SIZE + FOOTER_SIZE in
       bindP (modify (target_size_update (\<lambda>_. target))) (\<lambda>_.
       bindP (gets frame_max) (\<lambda>fm.
       if size_of_int fm < target then throw AMQP_STATUS_BAD_AMQP_DATA
       else
         bindP (channel_pool channel) (\<lambda>_.
         bindP (with_pool channel (pool_alloc target)) (\<lambda>block.
         case block of
           None \<Rightarrow> bindP (modify (inbound_buffer_update (\<lambda>_. Null_buffer))) (\<lambda>_. throw AMQP_STATUS_NO_MEMORY)
         | Some _ \<Rightarrow>
             modify (\<lambda>st. st\<lparr>inbound_buffer := Frame_buffer
               (take HEADER_SIZE (header_buffer st) @ map (fresh_bytes u) [HEADER_SIZE..<target]),
               conn_state := CONNECTION_STATE_BODY\<rparr>)))))))"

text \<open>Take more of the frame, and finish it when it is complete.\<close>

definition continue_frame :: "unspecified \<Rightarrow> byte list \<Rightarrow> nat \<Rightarrow> (nat \<times> amqp_frame_t) cprog" where
  "continue_frame u received_data bytes_consumed =
     bindP (consume_data received_data) (\<lambda>(more_consumed, _).
     bindP (gets (\<lambda>st. inbound_offset st < target_size st)) (\<lambda>incomplete.
     if incomplete then ret (bytes_consumed + more_consumed, no_frame)
     else finish_frame u (bytes_consumed + more_consumed)))"

definition begin_frame :: "unspecified \<Rightarrow> byte list \<Rightarrow> nat \<Rightarrow> (nat \<times> amqp_frame_t) cprog" where
  "begin_frame u received_data bytes_consumed =
     bindP (allocate_frame u) (\<lambda>_. continue_frame u received_data bytes_consumed)"

definition protocol_header :: "byte list \<Rightarrow> bool" where
  "protocol_header bs \<longleftrightarrow> take 4 bs = [0x41, 0x4D, 0x51, 0x50]"

definition protocol_frame :: "nat \<Rightarrow> (nat \<times> amqp_frame_t) cprog" where
  "protocol_frame bytes_consumed =
     bindP (peek8 4) (\<lambda>transport_high. bindP (peek8 5) (\<lambda>transport_low.
     bindP (peek8 6) (\<lambda>version_major. bindP (peek8 7) (\<lambda>version_minor.
     bindP (modify return_to_idle) (\<lambda>_.
     ret (bytes_consumed, \<lparr>frame_type = AMQP_PSEUDOFRAME_PROTOCOL_HEADER, frame_channel = 0,
       payload = Protocol_header transport_high transport_low version_major version_minor\<rparr>))))))"

definition amqp_handle_input :: "unspecified \<Rightarrow> byte list \<Rightarrow> (nat \<times> amqp_frame_t) cprog" where
  "amqp_handle_input u received_data =
     (if received_data = [] then ret (0, no_frame)
      else
        bindP (modify (\<lambda>st. if conn_state st = CONNECTION_STATE_IDLE then st\<lparr>conn_state := CONNECTION_STATE_HEADER\<rparr> else st)) (\<lambda>_.
        bindP (consume_data received_data) (\<lambda>(bytes_consumed, rest).
        bindP (gets (\<lambda>st. (inbound_offset st < target_size st, conn_state st, raw_frame st))) (\<lambda>(incomplete, state, raw).
        if incomplete then ret (bytes_consumed, no_frame)
        else case state of
          CONNECTION_STATE_INITIAL \<Rightarrow>
            if protocol_header raw then protocol_frame bytes_consumed else begin_frame u rest bytes_consumed
        | CONNECTION_STATE_HEADER \<Rightarrow> begin_frame u rest bytes_consumed
        | CONNECTION_STATE_BODY \<Rightarrow> finish_frame u bytes_consumed
        | CONNECTION_STATE_IDLE \<Rightarrow> (\<lambda>st. (Undefined, st))))))"

section \<open>Releasing buffers\<close>

definition amqp_release_buffers_ok :: "amqp_connection_state_t \<Rightarrow> bool" where
  "amqp_release_buffers_ok st \<longleftrightarrow> conn_state st = CONNECTION_STATE_IDLE"

definition amqp_maybe_release_buffers_on_channel :: "amqp_channel_t \<Rightarrow> amqp_connection_state_t \<Rightarrow> amqp_connection_state_t" where
  "amqp_maybe_release_buffers_on_channel channel st =
     (if conn_state st \<noteq> CONNECTION_STATE_IDLE then st
      else if channel \<in> frame_channel ` set (first_queued_frame st) then st
      else case amqp_get_channel_pool (pool_table st) channel of
          None \<Rightarrow> st
        | Some pool \<Rightarrow> (case recycle_amqp_pool pool (conn_heap st) of
            (pool', h) \<Rightarrow> st\<lparr>pool_table := set_channel_pool (pool_table st) channel pool', conn_heap := h\<rparr>))"

text \<open>The loop runs over the entries of the table; releasing changes pools, not the entries.\<close>

definition amqp_release_buffers :: "unit cprog" where
  "amqp_release_buffers = (\<lambda>st.
     if conn_state st \<noteq> CONNECTION_STATE_IDLE then (Undefined, st)
     else (Ok (), fold amqp_maybe_release_buffers_on_channel (map entry_channel (concat (pool_table st))) st))"

definition amqp_maybe_release_buffers :: "unit cprog" where
  "amqp_maybe_release_buffers = (\<lambda>st. if amqp_release_buffers_ok st then amqp_release_buffers st else (Ok (), st))"

section \<open>Encoding frames\<close>

text \<open>Stores into the outbound buffer; the caller gives the offset.\<close>

definition store :: "nat \<Rightarrow> byte list \<Rightarrow> byte list \<Rightarrow> byte list outcome" where
  "store k ws mem = (case mem_write k ws mem of None \<Rightarrow> Undefined | Some m \<Rightarrow> Ok m)"

fun bindO :: "'a outcome \<Rightarrow> ('a \<Rightarrow> 'b outcome) \<Rightarrow> 'b outcome" where
  "bindO (Ok x) f = f x"
| "bindO (Err e) f = Err e"
| "bindO Undefined f = Undefined"
| "bindO OutOfFuel f = OutOfFuel"

text \<open>An encoder that gets the buffer from offset \<open>k\<close> on, of the given length.\<close>

definition encode_at :: "nat \<Rightarrow> nat \<Rightarrow> (estate, nat) prog \<Rightarrow> byte list \<Rightarrow> (nat \<times> byte list) outcome" where
  "encode_at k n m mem =
     (if k > length mem then Undefined
      else case m \<lparr>e_len = n, e_mem = drop k mem, e_off = 0\<rparr> of
          (Ok res, s) \<Rightarrow> Ok (res, take k mem @ e_mem s)
        | (Err e, s) \<Rightarrow> Err e
        | (Undefined, s) \<Rightarrow> Undefined
        | (OutOfFuel, s) \<Rightarrow> OutOfFuel)"

definition frame_payload :: "amqp_frame_t \<Rightarrow> nat \<Rightarrow> byte list \<Rightarrow> (nat \<times> byte list) outcome" where
  "frame_payload frame buffer_len mem =
     (if frame_type frame = FRAME_BODY then
        (case payload frame of
           Body_fragment body \<Rightarrow> bindO (store HEADER_SIZE body mem) (\<lambda>mem. Ok (length body, mem))
         | _ \<Rightarrow> Undefined)
      else if frame_type frame = FRAME_METHOD then
        (case payload frame of
           Method mid decoded \<Rightarrow>
             bindO (store HEADER_SIZE (amqp_e32 host_is_big mid) mem) (\<lambda>mem.
             bindO (encode_at (HEADER_SIZE + 4) (size_sub (size_sub buffer_len (HEADER_SIZE + 4)) FOOTER_SIZE)
               (amqp_encode_method mid decoded) mem) (\<lambda>(res, mem). Ok (res + 4, mem)))
         | _ \<Rightarrow> Undefined)
      else if frame_type frame = FRAME_HEADER then
        (case payload frame of
           Properties class_id body_size decoded _ \<Rightarrow>
             bindO (store HEADER_SIZE (amqp_e16 host_is_big class_id) mem) (\<lambda>mem.
             bindO (store (HEADER_SIZE + 2) (amqp_e16 host_is_big 0) mem) (\<lambda>mem.
             bindO (store (HEADER_SIZE + 4) (amqp_e64 host_is_big body_size) mem) (\<lambda>mem.
             bindO (encode_at (HEADER_SIZE + 12) (size_sub (size_sub buffer_len (HEADER_SIZE + 12)) FOOTER_SIZE)
               (amqp_encode_properties class_id decoded) mem) (\<lambda>(res, mem). Ok (res + 12, mem)))))
         | _ \<Rightarrow> Undefined)
      else if frame_type frame = FRAME_HEARTBEAT then Ok (0, mem)
      else Err AMQP_STATUS_INVALID_PARAMETER)"

definition amqp_frame_to_bytes :: "amqp_frame_t \<Rightarrow> nat \<Rightarrow> byte list \<Rightarrow> (byte list \<times> byte list) outcome" where
  "amqp_frame_to_bytes frame buffer_len mem =
     bindO (store 0 (amqp_e8 host_is_big (frame_type frame)) mem) (\<lambda>mem.
     bindO (store 1 (amqp_e16 host_is_big (frame_channel frame)) mem) (\<lambda>mem.
     bindO (frame_payload frame buffer_len mem) (\<lambda>(out_frame_len, mem).
     bindO (store 3 (amqp_e32 host_is_big (of_nat out_frame_len)) mem) (\<lambda>mem.
     bindO (store (HEADER_SIZE + out_frame_len) (amqp_e8 host_is_big FRAME_END) mem) (\<lambda>mem.
     Ok (take (out_frame_len + HEADER_SIZE + FOOTER_SIZE) mem, mem))))))"

section \<open>Assembly of frames does not depend on how the bytes arrive\<close>

lemmas conn_defs = bindP_def ret_def throw_def gets_def modify_def

text \<open>The buffers and counters of a connection between two calls.\<close>

definition assembly_inv :: "amqp_connection_state_t \<Rightarrow> bool" where
  "assembly_inv st \<longleftrightarrow> length (header_buffer st) = HEADER_SIZE + 1 \<and>
     (case conn_state st of
        CONNECTION_STATE_IDLE \<Rightarrow> inbound_buffer st = Header_buffer \<and> inbound_offset st = 0 \<and> target_size st = HEADER_SIZE
      | CONNECTION_STATE_INITIAL \<Rightarrow> inbound_buffer st = Header_buffer \<and> inbound_offset st < 8 \<and> target_size st = 8
      | CONNECTION_STATE_HEADER \<Rightarrow>
          inbound_buffer st = Header_buffer \<and> inbound_offset st < HEADER_SIZE \<and> target_size st = HEADER_SIZE
      | CONNECTION_STATE_BODY \<Rightarrow>
          (\<exists>buf. inbound_buffer st = Frame_buffer buf \<and> length buf = target_size st)
          \<and> HEADER_SIZE \<le> inbound_offset st \<and> inbound_offset st < target_size st \<and> target_size st < 2 ^ 32)"

text \<open>A state that can take data: there is room for what is missing.\<close>

definition filling :: "amqp_connection_state_t \<Rightarrow> bool" where
  "filling st \<longleftrightarrow> inbound_offset st \<le> target_size st \<and> target_size st \<le> length (raw_frame st) \<and> target_size st < 2 ^ 32"

definition fill :: "byte list \<Rightarrow> amqp_connection_state_t \<Rightarrow> amqp_connection_state_t" where
  "fill ws st = put_inbound (take (inbound_offset st) (raw_frame st) @ ws
       @ drop (inbound_offset st + length ws) (raw_frame st)) (inbound_buffer st) st
     \<lparr>inbound_offset := inbound_offset st + length ws\<rparr>"

definition missing :: "amqp_connection_state_t \<Rightarrow> nat" where
  "missing st = target_size st - inbound_offset st"

lemma put_inbound_sel [simp]:
  "target_size (put_inbound bs i st) = target_size st" "conn_state (put_inbound bs i st) = conn_state st"
  "inbound_offset (put_inbound bs i st) = inbound_offset st" "frame_max (put_inbound bs i st) = frame_max st"
  "pool_table (put_inbound bs i st) = pool_table st" "conn_heap (put_inbound bs i st) = conn_heap st"
  by (cases i; simp)+

lemma fill_sel [simp]:
  "target_size (fill ws st) = target_size st" "conn_state (fill ws st) = conn_state st"
  "inbound_offset (fill ws st) = inbound_offset st + length ws" "frame_max (fill ws st) = frame_max st"
  "pool_table (fill ws st) = pool_table st" "conn_heap (fill ws st) = conn_heap st"
  by (simp_all add: fill_def)

lemma raw_frame_fill:
  assumes "inbound_buffer st \<noteq> Null_buffer"
  shows "raw_frame (fill ws st) = take (inbound_offset st) (raw_frame st) @ ws
    @ drop (inbound_offset st + length ws) (raw_frame st)"
  using assms by (cases "inbound_buffer st") (simp_all add: fill_def raw_frame_def)

lemma consume_data_run:
  assumes "filling st"
  shows "consume_data data st =
    (Ok (min (missing st) (length data), drop (missing st) data), fill (take (missing st) data) st)"
proof -
  have sub: "size_sub (target_size st) (inbound_offset st) = missing st"
    using assms by (simp add: filling_def missing_def)
  let ?n = "min (missing st) (length data)"
  have fits: "inbound_offset st + ?n \<le> target_size st"
    using assms by (auto simp: filling_def missing_def)
  moreover have "size_add (inbound_offset st) ?n = inbound_offset st + ?n"
    by (rule size_add_small) (use fits assms in \<open>simp add: filling_def\<close>)
  moreover have "take ?n data = take (missing st) data" "drop ?n data = drop (missing st) data"
    by (auto simp: min_def)
  ultimately show ?thesis
    using assms by (simp add: consume_data_def sub Let_def mem_write_def fill_def filling_def)
qed

lemma fill_fill:
  assumes "filling st" and "length ws \<le> missing st"
  shows "fill vs (fill ws st) = fill (ws @ vs) st"
proof (cases "inbound_buffer st")
  case Header_buffer
  then show ?thesis using assms
    by (simp add: fill_def raw_frame_def filling_def missing_def add.commute add.left_commute)
next
  case (Frame_buffer buf)
  then show ?thesis using assms
    by (simp add: fill_def raw_frame_def filling_def missing_def add.commute add.left_commute)
next
  case Null_buffer
  then show ?thesis using assms by (simp add: fill_def raw_frame_def)
qed

lemma filling_fill:
  assumes "filling st" and "length ws \<le> missing st"
  shows "filling (fill ws st)" and "missing (fill ws st) = missing st - length ws"
proof -
  have "length (raw_frame (fill ws st)) = length (raw_frame st)"
  proof (cases "inbound_buffer st = Null_buffer")
    case True
    then show ?thesis by (simp add: fill_def raw_frame_def)
  next
    case False
    then show ?thesis using assms by (simp add: raw_frame_fill filling_def missing_def) linarith
  qed
  then show "filling (fill ws st)" "missing (fill ws st) = missing st - length ws"
    using assms by (auto simp: filling_def missing_def)
qed

lemma bindP_simps:
  "bindP (ret x) k = k x" "bindP (throw e) k = throw e"
  "bindP (if b then m else m') k = (if b then bindP m k else bindP m' k)"
  "bindP (\<lambda>st. (Undefined, st)) k = (\<lambda>st. (Undefined, st))"
  by (auto simp: bindP_def ret_def throw_def)

definition advance :: "nat \<Rightarrow> (nat \<times> amqp_frame_t) cprog \<Rightarrow> (nat \<times> amqp_frame_t) cprog" where
  "advance k m = bindP m (\<lambda>(n, f). ret (k + n, f))"

lemma finish_frame_advance: "finish_frame u (k + c) = advance k (finish_frame u c)"
  unfolding advance_def finish_frame_def by (simp add: bindP_assoc bindP_simps cong: if_cong)

lemma advance_bind: "advance k (bindP m f) = bindP m (\<lambda>x. advance k (f x))"
  by (simp add: advance_def bindP_assoc)

lemma continue_frame_advance: "continue_frame u d (k + c) = advance k (continue_frame u d c)"
proof -
  have "(if b then ret (k + c + n, no_frame) else finish_frame u (k + c + n)) =
      advance k (if b then ret (c + n, no_frame) else finish_frame u (c + n))" for b n
    using finish_frame_advance [of u k "c + n"] by (simp add: advance_def bindP_simps add.assoc)
  then show ?thesis
    unfolding continue_frame_def by (simp add: advance_bind split_def)
qed

lemma begin_frame_advance: "begin_frame u d (k + c) = advance k (begin_frame u d c)"
  unfolding begin_frame_def by (simp add: advance_bind continue_frame_advance)

lemma continue_frame_run:
  assumes "filling st"
  shows "continue_frame u data c st =
    (if length data < missing st then (Ok (c + length data, no_frame), fill data st)
     else finish_frame u (c + missing st) (fill (take (missing st) data) st))"
  using consume_data_run [OF assms, of data] assms
  by (auto simp: continue_frame_def conn_defs filling_def missing_def min_def)

lemma continue_frame_split:
  assumes "filling st" and "length xs \<le> missing st"
  shows "continue_frame u (xs @ ys) c st = continue_frame u ys (c + length xs) (fill xs st)"
  using continue_frame_run [OF assms(1), of u "xs @ ys" c] fill_fill [OF assms]
    continue_frame_run [OF filling_fill(1) [OF assms], of u ys "c + length xs"] filling_fill(2) [OF assms] assms(2)
  by (auto simp: add.assoc)

lemma continue_frame_done:
  assumes "filling st" and "missing st \<le> length xs"
  shows "continue_frame u (xs @ ys) c st = continue_frame u xs c st"
  using continue_frame_run [OF assms(1), of u "xs @ ys" c] continue_frame_run [OF assms(1), of u xs c] assms(2)
  by simp

text \<open>What a call does once the data it waits for is there.\<close>

definition wake :: "amqp_connection_state_t \<Rightarrow> amqp_connection_state_t" where
  "wake st = (if conn_state st = CONNECTION_STATE_IDLE then st\<lparr>conn_state := CONNECTION_STATE_HEADER\<rparr> else st)"

definition complete :: "unspecified \<Rightarrow> byte list \<Rightarrow> nat \<Rightarrow> (nat \<times> amqp_frame_t) cprog" where
  "complete u rest c = (\<lambda>st. case conn_state st of
       CONNECTION_STATE_INITIAL \<Rightarrow>
         if protocol_header (raw_frame st) then protocol_frame c st else begin_frame u rest c st
     | CONNECTION_STATE_HEADER \<Rightarrow> begin_frame u rest c st
     | CONNECTION_STATE_BODY \<Rightarrow> finish_frame u c st
     | CONNECTION_STATE_IDLE \<Rightarrow> (Undefined, st))"

lemma protocol_frame_advance: "protocol_frame (k + c) = advance k (protocol_frame c)"
  unfolding advance_def protocol_frame_def by (simp add: bindP_assoc bindP_simps)

lemma advance_at:
  "advance k m st = (case m st of (Ok (n, f), s) \<Rightarrow> (Ok (k + n, f), s) | (Err e, s) \<Rightarrow> (Err e, s)
     | (Undefined, s) \<Rightarrow> (Undefined, s) | (OutOfFuel, s) \<Rightarrow> (OutOfFuel, s))"
  by (auto simp: advance_def bindP_def ret_def split: prod.splits outcome.splits)

lemma complete_advance: "complete u rest (k + c) st = advance k (complete u rest c) st"
  by (cases "conn_state st")
    (simp_all add: complete_def advance_at [where m = "complete u rest c"] protocol_frame_advance
      begin_frame_advance finish_frame_advance advance_at)

lemma wake_filling:
  assumes "assembly_inv st"
  shows "filling (wake st)" and "0 < missing (wake st)"
  using assms by (auto simp: assembly_inv_def filling_def missing_def wake_def raw_frame_def
      split: amqp_connection_state_enum.splits)

lemma handle_input_run:
  assumes "assembly_inv st" and "data \<noteq> []"
  shows "amqp_handle_input u data st =
    (if length data < missing (wake st) then (Ok (length data, no_frame), fill data (wake st))
     else complete u (drop (missing (wake st)) data) (missing (wake st)) (fill (take (missing (wake st)) data) (wake st)))"
proof -
  note f = wake_filling [OF assms(1)]
  have "amqp_handle_input u data st =
      (case consume_data data (wake st) of
         (Ok (n, rest), st') \<Rightarrow>
           if inbound_offset st' < target_size st' then (Ok (n, no_frame), st') else complete u rest n st'
       | (Err e, st') \<Rightarrow> (Err e, st') | (Undefined, st') \<Rightarrow> (Undefined, st') | (OutOfFuel, st') \<Rightarrow> (OutOfFuel, st'))"
    using assms(2)
    by (auto simp: amqp_handle_input_def complete_def wake_def conn_defs
        split: prod.splits outcome.splits amqp_connection_state_enum.splits)
  then show ?thesis
    using consume_data_run [OF f(1), of data] f by (auto simp: missing_def filling_def min_def)
qed

lemma channel_pool_frame:
  "channel_pool c st = (r, st') \<Longrightarrow> \<exists>t h. st' = st\<lparr>pool_table := t, conn_heap := h\<rparr>"
  by (auto simp: channel_pool_def split: prod.splits option.splits)

lemma with_pool_frame:
  "with_pool c m st = (r, st') \<Longrightarrow> \<exists>t h. st' = st\<lparr>pool_table := t, conn_heap := h\<rparr>"
  by (auto simp: with_pool_def split: prod.splits)

lemma peek_Ok: "peek k n d st = (Ok x, st') \<Longrightarrow> st' = st \<and> k + n \<le> length (raw_frame st) \<and> x = d (take n (drop k (raw_frame st)))"
  by (auto simp: peek_def mem_read_def split: option.splits if_splits)

lemma gets_Ok: "gets f st = (Ok x, st') \<Longrightarrow> st' = st \<and> x = f st"
  by (auto simp: gets_def)

lemma modify_Ok: "modify f st = (Ok x, st') \<Longrightarrow> st' = f st"
  by (simp add: modify_def)

lemma ret_Ok: "ret y st = (Ok x, st') \<Longrightarrow> st' = st \<and> x = y"
  by (simp add: ret_def)

lemmas ok_dests = peek_Ok gets_Ok modify_Ok ret_Ok

lemma allocate_frame_Ok:
  assumes "allocate_frame u st = (Ok x, st')" and "length (header_buffer st) = HEADER_SIZE + 1"
  shows "\<exists>buf. inbound_buffer st' = Frame_buffer buf \<and> length buf = target_size st'"
    and "conn_state st' = CONNECTION_STATE_BODY" and "header_buffer st' = header_buffer st"
    and "inbound_offset st' = inbound_offset st" and "HEADER_SIZE + 1 \<le> target_size st'" "target_size st' < 2 ^ 32"
  using assms unfolding allocate_frame_def Let_def
  by (auto elim!: bindP_OkE dest!: ok_dests channel_pool_frame with_pool_frame simp: INT32_MAX_def throw_def
      split: if_splits option.splits)

lemma finish_frame_Ok:
  assumes "finish_frame u c st = (Ok (n, f), st')" and "length (header_buffer st) = HEADER_SIZE + 1"
  shows "n = c" and "assembly_inv st'" and "conn_state st' = CONNECTION_STATE_IDLE"
  using assms unfolding finish_frame_def decode_frame_def method_frame_def header_frame_def body_frame_def
  by (auto elim!: bindP_OkE dest!: ok_dests channel_pool_frame with_pool_frame
      simp: return_to_idle_def assembly_inv_def throw_def split: if_splits)

lemma body_filling:
  assumes "conn_state st = CONNECTION_STATE_BODY" and "inbound_buffer st = Frame_buffer buf"
    and "length buf = target_size st" and "inbound_offset st \<le> target_size st" and "target_size st < 2 ^ 32"
  shows "filling st"
  using assms by (simp add: filling_def raw_frame_def)

lemma assembly_fill:
  assumes "assembly_inv st" and "length ws < missing (wake st)" and "ws \<noteq> []"
  shows "assembly_inv (fill ws (wake st))" and "conn_state (fill ws (wake st)) \<noteq> CONNECTION_STATE_IDLE"
  using assms
  by (auto simp: assembly_inv_def wake_def missing_def fill_def raw_frame_def
      split: amqp_connection_state_enum.splits)

lemma fill_header:
  assumes "assembly_inv st" and "length ws \<le> missing (wake st)"
  shows "length (header_buffer (fill ws (wake st))) = HEADER_SIZE + 1"
  using assms
  by (auto simp: assembly_inv_def wake_def missing_def fill_def raw_frame_def
      split: amqp_connection_state_enum.splits)

lemma handle_input_body:
  assumes "assembly_inv st" and "conn_state st = CONNECTION_STATE_BODY" and "data \<noteq> []"
  shows "amqp_handle_input u data st = continue_frame u data 0 st"
proof -
  have w: "wake st = st" using assms(2) by (simp add: wake_def)
  show ?thesis
    using handle_input_run [OF assms(1,3), of u] continue_frame_run [OF wake_filling(1) [OF assms(1)], of u data 0] assms(2) w
    by (simp add: complete_def)
qed

text \<open>
  A call either consumes all its data without completing a frame, and then the next data continues
  where it stopped, or what follows the data does not matter.
\<close>

definition unfinished :: "unspecified \<Rightarrow> byte list \<Rightarrow> amqp_connection_state_t \<Rightarrow> amqp_connection_state_t \<Rightarrow> bool" where
  "unfinished u xs st st' \<longleftrightarrow> amqp_handle_input u xs st = (Ok (length xs, no_frame), st') \<and> assembly_inv st'
     \<and> conn_state st' \<noteq> CONNECTION_STATE_IDLE
     \<and> (\<forall>ys. ys \<noteq> [] \<longrightarrow> amqp_handle_input u (xs @ ys) st = advance (length xs) (amqp_handle_input u ys) st')"

definition decided :: "unspecified \<Rightarrow> byte list \<Rightarrow> amqp_connection_state_t \<Rightarrow> bool" where
  "decided u xs st \<longleftrightarrow> (\<forall>ys. amqp_handle_input u (xs @ ys) st = amqp_handle_input u xs st)
     \<and> (\<forall>n f st'. amqp_handle_input u xs st = (Ok (n, f), st') \<longrightarrow>
          0 < n \<and> n \<le> length xs \<and> assembly_inv st' \<and> conn_state st' = CONNECTION_STATE_IDLE)"

lemma short_unfinished:
  assumes "assembly_inv st" and "xs \<noteq> []" and "length xs < missing (wake st)"
  shows "unfinished u xs st (fill xs (wake st))"
proof -
  let ?st = "fill xs (wake st)" and ?m = "missing (wake st)"
  note f = wake_filling [OF assms(1)] and a = assembly_fill [OF assms(1,3,2)]
  have w: "wake ?st = ?st" using a(2) by (simp add: wake_def)
  have m: "missing ?st = ?m - length xs" by (rule filling_fill) (use f assms in auto)
  have "amqp_handle_input u (xs @ ys) st = advance (length xs) (amqp_handle_input u ys) ?st" if "ys \<noteq> []" for ys
  proof -
    note run = handle_input_run [OF assms(1), of "xs @ ys" u] handle_input_run [OF a(1) that, of u]
    show ?thesis
    proof (cases "length xs + length ys < ?m")
      case True
      then have "length ys < ?m - length xs" by simp
      then show ?thesis
        using True run assms(2) w m fill_fill [OF f(1), of xs ys] assms(3) by (simp add: advance_at)
    next
      case False
      let ?k = "?m - length xs"
      let ?full = "fill (xs @ take ?k ys) (wake st)"
      from False have "amqp_handle_input u (xs @ ys) st = complete u (drop ?k ys) (length xs + ?k) ?full"
        using run(1) assms(2,3) by simp
      also have "\<dots> = advance (length xs) (complete u (drop ?k ys) ?k) ?full"
        by (rule complete_advance)
      also have "complete u (drop ?k ys) ?k ?full = amqp_handle_input u ys ?st"
        using run(2) w m False fill_fill [OF f(1), of xs "take ?k ys"] assms(3) by auto
      then have "advance (length xs) (complete u (drop ?k ys) ?k) ?full = advance (length xs) (amqp_handle_input u ys) ?st"
        by (simp add: advance_at)
      finally show ?thesis .
    qed
  qed
  then show ?thesis
    using handle_input_run [OF assms(1,2), of u] assms(3) a by (simp add: unfinished_def)
qed

lemma protocol_frame_Ok:
  assumes "protocol_frame c st = (Ok (n, f), st')" and "length (header_buffer st) = HEADER_SIZE + 1"
  shows "n = c" and "assembly_inv st'" and "conn_state st' = CONNECTION_STATE_IDLE"
  using assms unfolding protocol_frame_def
  by (auto elim!: bindP_OkE dest!: ok_dests simp: return_to_idle_def assembly_inv_def)

text \<open>The frame begins inside the data: its body may or may not end there.\<close>

lemma begin_unfinished_or_decided:
  assumes st: "length (header_buffer st) = HEADER_SIZE + 1" "HEADER_SIZE \<le> inbound_offset st" "inbound_offset st \<le> 8"
  shows "(\<exists>st'. begin_frame u xs c st = (Ok (c + length xs, no_frame), st') \<and> assembly_inv st'
      \<and> conn_state st' = CONNECTION_STATE_BODY
      \<and> (\<forall>ys. begin_frame u (xs @ ys) c st = continue_frame u ys (c + length xs) st'))
    \<or> (\<forall>ys. begin_frame u (xs @ ys) c st = begin_frame u xs c st)
      \<and> (\<forall>n f st'. begin_frame u xs c st = (Ok (n, f), st') \<longrightarrow>
          c \<le> n \<and> n \<le> c + length xs \<and> assembly_inv st' \<and> conn_state st' = CONNECTION_STATE_IDLE)"
proof (cases "fst (allocate_frame u st)")
  case (Ok x)
  then obtain s where alloc: "allocate_frame u st = (Ok x, s)" by (metis prod.collapse)
  note a = allocate_frame_Ok [OF alloc st(1)]
  from a(1) obtain buf where buf: "inbound_buffer s = Frame_buffer buf" "length buf = target_size s" by blast
  have f: "filling s" by (rule body_filling [OF a(2) buf]) (use a st in simp_all)
  have run: "begin_frame u zs c st = continue_frame u zs c s" for zs
    by (simp add: begin_frame_def alloc bindP_def)
  show ?thesis
  proof (cases "length xs < missing s")
    case True
    have "assembly_inv (fill xs s)"
      using a st buf True by (auto simp: assembly_inv_def fill_def raw_frame_def missing_def)
    then show ?thesis
      using continue_frame_run [OF f, of u xs c] True a(2) continue_frame_split [OF f, of xs u _ c] by (auto simp: run)
  next
    case False
    have "n = c + missing s \<and> assembly_inv st' \<and> conn_state st' = CONNECTION_STATE_IDLE"
      if "continue_frame u xs c s = (Ok (n, f'), st')" for n f' st'
    proof -
      let ?s = "fill (take (missing s) xs) s"
      have "header_buffer ?s = header_buffer s" by (simp add: fill_def buf(1))
      with that False finish_frame_Ok [of u "c + missing s" ?s n f' st'] a(3) st(1) show ?thesis
        by (simp add: continue_frame_run [OF f])
    qed
    then show ?thesis using False continue_frame_done [OF f, of xs u _ c] by (auto simp: run)
  qed
qed (auto simp: begin_frame_def bindP_def split: prod.splits)

lemma decidedI:
  assumes "\<And>ys. amqp_handle_input u (xs @ ys) st = m"
    and "\<And>n f st'. m = (Ok (n, f), st') \<Longrightarrow>
      0 < n \<and> n \<le> length xs \<and> assembly_inv st' \<and> conn_state st' = CONNECTION_STATE_IDLE"
  shows "decided u xs st"
proof -
  have "amqp_handle_input u xs st = m" using assms(1) [of "[]"] by simp
  with assms show ?thesis by (simp add: decided_def)
qed

lemma begun_frame:
  assumes run: "\<And>ys. amqp_handle_input u (xs @ ys) st = begin_frame u (r @ ys) m s"
    and xs: "xs = p @ r" "m = length p" "0 < m"
    and s: "length (header_buffer s) = HEADER_SIZE + 1" "inbound_offset s \<in> {7, 8}"
  shows "(\<exists>st'. unfinished u xs st st') \<or> decided u xs st"
proof -
  have off: "HEADER_SIZE \<le> inbound_offset s" "inbound_offset s \<le> 8" using s(2) by auto
  have run0: "amqp_handle_input u xs st = begin_frame u r m s" using run [of "[]"] by simp
  have total: "m + length r = length xs" using xs by simp
  from begin_unfinished_or_decided [OF s(1) off, of u r m] show ?thesis
  proof (elim disjE exE conjE)
    fix st'
    assume b: "begin_frame u r m s = (Ok (m + length r, no_frame), st')" "assembly_inv st'"
      "conn_state st' = CONNECTION_STATE_BODY"
      and more: "\<forall>ys. begin_frame u (r @ ys) m s = continue_frame u ys (m + length r) st'"
    have "amqp_handle_input u (xs @ ys) st = advance (length xs) (amqp_handle_input u ys) st'" if "ys \<noteq> []" for ys
    proof -
      have "amqp_handle_input u (xs @ ys) st = continue_frame u ys (length xs + 0) st'"
        using run more total by simp
      also have "\<dots> = advance (length xs) (continue_frame u ys 0) st'" by (simp only: continue_frame_advance)
      finally show ?thesis using handle_input_body [OF b(2,3) that, of u] by (simp add: advance_at)
    qed
    with b run0 total have "unfinished u xs st st'" by (simp add: unfinished_def)
    then show ?thesis by blast
  next
    assume same: "\<forall>ys. begin_frame u (r @ ys) m s = begin_frame u r m s"
      and ok: "\<forall>n f st'. begin_frame u r m s = (Ok (n, f), st') \<longrightarrow>
        m \<le> n \<and> n \<le> m + length r \<and> assembly_inv st' \<and> conn_state st' = CONNECTION_STATE_IDLE"
    have "amqp_handle_input u (xs @ ys) st = begin_frame u r m s" for ys using run same by simp
    then have "decided u xs st"
    proof (rule decidedI)
      fix n f st'
      assume "begin_frame u r m s = (Ok (n, f), st')"
      with ok have "m \<le> n \<and> n \<le> m + length r \<and> assembly_inv st' \<and> conn_state st' = CONNECTION_STATE_IDLE" by blast
      with xs(3) total show "0 < n \<and> n \<le> length xs \<and> assembly_inv st' \<and> conn_state st' = CONNECTION_STATE_IDLE"
        by linarith
    qed
    then show ?thesis by blast
  qed
qed

lemma long_unfinished_or_decided:
  assumes inv: "assembly_inv st" and len: "missing (wake st) \<le> length xs"
  shows "(\<exists>st'. unfinished u xs st st') \<or> decided u xs st"
proof -
  let ?m = "missing (wake st)"
  let ?s = "fill (take ?m xs) (wake st)" and ?r = "drop ?m xs"
  note f = wake_filling [OF inv]
  have run: "amqp_handle_input u (xs @ ys) st = complete u (?r @ ys) ?m ?s" for ys
    using handle_input_run [OF inv, of "xs @ ys" u] len f(2) by (cases "xs = []") simp_all
  have hb: "length (header_buffer ?s) = HEADER_SIZE + 1" by (rule fill_header [OF inv]) simp
  have off: "inbound_offset ?s = target_size (wake st)" using f len by (simp add: filling_def missing_def)
  have state: "conn_state ?s = conn_state (wake st)" by simp
  have opened: ?thesis if "\<And>ys. complete u (?r @ ys) ?m ?s = begin_frame u (?r @ ys) ?m ?s" "target_size (wake st) \<in> {7, 8}"
    by (rule begun_frame [where p = "take ?m xs", OF run [unfolded that(1)]]) (use len f(2) hb off that(2) in auto)
  have closed: ?thesis if "\<And>ys. complete u (?r @ ys) ?m ?s = m ?s"
    "\<And>n f st'. m ?s = (Ok (n, f), st') \<Longrightarrow> n = ?m \<and> assembly_inv st' \<and> conn_state st' = CONNECTION_STATE_IDLE" for m
    by (intro disjI2 decidedI [OF run [unfolded that(1)]]) (use that(2) len f(2) in blast)
  show ?thesis
  proof (cases "conn_state ?s")
    case CONNECTION_STATE_IDLE
    then show ?thesis unfolding state by (simp add: wake_def split: if_splits)
  next
    case CONNECTION_STATE_INITIAL
    show ?thesis
    proof (cases "protocol_header (raw_frame ?s)")
      case True
      show ?thesis
        by (rule closed [of "protocol_frame ?m"])
          (use True CONNECTION_STATE_INITIAL protocol_frame_Ok [OF _ hb, of ?m] in \<open>simp_all add: complete_def\<close>)
    next
      case False
      have "target_size (wake st) \<in> {7, 8}"
        using inv state CONNECTION_STATE_INITIAL by (auto simp: assembly_inv_def wake_def split: if_splits)
      with False CONNECTION_STATE_INITIAL show ?thesis by (intro opened) (simp_all add: complete_def)
    qed
  next
    case CONNECTION_STATE_HEADER
    have "target_size (wake st) \<in> {7, 8}"
      using inv state CONNECTION_STATE_HEADER by (auto simp: assembly_inv_def wake_def split: if_splits)
    with CONNECTION_STATE_HEADER show ?thesis by (intro opened) (simp_all add: complete_def)
  next
    case CONNECTION_STATE_BODY
    show ?thesis
      by (rule closed [of "finish_frame u ?m"])
        (use CONNECTION_STATE_BODY finish_frame_Ok [OF _ hb, of u ?m] in \<open>simp_all add: complete_def\<close>)
  qed
qed

lemma handle_input_cases:
  assumes "assembly_inv st" and "xs \<noteq> []"
  obtains (unfinished) st' where "unfinished u xs st st'" | (decided) "decided u xs st"
  using short_unfinished [OF assms] long_unfinished_or_decided [OF assms(1), of xs u] by (meson not_le)

text \<open>
  Feeding a connection all of some data, as the receiving loops of the library do: call after call,
  each with what the previous one left, collecting the frames.
\<close>

fun feed :: "unspecified \<Rightarrow> nat \<Rightarrow> byte list \<Rightarrow> amqp_frame_t list cprog" where
  "feed u 0 data = ret []"
| "feed u (Suc fuel) data =
     (if data = [] then ret []
      else bindP (amqp_handle_input u data) (\<lambda>(n, f).
        bindP (feed u fuel (drop n data)) (\<lambda>fs.
          ret (if frame_type f \<noteq> 0 then f # fs else fs))))"

definition receive :: "unspecified \<Rightarrow> byte list \<Rightarrow> amqp_frame_t list cprog" where
  "receive u data = feed u (length data) data"

lemma feed_Nil [simp]: "feed u k [] = ret []"
  by (cases k) simp_all

lemma receive_Nil [simp]: "receive u [] = ret []"
  by (simp add: receive_def)

lemma handle_input_progress:
  assumes "assembly_inv st" and "xs \<noteq> []" and "amqp_handle_input u xs st = (Ok (n, f), st')"
  shows "0 < n" and "n \<le> length xs" and "assembly_inv st'"
  using assms(3) by (cases rule: handle_input_cases [OF assms(1,2), of u]; auto simp: unfinished_def decided_def assms(2))+

lemma feed_enough:
  assumes "assembly_inv st" and "length data \<le> k"
  shows "feed u k data st = receive u data st"
  using assms
proof (induction "length data" arbitrary: data k st rule: less_induct)
  case less
  show ?case
  proof (cases data)
    case (Cons b bs)
    then obtain j where k: "k = Suc j" using less.prems(2) by (cases k) auto
    have "feed u j (drop n data) st' = feed u (length bs) (drop n data) st'"
      if "amqp_handle_input u data st = (Ok (n, f), st')" for n f st'
    proof -
      note p = handle_input_progress [OF less.prems(1) _ that]
      have n: "0 < n" "n \<le> length data" "assembly_inv st'" using p Cons by auto
      then have "length (drop n data) < length data" by simp
      from less.hyps [OF this n(3)] show ?thesis using n less.prems(2) k Cons by simp
    qed
    then show ?thesis
      using Cons k by (auto simp: receive_def bindP_def split: prod.splits outcome.splits)
  qed simp
qed

lemma receive_step:
  assumes "assembly_inv st" and "xs \<noteq> []"
  shows "receive u xs st = bindP (amqp_handle_input u xs) (\<lambda>(n, f).
    bindP (receive u (drop n xs)) (\<lambda>fs. ret (if frame_type f \<noteq> 0 then f # fs else fs))) st"
proof -
  obtain k where k: "length xs = Suc k" using assms(2) by (cases xs) auto
  have "feed u k (drop n xs) st' = receive u (drop n xs) st'"
    if "amqp_handle_input u xs st = (Ok (n, f), st')" for n f st'
    using handle_input_progress [OF assms that] k by (intro feed_enough) auto
  then show ?thesis
    using assms(2) k by (auto simp: receive_def [of u xs] bindP_def split: prod.splits outcome.splits)
qed

lemma receive_append:
  assumes "assembly_inv st"
  shows "receive u (xs @ ys) st =
    bindP (receive u xs) (\<lambda>fs. bindP (receive u ys) (\<lambda>gs. ret (fs @ gs))) st"
  using assms
proof (induction "length xs" arbitrary: xs st rule: less_induct)
  case less
  have nil: "bindP m (\<lambda>gs. ret gs) = m" for m :: "amqp_frame_t list cprog"
    by (auto simp: bindP_def ret_def fun_eq_iff split: prod.splits outcome.splits)
  show ?case
  proof (cases "xs = [] \<or> ys = []")
    case True
    then show ?thesis using nil by (auto simp: bindP_simps)
  next
    case False
    then have ne: "xs \<noteq> []" "ys \<noteq> []" by auto
    note step = receive_step [OF less.prems]
    consider (unfinished) st' where "unfinished u xs st st'" | (decided) "decided u xs st"
      by (rule handle_input_cases [OF less.prems ne(1)])
    then show ?thesis
    proof cases
      case (unfinished st')
      then have xs: "amqp_handle_input u xs st = (Ok (length xs, no_frame), st')" and inv': "assembly_inv st'"
        and more: "amqp_handle_input u (xs @ ys) st = advance (length xs) (amqp_handle_input u ys) st'"
        using ne by (auto simp: unfinished_def)
      have "receive u xs st = (Ok [], st')"
        using step [of xs u] ne xs by (simp add: bindP_def ret_def no_frame_def)
      moreover have "receive u (xs @ ys) st = receive u ys st'"
        using step [of "xs @ ys" u] receive_step [OF inv' ne(2), of u] ne more
        by (auto simp: advance_at bindP_def split: prod.splits outcome.splits)
      ultimately show ?thesis using nil [of "receive u ys"] by (simp add: bindP_Ok)
    next
      case decided
      then have same: "amqp_handle_input u (xs @ ys) st = amqp_handle_input u xs st" by (simp add: decided_def)
      have ih: "receive u (drop n xs @ ys) st' =
          bindP (receive u (drop n xs)) (\<lambda>fs. bindP (receive u ys) (\<lambda>gs. ret (fs @ gs))) st'"
        and n: "drop n (xs @ ys) = drop n xs @ ys"
        if "amqp_handle_input u xs st = (Ok (n, f), st')" for n f st'
        using handle_input_progress [OF less.prems ne(1) that] less.hyps [of "drop n xs" st'] by auto
      obtain r s where run: "amqp_handle_input u xs st = (r, s)" by fastforce
      show ?thesis
      proof (cases r)
        case (Ok p)
        obtain n f where p: "p = (n, f)" by fastforce
        show ?thesis
          using step [of "xs @ ys" u] step [of xs u] ne same run Ok p ih [of n f s] n [of n f s]
          by (auto simp: bindP_def ret_def split: prod.splits outcome.splits)
      qed (use step [of "xs @ ys" u] step [of xs u] ne same run in \<open>auto simp: bindP_def\<close>)
    qed
  qed
qed

text \<open>
  C15: However a stream of bytes is cut into pieces, the connection assembles the same frames and ends in
  the same state, with the same error if there is one.
\<close>

theorem assembly_chunking:
  assumes "assembly_inv st"
  shows "receive u (xs @ ys) st =
    bindP (receive u xs) (\<lambda>fs. bindP (receive u ys) (\<lambda>gs. ret (fs @ gs))) st"
  by (rule receive_append [OF assms])

definition sample_waiting :: amqp_connection_state_t where
  "sample_waiting = (zeroed_connection (\<lambda>_. 1) 0 fresh_heap)
     \<lparr>inbound_buffer := Header_buffer, conn_state := CONNECTION_STATE_INITIAL, target_size := 8\<rparr>"

theorem assembly_chunking_witness:
  "receive sample_memory ([0x41, 0x4D, 0x51] @ [0x50, 0, 0, 9, 1]) sample_waiting =
    bindP (receive sample_memory [0x41, 0x4D, 0x51]) (\<lambda>fs.
    bindP (receive sample_memory [0x50, 0, 0, 9, 1]) (\<lambda>gs. ret (fs @ gs))) sample_waiting"
  by (rule assembly_chunking) (simp add: sample_waiting_def zeroed_connection_def assembly_inv_def)

end
