(* ===== verification/Amqp_Connection_Safety.thy ===== *)
theory Amqp_Connection_Safety
  imports Amqp_Connection
begin

text \<open>
  The connection as a whole: every call of \<^verbatim>\<open>amqp_handle_input\<close> keeps the pools of all channels and
  the connection's own blocks intact, and runs into undefined behaviour only for the malformed frames
  named here. A new connection starts with the invariant established.
\<close>

section \<open>The memory of a connection\<close>

definition own_blocks :: "amqp_connection_state_t \<Rightarrow> nat set" where
  "own_blocks st = insert (conn_block st)
     (set_option (outbound_block st) \<union> set_option (sock_inbound_block st) \<union> foot (properties_pool st))"

definition own_distinct :: "amqp_connection_state_t \<Rightarrow> bool" where
  "own_distinct st \<longleftrightarrow> outbound_block st \<noteq> Some (conn_block st) \<and> sock_inbound_block st \<noteq> Some (conn_block st)
     \<and> (outbound_block st \<noteq> None \<longrightarrow> outbound_block st \<noteq> sock_inbound_block st)
     \<and> foot (properties_pool st) \<inter> insert (conn_block st) (set_option (outbound_block st) \<union> set_option (sock_inbound_block st)) = {}"

definition memory_inv :: "amqp_connection_state_t \<Rightarrow> bool" where
  "memory_inv st \<longleftrightarrow> pools_inv (pool_table st) (conn_heap st) (own_blocks st)
     \<and> pool_inv (properties_pool st) (conn_heap st) \<and> own_distinct st
     \<and> 0 \<le> frame_max st \<and> frame_max st < 2 ^ 31"

definition conn_inv :: "amqp_connection_state_t \<Rightarrow> bool" where
  "conn_inv st \<longleftrightarrow> assembly_inv st \<and> memory_inv st"

text \<open>Steps that only change the pools and the assembly of the current frame.\<close>

definition same_memory :: "amqp_connection_state_t \<Rightarrow> amqp_connection_state_t \<Rightarrow> bool" where
  "same_memory st st' \<longleftrightarrow> pool_table st' = pool_table st \<and> conn_heap st' = conn_heap st
     \<and> conn_block st' = conn_block st \<and> outbound_block st' = outbound_block st
     \<and> sock_inbound_block st' = sock_inbound_block st \<and> properties_pool st' = properties_pool st \<and> frame_max st' = frame_max st"

lemma memory_inv_same: "same_memory st st' \<Longrightarrow> memory_inv st \<Longrightarrow> memory_inv st'"
  by (simp add: same_memory_def memory_inv_def own_blocks_def own_distinct_def)

lemma memory_inv_step:
  assumes inv: "memory_inv st" and st': "st' = st\<lparr>pool_table := t, conn_heap := h\<rparr>"
    and t: "pools_inv t h (own_blocks st)" and h: "evolves (conn_heap st) h"
  shows "memory_inv st'"
proof -
  have own: "own_blocks st' = own_blocks st" by (simp add: own_blocks_def st')
  have "pool_inv (properties_pool st) h"
  proof (rule pool_inv_evolves [OF _ h])
    show "pool_inv (properties_pool st) (conn_heap st)" using inv by (simp add: memory_inv_def)
    show "heap_inv h" by (rule pools_invD(2) [OF t])
    show "h_live h b \<noteq> None" if "b \<in> foot (properties_pool st)" for b
      using pools_invD(7) [OF t] that by (auto simp: own_blocks_def)
  qed
  with inv t own st' show ?thesis by (simp add: memory_inv_def own_distinct_def)
qed

lemma frame_max_size: "memory_inv st \<Longrightarrow> size_of_int (frame_max st) \<le> ptrdiff_max"
  by (simp add: memory_inv_def size_of_int_def ptrdiff_max_def nat_le_iff)

lemma evolves_create: "amqp_get_or_create_channel_pool fm c t h = (r, t', h') \<Longrightarrow> evolves h h'"
  by (auto simp: amqp_get_or_create_channel_pool_def Let_def split: option.splits prod.splits
      intro: evolves_malloc_eq)

lemma channel_pool_inv:
  assumes inv: "memory_inv st" and run: "channel_pool c st = (r, st')"
  shows "memory_inv st'" and "\<exists>t h. st' = st\<lparr>pool_table := t, conn_heap := h\<rparr>"
    and "r = Ok () \<and> amqp_get_channel_pool (pool_table st') c \<noteq> None \<or> r = Err AMQP_STATUS_NO_MEMORY"
proof -
  obtain q t h where get: "amqp_get_or_create_channel_pool (size_of_int (frame_max st)) c (pool_table st) (conn_heap st) = (q, t, h)"
    by (metis surj_pair)
  note p = pools_inv_create [OF _ frame_max_size [OF inv] get]
  have st': "st' = st\<lparr>pool_table := t, conn_heap := h\<rparr>" using run get by (auto simp: channel_pool_def split: option.splits)
  then show "\<exists>t h. st' = st\<lparr>pool_table := t, conn_heap := h\<rparr>" by blast
  have t: "pools_inv t h (own_blocks st)" using p(1) inv by (simp add: memory_inv_def)
  show "memory_inv st'" by (rule memory_inv_step [OF inv st' t evolves_create [OF get]])
  show "r = Ok () \<and> amqp_get_channel_pool (pool_table st') c \<noteq> None \<or> r = Err AMQP_STATUS_NO_MEMORY"
    using run get p(2) inv by (auto simp: channel_pool_def memory_inv_def split: option.splits)
qed

text \<open>A decoder that is safe for the blocks of others keeps the memory of the connection.\<close>

lemma with_pool_inv:
  assumes inv: "memory_inv st" and c: "amqp_get_channel_pool (pool_table st) c \<noteq> None" and m: "dkeeps m"
    and safe: "\<And>B p h. d_fail B \<lparr>offset = 0, dpool = p, dheap = h\<rparr> \<Longrightarrow>
      (case m \<lparr>offset = 0, dpool = p, dheap = h\<rparr> of
         (Ok x, d) \<Rightarrow> d_fail B d | (Err e, d) \<Rightarrow> d_fail B d | (Undefined, d) \<Rightarrow> U | (OutOfFuel, d) \<Rightarrow> False)"
    and run: "with_pool c m st = (r, st')"
  shows "(case r of Undefined \<Rightarrow> U | OutOfFuel \<Rightarrow> False | _ \<Rightarrow> memory_inv st')
    \<and> (\<exists>t h. st' = st\<lparr>pool_table := t, conn_heap := h\<rparr>)"
proof -
  from c obtain p where p: "amqp_get_channel_pool (pool_table st) c = Some p" by blast
  from inv have pools: "pools_inv (pool_table st) (conn_heap st) (own_blocks st)" by (simp add: memory_inv_def)
  let ?d = "\<lparr>offset = 0, dpool = p, dheap = conn_heap st\<rparr>"
  obtain r' d where d: "m ?d = (r', d)" by fastforce
  have st': "r' = r" "st' = st\<lparr>pool_table := set_channel_pool (pool_table st) c (dpool d), conn_heap := dheap d\<rparr>"
    using run d p by (auto simp: with_pool_def on_pool_def)
  note s = safe [OF d_fail_others [OF pools p, of 0], unfolded d]
  have "memory_inv st'" if "d_fail (others (pool_table st) c (own_blocks st)) d"
  proof (rule memory_inv_step [OF inv st'(2)])
    show "pools_inv (set_channel_pool (pool_table st) c (dpool d)) (dheap d) (own_blocks st)"
      by (rule pools_inv_on_pool [OF pools p m d that])
    show "evolves (conn_heap st) (dheap d)" using m d by (metis dkeeps_def dstate.select_convs(3) snd_conv)
  qed
  with s st' show ?thesis by (cases r) auto
qed

section \<open>Creating a connection\<close>

lemma zeroed_tune:
  assumes h: "heap_inv h" "\<not> h_fault h" and b: "h_live h b \<noteq> None"
    and run: "amqp_tune_connection u 0 AMQP_INITIAL_FRAME_POOL_PAGE_SIZE 0 (zeroed_connection clk b h) = (r, st)"
  shows "(\<exists>ob h'. r = Ok () \<and> heap_malloc 65536 h = (Some ob, h') \<and> st = (zeroed_connection clk b h)
      \<lparr>frame_max := 65536, next_send_heartbeat := amqp_time_infinite, next_recv_heartbeat := amqp_time_infinite,
       conn_heap := h', outbound_block := Some ob, outbound_len := 65536, outbound_mem := map (fresh_bytes u) [0..<65536]\<rparr>)
    \<or> (\<exists>h'. r = Err AMQP_STATUS_NO_MEMORY \<and> heap_malloc 65536 h = (None, h') \<and> conn_heap st = h')"
proof -
  have "size_of_int 65536 = 65536" by (simp add: size_of_int_def)
  then show ?thesis using run
    by (auto simp: amqp_tune_connection_def zeroed_connection_def AMQP_INITIAL_FRAME_POOL_PAGE_SIZE_def Let_def bindP_def
        set_deadline_def amqp_heartbeat_send_def amqp_heartbeat_recv_def amqp_time_s_from_now_def amqp_time_from_now_def
        resize_outbound_def heap_realloc_def heap_free_def resize_def amqp_time_infinite_def simp del: upt_rec_numeral
        split: prod.splits option.splits)
qed

text \<open>
  A new connection has three blocks of its own and nothing else, its assembly waits for the
  eight bytes of a protocol header, and its invariant holds.
\<close>

lemma new_connection_inv:
  assumes h: "heap_inv h" "\<not> h_fault h" and run: "amqp_new_connection u clk h = (Some st, h')"
  shows "conn_inv st" and "conn_heap st = h'" and "conn_state st = CONNECTION_STATE_INITIAL" and "frame_max st = 65536"
    and "pool_table st = replicate POOL_TABLE_SIZE []" and "properties_pool st = init_amqp_pool 512"
    and "h_live h' |` (- own_blocks st) = h_live h" and "own_blocks st \<inter> dom (h_live h) = {}"
    and "outbound_len st = 65536" and "length (outbound_mem st) = 65536" and "h_grant h' = h_grant h"
    and "inbound_offset st = 0" and "sock_inbound_offset st = 0" and "sock_inbound_limit st = 0" and "first_queued_frame st = []"
    and "heartbeat st = 0" and "next_send_heartbeat st = amqp_time_infinite" and "next_recv_heartbeat st = amqp_time_infinite"
    and "length (sock_inbound_buffer st) = 131072"
proof -
  from run obtain b h1 where b: "heap_malloc sizeof_connection h = (Some b, h1)"
    by (auto simp: amqp_new_connection_def split: prod.splits option.splits)
  note m1 = heap_malloc_Some [OF b h(1)]
  obtain r s where t: "amqp_tune_connection u 0 AMQP_INITIAL_FRAME_POOL_PAGE_SIZE 0 (zeroed_connection clk b h1) = (r, s)" by fastforce
  have "h_live h1 b \<noteq> None" using m1 by simp
  from zeroed_tune [OF m1(1) _ this t] h(2) m1(6) run b t obtain ob h2 where ob: "r = Ok ()" "heap_malloc 65536 h1 = (Some ob, h2)"
    and s: "s = (zeroed_connection clk b h1)\<lparr>frame_max := 65536, next_send_heartbeat := amqp_time_infinite, next_recv_heartbeat := amqp_time_infinite,
       conn_heap := h2, outbound_block := Some ob, outbound_len := 65536, outbound_mem := map (fresh_bytes u) [0..<65536]\<rparr>"
    by (auto simp: amqp_new_connection_def)
  note m2 = heap_malloc_Some [OF ob(2) m1(1)]
  have heap: "conn_heap s = h2" by (simp add: s)
  from run b t ob(1) heap obtain sb where sb: "heap_malloc AMQP_INITIAL_INBOUND_SOCK_BUFFER_SIZE h2 = (Some sb, h')"
    and st: "st = s\<lparr>conn_heap := h', inbound_buffer := Header_buffer,
       conn_state := CONNECTION_STATE_INITIAL, target_size := 8, sock_inbound_block := Some sb,
       sock_inbound_buffer := map (fresh_bytes u) [0..<AMQP_INITIAL_INBOUND_SOCK_BUFFER_SIZE],
       properties_pool := init_amqp_pool 512,
       handshake_timeout := Some \<lparr>tv_sec = AMQP_DEFAULT_LOGIN_TIMEOUT_SEC, tv_usec = 0\<rparr>\<rparr>"
    by (auto simp: amqp_new_connection_def split: prod.splits option.splits)
  note m3 = heap_malloc_Some [OF sb m2(1)]
  have foot: "foot (init_amqp_pool n) = {}" for n
    by (simp add: foot_def init_amqp_pool_def pool_blocks_def list_array_def empty_blocks_def)
  have own: "own_blocks st = {b, ob, sb}" by (auto simp: own_blocks_def st s zeroed_connection_def foot)
  have look: "amqp_get_channel_pool (replicate POOL_TABLE_SIZE []) c = None" for c
    using pool_index_less [of c] by (simp add: amqp_get_channel_pool_def)
  have table: "concat (replicate POOL_TABLE_SIZE []) = ([] :: amqp_pool_table_entry_t list)" by simp
  have "table_inv (replicate POOL_TABLE_SIZE [])" by (simp add: table_inv_def)
  then have "pools_inv (replicate POOL_TABLE_SIZE []) h' {b, ob, sb}"
    unfolding pools_inv_def table using m1 m2 m3 h(2) by (auto simp: look entry_blocks_def)
  moreover have "pool_inv (init_amqp_pool 512) h'" by (rule pool_inv_init [OF m3(1)]) (simp add: ptrdiff_max_def)
  moreover have "own_distinct st" using m1 m2 m3 by (auto simp: own_distinct_def st s zeroed_connection_def foot)
  ultimately have "memory_inv st" unfolding memory_inv_def own by (simp add: st s zeroed_connection_def)
  then show "conn_inv st" by (simp add: conn_inv_def assembly_inv_def st s zeroed_connection_def)
  show "h_live h' |` (- own_blocks st) = h_live h" "own_blocks st \<inter> dom (h_live h) = {}"
    unfolding own using m1 m2 m3 by (auto simp: restrict_map_def fun_eq_iff)
  show "h_grant h' = h_grant h" using m1 m2 m3 by simp
  show "conn_heap st = h'" "conn_state st = CONNECTION_STATE_INITIAL" "frame_max st = 65536"
    "pool_table st = replicate POOL_TABLE_SIZE []" "properties_pool st = init_amqp_pool 512"
    "outbound_len st = 65536" "length (outbound_mem st) = 65536" "inbound_offset st = 0"
    "sock_inbound_offset st = 0" "sock_inbound_limit st = 0" "first_queued_frame st = []"
    "heartbeat st = 0" "next_send_heartbeat st = amqp_time_infinite" "next_recv_heartbeat st = amqp_time_infinite"
    "length (sock_inbound_buffer st) = 131072"
    by (simp_all add: st s zeroed_connection_def AMQP_INITIAL_INBOUND_SOCK_BUFFER_SIZE_def)
qed

text \<open>A connection of a program that has just started, for examples.\<close>

definition first_connection :: "unspecified \<Rightarrow> amqp_connection_state_t" where
  "first_connection u = the (fst (amqp_new_connection u (\<lambda>_. 1) fresh_heap))"

lemma new_connection_generous:
  assumes "generous h" and "heap_inv h" "\<not> h_fault h"
  shows "\<exists>st h'. amqp_new_connection u clk h = (Some st, h')"
proof -
  obtain b h1 where b: "heap_malloc sizeof_connection h = (Some b, h1)" using generous_malloc [OF assms(1)] by blast
  note m1 = heap_malloc_Some [OF b assms(2)]
  have g1: "generous h1" using assms(1) m1 by (simp add: generous_def)
  obtain r s where t: "amqp_tune_connection u 0 AMQP_INITIAL_FRAME_POOL_PAGE_SIZE 0 (zeroed_connection clk b h1) = (r, s)" by fastforce
  have "h_live h1 b \<noteq> None" using m1 by simp
  obtain ob h2 where ob: "heap_malloc 65536 h1 = (Some ob, h2)" using generous_malloc [OF g1] by blast
  note m2 = heap_malloc_Some [OF ob m1(1)]
  have g2: "generous h2" using g1 m2 by (simp add: generous_def)
  from zeroed_tune [OF m1(1) _ \<open>h_live h1 b \<noteq> None\<close> t] assms(3) m1(6) ob have r: "r = Ok ()" "conn_heap s = h2" by auto
  obtain sb h3 where "heap_malloc AMQP_INITIAL_INBOUND_SOCK_BUFFER_SIZE h2 = (Some sb, h3)" using generous_malloc [OF g2] by blast
  with b t r show ?thesis by (simp add: amqp_new_connection_def)
qed

lemma first_connection:
  "conn_inv (first_connection u)" "conn_state (first_connection u) = CONNECTION_STATE_INITIAL"
  "frame_max (first_connection u) = 65536" "generous (conn_heap (first_connection u))" "inbound_offset (first_connection u) = 0"
  "outbound_len (first_connection u) = 65536" "length (outbound_mem (first_connection u)) = 65536"
  "sock_inbound_offset (first_connection u) = 0" "sock_inbound_limit (first_connection u) = 0" "first_queued_frame (first_connection u) = []"
    "heartbeat (first_connection u) = 0" "next_send_heartbeat (first_connection u) = amqp_time_infinite"
    "next_recv_heartbeat (first_connection u) = amqp_time_infinite" "length (sock_inbound_buffer (first_connection u)) = 131072"
proof -
  have h: "\<not> h_fault fresh_heap" by (simp add: fresh_heap_def)
  obtain st h' where run: "amqp_new_connection u (\<lambda>_. 1) fresh_heap = (Some st, h')"
    using new_connection_generous [OF _ _ h] by fastforce
  note n = new_connection_inv [OF _ h run]
  have st: "first_connection u = st" by (simp add: first_connection_def run)
  show "conn_inv (first_connection u)" "conn_state (first_connection u) = CONNECTION_STATE_INITIAL"
    "frame_max (first_connection u) = 65536" "generous (conn_heap (first_connection u))" "inbound_offset (first_connection u) = 0"
    "outbound_len (first_connection u) = 65536" "length (outbound_mem (first_connection u)) = 65536"
    "sock_inbound_offset (first_connection u) = 0" "sock_inbound_limit (first_connection u) = 0" "first_queued_frame (first_connection u) = []"
    "heartbeat (first_connection u) = 0" "next_send_heartbeat (first_connection u) = amqp_time_infinite"
    "next_recv_heartbeat (first_connection u) = amqp_time_infinite" "length (sock_inbound_buffer (first_connection u)) = 131072"
    using n by (simp_all add: st) (simp add: generous_def fresh_heap_def)
qed

lemma return_to_idle_inv: "conn_inv st \<Longrightarrow> conn_inv (return_to_idle st)"
proof -
  assume "conn_inv st"
  moreover have "same_memory st (return_to_idle st)" by (simp add: same_memory_def return_to_idle_def)
  ultimately show ?thesis using memory_inv_same by (auto simp: conn_inv_def assembly_inv_def return_to_idle_def)
qed

section \<open>Safety of the assembly\<close>

text \<open>
  The frames that the code decodes from memory outside of them: a method frame too short for its
  number, a header frame too short for its fixed part. A second flag word with its highest bit and a third flag word are
  undefined, too.
\<close>

definition malformed :: "byte list \<Rightarrow> bool" where
  "malformed raw \<longleftrightarrow> (raw ! 0 = FRAME_METHOD \<and> length raw < 11)
     \<or> (raw ! 0 = FRAME_HEADER \<and>
         (length raw < 20 \<or> undefined_flags \<lparr>len = length raw - 20, bytes = drop 19 raw\<rparr>))"

definition sound :: "(byte list \<Rightarrow> bool) \<Rightarrow> (amqp_connection_state_t \<Rightarrow> bool) \<Rightarrow> 'a cprog \<Rightarrow> ('a \<Rightarrow> amqp_connection_state_t \<Rightarrow> bool) \<Rightarrow> bool" where
  "sound U P m Q \<longleftrightarrow> (\<forall>st. P st \<longrightarrow> (case m st of
       (Ok x, st') \<Rightarrow> Q x st' | (Err e, st') \<Rightarrow> memory_inv st'
     | (Undefined, st') \<Rightarrow> U (raw_frame st') | (OutOfFuel, st') \<Rightarrow> False))"

lemma soundI:
  "(\<And>st. P st \<Longrightarrow> (case m st of
       (Ok x, st') \<Rightarrow> Q x st' | (Err e, st') \<Rightarrow> memory_inv st'
     | (Undefined, st') \<Rightarrow> U (raw_frame st') | (OutOfFuel, st') \<Rightarrow> False)) \<Longrightarrow> sound U P m Q"
  by (simp add: sound_def)

lemma sound_bind:
  assumes "sound U P m R" and "\<And>x. sound U (R x) (k x) Q"
  shows "sound U P (bindP m k) Q"
proof (rule soundI)
  fix st
  assume "P st"
  obtain r s where m: "m st = (r, s)" by fastforce
  with assms(1) \<open>P st\<close> have "case r of Ok x \<Rightarrow> R x s | Err e \<Rightarrow> memory_inv s | Undefined \<Rightarrow> U (raw_frame s) | OutOfFuel \<Rightarrow> False"
    unfolding sound_def by (metis (no_types, lifting) case_prod_conv)
  with m assms(2) show "case bindP m k st of
      (Ok x, st') \<Rightarrow> Q x st' | (Err e, st') \<Rightarrow> memory_inv st'
    | (Undefined, st') \<Rightarrow> U (raw_frame st') | (OutOfFuel, st') \<Rightarrow> False"
    by (cases r) (auto simp: bindP_def sound_def)
qed

lemma sound_conseq:
  assumes "sound U P m Q" and "\<And>st. P' st \<Longrightarrow> P st" and "\<And>x st. Q x st \<Longrightarrow> Q' x st"
  shows "sound U P' m Q'"
proof (rule soundI)
  fix st
  assume "P' st"
  with assms(1,2) have "case m st of
      (Ok x, st') \<Rightarrow> Q x st' | (Err e, st') \<Rightarrow> memory_inv st'
    | (Undefined, st') \<Rightarrow> U (raw_frame st') | (OutOfFuel, st') \<Rightarrow> False" by (simp add: sound_def)
  then show "case m st of
      (Ok x, st') \<Rightarrow> Q' x st' | (Err e, st') \<Rightarrow> memory_inv st'
    | (Undefined, st') \<Rightarrow> U (raw_frame st') | (OutOfFuel, st') \<Rightarrow> False"
    using assms(3) by (auto split: prod.splits outcome.splits)
qed

lemma sound_gets:
  assumes "\<And>st. P st \<Longrightarrow> f st = v" and "sound U P (k v) Q"
  shows "sound U P (bindP (gets f) k) Q"
  using assms by (auto simp: sound_def bindP_def gets_def)

lemma sound_modify: "(\<And>st. P st \<Longrightarrow> Q () (f st)) \<Longrightarrow> sound U P (modify f) Q"
  by (simp add: sound_def modify_def)

lemma sound_ret: "(\<And>st. P st \<Longrightarrow> Q x st) \<Longrightarrow> sound U P (ret x) Q"
  by (simp add: sound_def ret_def)

lemma sound_throw: "(\<And>st. P st \<Longrightarrow> memory_inv st) \<Longrightarrow> sound U P (throw e) Q"
  by (simp add: sound_def throw_def)

lemma sound_if: "(b \<Longrightarrow> sound U P m Q) \<Longrightarrow> (\<not> b \<Longrightarrow> sound U P m' Q) \<Longrightarrow> sound U P (if b then m else m') Q"
  by simp

lemma sound_peek:
  assumes "\<And>st. P st \<Longrightarrow> raw_frame st = raw" and "U raw \<or> i + n \<le> length raw"
    and "i + n \<le> length raw \<Longrightarrow> sound U P (k (d (take n (drop i raw)))) Q"
  shows "sound U P (bindP (peek i n d) k) Q"
proof (cases "i + n \<le> length raw")
  case True
  have "bindP (peek i n d) k st = k (d (take n (drop i raw))) st" if "P st" for st
    using assms(1) [OF that] True by (simp add: bindP_def peek_def mem_read_def)
  with assms(3) [OF True] show ?thesis by (simp add: sound_def)
next
  case False
  then have "U raw" using assms(2) by blast
  with False assms(1) show ?thesis by (auto simp: sound_def bindP_def peek_def mem_read_def)
qed

text \<open>A connection that holds a complete frame.\<close>

definition holding :: "byte list \<Rightarrow> amqp_connection_state_t \<Rightarrow> bool" where
  "holding raw st \<longleftrightarrow> memory_inv st \<and> length (header_buffer st) = HEADER_SIZE + 1
     \<and> inbound_buffer st = Frame_buffer raw \<and> target_size st = length raw
     \<and> 8 \<le> length raw \<and> length raw < 2 ^ 32"

lemma holding_raw: "holding raw st \<Longrightarrow> raw_frame st = raw"
  by (simp add: holding_def raw_frame_def)

lemma holding_step:
  "holding raw st \<Longrightarrow> memory_inv (st\<lparr>pool_table := t, conn_heap := h\<rparr>) \<Longrightarrow> holding raw (st\<lparr>pool_table := t, conn_heap := h\<rparr>)"
  by (simp add: holding_def)

lemma sound_channel_pool:
  "sound U (holding raw) (channel_pool c) (\<lambda>_ st. holding raw st \<and> amqp_get_channel_pool (pool_table st) c \<noteq> None)"
proof (rule soundI)
  fix st
  assume st: "holding raw st"
  obtain r s where run: "channel_pool c st = (r, s)" by fastforce
  have inv: "memory_inv st" using st by (simp add: holding_def)
  note c = channel_pool_inv [OF inv run]
  from c(2) obtain t h where s: "s = st\<lparr>pool_table := t, conn_heap := h\<rparr>" by blast
  with c(1) st have "holding raw s" using holding_step by blast
  with c run show "case channel_pool c st of
      (Ok x, st') \<Rightarrow> holding raw st' \<and> amqp_get_channel_pool (pool_table st') c \<noteq> None | (Err e, st') \<Rightarrow> memory_inv st'
    | (Undefined, st') \<Rightarrow> U (raw_frame st') | (OutOfFuel, st') \<Rightarrow> False"
    by auto
qed

lemma sound_with_pool:
  assumes "dkeeps m" and "\<And>B p h. d_fail B \<lparr>offset = 0, dpool = p, dheap = h\<rparr> \<Longrightarrow>
      (case m \<lparr>offset = 0, dpool = p, dheap = h\<rparr> of
         (Ok x, d) \<Rightarrow> d_fail B d | (Err e, d) \<Rightarrow> d_fail B d | (Undefined, d) \<Rightarrow> U raw | (OutOfFuel, d) \<Rightarrow> False)"
  shows "sound U (\<lambda>st. holding raw st \<and> amqp_get_channel_pool (pool_table st) c \<noteq> None) (with_pool c m) (\<lambda>_. holding raw)"
proof (rule soundI)
  fix st
  assume st: "holding raw st \<and> amqp_get_channel_pool (pool_table st) c \<noteq> None"
  obtain r s where run: "with_pool c m st = (r, s)" by fastforce
  have inv: "memory_inv st" using st by (simp add: holding_def)
  have w: "(case r of Undefined \<Rightarrow> U raw | OutOfFuel \<Rightarrow> False | _ \<Rightarrow> memory_inv s)
      \<and> (\<exists>t h. s = st\<lparr>pool_table := t, conn_heap := h\<rparr>)"
    by (rule with_pool_inv [OF inv _ assms run]) (use st in blast)
  then obtain t h where s: "s = st\<lparr>pool_table := t, conn_heap := h\<rparr>" by blast
  have raw: "raw_frame s = raw" using s st by (simp add: holding_def raw_frame_def)
  have "memory_inv s \<Longrightarrow> holding raw s" using s st holding_step by blast
  with w run raw show "case with_pool c m st of
      (Ok x, st') \<Rightarrow> holding raw st' | (Err e, st') \<Rightarrow> memory_inv st'
    | (Undefined, st') \<Rightarrow> U (raw_frame st') | (OutOfFuel, st') \<Rightarrow> False"
    by (cases r) auto
qed

lemma amqp_d8_single [simp]: "amqp_d8 big [b] = b"
  by (cases big) (simp_all add: amqp_d8_def native_word_def)

lemma holding_payload:
  assumes "holding raw st" and "k + 1 \<le> length raw"
  shows "payload_from k st = \<lparr>len = length raw - k - 1, bytes = drop k raw\<rparr>"
  using assms by (simp add: payload_from_def holding_def raw_frame_def)

lemma valid_payload: "length raw < 2 ^ 32 \<Longrightarrow> valid_bytes \<lparr>len = length raw - k - 1, bytes = drop k raw\<rparr>"
  by (simp add: valid_bytes_def ptrdiff_max_def) linarith

lemma return_idle_inv: "holding raw st \<Longrightarrow> conn_inv (return_to_idle st)"
proof -
  assume st: "holding raw st"
  have "same_memory st (return_to_idle st)" by (simp add: same_memory_def return_to_idle_def own_blocks_def)
  then have "memory_inv (return_to_idle st)" using st memory_inv_same by (auto simp: holding_def)
  with st show ?thesis by (simp add: conn_inv_def assembly_inv_def return_to_idle_def holding_def)
qed

text \<open>The shortest method frames end their method number with the frame end, which no method has.\<close>

lemma amqp_d32_last: "(ucast (amqp_d32 host_is_big [a, b, c, d]) :: uint8) = d"
  unfolding amqp_d32_def host_is_big_def swap32_def masks32
  by (rule bit_word_eqI) (auto simp: native_word_def bit_byte_simps bit_mask_iff bit_ucast_iff Let_def dest: bit_imp_le_length)

lemma methods_not_frame_end: "n \<in> set all_methods \<Longrightarrow> (ucast n :: uint8) \<noteq> FRAME_END"
  unfolding all_methods_def method_numbers by auto

lemma decode_unknown:
  assumes "n \<notin> set all_methods"
  shows "amqp_decode_method n encoded d = (Err AMQP_STATUS_UNKNOWN_METHOD, d\<lparr>offset := 0\<rparr>)"
proof -
  have "map_of method_decoders n = None" using assms by (simp add: map_of_eq_None_iff flip: fst_decoders)
  then show ?thesis by (simp add: amqp_decode_method_def throw_def)
qed

lemma decode_method_sound:
  assumes raw: "raw ! (length raw - 1) = FRAME_END" "11 \<le> length raw" "length raw < 2 ^ 32"
    and d: "d_fail B \<lparr>offset = 0, dpool = p, dheap = h\<rparr>" and enc: "bytes encoded = drop 11 raw"
    "12 \<le> length raw \<Longrightarrow> len encoded = length raw - 12"
  shows "case amqp_decode_method (amqp_d32 host_is_big (take 4 (drop 7 raw))) encoded \<lparr>offset = 0, dpool = p, dheap = h\<rparr> of
      (Ok x, d) \<Rightarrow> d_fail B d | (Err e, d) \<Rightarrow> d_fail B d | (Undefined, d) \<Rightarrow> malformed raw | (OutOfFuel, d) \<Rightarrow> False"
proof (cases "12 \<le> length raw")
  case True
  then have "len encoded \<le> length (bytes encoded)" "length (bytes encoded) \<le> ptrdiff_max"
    using raw(3) enc by (auto simp: ptrdiff_max_def)
  then have "valid_bytes encoded" by (simp add: valid_bytes_def)
  from dsafe_decode_method [OF this d, of "amqp_d32 host_is_big (take 4 (drop 7 raw))"] show ?thesis
    by (auto simp: settles_iff d_ok_def split: prod.splits)
next
  case False
  then have "length (drop 7 raw) = Suc (Suc (Suc (Suc 0)))" using raw(2) by simp
  then obtain a b c e where e: "drop 7 raw = [a, b, c, e]"
    by (auto simp: length_Suc_conv simp del: length_drop)
  have "raw ! 10 = drop 7 raw ! 3" using raw(2) by simp
  moreover have "length raw = 11" using False raw(2) by simp
  ultimately have "e = FRAME_END" using e raw(1) by simp
  then have "amqp_d32 host_is_big (take 4 (drop 7 raw)) \<notin> set all_methods"
    using methods_not_frame_end amqp_d32_last [of a b c e] e by fastforce
  from decode_unknown [OF this] d show ?thesis by (simp add: d_fail_def)
qed

lemma sound_method:
  assumes raw: "raw ! 0 = FRAME_METHOD" "raw ! (length raw - 1) = FRAME_END" and long: "length raw < 2 ^ 32"
  shows "sound malformed (\<lambda>st. holding raw st \<and> amqp_get_channel_pool (pool_table st) channel \<noteq> None)
     (method_frame channel) (\<lambda>_. holding raw)"
  unfolding method_frame_def
proof (rule sound_peek [where raw = raw])
  let ?P = "\<lambda>st. holding raw st \<and> amqp_get_channel_pool (pool_table st) channel \<noteq> None"
  let ?id = "amqp_d32 host_is_big (take 4 (drop HEADER_SIZE raw))"
  let ?enc = "\<lparr>len = size_sub (size_sub (length raw) 11) 1, bytes = drop 11 raw\<rparr>"
  show "raw_frame st = raw" if "?P st" for st using that holding_raw by blast
  show "malformed raw \<or> HEADER_SIZE + 4 \<le> length raw" using raw by (auto simp: malformed_def)
  assume "HEADER_SIZE + 4 \<le> length raw"
  then have "11 \<le> length raw" by simp
  note decode = decode_method_sound [OF raw(2) this long]
  have dec: "sound malformed ?P (with_pool channel (amqp_decode_method ?id ?enc)) (\<lambda>_. holding raw)"
    by (rule sound_with_pool [where U = malformed and raw = raw, OF dkeeps_method decode [folded HEADER_SIZE_def]]) simp_all
  have enc: "payload_from (HEADER_SIZE + 4) st = ?enc" if "?P st" for st
    using that by (simp add: payload_from_def holding_def raw_frame_def)
  show "sound malformed ?P (bindP (gets (payload_from (HEADER_SIZE + 4))) (\<lambda>encoded.
      bindP (with_pool channel (amqp_decode_method ?id encoded)) (\<lambda>decoded.
      ret \<lparr>frame_type = FRAME_METHOD, frame_channel = channel, payload = Method ?id decoded\<rparr>))) (\<lambda>_. holding raw)"
    by (rule sound_gets [where v = ?enc], erule enc, rule sound_bind [OF dec], rule sound_ret)
qed

lemma decode_properties_sound:
  assumes raw: "raw ! 0 = FRAME_HEADER" "19 \<le> length raw" "length raw < 2 ^ 32"
    and d: "d_fail B \<lparr>offset = 0, dpool = p, dheap = h\<rparr>"
  shows "case amqp_decode_properties q class_id
        \<lparr>len = size_sub (size_sub (length raw) 19) 1, bytes = drop 19 raw\<rparr> \<lparr>offset = 0, dpool = p, dheap = h\<rparr> of
      (Ok x, d) \<Rightarrow> d_fail B d | (Err e, d) \<Rightarrow> d_fail B d | (Undefined, d) \<Rightarrow> malformed raw | (OutOfFuel, d) \<Rightarrow> False"
proof (cases "20 \<le> length raw")
  case True
  let ?enc = "\<lparr>len = length raw - 20, bytes = drop 19 raw\<rparr>"
  have "len ?enc \<le> length (bytes ?enc)" "length (bytes ?enc) \<le> ptrdiff_max"
    using raw(3) by (auto simp: ptrdiff_max_def)
  then have "valid_bytes ?enc" by (simp add: valid_bytes_def)
  from decode_properties_outcome [OF this d, of q class_id] show ?thesis
    using raw True by (auto simp: malformed_def split: prod.splits outcome.splits)
next
  case False
  then have "malformed raw" using raw by (simp add: malformed_def)
  moreover have "amqp_decode_properties q class_id \<lparr>len = size_sub (size_sub (length raw) 19) 1, bytes = drop 19 raw\<rparr>
      \<lparr>offset = 0, dpool = p, dheap = h\<rparr> = (Undefined, \<lparr>offset = 2, dpool = p, dheap = h\<rparr>)"
    using False raw(2) unfolding amqp_decode_properties_def
    by (subst bindP_def, subst decode_flags.simps)
      (simp add: bindP_def check_def amqp_decode_16_def decode_base_def mem_read_def size_sub_def Let_def)
  ultimately show ?thesis by simp
qed

lemma sound_header:
  assumes raw: "raw ! 0 = FRAME_HEADER" and long: "length raw < 2 ^ 32"
  shows "sound malformed (\<lambda>st. holding raw st \<and> amqp_get_channel_pool (pool_table st) channel \<noteq> None)
     (header_frame u channel) (\<lambda>_. holding raw)"
  unfolding header_frame_def
proof (rule sound_peek [where raw = raw])
  let ?P = "\<lambda>st. holding raw st \<and> amqp_get_channel_pool (pool_table st) channel \<noteq> None"
  let ?cid = "amqp_d16 host_is_big (take 2 (drop HEADER_SIZE raw))"
  let ?enc = "\<lparr>len = size_sub (size_sub (length raw) 19) 1, bytes = drop 19 raw\<rparr>"
  show here: "raw_frame st = raw" if "?P st" for st using that holding_raw by blast
  show "malformed raw \<or> HEADER_SIZE + 2 \<le> length raw" using raw by (auto simp: malformed_def)
  show "sound malformed ?P (bindP (peek64 (HEADER_SIZE + 4)) (\<lambda>body_size.
      bindP (gets (payload_from (HEADER_SIZE + 12))) (\<lambda>encoded.
      bindP (with_pool channel (amqp_decode_properties (fresh_properties u) ?cid encoded)) (\<lambda>decoded.
      ret \<lparr>frame_type = FRAME_HEADER, frame_channel = channel,
        payload = Properties ?cid body_size decoded (contents encoded)\<rparr>)))) (\<lambda>_. holding raw)"
  proof (rule sound_peek [where raw = raw, OF here])
    show "malformed raw \<or> HEADER_SIZE + 4 + 8 \<le> length raw" using raw by (auto simp: malformed_def)
    assume "HEADER_SIZE + 4 + 8 \<le> length raw"
    then have "19 \<le> length raw" by simp
    note decode = decode_properties_sound [OF raw this long]
    have dec: "sound malformed ?P (with_pool channel (amqp_decode_properties (fresh_properties u) ?cid ?enc)) (\<lambda>_. holding raw)"
      by (rule sound_with_pool [where U = malformed and raw = raw, OF dkeeps_properties decode])
    have enc: "payload_from (HEADER_SIZE + 12) st = ?enc" if "?P st" for st
      using that by (simp add: payload_from_def holding_def raw_frame_def)
    show "sound malformed ?P (bindP (gets (payload_from (HEADER_SIZE + 12))) (\<lambda>encoded.
        bindP (with_pool channel (amqp_decode_properties (fresh_properties u) ?cid encoded)) (\<lambda>decoded.
        ret \<lparr>frame_type = FRAME_HEADER, frame_channel = channel,
          payload = Properties ?cid (amqp_d64 host_is_big (take 8 (drop (HEADER_SIZE + 4) raw))) decoded (contents encoded)\<rparr>)))
        (\<lambda>_. holding raw)"
      by (rule sound_gets [where v = ?enc], erule enc, rule sound_bind [OF dec], rule sound_ret)
  qed
qed

lemma sound_decode:
  assumes "raw ! (length raw - 1) = FRAME_END" and "length raw < 2 ^ 32"
  shows "sound malformed (\<lambda>st. holding raw st \<and> amqp_get_channel_pool (pool_table st) channel \<noteq> None)
     (decode_frame u (raw ! 0) channel) (\<lambda>_. holding raw)"
  unfolding decode_frame_def body_frame_def
  by (intro sound_if sound_method sound_header assms sound_ret sound_gets [OF refl])
    (auto simp: sound_def bindP_def gets_def ret_def)

lemma sound_finish: "sound malformed (holding raw) (finish_frame u c) (\<lambda>(n, f). conn_inv)"
proof (cases "8 \<le> length raw \<and> length raw < 2 ^ 32")
  case True
  then have len: "8 \<le> length raw" "length raw < 2 ^ 32" by auto
  have d8: "amqp_d8 host_is_big (take 1 (drop i raw)) = raw ! i" if "i < length raw" for i
    using that by (simp add: take_Suc_conv_app_nth)
  have d0: "amqp_d8 host_is_big (take (Suc 0) raw) = raw ! 0" using d8 [of 0] len by fastforce
  have tail: "sound malformed (holding raw) (bindP (channel_pool ch) (\<lambda>_. bindP (decode_frame u (raw ! 0) ch) (\<lambda>f.
      bindP (modify return_to_idle) (\<lambda>_. ret (c, f))))) (\<lambda>(n, f). conn_inv)" if "raw ! (length raw - 1) = FRAME_END" for ch
    by (rule sound_bind [OF sound_channel_pool sound_bind [OF sound_decode [OF that len(2)]
      sound_bind [OF sound_modify [where Q = "\<lambda>_. conn_inv"] sound_ret]]])
      (auto intro: return_idle_inv)
  show ?thesis
    unfolding finish_frame_def
  proof (rule sound_gets [where v = "length raw"])
    show "target_size st = length raw" if "holding raw st" for st using that by (simp add: holding_def)
    show "sound malformed (holding raw) (bindP (peek8 (size_sub (length raw) 1)) (\<lambda>footer.
        if footer \<noteq> FRAME_END then throw AMQP_STATUS_BAD_AMQP_DATA
        else bindP (peek8 0) (\<lambda>ftype. bindP (peek16 1) (\<lambda>ch. bindP (channel_pool ch) (\<lambda>_.
          bindP (decode_frame u ftype ch) (\<lambda>f. bindP (modify return_to_idle) (\<lambda>_. ret (c, f)))))))) (\<lambda>(n, f). conn_inv)"
    proof (rule sound_peek [where raw = raw, OF holding_raw], assumption)
      show "sound malformed (holding raw) (if amqp_d8 host_is_big (take 1 (drop (size_sub (length raw) 1) raw)) \<noteq> FRAME_END
          then throw AMQP_STATUS_BAD_AMQP_DATA
          else bindP (peek8 0) (\<lambda>ftype. bindP (peek16 1) (\<lambda>ch. bindP (channel_pool ch) (\<lambda>_.
            bindP (decode_frame u ftype ch) (\<lambda>f. bindP (modify return_to_idle) (\<lambda>_. ret (c, f)))))))  (\<lambda>(n, f). conn_inv)"
      proof (rule sound_if [OF sound_throw])
        show "memory_inv st" if "holding raw st" for st using that by (simp add: holding_def)
        assume "\<not> amqp_d8 host_is_big (take 1 (drop (size_sub (length raw) 1) raw)) \<noteq> FRAME_END"
        then have "raw ! (length raw - 1) = FRAME_END" using d8 [of "length raw - 1"] len by simp
        then show "sound malformed (holding raw) (bindP (peek8 0) (\<lambda>ftype. bindP (peek16 1) (\<lambda>ch. bindP (channel_pool ch) (\<lambda>_.
            bindP (decode_frame u ftype ch) (\<lambda>f. bindP (modify return_to_idle) (\<lambda>_. ret (c, f)))))))  (\<lambda>(n, f). conn_inv)"
          by (intro sound_peek [where raw = raw, OF holding_raw]) (use tail len in \<open>auto simp: d0\<close>)
      qed
    qed (use len in auto)
  qed
qed (auto simp: sound_def holding_def)

text \<open>A connection that has a complete frame header.\<close>

definition heading :: "byte list \<Rightarrow> amqp_connection_state_t \<Rightarrow> bool" where
  "heading hb st \<longleftrightarrow> memory_inv st \<and> inbound_buffer st = Header_buffer \<and> header_buffer st = hb"

lemma heading_step:
  "heading hb st \<Longrightarrow> memory_inv (st\<lparr>pool_table := t, conn_heap := h\<rparr>) \<Longrightarrow> heading hb (st\<lparr>pool_table := t, conn_heap := h\<rparr>)"
  by (simp add: heading_def)

lemma sound_allocate:
  assumes "length hb = 8"
  shows "sound (\<lambda>_. False) (heading hb) (allocate_frame u) (\<lambda>_. memory_inv)"
proof -
  have raw: "raw_frame st = hb" if "heading hb st" for st using that by (simp add: heading_def raw_frame_def)
  have inv: "memory_inv st" if "heading hb st" for st using that by (simp add: heading_def)
  have upd: "heading hb (st\<lparr>target_size := n\<rparr>)" if "heading hb st" for st n
    using that memory_inv_same [of st "st\<lparr>target_size := n\<rparr>"] by (simp add: heading_def same_memory_def own_blocks_def)
  have fin: "memory_inv (st\<lparr>inbound_buffer := i, conn_state := c\<rparr>)" "memory_inv (st\<lparr>inbound_buffer := i\<rparr>)"
    if "memory_inv st" for st i c
    using that memory_inv_same [of st] by (simp_all add: same_memory_def own_blocks_def)
  have pool: "sound (\<lambda>_. False) (heading hb) (channel_pool ch) (\<lambda>_ st. heading hb st \<and> amqp_get_channel_pool (pool_table st) ch \<noteq> None)" for ch
  proof (rule soundI)
    fix st
    assume st: "heading hb st"
    obtain r s where run: "channel_pool ch st = (r, s)" by fastforce
    note c = channel_pool_inv [OF inv [OF st] run]
    from c(2) obtain t h where s: "s = st\<lparr>pool_table := t, conn_heap := h\<rparr>" by blast
    with c(1) st have "heading hb s" using heading_step by blast
    with c run show "case channel_pool ch st of
        (Ok x, st') \<Rightarrow> heading hb st' \<and> amqp_get_channel_pool (pool_table st') ch \<noteq> None | (Err e, st') \<Rightarrow> memory_inv st'
      | (Undefined, st') \<Rightarrow> False | (OutOfFuel, st') \<Rightarrow> False" by auto
  qed
  have alloc: "sound (\<lambda>_. False) (\<lambda>st. heading hb st \<and> amqp_get_channel_pool (pool_table st) ch \<noteq> None)
      (with_pool ch (pool_alloc n)) (\<lambda>_. memory_inv)" for ch n
  proof (rule soundI)
    fix st
    assume st: "heading hb st \<and> amqp_get_channel_pool (pool_table st) ch \<noteq> None"
    obtain r s where run: "with_pool ch (pool_alloc n) st = (r, s)" by fastforce
    have "(case r of Undefined \<Rightarrow> False | OutOfFuel \<Rightarrow> False | _ \<Rightarrow> memory_inv s) \<and> (\<exists>t h. s = st\<lparr>pool_table := t, conn_heap := h\<rparr>)"
    proof (rule with_pool_inv [OF _ _ dkeeps_alloc(1) _ run])
      fix B p h
      assume d: "d_fail B \<lparr>offset = 0, dpool = p, dheap = h\<rparr>"
      from hoareD [OF dsafe_pool_alloc [of "\<lparr>len = 0, bytes = []\<rparr>" B n], of "\<lparr>offset = 0, dpool = p, dheap = h\<rparr>"] d
      show "case pool_alloc n \<lparr>offset = 0, dpool = p, dheap = h\<rparr> of
          (Ok x, d) \<Rightarrow> d_fail B d | (Err e, d) \<Rightarrow> d_fail B d | (Undefined, d) \<Rightarrow> False | (OutOfFuel, d) \<Rightarrow> False"
        by (auto simp: d_ok_def valid_bytes_def settles_iff split: prod.splits)
    qed (use st inv in auto)
    then show "case with_pool ch (pool_alloc n) st of
        (Ok x, st') \<Rightarrow> memory_inv st' | (Err e, st') \<Rightarrow> memory_inv st'
      | (Undefined, st') \<Rightarrow> False | (OutOfFuel, st') \<Rightarrow> False" by (cases r) (auto simp: run)
  qed
  show ?thesis
    unfolding allocate_frame_def Let_def
    apply (rule sound_peek [OF raw], assumption, use assms in simp)
    apply (rule sound_peek [OF raw], assumption, use assms in simp)
    apply (rule sound_if, rule sound_throw, erule inv)
    apply (rule sound_bind [OF sound_modify [where Q = "\<lambda>_. heading hb"]], erule upd)
    apply (rule sound_bind [where R = "\<lambda>_. heading hb"], simp add: sound_def gets_def)
    apply (rule sound_if, rule sound_throw, erule inv)
    apply (rule sound_bind [OF pool], rule sound_bind [OF alloc])
    subgoal for _ fm _ block
      by (cases block) (auto intro!: sound_bind [OF sound_modify [where Q = "\<lambda>_. memory_inv"] sound_throw] sound_modify fin)
    done
qed

lemma assembled:
  assumes "assembly_inv st" and "memory_inv st" and "length ws \<le> missing (wake st)"
  shows "memory_inv (fill ws (wake st))"
proof -
  have "same_memory st (fill ws (wake st))"
    by (cases "inbound_buffer (wake st)")
      (auto simp: same_memory_def fill_def wake_def own_blocks_def)
  then show ?thesis using assms(2) by (rule memory_inv_same)
qed

lemma memory_inv_fill: "memory_inv st \<Longrightarrow> memory_inv (fill ws st)"
  by (cases "inbound_buffer st") (auto elim!: memory_inv_same [rotated] simp: same_memory_def fill_def own_blocks_def)

text \<open>The promise of a call, for any result it may have.\<close>

definition promised :: "nat \<Rightarrow> (nat \<times> amqp_frame_t) outcome \<times> amqp_connection_state_t \<Rightarrow> bool" where
  "promised avail r = (case r of
       (Ok (n, f), st') \<Rightarrow> n \<le> avail \<and> conn_inv st'
     | (Err e, st') \<Rightarrow> memory_inv st'
     | (Undefined, st') \<Rightarrow> malformed (raw_frame st')
     | (OutOfFuel, st') \<Rightarrow> False)"

lemma promised_finish:
  assumes "holding raw st" and "c \<le> avail"
  shows "promised avail (finish_frame u c st)"
proof -
  obtain r s where run: "finish_frame u c st = (r, s)" by fastforce
  have hb: "length (header_buffer st) = HEADER_SIZE + 1" using assms by (simp add: holding_def)
  from sound_finish [of raw u c] assms(1) run
  have "case r of Ok (n, f) \<Rightarrow> conn_inv s | Err e \<Rightarrow> memory_inv s | Undefined \<Rightarrow> malformed (raw_frame s) | OutOfFuel \<Rightarrow> False"
    by (auto simp: sound_def split: outcome.splits)
  with run assms(2) finish_frame_Ok [OF _ hb, of u c] show ?thesis
    by (auto simp: promised_def split: outcome.splits)
qed

lemma promised_continue:
  assumes mem: "memory_inv st" and hb: "length (header_buffer st) = HEADER_SIZE + 1"
    and st: "conn_state st = CONNECTION_STATE_BODY" "inbound_buffer st = Frame_buffer buf" "length buf = target_size st"
      "HEADER_SIZE \<le> inbound_offset st" "inbound_offset st \<le> target_size st" "8 \<le> target_size st" "target_size st < 2 ^ 32"
    and c: "c + length data \<le> avail"
  shows "promised avail (continue_frame u data c st)"
proof (cases "length data < missing st")
  case True
  have "assembly_inv (fill data st)"
    using st hb True by (auto simp: assembly_inv_def fill_def raw_frame_def missing_def)
  then show ?thesis
    using continue_frame_run [OF body_filling [OF st(1-3,5,7)], of u data c] True c memory_inv_fill [OF mem]
    by (simp add: promised_def conn_inv_def)
next
  case False
  let ?s = "fill (take (missing st) data) st"
  have "holding (raw_frame ?s) ?s"
    using st hb False memory_inv_fill [OF mem, of "take (missing st) data"]
    by (auto simp: holding_def fill_def raw_frame_def missing_def)
  from promised_finish [OF this, of "c + missing st" avail u] False c show ?thesis
    using continue_frame_run [OF body_filling [OF st(1-3,5,7)], of u data c] by simp
qed

lemma promised_begin:
  assumes st: "memory_inv st" "inbound_buffer st = Header_buffer" "length (header_buffer st) = HEADER_SIZE + 1"
      "inbound_offset st \<in> {7, 8}"
    and c: "c + length data \<le> avail"
  shows "promised avail (begin_frame u data c st)"
proof -
  obtain r s where run: "allocate_frame u st = (r, s)" by fastforce
  have "heading (header_buffer st) st" using st by (simp add: heading_def)
  with sound_allocate [of "header_buffer st" u] st(3) run
  have r: "case r of Ok x \<Rightarrow> memory_inv s | Err e \<Rightarrow> memory_inv s | _ \<Rightarrow> False"
    by (auto simp: sound_def split: outcome.splits)
  show ?thesis
  proof (cases r)
    case (Ok x)
    note a = allocate_frame_Ok [OF run [unfolded Ok] st(3)]
    then obtain buf where "inbound_buffer s = Frame_buffer buf" "length buf = target_size s" by blast
    with a r Ok st c have "promised avail (continue_frame u data c s)"
      by (intro promised_continue) auto
    then show ?thesis using run Ok by (simp add: begin_frame_def bindP_def)
  qed (use r run in \<open>auto simp: begin_frame_def bindP_def promised_def\<close>)
qed

lemma promised_protocol:
  assumes "memory_inv st" and "inbound_buffer st = Header_buffer" and "length (header_buffer st) = HEADER_SIZE + 1"
    and "c \<le> avail"
  shows "promised avail (protocol_frame c st)"
proof -
  have "same_memory st (return_to_idle st)" by (simp add: same_memory_def return_to_idle_def own_blocks_def)
  then have "conn_inv (return_to_idle st)"
    using memory_inv_same assms by (auto simp: conn_inv_def assembly_inv_def return_to_idle_def)
  with assms show ?thesis
    by (simp add: protocol_frame_def promised_def bindP_def peek_def raw_frame_def mem_read_def modify_def ret_def)
qed

lemma promised_complete:
  assumes "conn_inv st" and long: "missing (wake st) \<le> length data"
  shows "promised (length data) (complete u (drop (missing (wake st)) data) (missing (wake st))
    (fill (take (missing (wake st)) data) (wake st)))"
proof -
  from assms have inv: "assembly_inv st" and mem: "memory_inv st" by (simp_all add: conn_inv_def)
  let ?m = "missing (wake st)"
  let ?s = "fill (take ?m data) (wake st)"
  have s: "memory_inv ?s" by (rule assembled [OF inv mem]) simp
  have hb: "length (header_buffer ?s) = HEADER_SIZE + 1" by (rule fill_header [OF inv]) simp
  have off: "inbound_offset ?s = target_size (wake st)"
    using wake_filling [OF inv] long by (simp add: filling_def missing_def)
  have avail: "?m + length (drop ?m data) \<le> length data" "?m \<le> length data" using long by simp_all
  show ?thesis
  proof (cases "conn_state (wake st)")
    case CONNECTION_STATE_IDLE
    then show ?thesis by (simp add: wake_def split: if_splits)
  next
    case CONNECTION_STATE_INITIAL
    then have "inbound_buffer ?s = Header_buffer" "inbound_offset ?s \<in> {7, 8}"
      using inv off by (auto simp: assembly_inv_def wake_def fill_def split: if_splits)
    with CONNECTION_STATE_INITIAL promised_begin [OF s _ hb _ avail(1)] promised_protocol [OF s _ hb avail(2)]
    show ?thesis by (simp add: complete_def)
  next
    case CONNECTION_STATE_HEADER
    then have "inbound_buffer ?s = Header_buffer" "inbound_offset ?s \<in> {7, 8}"
      using inv off by (auto simp: assembly_inv_def wake_def fill_def split: if_splits)
    with CONNECTION_STATE_HEADER promised_begin [OF s _ hb _ avail(1)] show ?thesis by (simp add: complete_def)
  next
    case CONNECTION_STATE_BODY
    then have "holding (raw_frame ?s) ?s"
      using inv s hb off long by (auto simp: holding_def assembly_inv_def wake_def fill_def raw_frame_def missing_def split: if_splits)
    from promised_finish [OF this avail(2)] CONNECTION_STATE_BODY show ?thesis by (simp add: complete_def)
  qed
qed

lemma promised_handle_input:
  assumes "conn_inv st"
  shows "promised (length data) (amqp_handle_input u data st)"
proof (cases "data = []")
  case True
  then show ?thesis using assms by (simp add: amqp_handle_input_def ret_def promised_def)
next
  case False
  from assms have inv: "assembly_inv st" and mem: "memory_inv st" by (simp_all add: conn_inv_def)
  note run = handle_input_run [OF inv False, of u]
  show ?thesis
  proof (cases "length data < missing (wake st)")
    case True
    with run assembly_fill [OF inv True False] assembled [OF inv mem, of data] show ?thesis
      by (simp add: promised_def conn_inv_def)
  next
    case long: False
    with run promised_complete [OF assms, of data u] show ?thesis by simp
  qed
qed

text \<open>
  C3: Whatever bytes arrive, in whatever state: a call of \<^verbatim>\<open>amqp_handle_input\<close> keeps the connection's
  invariant and consumes at most the data when it succeeds; when it fails, the pools of all channels
  and the connection's blocks are still intact; and its behaviour is undefined only for the
  malformed frames.
\<close>

theorem amqp_handle_input_safe:
  assumes "conn_inv st"
  shows "case amqp_handle_input u data st of
      (Ok (n, f), st') \<Rightarrow> n \<le> length data \<and> conn_inv st'
    | (Err e, st') \<Rightarrow> memory_inv st'
    | (Undefined, st') \<Rightarrow> malformed (raw_frame st')
    | (OutOfFuel, st') \<Rightarrow> False"
  using promised_handle_input [OF assms, of data u] by (simp add: promised_def)

theorem amqp_handle_input_safe_witness:
  "case amqp_handle_input sample_memory [0x41, 0x4D, 0x51] (first_connection sample_memory) of
      (Ok (n, f), st') \<Rightarrow> n \<le> length [0x41, 0x4D, 0x51 :: byte] \<and> conn_inv st'
    | (Err e, st') \<Rightarrow> memory_inv st'
    | (Undefined, st') \<Rightarrow> malformed (raw_frame st')
    | (OutOfFuel, st') \<Rightarrow> False"
  by (rule amqp_handle_input_safe [OF first_connection(1)])

end
