(* ===== verification/Amqp_Frames.thy ===== *)
theory Amqp_Frames
  imports Amqp_Connection_Safety
begin

text \<open>
  The frame encoder and the frame assembly meet: the wire format of a frame, the exactness of
  \<^verbatim>\<open>amqp_frame_to_bytes\<close>, and the round trip through \<^verbatim>\<open>amqp_handle_input\<close> of the peer.
\<close>

section \<open>The wire format of a frame\<close>

fun wire_payload :: "amqp_payload_t \<Rightarrow> byte list" where
  "wire_payload (Method mid m) = ser32 mid @ ser_method m"
| "wire_payload (Properties class_id body_size (Basic_properties p) _) =
     ser16 class_id @ ser16 0 @ ser64 body_size @ ser_properties p"
| "wire_payload (Properties class_id body_size (Plain_properties fl) _) =
     ser16 class_id @ ser16 0 @ ser64 body_size @ ser_flags fl"
| "wire_payload (Body_fragment bs) = bs"
| "wire_payload _ = []"

definition frame_head :: "amqp_frame_t \<Rightarrow> byte list" where
  "frame_head f = ser8 (frame_type f) @ ser16 (frame_channel f) @ ser32 (of_nat (length (wire_payload (payload f))))"

definition ser_frame :: "amqp_frame_t \<Rightarrow> byte list" where
  "ser_frame f = frame_head f @ wire_payload (payload f) @ ser8 FRAME_END"

text \<open>
  Frames as the library sends them: the payload belongs to the type, methods and properties are
  encodable, only basic content has properties, and the size fits the frame header.
\<close>

definition wf_frame :: "amqp_frame_t \<Rightarrow> bool" where
  "wf_frame f \<longleftrightarrow> length (wire_payload (payload f)) < INT32_MAX \<and>
     (case payload f of
        Method mid m \<Rightarrow> frame_type f = FRAME_METHOD \<and> mid = method_number m \<and> wf_method m
      | Properties class_id _ (Basic_properties p) _ \<Rightarrow> frame_type f = FRAME_HEADER \<and> class_id = 60 \<and> wf_basic p
      | Body_fragment _ \<Rightarrow> frame_type f = FRAME_BODY
      | No_payload \<Rightarrow> frame_type f = FRAME_HEARTBEAT
      | _ \<Rightarrow> False)"

lemma length_frame_head [simp]: "length (frame_head f) = 7"
  by (simp add: frame_head_def)

lemma length_ser_frame [simp]: "length (ser_frame f) = length (wire_payload (payload f)) + 8"
  by (simp add: ser_frame_def)

section \<open>Encoding\<close>

lemma store_at: "k = length a \<Longrightarrow> length b = length ws \<Longrightarrow> store k ws (a @ b @ c) = Ok (a @ ws @ c)"
  by (simp add: store_def mem_write_def)

lemma split_prefix: "n \<le> length xs \<Longrightarrow> \<exists>a b. xs = a @ b \<and> length a = n"
  by (intro exI [of _ "take n xs"] exI [of _ "drop n xs"]) simp

lemma encode_at_Ok:
  assumes "k = length a" and "length b = length ws"
    and "m \<lparr>e_len = n, e_mem = b @ c, e_off = 0\<rparr> = (Ok (length ws), written ws \<lparr>e_len = n, e_mem = b @ c, e_off = 0\<rparr>)"
  shows "encode_at k n m (a @ b @ c) = Ok (length ws, a @ ws @ c)"
  using assms by (simp add: encode_at_def written_def)

lemma encode_at_Err:
  assumes "k = length a" and "m \<lparr>e_len = n, e_mem = b, e_off = 0\<rparr> = (Err e, s)"
  shows "encode_at k n m (a @ b) = Err e"
  using assms by (simp add: encode_at_def)

text \<open>A payload that fits is stored behind the header.\<close>

lemma frame_payload_fits:
  assumes wf: "wf_frame f" and mem: "mem = h @ b @ c" "length h = HEADER_SIZE" "length b = length (wire_payload (payload f))"
    "c \<noteq> []" "length mem \<le> ptrdiff_max"
  shows "frame_payload f (length mem) mem = Ok (length (wire_payload (payload f)), h @ wire_payload (payload f) @ c)"
proof -
  have c: "1 \<le> length c" using mem(4) by (cases c) auto
  show ?thesis
  proof (cases "payload f")
  case (Method mid m)
  with wf have f: "frame_type f = FRAME_METHOD" "mid = method_number m" "wf_method m" by (simp_all add: wf_frame_def)
  from mem(3) Method obtain b1 b2 where b: "b = b1 @ b2" "length b1 = 4" "length b2 = length (ser_method m)"
    using split_prefix [of 4 b] by auto
  let ?s = "\<lparr>e_len = length mem - 12, e_mem = b2 @ c, e_off = 0\<rparr>"
  have s: "e_ok 0 ?s" "fits (ser_method m) ?s"
    using mem b c by (auto simp: e_ok_def fits_def)
  have st: "store 7 (ser32 mid) (h @ b1 @ b2 @ c) = Ok (h @ ser32 mid @ b2 @ c)"
    by (rule store_at) (use mem b in simp_all)
  have "encode_at 11 (length mem - 12) (amqp_encode_method mid m) ((h @ ser32 mid) @ b2 @ c)
      = Ok (length (ser_method m), (h @ ser32 mid) @ ser_method m @ c)"
    by (rule encode_at_Ok) (use mem b encode_method_exact(1) [OF f(3) s] f(2) in simp_all)
  moreover have "size_sub (size_sub (length mem) 11) 1 = length mem - 12" using mem b c by simp
  ultimately show ?thesis
    using f(1) Method mem(1) b(1) st by (simp add: frame_payload_def amqp_e_ser)
next
  case (Properties class_id body_size q raw)
  with wf obtain p where q: "q = Basic_properties p" and f: "frame_type f = FRAME_HEADER" "class_id = 60" "wf_basic p"
    by (auto simp: wf_frame_def split: amqp_properties_t.splits)
  have "length b = 12 + length (ser_properties p)" using mem(3) Properties q by simp
  moreover from calculation obtain b1 r1 where b1: "b = b1 @ r1" "length b1 = 2" using split_prefix [of 2 b] by auto
  moreover from calculation obtain b2 r2 where b2: "r1 = b2 @ r2" "length b2 = 2" using split_prefix [of 2 r1] by auto
  moreover from calculation obtain b3 b4 where b3: "r2 = b3 @ b4" "length b3 = 8" using split_prefix [of 8 r2] by auto
  ultimately have b: "b = b1 @ b2 @ b3 @ b4" and b4: "length b4 = length (ser_properties p)" by simp_all
  let ?s = "\<lparr>e_len = length mem - 20, e_mem = b4 @ c, e_off = 0\<rparr>"
  have s: "e_ok 0 ?s" "fits (ser_properties p) ?s"
    using mem b b1 b2 b3 b4 c by (auto simp: e_ok_def fits_def)
  let ?h = "h @ ser16 class_id @ ser16 0 @ ser64 body_size"
  have st: "store 7 (ser16 class_id) (h @ b1 @ b2 @ b3 @ b4 @ c) = Ok (h @ ser16 class_id @ b2 @ b3 @ b4 @ c)"
    "store 9 (ser16 0) ((h @ ser16 class_id) @ b2 @ b3 @ b4 @ c) = Ok ((h @ ser16 class_id) @ ser16 0 @ b3 @ b4 @ c)"
    "store 11 (ser64 body_size) ((h @ ser16 class_id @ ser16 0) @ b3 @ b4 @ c) = Ok ((h @ ser16 class_id @ ser16 0) @ ser64 body_size @ b4 @ c)"
    by (rule store_at; use mem b1 b2 b3 in simp)+
  have "encode_at 19 (length mem - 20) (amqp_encode_properties class_id q) (?h @ b4 @ c)
      = Ok (length (ser_properties p), ?h @ ser_properties p @ c)"
    by (rule encode_at_Ok) (use mem b4 encode_properties_exact(1) [OF f(3) s] f(2) q in simp_all)
  moreover have "size_sub (size_sub (length mem) 19) 1 = length mem - 20" using mem b b1 b2 b3 b4 c by simp
  ultimately show ?thesis
    using f(1) Properties q mem(1) b st by (simp add: frame_payload_def amqp_e_ser)
next
  case (Body_fragment bs)
  then show ?thesis using wf mem store_at [of 7 h b bs c] by (simp add: frame_payload_def wf_frame_def)
next
  case No_payload
  then show ?thesis using wf mem by (simp add: frame_payload_def wf_frame_def)
next
  case (Protocol_header a b c d)
  then show ?thesis using wf by (simp add: wf_frame_def)
  qed
qed

lemma frame_to_bytes_fits:
  assumes wf: "wf_frame f" and fit: "length (ser_frame f) \<le> length mem" "length mem \<le> ptrdiff_max"
  shows "\<exists>mem'. amqp_frame_to_bytes f (length mem) mem = Ok (ser_frame f, mem') \<and> length mem' = length mem"
proof -
  let ?n = "length (wire_payload (payload f))"
  obtain a0 r0 where a0: "mem = a0 @ r0" "length a0 = 1" using split_prefix [of 1 mem] fit(1) by auto
  obtain a1 r1 where a1: "r0 = a1 @ r1" "length a1 = 2" using split_prefix [of 2 r0] fit(1) a0 by auto
  obtain a2 r2 where a2: "r1 = a2 @ r2" "length a2 = 4" using split_prefix [of 4 r1] fit(1) a0 a1 by auto
  obtain b r3 where b: "r2 = b @ r3" "length b = ?n" using split_prefix [of ?n r2] fit(1) a0 a1 a2 by auto
  obtain e c where e: "r3 = e @ c" "length e = 1" using split_prefix [of 1 r3] fit(1) a0 a1 a2 b by auto
  have "e \<noteq> []" using e(2) by auto
  let ?t = "ser8 (frame_type f)" and ?ch = "ser16 (frame_channel f)" and ?p = "wire_payload (payload f)"
  let ?len = "ser32 (of_nat ?n)"
  have "store 0 ?t ([] @ a0 @ a1 @ a2 @ b @ e @ c) = Ok ([] @ ?t @ a1 @ a2 @ b @ e @ c)"
    "store 1 ?ch (?t @ a1 @ a2 @ b @ e @ c) = Ok (?t @ ?ch @ a2 @ b @ e @ c)"
    "store 3 ?len ((?t @ ?ch) @ a2 @ ?p @ e @ c) = Ok ((?t @ ?ch) @ ?len @ ?p @ e @ c)"
    "store (7 + ?n) (ser8 FRAME_END) ((?t @ ?ch @ ?len @ ?p) @ e @ c) = Ok ((?t @ ?ch @ ?len @ ?p) @ ser8 FRAME_END @ c)"
    by (rule store_at; use a0 a1 a2 b e in simp)+
  moreover have "frame_payload f (length mem) ((?t @ ?ch @ a2) @ b @ e @ c) = Ok (?n, (?t @ ?ch @ a2) @ ?p @ e @ c)"
    using \<open>e \<noteq> []\<close> frame_payload_fits [OF wf, of "(?t @ ?ch @ a2) @ b @ e @ c" "?t @ ?ch @ a2" b "e @ c"] a0 a1 a2 b e fit(2) by simp
  ultimately show ?thesis
    using a0 a1 a2 b e by (simp add: amqp_frame_to_bytes_def amqp_e_ser ser_frame_def frame_head_def)
qed

lemma frame_payload_too_big:
  assumes wf: "wf_frame f" and mem: "mem = h @ b" "length h = HEADER_SIZE" "20 \<le> length mem" "length mem \<le> ptrdiff_max"
    and big: "length mem < length (ser_frame f)" and type: "frame_type f \<noteq> FRAME_BODY"
  shows "\<exists>e. frame_payload f (length mem) mem = Err e"
proof (cases "payload f")
  case (Method mid m)
  with wf have f: "frame_type f = FRAME_METHOD" "mid = method_number m" "wf_method m" by (simp_all add: wf_frame_def)
  obtain b1 b2 where b: "b = b1 @ b2" "length b1 = 4" using split_prefix [of 4 b] mem by auto
  let ?s = "\<lparr>e_len = length mem - 12, e_mem = b2, e_off = 0\<rparr>"
  have "e_ok 0 ?s" "\<not> fits (ser_method m) ?s" using mem b big Method by (auto simp: e_ok_def fits_def)
  from encode_method_exact(2) [OF f(3) this] obtain e s' where enc: "amqp_encode_method mid m ?s = (Err e, s')"
    using f(2) by auto
  have "store 7 (ser32 mid) (h @ b1 @ b2) = Ok (h @ ser32 mid @ b2)" by (rule store_at) (use mem b in simp_all)
  moreover have "encode_at 11 (length mem - 12) (amqp_encode_method mid m) ((h @ ser32 mid) @ b2) = Err e"
    by (rule encode_at_Err) (use mem b enc in simp_all)
  ultimately show ?thesis using f(1) Method mem b by (simp add: frame_payload_def amqp_e_ser)
next
  case (Properties class_id body_size q raw)
  with wf obtain p where q: "q = Basic_properties p" and f: "frame_type f = FRAME_HEADER" "class_id = 60" "wf_basic p"
    by (auto simp: wf_frame_def split: amqp_properties_t.splits)
  obtain b1 r1 where b1: "b = b1 @ r1" "length b1 = 2" using split_prefix [of 2 b] mem by auto
  obtain b2 r2 where b2: "r1 = b2 @ r2" "length b2 = 2" using split_prefix [of 2 r1] mem b1 by auto
  obtain b3 b4 where b3: "r2 = b3 @ b4" "length b3 = 8" using split_prefix [of 8 r2] mem b1 b2 by auto
  let ?s = "\<lparr>e_len = length mem - 20, e_mem = b4, e_off = 0\<rparr>"
  have "e_ok 0 ?s" "\<not> fits (ser_properties p) ?s"
    using mem b1 b2 b3 big Properties q by (auto simp: e_ok_def fits_def)
  from encode_properties_exact(2) [OF f(3) this] obtain e s' where enc: "amqp_encode_properties class_id q ?s = (Err e, s')"
    using f(2) q by auto
  let ?h = "h @ ser16 class_id @ ser16 0 @ ser64 body_size"
  have "store 7 (ser16 class_id) (h @ b1 @ b2 @ b3 @ b4) = Ok (h @ ser16 class_id @ b2 @ b3 @ b4)"
    "store 9 (ser16 0) ((h @ ser16 class_id) @ b2 @ b3 @ b4) = Ok ((h @ ser16 class_id) @ ser16 0 @ b3 @ b4)"
    "store 11 (ser64 body_size) ((h @ ser16 class_id @ ser16 0) @ b3 @ b4) = Ok ((h @ ser16 class_id @ ser16 0) @ ser64 body_size @ b4)"
    by (rule store_at; use mem b1 b2 b3 in simp)+
  moreover have "encode_at 19 (length mem - 20) (amqp_encode_properties class_id q) (?h @ b4) = Err e"
    by (rule encode_at_Err) (use mem enc in simp_all)
  ultimately show ?thesis using f(1) Properties q mem b1 b2 b3 by (simp add: frame_payload_def amqp_e_ser)
next
  case No_payload
  then show ?thesis using wf mem big by (simp add: wf_frame_def)
qed (use wf type in \<open>auto simp: wf_frame_def\<close>)

lemma frame_to_bytes_cases:
  assumes "wf_frame f" and "20 \<le> length mem" and "length mem \<le> ptrdiff_max"
  shows "if length (ser_frame f) \<le> length mem
    then \<exists>mem'. amqp_frame_to_bytes f (length mem) mem = Ok (ser_frame f, mem') \<and> length mem' = length mem
    else if frame_type f = FRAME_BODY then amqp_frame_to_bytes f (length mem) mem = Undefined
    else \<exists>e. amqp_frame_to_bytes f (length mem) mem = Err e"
proof (cases "length (ser_frame f) \<le> length mem")
  case True
  then show ?thesis using frame_to_bytes_fits [OF assms(1) True assms(3)] by simp
next
  case False
  obtain a0 r0 where a0: "mem = a0 @ r0" "length a0 = 1" using split_prefix [of 1 mem] assms(2) by auto
  obtain a1 r1 where a1: "r0 = a1 @ r1" "length a1 = 2" using split_prefix [of 2 r0] assms(2) a0 by auto
  obtain a2 r2 where a2: "r1 = a2 @ r2" "length a2 = 4" using split_prefix [of 4 r1] assms(2) a0 a1 by auto
  let ?t = "ser8 (frame_type f)" and ?ch = "ser16 (frame_channel f)"
  let ?mem = "(?t @ ?ch @ a2) @ r2"
  have "store 0 ?t ([] @ a0 @ a1 @ a2 @ r2) = Ok ([] @ ?t @ a1 @ a2 @ r2)"
    "store 1 ?ch (?t @ a1 @ a2 @ r2) = Ok (?t @ ?ch @ a2 @ r2)"
    by (rule store_at; use a0 a1 a2 in simp)+
  then have run: "amqp_frame_to_bytes f (length mem) mem =
      bindO (frame_payload f (length ?mem) ?mem) (\<lambda>(out_frame_len, mem).
      bindO (store 3 (amqp_e32 host_is_big (of_nat out_frame_len)) mem) (\<lambda>mem.
      bindO (store (HEADER_SIZE + out_frame_len) (amqp_e8 host_is_big FRAME_END) mem) (\<lambda>mem.
      Ok (take (out_frame_len + HEADER_SIZE + FOOTER_SIZE) mem, mem))))"
    using a0 a1 a2 by (simp add: amqp_frame_to_bytes_def amqp_e_ser)
  show ?thesis
  proof (cases "frame_type f = FRAME_BODY")
    case True
    then obtain bs where bs: "payload f = Body_fragment bs"
      using assms(1) by (auto simp: wf_frame_def split: amqp_payload_t.splits amqp_properties_t.splits)
    have "frame_payload f (length ?mem) ?mem = (if length bs \<le> length r2 then Ok (length bs, (?t @ ?ch @ a2) @ bs @ drop (length bs) r2) else Undefined)"
      using True bs a2 by (simp add: frame_payload_def store_def mem_write_def)
    with True False bs a0 a1 a2 have "amqp_frame_to_bytes f (length mem) mem = Undefined"
      unfolding run by (auto simp: store_def mem_write_def amqp_e_ser)
    then show ?thesis using True False by simp
  next
    case False': False
    have "\<exists>e. frame_payload f (length ?mem) ?mem = Err e"
      by (rule frame_payload_too_big [OF assms(1) refl]) (use False False' a0 a1 a2 assms in auto)
    then show ?thesis using False False' by (auto simp: run)
  qed
qed


section \<open>The peer's view\<close>

text \<open>
  The frame the peer assembles: unflagged properties are unspecified, and the encoded properties are
  kept beside the decoded ones.
\<close>

definition received :: "unspecified \<Rightarrow> amqp_frame_t \<Rightarrow> amqp_frame_t" where
  "received u f = (case payload f of
       Properties class_id body_size (Basic_properties p) _ \<Rightarrow>
         f\<lparr>payload := Properties class_id body_size
           (Basic_properties (overlay p (fresh_properties u\<lparr>flags := wire_flags (flags p)\<rparr>))) (ser_properties p)\<rparr>
     | _ \<Rightarrow> f)"

lemma generous_create:
  assumes "generous h" and "amqp_get_or_create_channel_pool fm c t h = (r, t', h')"
  shows "r \<noteq> None" and "generous h'"
proof -
  obtain a h1 where m: "heap_malloc sizeof_pool_table_entry h = (Some a, h1)"
    using generous_malloc [OF assms(1)] by blast
  then have "generous h1" using assms(1) by (auto simp: generous_def heap_malloc_grant)
  with m assms show "r \<noteq> None" "generous h'"
    by (cases "find_entry (t ! pool_index c) c"; auto simp: amqp_get_or_create_channel_pool_def Let_def)+
qed

lemma channel_pool_generous:
  assumes "memory_inv st" and "generous (conn_heap st)"
  obtains t h where "channel_pool c st = (Ok (), st\<lparr>pool_table := t, conn_heap := h\<rparr>)"
    "memory_inv (st\<lparr>pool_table := t, conn_heap := h\<rparr>)" "generous h" "amqp_get_channel_pool t c \<noteq> None"
proof -
  obtain q t h where get: "amqp_get_or_create_channel_pool (size_of_int (frame_max st)) c (pool_table st) (conn_heap st) = (q, t, h)"
    by (metis surj_pair)
  note g = generous_create [OF assms(2) get]
  then have run: "channel_pool c st = (Ok (), st\<lparr>pool_table := t, conn_heap := h\<rparr>)"
    using get by (auto simp: channel_pool_def)
  note c = channel_pool_inv [OF assms(1) run]
  show ?thesis by (rule that [OF run c(1) g(2)]) (use c(3) in simp)
qed

lemma with_pool_generous_ex:
  assumes inv: "memory_inv st" and g: "generous (conn_heap st)" and c: "amqp_get_channel_pool (pool_table st) c \<noteq> None"
    and k: "dkeeps m" and m: "\<And>B p h. ready B \<lparr>offset = 0, dpool = p, dheap = h\<rparr> \<Longrightarrow>
      \<exists>v d. m \<lparr>offset = 0, dpool = p, dheap = h\<rparr> = (Ok v, d) \<and> P v \<and> ready B d"
  obtains v t h where "with_pool c m st = (Ok v, st\<lparr>pool_table := t, conn_heap := h\<rparr>)" "P v"
    "memory_inv (st\<lparr>pool_table := t, conn_heap := h\<rparr>)" "generous h" "amqp_get_channel_pool t c \<noteq> None"
proof -
  from c obtain p where p: "amqp_get_channel_pool (pool_table st) c = Some p" by blast
  have pools: "pools_inv (pool_table st) (conn_heap st) (own_blocks st)" using inv by (simp add: memory_inv_def)
  let ?d = "\<lparr>offset = 0, dpool = p, dheap = conn_heap st\<rparr>" and ?B = "others (pool_table st) c (own_blocks st)"
  have "ready ?B ?d" using d_fail_others [OF pools p, of 0] g by (simp add: ready_def)
  from m [OF this] obtain v d where d: "m ?d = (Ok v, d)" "P v" "ready ?B d" by blast
  let ?t = "set_channel_pool (pool_table st) c (dpool d)"
  have "pools_inv ?t (dheap d) (own_blocks st)"
    by (rule pools_inv_on_pool [OF pools p k d(1)]) (use d(3) in \<open>simp add: ready_def\<close>)
  moreover have "evolves (conn_heap st) (dheap d)" using k d(1) by (metis dkeeps_def dstate.select_convs(3) snd_conv)
  ultimately have "memory_inv (st\<lparr>pool_table := ?t, conn_heap := dheap d\<rparr>)"
    using memory_inv_step [OF inv refl] by blast
  moreover have "with_pool c m st = (Ok v, st\<lparr>pool_table := ?t, conn_heap := dheap d\<rparr>)"
    using d(1) p by (simp add: with_pool_def on_pool_def)
  moreover have "amqp_get_channel_pool ?t c \<noteq> None"
    using pool_table.put_look [OF pools_invD(1) [OF pools] c] by simp
  ultimately show ?thesis using that d(2,3) by (simp add: ready_def)
qed

lemma with_pool_generous:
  assumes "memory_inv st" and "generous (conn_heap st)" and "amqp_get_channel_pool (pool_table st) c \<noteq> None"
    and "dkeeps m" and m: "\<And>B p h. ready B \<lparr>offset = 0, dpool = p, dheap = h\<rparr> \<Longrightarrow>
      \<exists>d. m \<lparr>offset = 0, dpool = p, dheap = h\<rparr> = (Ok v, d) \<and> ready B d"
  obtains t h where "with_pool c m st = (Ok v, st\<lparr>pool_table := t, conn_heap := h\<rparr>)"
    "memory_inv (st\<lparr>pool_table := t, conn_heap := h\<rparr>)" "generous h"
proof -
  have "\<exists>v' d. m \<lparr>offset = 0, dpool = p, dheap = h\<rparr> = (Ok v', d) \<and> v' = v \<and> ready B d"
    if "ready B \<lparr>offset = 0, dpool = p, dheap = h\<rparr>" for B p h using m [OF that] by blast
  from with_pool_generous_ex [OF assms(1-4) this] show ?thesis by (metis that)
qed

lemma at_payload:
  assumes "raw = h @ ws @ [e]" and "length raw < 2 ^ 32"
  shows "at \<lparr>len = length ws, bytes = ws @ [e]\<rparr> ws (s\<lparr>offset := 0\<rparr>)"
  using assms by (simp add: at_def valid_bytes_def ptrdiff_max_def)

text \<open>The decoding of a complete frame succeeds when memory does not run out.\<close>

lemma peek_run: "raw_frame st = a @ ws @ b \<Longrightarrow> k = length a \<Longrightarrow> n = length ws \<Longrightarrow> peek k n d st = (Ok (d ws), st)"
  by (simp add: peek_def mem_read_def)

lemma decode_frame_run:
  assumes wf: "wf_frame f" and st: "holding (ser_frame f) st" "generous (conn_heap st)"
    "amqp_get_channel_pool (pool_table st) (frame_channel f) \<noteq> None"
  shows "\<exists>t h. decode_frame u (frame_type f) (frame_channel f) st = (Ok (received u f), st\<lparr>pool_table := t, conn_heap := h\<rparr>)
    \<and> memory_inv (st\<lparr>pool_table := t, conn_heap := h\<rparr>) \<and> generous h"
proof -
  have inv: "memory_inv st" and len: "length (ser_frame f) < 2 ^ 32" and target: "target_size st = length (ser_frame f)"
    using st(1) by (simp_all add: holding_def)
  note raw = holding_raw [OF st(1)]
  have self: "st = st\<lparr>pool_table := pool_table st, conn_heap := conn_heap st\<rparr>" by simp
  show ?thesis
  proof (cases "payload f")
    case (Method mid m)
    with wf have f: "frame_type f = FRAME_METHOD" "mid = method_number m" "wf_method m" by (simp_all add: wf_frame_def)
    let ?enc = "\<lparr>len = length (ser_method m), bytes = ser_method m @ ser8 FRAME_END\<rparr>"
    have ser: "ser_frame f = frame_head f @ ser32 mid @ ser_method m @ ser8 FRAME_END" using Method by (simp add: ser_frame_def)
    have enc: "payload_from 11 st = ?enc" using target raw ser by (simp add: payload_from_def)
    have id: "peek32 7 st = (Ok mid, st)"
      using peek_run [of st "frame_head f" "ser32 mid" "ser_method m @ ser8 FRAME_END" 7 4 "amqp_d32 host_is_big"] raw ser
      by (simp add: amqp_d_ser)
    have "\<exists>d. amqp_decode_method mid ?enc \<lparr>offset = 0, dpool = p, dheap = h\<rparr> = (Ok m, d) \<and> ready B d"
      if "ready B \<lparr>offset = 0, dpool = p, dheap = h\<rparr>" for B p h
      using reads_method [OF f(3) _ that, of ?enc] len ser f(2)
      by (auto simp: at_def valid_bytes_def ptrdiff_max_def)
    from with_pool_generous [OF inv st(2,3) dkeeps_method this] obtain t h where
      "with_pool (frame_channel f) (amqp_decode_method mid ?enc) st = (Ok m, st\<lparr>pool_table := t, conn_heap := h\<rparr>)"
      "memory_inv (st\<lparr>pool_table := t, conn_heap := h\<rparr>)" "generous h" by metis
    with f Method enc id show ?thesis
      by (intro exI [of _ t] exI [of _ h])
        (cases f, auto simp: decode_frame_def method_frame_def bindP_def gets_def ret_def received_def)
  next
    case (Properties class_id body_size q raw')
    with wf obtain p where q: "q = Basic_properties p" and f: "frame_type f = FRAME_HEADER" "class_id = 60" "wf_basic p"
      by (auto simp: wf_frame_def split: amqp_properties_t.splits)
    let ?enc = "\<lparr>len = length (ser_properties p), bytes = ser_properties p @ ser8 FRAME_END\<rparr>"
    let ?v = "Basic_properties (overlay p (fresh_properties u\<lparr>flags := wire_flags (flags p)\<rparr>))"
    have ser: "ser_frame f = frame_head f @ ser16 class_id @ ser16 0 @ ser64 body_size @ ser_properties p @ ser8 FRAME_END"
      using Properties q by (simp add: ser_frame_def)
    have enc: "payload_from 19 st = ?enc" using target raw ser by (simp add: payload_from_def)
    have id: "peek16 7 st = (Ok class_id, st)" "peek64 11 st = (Ok body_size, st)"
      using peek_run [of st "frame_head f" "ser16 class_id" "ser16 0 @ ser64 body_size @ ser_properties p @ ser8 FRAME_END" 7 2 "amqp_d16 host_is_big"]
        peek_run [of st "frame_head f @ ser16 class_id @ ser16 0" "ser64 body_size" "ser_properties p @ ser8 FRAME_END" 11 8 "amqp_d64 host_is_big"]
        raw ser by (simp_all add: amqp_d_ser)
    have "\<exists>d. amqp_decode_properties (fresh_properties u) class_id ?enc \<lparr>offset = 0, dpool = p', dheap = h\<rparr> = (Ok ?v, d) \<and> ready B d"
      if "ready B \<lparr>offset = 0, dpool = p', dheap = h\<rparr>" for B p' h
      using reads_properties [OF f(3) _ that, of ?enc "fresh_properties u"] len ser f(2)
      by (auto simp: at_def valid_bytes_def ptrdiff_max_def)
    from with_pool_generous [OF inv st(2,3) dkeeps_properties this] obtain t h where
      "with_pool (frame_channel f) (amqp_decode_properties (fresh_properties u) class_id ?enc) st = (Ok ?v, st\<lparr>pool_table := t, conn_heap := h\<rparr>)"
      "memory_inv (st\<lparr>pool_table := t, conn_heap := h\<rparr>)" "generous h" by metis
    with f Properties q enc id show ?thesis
      by (intro exI [of _ t] exI [of _ h])
        (cases f, auto simp: decode_frame_def header_frame_def bindP_def gets_def ret_def received_def contents_def)
  next
    case (Body_fragment bs)
    with wf have f: "frame_type f = FRAME_BODY" by (simp add: wf_frame_def)
    have ser: "ser_frame f = frame_head f @ bs @ ser8 FRAME_END" using Body_fragment by (simp add: ser_frame_def)
    have "payload_from 7 st = \<lparr>len = length bs, bytes = bs @ ser8 FRAME_END\<rparr>" using target raw ser by (simp add: payload_from_def)
    then show ?thesis
      using f Body_fragment inv st(2) self
      by (intro exI [of _ "pool_table st"] exI [of _ "conn_heap st"])
        (cases f, auto simp: decode_frame_def body_frame_def bindP_def gets_def ret_def received_def contents_def)
  next
    case No_payload
    with wf have "frame_type f = FRAME_HEARTBEAT" by (simp add: wf_frame_def)
    then show ?thesis
      using No_payload inv st(2) self
      by (intro exI [of _ "pool_table st"] exI [of _ "conn_heap st"]) (cases f, auto simp: decode_frame_def ret_def received_def)
  qed (use wf in \<open>simp add: wf_frame_def\<close>)
qed

lemma allocate_frame_run:
  assumes n: "length (wire_payload (payload f)) < INT32_MAX" and st: "memory_inv st" "generous (conn_heap st)" "inbound_buffer st = Header_buffer"
      "header_buffer st = frame_head f @ [x]"
    and fit: "int (length (ser_frame f)) \<le> frame_max st"
  shows "\<exists>t h. allocate_frame u st = (Ok (), st\<lparr>target_size := length (ser_frame f), pool_table := t, conn_heap := h,
      inbound_buffer := Frame_buffer (frame_head f @ map (fresh_bytes u) [7..<length (ser_frame f)]),
      conn_state := CONNECTION_STATE_BODY\<rparr>)
    \<and> memory_inv (st\<lparr>pool_table := t, conn_heap := h\<rparr>) \<and> generous h"
proof -
  let ?n = "length (wire_payload (payload f))"
  let ?st = "st\<lparr>target_size := length (ser_frame f)\<rparr>"
  have raw: "raw_frame st = ser8 (frame_type f) @ ser16 (frame_channel f) @ ser32 (of_nat ?n) @ [x]"
    using st by (simp add: raw_frame_def frame_head_def)
  have ch: "peek16 1 st = (Ok (frame_channel f), st)"
    using peek_run [OF raw, of 1 2 "amqp_d16 host_is_big"] by (simp add: amqp_d_ser)
  from n have un: "unat (of_nat ?n :: uint32) = ?n"
    by (simp add: unsigned_of_nat take_bit_nat_eq_self INT32_MAX_def)
  have sz: "peek32 3 st = (Ok (of_nat ?n), st)"
    using peek_run [of st "ser8 (frame_type f) @ ser16 (frame_channel f)" "ser32 (of_nat ?n)" "[x]" 3 4 "amqp_d32 host_is_big"] raw
    by (simp add: amqp_d_ser)
  have inv: "memory_inv ?st" using st(1) by (rule memory_inv_same [rotated]) (simp add: same_memory_def)
  obtain t1 h1 where c: "channel_pool (frame_channel f) ?st = (Ok (), ?st\<lparr>pool_table := t1, conn_heap := h1\<rparr>)"
    "memory_inv (?st\<lparr>pool_table := t1, conn_heap := h1\<rparr>)" "generous h1" "amqp_get_channel_pool t1 (frame_channel f) \<noteq> None"
    by (rule channel_pool_generous [OF inv, of "frame_channel f"]) (use st(2) in simp_all)
  have alloc: "\<exists>v d. pool_alloc (length (ser_frame f)) \<lparr>offset = 0, dpool = p, dheap = h\<rparr> = (Ok v, d) \<and> v \<noteq> None \<and> ready B d"
    if "ready B \<lparr>offset = 0, dpool = p, dheap = h\<rparr>" for B p h
    using ready_pool_alloc [OF _ that, of "length (ser_frame f)"] by (metis length_ser_frame add_is_0 option.distinct(1) zero_neq_numeral)
  obtain v t h where
    w: "with_pool (frame_channel f) (pool_alloc (length (ser_frame f))) (?st\<lparr>pool_table := t1, conn_heap := h1\<rparr>)
      = (Ok v, ?st\<lparr>pool_table := t1, conn_heap := h1, pool_table := t, conn_heap := h\<rparr>)" "v \<noteq> None"
      "memory_inv (?st\<lparr>pool_table := t1, conn_heap := h1, pool_table := t, conn_heap := h\<rparr>)" "generous h"
    by (rule with_pool_generous_ex [OF c(2) _ _ dkeeps_alloc(1) alloc]) (use c(3,4) in simp_all)
  have head: "take HEADER_SIZE (header_buffer st) = frame_head f" using st(4) by simp
  have "size_of_int (frame_max st) \<ge> length (ser_frame f)"
    using fit st(1) by (auto simp: memory_inv_def size_of_int_def)
  then have "allocate_frame u st = (Ok (), st\<lparr>target_size := length (ser_frame f), pool_table := t, conn_heap := h,
      inbound_buffer := Frame_buffer (frame_head f @ map (fresh_bytes u) [7..<length (ser_frame f)]),
      conn_state := CONNECTION_STATE_BODY\<rparr>)"
    using ch sz un n c(1) w(1,2) head
    by (auto simp: allocate_frame_def bindP_def Let_def modify_def gets_def add.commute [of 8])
  moreover have "memory_inv (st\<lparr>pool_table := t, conn_heap := h\<rparr>)"
    using w(3) by (rule memory_inv_same [rotated]) (simp add: same_memory_def)
  ultimately show ?thesis using w(4) by blast
qed

lemma finish_frame_run:
  assumes wf: "wf_frame f" and st: "holding (ser_frame f) st" "generous (conn_heap st)"
  shows "\<exists>st'. finish_frame u c st = (Ok (c, received u f), st') \<and> conn_inv st'
    \<and> conn_state st' = CONNECTION_STATE_IDLE \<and> generous (conn_heap st') \<and> frame_max st' = frame_max st"
proof -
  have inv: "memory_inv st" and target: "target_size st = length (ser_frame f)" using st(1) by (simp_all add: holding_def)
  note raw = holding_raw [OF st(1)]
  have p: "peek8 (size_sub (target_size st) 1) st = (Ok FRAME_END, st)" "peek8 0 st = (Ok (frame_type f), st)"
      "peek16 1 st = (Ok (frame_channel f), st)"
    using peek_run [of st "frame_head f @ wire_payload (payload f)" "ser8 FRAME_END" "[]" "size_sub (target_size st) 1" 1 "amqp_d8 host_is_big"]
      peek_run [of st "[]" "ser8 (frame_type f)" "ser16 (frame_channel f) @ ser32 (of_nat (length (wire_payload (payload f)))) @ wire_payload (payload f) @ ser8 FRAME_END" 0 1 "amqp_d8 host_is_big"]
      peek_run [of st "ser8 (frame_type f)" "ser16 (frame_channel f)" "ser32 (of_nat (length (wire_payload (payload f)))) @ wire_payload (payload f) @ ser8 FRAME_END" 1 2 "amqp_d16 host_is_big"]
      raw target by (simp_all add: ser_frame_def frame_head_def amqp_d_ser)
  obtain t h where c: "channel_pool (frame_channel f) st = (Ok (), st\<lparr>pool_table := t, conn_heap := h\<rparr>)"
    "memory_inv (st\<lparr>pool_table := t, conn_heap := h\<rparr>)" "generous h" "amqp_get_channel_pool t (frame_channel f) \<noteq> None"
    by (rule channel_pool_generous [OF inv st(2)])
  let ?s = "st\<lparr>pool_table := t, conn_heap := h\<rparr>"
  have hold: "holding (ser_frame f) ?s" by (rule holding_step [OF st(1) c(2)])
  from decode_frame_run [OF wf hold, of u] c(3,4) obtain t' h' where
    d: "decode_frame u (frame_type f) (frame_channel f) ?s = (Ok (received u f), ?s\<lparr>pool_table := t', conn_heap := h'\<rparr>)"
      "memory_inv (?s\<lparr>pool_table := t', conn_heap := h'\<rparr>)" "generous h'" by auto
  let ?s' = "?s\<lparr>pool_table := t', conn_heap := h'\<rparr>"
  have "finish_frame u c st = (Ok (c, received u f), return_to_idle ?s')"
    using p c(1) d(1) by (simp add: finish_frame_def bindP_def gets_def modify_def ret_def)
  moreover have "conn_inv (return_to_idle ?s')" by (rule return_idle_inv [OF holding_step [OF hold d(2)]])
  ultimately show ?thesis using d(3) by (auto simp: return_to_idle_def)
qed

text \<open>A frame of acceptable size is assembled in its buffer, whatever it holds.\<close>

lemma handle_input_assembles:
  assumes small: "length (wire_payload (payload f)) < INT32_MAX" and st: "conn_inv st" "conn_state st = CONNECTION_STATE_IDLE" "generous (conn_heap st)"
    and fit: "int (length (ser_frame f)) \<le> frame_max st"
  shows "\<exists>s. amqp_handle_input u (ser_frame f @ rest) st = finish_frame u (length (ser_frame f)) s
    \<and> holding (ser_frame f) s \<and> generous (conn_heap s) \<and> frame_max s = frame_max st"
proof -
  let ?data = "ser_frame f @ rest" and ?w = "wake st"
  have a: "assembly_inv st" and m: "memory_inv st" using st(1) by (simp_all add: conn_inv_def)
  have hb: "length (header_buffer st) = 8" and idle: "inbound_buffer st = Header_buffer" "inbound_offset st = 0" "target_size st = 7"
    using a st(2) by (simp_all add: assembly_inv_def)
  then have w: "missing ?w = 7" "?data \<noteq> []" by (simp_all add: missing_def wake_def st(2) ser_frame_def)
  define s1 where "s1 = st\<lparr>conn_state := CONNECTION_STATE_HEADER, header_buffer := frame_head f @ drop 7 (header_buffer st), inbound_offset := 7\<rparr>"
  have s1: "fill (frame_head f) ?w = s1"
    using idle st(2) by (simp add: fill_def wake_def raw_frame_def s1_def)
  have "amqp_handle_input u ?data st = begin_frame u (wire_payload (payload f) @ ser8 FRAME_END @ rest) 7 s1"
    using handle_input_run [OF a w(2), of u] w(1) s1 by (simp add: ser_frame_def complete_def) (simp add: s1_def)
  moreover have "memory_inv s1"
    using m by (rule memory_inv_same [rotated]) (simp add: s1_def same_memory_def)
  moreover have "length (drop 7 (header_buffer st)) = Suc 0" using hb by simp
  then obtain x where x: "drop 7 (header_buffer st) = [x]" by (auto simp: length_Suc_conv simp del: length_drop)
  ultimately obtain t h where alloc: "allocate_frame u s1 = (Ok (), s1\<lparr>target_size := length (ser_frame f), pool_table := t, conn_heap := h,
      inbound_buffer := Frame_buffer (frame_head f @ map (fresh_bytes u) [7..<length (ser_frame f)]),
      conn_state := CONNECTION_STATE_BODY\<rparr>)" and inv: "memory_inv (s1\<lparr>pool_table := t, conn_heap := h\<rparr>)" and g: "generous h"
    using allocate_frame_run [OF small, of s1 x u] st(3) fit idle(1) by (auto simp: s1_def)
  let ?s2 = "s1\<lparr>target_size := length (ser_frame f), pool_table := t, conn_heap := h,
      inbound_buffer := Frame_buffer (frame_head f @ map (fresh_bytes u) [7..<length (ser_frame f)]), conn_state := CONNECTION_STATE_BODY\<rparr>"
  have len: "length (ser_frame f) < 2 ^ 32" using small by (simp add: INT32_MAX_def)
  have f: "filling ?s2" "missing ?s2 = length (wire_payload (payload f)) + 1"
    using len by (simp_all add: filling_def missing_def raw_frame_def s1_def)
  let ?s3 = "fill (wire_payload (payload f) @ ser8 FRAME_END) ?s2"
  have "begin_frame u (wire_payload (payload f) @ ser8 FRAME_END @ rest) 7 s1 = finish_frame u (length (ser_frame f)) ?s3"
    using alloc continue_frame_run [OF f(1), of u "wire_payload (payload f) @ ser8 FRAME_END @ rest" 7] f(2)
    by (simp add: begin_frame_def bindP_def add.commute)
  moreover have s3: "?s3 = ?s2\<lparr>inbound_buffer := Frame_buffer (ser_frame f), inbound_offset := length (ser_frame f)\<rparr>"
    by (simp add: fill_def raw_frame_def s1_def ser_frame_def)
  moreover have "memory_inv ?s3" unfolding s3 using inv by (rule memory_inv_same [rotated]) (simp add: s1_def same_memory_def)
  then have "holding (ser_frame f) ?s3" using len hb unfolding s3 by (simp add: holding_def s1_def)
  ultimately show ?thesis using g \<open>amqp_handle_input u ?data st = _\<close> by (intro exI [of _ ?s3]) (simp add: s1_def)
qed

lemma handle_input_frame:
  assumes wf: "wf_frame f" and st: "conn_inv st" "conn_state st = CONNECTION_STATE_IDLE" "generous (conn_heap st)"
    and fit: "int (length (ser_frame f)) \<le> frame_max st"
  shows "\<exists>st'. amqp_handle_input u (ser_frame f @ rest) st = (Ok (length (ser_frame f), received u f), st')
    \<and> conn_inv st' \<and> conn_state st' = CONNECTION_STATE_IDLE \<and> generous (conn_heap st') \<and> frame_max st' = frame_max st"
proof -
  have "length (wire_payload (payload f)) < INT32_MAX" using wf by (simp add: wf_frame_def)
  from handle_input_assembles [OF this st fit, of u rest] obtain s where
    "amqp_handle_input u (ser_frame f @ rest) st = finish_frame u (length (ser_frame f)) s"
    "holding (ser_frame f) s" "generous (conn_heap s)" "frame_max s = frame_max st" by blast
  with finish_frame_run [OF wf, of s u "length (ser_frame f)"] show ?thesis by simp
qed

text \<open>
  Receiving what arrives piece by piece, as the receiving loops do.
\<close>

fun receive_pieces :: "unspecified \<Rightarrow> byte list list \<Rightarrow> amqp_frame_t list cprog" where
  "receive_pieces u [] = ret []"
| "receive_pieces u (piece # pieces) =
     bindP (receive u piece) (\<lambda>fs. bindP (receive_pieces u pieces) (\<lambda>gs. ret (fs @ gs)))"

lemma receive_inv:
  assumes "assembly_inv st" and "receive u xs st = (Ok fs, st')"
  shows "assembly_inv st'"
  using assms
proof (induction "length xs" arbitrary: xs st fs rule: less_induct)
  case less
  show ?case
  proof (cases "xs = []")
    case True
    then show ?thesis using less.prems by (simp add: ret_def)
  next
    case False
    from less.prems(2) obtain n f s gs where step: "amqp_handle_input u xs st = (Ok (n, f), s)"
      and more: "receive u (drop n xs) s = (Ok gs, st')"
      unfolding receive_step [OF less.prems(1) False] by (auto elim!: bindP_OkE simp: ret_def)
    note p = handle_input_progress [OF less.prems(1) False step]
    show ?thesis by (rule less.hyps [OF _ p(3) more]) (use p False in simp)
  qed
qed

lemma receive_pieces_concat:
  assumes "assembly_inv st"
  shows "receive_pieces u pieces st = receive u (concat pieces) st"
  using assms
proof (induction pieces arbitrary: st)
  case (Cons piece pieces)
  have "bindP (receive_pieces u pieces) (\<lambda>gs. ret (fs @ gs)) s = bindP (receive u (concat pieces)) (\<lambda>gs. ret (fs @ gs)) s"
    if "receive u piece st = (Ok fs, s)" for fs s
    using Cons.IH [OF receive_inv [OF Cons.prems that]] by (simp add: bindP_def)
  then show ?case
    using receive_append [OF Cons.prems, of u piece "concat pieces"]
    by (auto simp: bindP_def [of "receive u piece"] split: prod.splits outcome.splits)
qed simp

lemma wf_frame_type: "wf_frame f \<Longrightarrow> frame_type (received u f) \<noteq> 0"
  by (auto simp: wf_frame_def received_def split: amqp_payload_t.splits amqp_properties_t.splits)

lemma receive_frames:
  assumes "\<And>f. f \<in> set fs \<Longrightarrow> wf_frame f \<and> int (length (ser_frame f)) \<le> frame_max st"
    and st: "conn_inv st" "conn_state st = CONNECTION_STATE_IDLE" "generous (conn_heap st)"
  shows "\<exists>st'. receive u (concat (map ser_frame fs)) st = (Ok (map (received u) fs), st')
    \<and> conn_inv st' \<and> conn_state st' = CONNECTION_STATE_IDLE"
  using assms
proof (induction fs arbitrary: st)
  case (Cons f fs)
  let ?rest = "concat (map ser_frame fs)"
  from Cons.prems(1) [of f] handle_input_frame [of f st u ?rest] Cons.prems(2-) obtain s where
    s: "amqp_handle_input u (ser_frame f @ ?rest) st = (Ok (length (ser_frame f), received u f), s)"
      "conn_inv s" "conn_state s = CONNECTION_STATE_IDLE" "generous (conn_heap s)" "frame_max s = frame_max st" by auto
  from Cons.IH [OF _ s(2-4)] Cons.prems(1) s(5) obtain st' where
    st': "receive u ?rest s = (Ok (map (received u) fs), st')" "conn_inv st'" "conn_state st' = CONNECTION_STATE_IDLE" by auto
  have a: "assembly_inv st" using Cons.prems(2) by (simp add: conn_inv_def)
  have "ser_frame f @ ?rest \<noteq> []" by (simp add: ser_frame_def frame_head_def)
  from receive_step [OF a this, of u] s(1) st'(1) Cons.prems(1) [of f] wf_frame_type [of f u]
  have "receive u (ser_frame f @ ?rest) st = (Ok (received u f # map (received u) fs), st')"
    by (simp add: bindP_def ret_def)
  with st' show ?case by simp
qed (simp add: ret_def)

text \<open>
  C1: What one side sends, the other side receives: the encodings of any frames that respect the agreed
  frame size, delivered in whatever pieces, are assembled to exactly these frames in order, and the
  connection is idle and intact afterwards, provided that memory does not run out.
\<close>

theorem frames_round_trip:
  assumes "conn_inv st" and "conn_state st = CONNECTION_STATE_IDLE" and "generous (conn_heap st)"
    and "\<And>f. f \<in> set fs \<Longrightarrow> wf_frame f \<and> int (length (ser_frame f)) \<le> frame_max st"
    and "concat pieces = concat (map ser_frame fs)"
  shows "\<exists>st'. receive_pieces u pieces st = (Ok (map (received u) fs), st')
    \<and> conn_inv st' \<and> conn_state st' = CONNECTION_STATE_IDLE"
proof -
  have "assembly_inv st" using assms(1) by (simp add: conn_inv_def)
  from receive_pieces_concat [OF this, of u pieces] receive_frames [OF assms(4,1-3), of fs u] show ?thesis
    by (simp add: assms(5))
qed

definition sample_frames :: "amqp_frame_t list" where
  "sample_frames = [\<lparr>frame_type = FRAME_BODY, frame_channel = 1, payload = Body_fragment [0x68, 0x69]\<rparr>,
     \<lparr>frame_type = FRAME_HEARTBEAT, frame_channel = 0, payload = No_payload\<rparr>]"


theorem frames_round_trip_witness:
  "\<exists>st'. receive_pieces sample_memory [[3], [0, 1, 0, 0, 0, 2, 0x68], [0x69, 206, 8, 0, 0, 0, 0, 0, 0, 206]]
      (return_to_idle (first_connection sample_memory)) = (Ok sample_frames, st')
    \<and> conn_inv st' \<and> conn_state st' = CONNECTION_STATE_IDLE"
proof -
  let ?st = "return_to_idle (first_connection sample_memory)"
  have st: "conn_inv ?st" "conn_state ?st = CONNECTION_STATE_IDLE" "generous (conn_heap ?st)" "frame_max ?st = 65536"
    using first_connection [of sample_memory] return_to_idle_inv [OF first_connection(1)] by (simp_all add: return_to_idle_def)
  have "concat [[3], [0, 1, 0, 0, 0, 2, 0x68], [0x69, 206, 8, 0, 0, 0, 0, 0, 0, 206]] = concat (map ser_frame sample_frames)"
    by (simp add: sample_frames_def ser_frame_def frame_head_def ser8_def ser16_def ser32_def be_bytes_def upt_rec)
  moreover have "map (received sample_memory) sample_frames = sample_frames" by (simp add: sample_frames_def received_def)
  moreover have "wf_frame f \<and> int (length (ser_frame f)) \<le> frame_max ?st" if "f \<in> set sample_frames" for f
    using that st(4) by (auto simp: sample_frames_def wf_frame_def INT32_MAX_def)
  ultimately show ?thesis using frames_round_trip [OF st(1-3), of sample_frames _ sample_memory] by metis
qed

section \<open>Frames that the assembly does not expect\<close>

text \<open>
  C35: A method frame without room for its method number is not rejected: the number is read behind the
  end of the frame.
\<close>

theorem short_method_frame_read_outside:
  assumes "conn_inv st" and "conn_state st = CONNECTION_STATE_IDLE" and "generous (conn_heap st)" and "8 \<le> frame_max st"
  shows "fst (amqp_handle_input u [1, 0, 0, 0, 0, 0, 0, FRAME_END] st) = Undefined"
proof -
  let ?f = "\<lparr>frame_type = FRAME_METHOD, frame_channel = 0, payload = No_payload\<rparr>"
  have ser: "ser_frame ?f = [1, 0, 0, 0, 0, 0, 0, FRAME_END]" by (simp add: ser_frame_def frame_head_def ser8_def ser16_def ser32_def be_bytes_def upt_rec)
  from handle_input_assembles [of ?f st u "[]", OF _ assms(1-3)] assms(4) obtain s where
    s: "amqp_handle_input u (ser_frame ?f) st = finish_frame u 8 s" "holding (ser_frame ?f) s" "generous (conn_heap s)"
    by (auto simp: INT32_MAX_def)
  have inv: "memory_inv s" and target: "target_size s = 8" and raw: "raw_frame s = [1, 0, 0, 0, 0, 0, 0, FRAME_END]"
    using s(2) holding_raw [OF s(2)] by (simp_all add: holding_def ser)
  have p: "peek8 7 s = (Ok FRAME_END, s)" "peek8 0 s = (Ok FRAME_METHOD, s)" "peek16 1 s = (Ok (amqp_d16 host_is_big [0, 0]), s)"
    by (simp_all add: peek_def mem_read_def raw)
  obtain t h where c: "channel_pool (amqp_d16 host_is_big [0, 0]) s = (Ok (), s\<lparr>pool_table := t, conn_heap := h\<rparr>)"
    by (rule channel_pool_generous [OF inv s(3)])
  have "peek32 7 (s\<lparr>pool_table := t, conn_heap := h\<rparr>) = (Undefined, s\<lparr>pool_table := t, conn_heap := h\<rparr>)"
    using raw s(2) by (simp add: peek_def mem_read_def raw_frame_def holding_def)
  with p c target have "fst (finish_frame u 8 s) = Undefined"
    by (simp add: finish_frame_def bindP_def gets_def decode_frame_def method_frame_def)
  with s(1) ser show ?thesis by simp
qed

theorem short_method_frame_read_outside_witness:
  "fst (amqp_handle_input sample_memory [1, 0, 0, 0, 0, 0, 0, FRAME_END] (return_to_idle (first_connection sample_memory))) = Undefined"
  by (rule short_method_frame_read_outside [OF return_to_idle_inv [OF first_connection(1)]])
    (use first_connection [of sample_memory] in \<open>simp_all add: return_to_idle_def\<close>)

text \<open>
  C36: A frame that exceeds the agreed size is rejected, but the connection is left with the size of the
  rejected frame as its target: the next call copies its data behind the end of the header buffer.
\<close>

theorem rejected_frame_then_overflow:
  assumes "conn_inv st" and "conn_state st = CONNECTION_STATE_IDLE" and "frame_max st = 65536"
  shows "\<exists>st'. amqp_handle_input u [3, 0, 1, 0, 1, 0, 0] st = (Err AMQP_STATUS_BAD_AMQP_DATA, st')
    \<and> fst (amqp_handle_input u [0, 0] st') = Undefined"
proof -
  have a: "assembly_inv st" using assms(1) by (simp add: conn_inv_def)
  have hb: "length (header_buffer st) = 8" and idle: "inbound_buffer st = Header_buffer" "inbound_offset st = 0" "target_size st = 7"
    using a assms(2) by (simp_all add: assembly_inv_def)
  have ser: "ser32 65536 = [0, 1, 0, 0]" by code_simp
  let ?hd = "[3, 0, 1, 0, 1, 0, 0] :: byte list"
  let ?s1 = "st\<lparr>conn_state := CONNECTION_STATE_HEADER, header_buffer := ?hd @ drop 7 (header_buffer st), inbound_offset := 7\<rparr>"
  have w: "missing (wake st) = 7" "fill ?hd (wake st) = ?s1"
    using idle assms(2) by (simp_all add: missing_def wake_def fill_def raw_frame_def eval_nat_numeral)
  have "amqp_handle_input u ?hd st = begin_frame u [] 7 ?s1"
    using handle_input_run [OF a, of ?hd u] w by (simp add: complete_def)
  moreover have p: "peek16 1 ?s1 = (Ok (amqp_d16 host_is_big [0, 1]), ?s1)" "peek32 3 ?s1 = (Ok (amqp_d32 host_is_big (ser32 65536)), ?s1)"
    using idle by (simp_all add: peek_def mem_read_def raw_frame_def ser)
  moreover have "size_of_int 65536 = 65536" by (simp add: size_of_int_def)
  ultimately have run: "amqp_handle_input u ?hd st = (Err AMQP_STATUS_BAD_AMQP_DATA, ?s1\<lparr>target_size := 65544\<rparr>)"
    using assms(3) by (simp add: begin_frame_def allocate_frame_def bindP_def amqp_d_ser Let_def INT32_MAX_def modify_def gets_def throw_def)
  have "fst (amqp_handle_input u [0, 0] (?s1\<lparr>target_size := 65544\<rparr>)) = Undefined"
    using idle hb by (simp add: amqp_handle_input_def bindP_def modify_def consume_data_def Let_def mem_write_def raw_frame_def)
  with run show ?thesis by blast
qed

theorem rejected_frame_then_overflow_witness:
  "\<exists>st'. amqp_handle_input sample_memory [3, 0, 1, 0, 1, 0, 0] (return_to_idle (first_connection sample_memory))
      = (Err AMQP_STATUS_BAD_AMQP_DATA, st')
    \<and> fst (amqp_handle_input sample_memory [0, 0] st') = Undefined"
  by (rule rejected_frame_then_overflow [OF return_to_idle_inv [OF first_connection(1)]])
    (use first_connection [of sample_memory] in \<open>simp_all add: return_to_idle_def\<close>)

text \<open>
  When the very first bytes of a connection are a frame and not a protocol header, eight bytes have
  been read before the frame gets its buffer, and only seven of them are copied there: the first
  byte of the payload is lost, and the one in the frame is whatever the buffer held.
\<close>

theorem first_frame_loses_byte:
  assumes inv: "conn_inv st" and st: "conn_state st = CONNECTION_STATE_INITIAL" "inbound_offset st = 0" "generous (conn_heap st)"
    and fm: "9 \<le> frame_max st"
  shows "\<exists>st'. amqp_handle_input u [3, 0, 1, 0, 0, 0, 1, x, FRAME_END] st =
    (Ok (9, \<lparr>frame_type = FRAME_BODY, frame_channel = 1, payload = Body_fragment [fresh_bytes u 7]\<rparr>), st')"
proof -
  let ?f = "\<lparr>frame_type = FRAME_BODY, frame_channel = 1, payload = Body_fragment [fresh_bytes u 7]\<rparr>"
  have a: "assembly_inv st" and m: "memory_inv st" using inv by (simp_all add: conn_inv_def)
  have hb: "length (header_buffer st) = 8" and ib: "inbound_buffer st = Header_buffer" "target_size st = 8"
    using a st(1) by (simp_all add: assembly_inv_def)
  have head: "frame_head ?f = [3, 0, 1, 0, 0, 0, 1]"
    by (simp add: frame_head_def ser8_def ser16_def ser32_def be_bytes_def upt_rec)
  define s1 where "s1 = st\<lparr>header_buffer := [3, 0, 1, 0, 0, 0, 1, x], inbound_offset := 8\<rparr>"
  have w: "missing (wake st) = 8" "fill [3, 0, 1, 0, 0, 0, 1, x] (wake st) = s1"
    using st ib hb by (simp_all add: missing_def wake_def fill_def raw_frame_def s1_def eval_nat_numeral)
  have "raw_frame s1 = [3, 0, 1, 0, 0, 0, 1, x]" using ib by (simp add: raw_frame_def s1_def)
  then have "amqp_handle_input u [3, 0, 1, 0, 0, 0, 1, x, FRAME_END] st = begin_frame u [FRAME_END] 8 s1"
    using handle_input_run [OF a, of "[3, 0, 1, 0, 0, 0, 1, x, FRAME_END]" u] w st(1)
    by (simp add: complete_def protocol_header_def s1_def)
  moreover have "memory_inv s1" using m by (rule memory_inv_same [rotated]) (simp add: s1_def same_memory_def)
  then obtain t h where alloc: "allocate_frame u s1 = (Ok (), s1\<lparr>target_size := 9, pool_table := t, conn_heap := h,
      inbound_buffer := Frame_buffer (frame_head ?f @ map (fresh_bytes u) [7..<9]), conn_state := CONNECTION_STATE_BODY\<rparr>)"
      and inv: "memory_inv (s1\<lparr>pool_table := t, conn_heap := h\<rparr>)" and g: "generous h"
    using allocate_frame_run [of ?f s1 x u] st(3) fm ib(1) by (auto simp: s1_def head INT32_MAX_def)
  let ?s2 = "s1\<lparr>target_size := 9, pool_table := t, conn_heap := h,
      inbound_buffer := Frame_buffer (frame_head ?f @ map (fresh_bytes u) [7..<9]), conn_state := CONNECTION_STATE_BODY\<rparr>"
  have up: "[7..<9] = [7, 8 :: nat]" by (simp add: upt_rec)
  have f: "filling ?s2" "missing ?s2 = 1" by (simp_all add: filling_def missing_def raw_frame_def s1_def)
  have "begin_frame u [FRAME_END] 8 s1 = finish_frame u 9 (fill [FRAME_END] ?s2)"
    using alloc continue_frame_run [OF f(1), of u "[FRAME_END]" 8] f(2) by (simp add: begin_frame_def bindP_def)
  moreover have s3: "fill [FRAME_END] ?s2 = ?s2\<lparr>inbound_buffer := Frame_buffer (ser_frame ?f), inbound_offset := 9\<rparr>"
    by (simp add: fill_def raw_frame_def s1_def ser_frame_def up ser8_def be_bytes_def upt_rec)
  moreover have "memory_inv (fill [FRAME_END] ?s2)"
    unfolding s3 using inv by (rule memory_inv_same [rotated]) (simp add: s1_def same_memory_def)
  then have "holding (ser_frame ?f) (fill [FRAME_END] ?s2)" unfolding s3 by (simp add: holding_def s1_def)
  moreover have "wf_frame ?f" by (simp add: wf_frame_def INT32_MAX_def)
  moreover have "received u ?f = ?f" by (simp add: received_def)
  ultimately show ?thesis using finish_frame_run [of ?f "fill [FRAME_END] ?s2" u 9] g by auto
qed

theorem first_frame_loses_byte_witness:
  "\<exists>st'. amqp_handle_input sample_memory [3, 0, 1, 0, 0, 0, 1, 0x68, FRAME_END] (first_connection sample_memory) =
    (Ok (9, \<lparr>frame_type = FRAME_BODY, frame_channel = 1, payload = Body_fragment [0]\<rparr>), st')"
  using first_frame_loses_byte [of "first_connection sample_memory" sample_memory "0x68"] first_connection [of sample_memory]
  by (simp add: sample_memory_def)

end
