(* ===== verification/Amqp_Lifecycle.thy ===== *)
theory Amqp_Lifecycle
  imports Amqp_Connection_Safety
begin

text \<open>
  The life of a connection beside its frames: destroying it, recycling its pools, and changing its
  limits, which reallocates the outbound buffer.
\<close>

section \<open>Destroying a connection\<close>

definition connection_blocks :: "amqp_connection_state_t \<Rightarrow> nat set" where
  "connection_blocks st = insert (conn_block st) (set_option (outbound_block st) \<union> set_option (sock_inbound_block st)
     \<union> set (pool_blocks (properties_pool st)) \<union> table_blocks (pool_table st))"

lemma heap_free_live:
  assumes "\<And>b. p = Some b \<Longrightarrow> h_live h b \<noteq> None"
  shows "h_live (heap_free p h) = h_live h |` (- set_option p)" and "h_fault (heap_free p h) = h_fault h"
    and "h_calls (heap_free p h) = h_calls h"
  using assms by (auto simp: heap_free_def restrict_map_def fun_eq_iff split: option.splits)

lemma heap_inv_free: "heap_inv h \<Longrightarrow> heap_inv (heap_free p h)"
  by (auto simp: heap_inv_def heap_free_def split: option.splits)

lemma heap_inv_fold_free: "heap_inv h \<Longrightarrow> heap_inv (fold (\<lambda>b. heap_free (Some b)) bs h)"
  by (induction bs arbitrary: h) (simp_all add: heap_inv_free)

lemma heap_inv_empty: "heap_inv h \<Longrightarrow> heap_inv (snd (empty_amqp_pool p h))"
  by (auto simp: empty_amqp_pool_def recycle_amqp_pool_def empty_blocklist_def Let_def heap_inv_free heap_inv_fold_free
      split: prod.splits option.splits)

lemma heap_inv_destroy_entries: "heap_inv h \<Longrightarrow> heap_inv (destroy_entries es h)"
  by (induction es arbitrary: h) (simp_all add: heap_inv_free heap_inv_empty)

text \<open>
  Destroying a connection gives back every block that belongs to it, its pools and pages, the table
  entries, its buffers and the structure itself, and the block \<open>sb\<close> of its socket if it has one, each exactly once, and no
  other block.
\<close>

lemma destroy_memory_exact:
  assumes inv: "memory_inv st"
    and sb: "\<And>b. sb = Some b \<Longrightarrow> h_live (conn_heap st) b \<noteq> None \<and> b \<notin> own_blocks st \<and> b \<notin> connection_blocks st"
  shows "h_live (destroy_state st (heap_free sb (destroy_buffers st (conn_heap st)))) =
      h_live (conn_heap st) |` (- (connection_blocks st \<union> set_option sb))"
    and "\<not> h_fault (destroy_state st (heap_free sb (destroy_buffers st (conn_heap st))))"
proof -
  let ?own = "own_blocks st" and ?p = "properties_pool st"
  have pools: "pools_inv (pool_table st) (conn_heap st) ?own" and pool: "pool_inv ?p (conn_heap st)"
    and apart: "own_distinct st" using inv by (simp_all add: memory_inv_def)
  define h1 where "h1 = destroy_pools (pool_table st) (conn_heap st)"
  define h2 where "h2 = heap_free (outbound_block st) h1"
  define h3 where "h3 = heap_free (sock_inbound_block st) h2"
  define h3' where "h3' = heap_free sb h3"
  obtain p4 h4 where h4: "empty_amqp_pool ?p h3' = (p4, h4)" by fastforce
  note x1 = destroy_pools_exact [OF pools, folded h1_def]
  have i1: "heap_inv h1" unfolding h1_def destroy_pools_concat
    by (rule heap_inv_destroy_entries [OF pools_invD(2) [OF pools]])
  have x2: "h_live h2 = h_live h1 |` (- set_option (outbound_block st))" "h_fault h2 = h_fault h1"
    unfolding h2_def by (rule heap_free_live; use x1(3) in \<open>auto simp: own_blocks_def\<close>)+
  have x3: "h_live h3 = h_live h2 |` (- set_option (sock_inbound_block st))" "h_fault h3 = h_fault h2"
    unfolding h3_def by (rule heap_free_live; use x1(3) x2(1) apart in \<open>auto simp: own_blocks_def own_distinct_def restrict_map_def\<close>)+
  have "h_live h3 b \<noteq> None" if "sb = Some b" for b
    using sb [OF that] by (auto simp: x3(1) x2(1) x1(1) restrict_map_def connection_blocks_def)
  then have x3': "h_live h3' = h_live h3 |` (- set_option sb)" "h_fault h3' = h_fault h3"
    unfolding h3'_def by (rule heap_free_live; simp)+
  have i3: "heap_inv h3'" unfolding h3'_def h3_def h2_def by (intro heap_inv_free i1)
  have "h_live h3' b = h_live (conn_heap st) b" if "b \<in> foot ?p" for b
  proof -
    have own: "b \<in> ?own" using that by (simp add: own_blocks_def)
    from x1(3) [OF this] have "h_live h1 b = h_live (conn_heap st) b" by (auto simp: x1(1) restrict_map_def split: if_splits)
    moreover have "b \<notin> set_option (outbound_block st)" "b \<notin> set_option (sock_inbound_block st)" using apart that by (auto simp: own_distinct_def)
    moreover have "b \<notin> set_option sb" using sb own by auto
    ultimately show ?thesis by (simp add: x2(1) x3(1) x3'(1))
  qed
  then have "pool_inv ?p h3'" using pool_inv_heap_cong [OF pool i3] by (auto simp: foot_def)
  note x4 = empty_pool_exact [OF this h4]
  have "conn_block st \<notin> set_option sb" using sb by (auto simp: own_blocks_def)
  then have "h_live h4 (conn_block st) \<noteq> None"
    using x1(3) [of "conn_block st"] apart
    by (auto simp: own_blocks_def x2(1) x3(1) x3'(1) x4(5) own_distinct_def restrict_map_def foot_def)
  then have x5: "h_live (heap_free (Some (conn_block st)) h4) = h_live h4 |` (- {conn_block st})"
    "h_fault (heap_free (Some (conn_block st)) h4) = h_fault h4"
    using heap_free_live [of "Some (conn_block st)" h4] by simp_all
  have destroy: "destroy_state st (heap_free sb (destroy_buffers st (conn_heap st))) = heap_free (Some (conn_block st)) h4"
    by (simp add: destroy_state_def destroy_buffers_def h4 flip: h1_def h2_def h3_def h3'_def)
  show "h_live (destroy_state st (heap_free sb (destroy_buffers st (conn_heap st)))) =
      h_live (conn_heap st) |` (- (connection_blocks st \<union> set_option sb))"
    unfolding destroy x5(1) x4(5) x3'(1) x3(1) x2(1) x1(1) by (auto simp: restrict_map_def connection_blocks_def fun_eq_iff)
  show "\<not> h_fault (destroy_state st (heap_free sb (destroy_buffers st (conn_heap st))))"
    unfolding destroy x5(2) x4(3) x3'(2) x3(2) x2(2) by (rule x1(2))
qed

section \<open>Releasing the buffers\<close>

text \<open>What recycling makes of a pool; it does not depend on the heap.\<close>

definition recycled :: "amqp_pool_t \<Rightarrow> amqp_pool_t" where
  "recycled p = p\<lparr>large_blocks := empty_blocks, next_page := 0, alloc_block := None, alloc_used := 0\<rparr>"

lemma recycle_recycled: "fst (recycle_amqp_pool p h) = recycled p"
  by (simp add: recycle_amqp_pool_def recycled_def empty_blocklist_def Let_def)

lemma recycled_recycled [simp]: "recycled (recycled p) = recycled p"
  by (simp add: recycled_def)

abbreviation queued :: "amqp_connection_state_t \<Rightarrow> amqp_channel_t set" where
  "queued st \<equiv> frame_channel ` set (first_queued_frame st)"

lemma release_channel:
  assumes inv: "memory_inv st" and idle: "conn_state st = CONNECTION_STATE_IDLE"
  shows "\<exists>t h. amqp_maybe_release_buffers_on_channel c st = st\<lparr>pool_table := t, conn_heap := h\<rparr>
    \<and> memory_inv (st\<lparr>pool_table := t, conn_heap := h\<rparr>)
    \<and> (\<forall>d. amqp_get_channel_pool t d =
        (if d = c \<and> c \<notin> queued st then map_option recycled (amqp_get_channel_pool (pool_table st) d)
         else amqp_get_channel_pool (pool_table st) d))"
proof (cases "c \<notin> queued st \<and> amqp_get_channel_pool (pool_table st) c \<noteq> None")
  case True
  then obtain p where p: "amqp_get_channel_pool (pool_table st) c = Some p" by blast
  have pools: "pools_inv (pool_table st) (conn_heap st) (own_blocks st)" using inv by (simp add: memory_inv_def)
  obtain p' h where run: "recycle_amqp_pool p (conn_heap st) = (p', h)" by fastforce
  let ?t = "set_channel_pool (pool_table st) c p'"
  note r = recycle_keeps_inv [OF pools_invD(8) [OF pools p] run]
  have "evolves (conn_heap st) h" using r by (auto simp: evolves_def restrict_map_def)
  then have "memory_inv (st\<lparr>pool_table := ?t, conn_heap := h\<rparr>)"
    by (rule memory_inv_step [OF inv refl pools_inv_recycle [OF pools p run]])
  moreover have "amqp_maybe_release_buffers_on_channel c st = st\<lparr>pool_table := ?t, conn_heap := h\<rparr>"
    using True p run idle by (simp add: amqp_maybe_release_buffers_on_channel_def)
  moreover have "amqp_get_channel_pool ?t = (amqp_get_channel_pool (pool_table st))(c \<mapsto> p')"
    using pool_table.put_look [OF pools_invD(1) [OF pools]] p by simp
  moreover have "p' = recycled p" using recycle_recycled [of p "conn_heap st"] run by simp
  ultimately show ?thesis using True p by (intro exI [of _ ?t] exI [of _ h]) auto
next
  case False
  then have "amqp_maybe_release_buffers_on_channel c st = st"
    by (auto simp: amqp_maybe_release_buffers_on_channel_def)
  then show ?thesis using False inv by (intro exI [of _ "pool_table st"] exI [of _ "conn_heap st"]) auto
qed

lemma release_channels:
  assumes "memory_inv st" and "conn_state st = CONNECTION_STATE_IDLE"
  shows "\<exists>t h. fold amqp_maybe_release_buffers_on_channel cs st = st\<lparr>pool_table := t, conn_heap := h\<rparr>
    \<and> memory_inv (st\<lparr>pool_table := t, conn_heap := h\<rparr>)
    \<and> (\<forall>d. amqp_get_channel_pool t d =
        (if d \<in> set cs \<and> d \<notin> queued st then map_option recycled (amqp_get_channel_pool (pool_table st) d)
         else amqp_get_channel_pool (pool_table st) d))"
  using assms
proof (induction cs arbitrary: st)
  case Nil
  then show ?case by (intro exI [of _ "pool_table st"] exI [of _ "conn_heap st"]) simp
next
  case (Cons c cs)
  obtain t h where r: "amqp_maybe_release_buffers_on_channel c st = st\<lparr>pool_table := t, conn_heap := h\<rparr>"
    "memory_inv (st\<lparr>pool_table := t, conn_heap := h\<rparr>)"
    "\<And>d. amqp_get_channel_pool t d = (if d = c \<and> c \<notin> queued st then map_option recycled (amqp_get_channel_pool (pool_table st) d)
      else amqp_get_channel_pool (pool_table st) d)"
    using release_channel [OF Cons.prems, of c] by blast
  obtain t' h' where f: "fold amqp_maybe_release_buffers_on_channel cs (st\<lparr>pool_table := t, conn_heap := h\<rparr>)
        = st\<lparr>pool_table := t', conn_heap := h'\<rparr>"
    "memory_inv (st\<lparr>pool_table := t', conn_heap := h'\<rparr>)"
    "\<And>d. amqp_get_channel_pool t' d = (if d \<in> set cs \<and> d \<notin> queued st then map_option recycled (amqp_get_channel_pool t d)
      else amqp_get_channel_pool t d)"
    using Cons.IH [OF r(2)] Cons.prems(2) by auto
  show ?case
    by (intro exI [of _ t'] exI [of _ h'] conjI allI) (use r f in \<open>auto simp: option.map_comp comp_def\<close>)
qed

lemma look_channel:
  assumes "table_inv t" and "amqp_get_channel_pool t c = Some p"
  shows "c \<in> entry_channel ` (\<Union>es \<in> set t. set es)"
proof -
  from assms(2) obtain e where "e \<in> set (t ! pool_index c)" "entry_channel e = c"
    using find_entry_in unfolding amqp_get_channel_pool_def by blast
  moreover have "t ! pool_index c \<in> set t" using assms(1) pool_index_less [of c] by (simp add: table_inv_def)
  ultimately show ?thesis by blast
qed

lemma release_cases:
  assumes "memory_inv st"
  shows "if conn_state st \<noteq> CONNECTION_STATE_IDLE then amqp_release_buffers st = (Undefined, st)
    else \<exists>t h. amqp_release_buffers st = (Ok (), st\<lparr>pool_table := t, conn_heap := h\<rparr>)
      \<and> memory_inv (st\<lparr>pool_table := t, conn_heap := h\<rparr>)
      \<and> (\<forall>c. amqp_get_channel_pool t c =
          (if c \<in> frame_channel ` set (first_queued_frame st) then amqp_get_channel_pool (pool_table st) c
           else map_option recycled (amqp_get_channel_pool (pool_table st) c)))"
proof (cases "conn_state st = CONNECTION_STATE_IDLE")
  case True
  have t: "table_inv (pool_table st)" using assms by (auto simp: memory_inv_def dest: pools_invD(1))
  let ?cs = "map entry_channel (concat (pool_table st))"
  note cs = look_channel [OF t]
  from release_channels [OF assms True, of ?cs] obtain t h where
    r: "fold amqp_maybe_release_buffers_on_channel ?cs st = st\<lparr>pool_table := t, conn_heap := h\<rparr>"
    "memory_inv (st\<lparr>pool_table := t, conn_heap := h\<rparr>)"
    "\<And>d. amqp_get_channel_pool t d = (if d \<in> set ?cs \<and> d \<notin> queued st then map_option recycled (amqp_get_channel_pool (pool_table st) d)
      else amqp_get_channel_pool (pool_table st) d)" by blast
  have "amqp_get_channel_pool t c = (if c \<in> queued st then amqp_get_channel_pool (pool_table st) c
      else map_option recycled (amqp_get_channel_pool (pool_table st) c))" for c
    using r(3) [of c] cs [of c] by (cases "amqp_get_channel_pool (pool_table st) c") simp_all
  moreover have "amqp_release_buffers st = (Ok (), st\<lparr>pool_table := t, conn_heap := h\<rparr>)"
    using True r(1) by (simp add: amqp_release_buffers_def)
  ultimately show ?thesis using True r(2) by (simp only: simp_thms if_False) blast
qed (simp add: amqp_release_buffers_def)

text \<open>
  C34: Releasing the buffers of an idle connection recycles the pool of every channel that has no frame
  waiting in the queue, leaves the pools of the other channels alone (their frames are still in
  use), and changes nothing else of the connection; on a connection in the middle of a frame it aborts.
\<close>

theorem amqp_release_buffers_exact:
  assumes "memory_inv st"
  shows "if conn_state st \<noteq> CONNECTION_STATE_IDLE then amqp_release_buffers st = (Undefined, st)
    else \<exists>t h. amqp_release_buffers st = (Ok (), st\<lparr>pool_table := t, conn_heap := h\<rparr>)
      \<and> memory_inv (st\<lparr>pool_table := t, conn_heap := h\<rparr>)
      \<and> (\<forall>c. amqp_get_channel_pool t c =
          (if c \<in> frame_channel ` set (first_queued_frame st) then amqp_get_channel_pool (pool_table st) c
           else map_option recycled (amqp_get_channel_pool (pool_table st) c)))"
  by (rule release_cases [OF assms])

theorem amqp_release_buffers_exact_witness:
  "\<exists>t h. amqp_release_buffers (return_to_idle (first_connection sample_memory)) =
      (Ok (), (return_to_idle (first_connection sample_memory))\<lparr>pool_table := t, conn_heap := h\<rparr>)"
  using amqp_release_buffers_exact [of "return_to_idle (first_connection sample_memory)"]
    return_to_idle_inv [OF first_connection(1) [of sample_memory]]
  by (auto simp: conn_inv_def return_to_idle_def split: if_splits)

section \<open>Changing the limits\<close>

lemma realloc_outbound:
  assumes inv: "memory_inv st" and run: "heap_realloc (outbound_block st) n (conn_heap st) = (Some b, h)"
  shows "memory_inv (st\<lparr>conn_heap := h, outbound_block := Some b\<rparr>)"
proof -
  have pools: "pools_inv (pool_table st) (conn_heap st) (own_blocks st)" and pool: "pool_inv (properties_pool st) (conn_heap st)"
    and apart: "own_distinct st" using inv by (simp_all add: memory_inv_def)
  note d = pools_invD [OF pools]
  obtain h1 where m: "heap_malloc n (conn_heap st) = (Some b, h1)" and h: "h = heap_free (outbound_block st) h1"
    using run by (auto simp: heap_realloc_def split: prod.splits option.splits)
  note x = heap_malloc_Some [OF m d(2)]
  have live: "\<And>c. c \<in> own_blocks st \<union> entry_blocks (pool_table st) \<Longrightarrow> h_live (conn_heap st) c \<noteq> None" using d(7) by blast
  then have fresh: "b \<notin> own_blocks st \<union> entry_blocks (pool_table st)" using x(3) by blast
  have old: "c \<in> own_blocks st" if "outbound_block st = Some c" for c using that by (simp add: own_blocks_def)
  have f: "h_live h = h_live h1 |` (- set_option (outbound_block st))" "h_fault h = h_fault h1"
    unfolding h by (rule heap_free_live; use live old x(4) in auto)+
  have hinv: "heap_inv h" unfolding h by (rule heap_inv_free [OF x(1)])
  have same: "h_live h c = h_live (conn_heap st) c" if "outbound_block st \<noteq> Some c" "c \<noteq> b" for c
    using that x(4) by (auto simp: f(1) restrict_map_def)
  have new: "h_live h b \<noteq> None" using x(4) fresh old by (auto simp: f(1) restrict_map_def)
  let ?st = "st\<lparr>conn_heap := h, outbound_block := Some b\<rparr>"
  have own: "own_blocks ?st \<subseteq> insert b (own_blocks st)" "\<And>c. c \<in> own_blocks ?st \<Longrightarrow> c \<noteq> b \<Longrightarrow> outbound_block st \<noteq> Some c"
    using apart by (auto simp: own_blocks_def own_distinct_def)
  have keep: "pool_inv p h" "foot p \<inter> (own_blocks ?st \<union> entry_blocks (pool_table st)) = {}"
    if p: "amqp_get_channel_pool (pool_table st) c = Some p" for c p
  proof -
    have b: "b \<notin> foot p" using foot_live [OF d(8) [OF p]] x(3) by blast
    have "c \<notin> foot p" if "outbound_block st = Some c" for c using d(9) [OF p] old [OF that] by blast
    with b show "pool_inv p h" by (intro pool_inv_heap_cong [OF d(8) [OF p] hinv] same) (auto simp: foot_def)
    show "foot p \<inter> (own_blocks ?st \<union> entry_blocks (pool_table st)) = {}" using b own(1) d(9) [OF p] by blast
  qed
  have "h_live h c \<noteq> None" if "c \<in> own_blocks ?st \<union> entry_blocks (pool_table st)" for c
  proof (cases "c = b")
    case False
    then have "outbound_block st \<noteq> Some c" using that own(2) d(6) old by blast
    then show ?thesis using same [OF _ False] live that own(1) False by auto
  qed (use new in simp)
  moreover have "own_blocks ?st \<inter> entry_blocks (pool_table st) = {}" using own(1) d(6) fresh by blast
  ultimately have "pools_inv (pool_table st) h (own_blocks ?st)"
    unfolding pools_inv_def using d(1,4,5) d(3) x(6) f(2) hinv keep d(10) by blast
  moreover have "pool_inv (properties_pool st) h"
  proof (rule pool_inv_heap_cong [OF pool hinv same])
    fix c
    assume "c \<in> set (pool_blocks (properties_pool st)) \<or> alloc_block (properties_pool st) = Some c"
    then have "c \<in> foot (properties_pool st)" by (auto simp: foot_def)
    then show "outbound_block st \<noteq> Some c" "c \<noteq> b" using apart fresh by (auto simp: own_distinct_def own_blocks_def)
  qed
  moreover have "own_distinct ?st" using apart fresh by (auto simp: own_distinct_def own_blocks_def)
  ultimately show ?thesis using inv by (simp add: memory_inv_def)
qed

lemma realloc_outbound_None:
  assumes inv: "memory_inv st" and run: "heap_realloc (outbound_block st) n (conn_heap st) = (None, h)"
  shows "memory_inv (st\<lparr>conn_heap := h\<rparr>)"
proof -
  have pools: "pools_inv (pool_table st) (conn_heap st) (own_blocks st)" using inv by (simp add: memory_inv_def)
  have m: "heap_malloc n (conn_heap st) = (None, h)"
    using run by (auto simp: heap_realloc_def split: prod.splits option.splits)
  note x = heap_malloc_None [OF m pools_invD(2) [OF pools]]
  have "pools_inv (pool_table st) h (own_blocks st)"
    by (rule pools_inv_heap [OF pools x(1)]) (use x pools_invD(3) [OF pools] in simp_all)
  from memory_inv_step [OF inv refl this evolves_malloc_eq [OF m]] show ?thesis by simp
qed

lemma assembly_inv_cong:
  "header_buffer s = header_buffer t \<Longrightarrow> conn_state s = conn_state t \<Longrightarrow> inbound_buffer s = inbound_buffer t \<Longrightarrow>
   inbound_offset s = inbound_offset t \<Longrightarrow> target_size s = target_size t \<Longrightarrow> assembly_inv s = assembly_inv t"
  by (simp only: assembly_inv_def)

definition limits_set :: "int \<Rightarrow> int \<Rightarrow> int \<Rightarrow> amqp_connection_state_t \<Rightarrow> amqp_connection_state_t \<Rightarrow> bool" where
  "limits_set cm fm hb st s \<longleftrightarrow> memory_inv s \<and> channel_max s = cm \<and> frame_max s = fm \<and> heartbeat s = max 0 hb
     \<and> outbound_len s = outbound_len st \<and> outbound_mem s = outbound_mem st \<and> assembly_inv s = assembly_inv st"

lemma set_deadline_limits:
  assumes "limits_set cm fm hb st s" and "\<And>t. limits_set cm fm hb st (upd (\<lambda>_. t) s)"
    and "\<And>t. limits_set cm fm hb st (upd (\<lambda>_. t) (s\<lparr>ticks := Suc (ticks s)\<rparr>))"
  shows "case set_deadline upd sel secs s of (Ok _, s') \<Rightarrow> limits_set cm fm hb st s'
    | (Err e, s') \<Rightarrow> e \<in> {AMQP_STATUS_TIMER_FAILURE, AMQP_STATUS_INVALID_PARAMETER} \<and> limits_set cm fm hb st s' | _ \<Rightarrow> False"
  using assms by (auto simp: set_deadline_def read_clock_def amqp_time_s_from_now_def add_delta_def Let_def split: prod.splits if_splits)

lemma limits_deadlines:
  assumes "limits_set cm fm hb st s"
  shows "limits_set cm fm hb st (s\<lparr>next_send_heartbeat := t\<rparr>)" "limits_set cm fm hb st (s\<lparr>next_recv_heartbeat := t\<rparr>)"
    "limits_set cm fm hb st (s\<lparr>ticks := n\<rparr>)"
proof -
  have "limits_set cm fm hb st s'" if "same_memory s s'" "channel_max s' = channel_max s" "heartbeat s' = heartbeat s"
    "outbound_len s' = outbound_len s" "outbound_mem s' = outbound_mem s" "assembly_inv s' = assembly_inv s" for s'
    using assms that memory_inv_same [OF that(1)] by (simp add: limits_set_def same_memory_def)
  note step = this
  have "assembly_inv (s\<lparr>next_send_heartbeat := t\<rparr>) = assembly_inv s" "assembly_inv (s\<lparr>next_recv_heartbeat := t\<rparr>) = assembly_inv s"
    "assembly_inv (s\<lparr>ticks := n\<rparr>) = assembly_inv s"
    by (rule assembly_inv_cong; simp)+
  then show "limits_set cm fm hb st (s\<lparr>next_send_heartbeat := t\<rparr>)" "limits_set cm fm hb st (s\<lparr>next_recv_heartbeat := t\<rparr>)"
    "limits_set cm fm hb st (s\<lparr>ticks := n\<rparr>)"
    by (auto intro!: step simp: same_memory_def)
qed

lemma resize_outbound_limits:
  assumes "limits_set cm fm hb st s"
  shows "case resize_outbound u n s of
      (Ok _, s') \<Rightarrow> memory_inv s' \<and> channel_max s' = cm \<and> frame_max s' = fm \<and> heartbeat s' = max 0 hb
        \<and> outbound_len s' = n \<and> length (outbound_mem s') = n \<and> assembly_inv s' = assembly_inv st
    | (Err e, s') \<Rightarrow> e = AMQP_STATUS_NO_MEMORY \<and> memory_inv s' \<and> outbound_len s' = n \<and> outbound_mem s' = outbound_mem st
    | _ \<Rightarrow> False"
proof -
  have inv: "memory_inv s" using assms by (simp add: limits_set_def)
  obtain r h where run: "heap_realloc (outbound_block s) n (conn_heap s) = (r, h)" by fastforce
  show ?thesis
  proof (cases r)
    case None
    have "memory_inv (s\<lparr>outbound_len := n, conn_heap := h\<rparr>)"
      using realloc_outbound_None [OF inv run [unfolded None]] by (rule memory_inv_same [rotated]) (simp add: same_memory_def)
    then show ?thesis using assms run None by (simp add: resize_outbound_def limits_set_def)
  next
    case (Some b)
    let ?s = "s\<lparr>outbound_len := n, conn_heap := h, outbound_block := Some b, outbound_mem := resize u n (outbound_mem s)\<rparr>"
    have "memory_inv ?s"
      using realloc_outbound [OF inv run [unfolded Some]] by (rule memory_inv_same [rotated]) (simp add: same_memory_def)
    moreover have "assembly_inv ?s = assembly_inv s" by (rule assembly_inv_cong) simp_all
    moreover have "length (resize u n (outbound_mem s)) = n" by (simp add: resize_def)
    ultimately show ?thesis using assms run Some by (simp add: resize_outbound_def limits_set_def)
  qed
qed

lemma tune_cases:
  assumes "memory_inv st" and "conn_state st = CONNECTION_STATE_IDLE" and "0 \<le> fm" and "fm < 2 ^ 31" and "hb < 2 ^ 30"
  shows "case amqp_tune_connection u cm fm hb st of
      (Ok _, st') \<Rightarrow> memory_inv st' \<and> channel_max st' = cm \<and> frame_max st' = fm \<and> heartbeat st' = max 0 hb
        \<and> outbound_len st' = nat fm \<and> length (outbound_mem st') = nat fm \<and> assembly_inv st' = assembly_inv st
    | (Err e, st') \<Rightarrow> memory_inv st' \<and> outbound_mem st' = outbound_mem st
        \<and> (e = AMQP_STATUS_NO_MEMORY \<and> outbound_len st' = nat fm
           \<or> e \<in> {AMQP_STATUS_TIMER_FAILURE, AMQP_STATUS_INVALID_PARAMETER} \<and> outbound_len st' = outbound_len st)
    | (_, st') \<Rightarrow> False"
proof -
  let ?s = "st\<lparr>channel_max := cm, frame_max := fm, heartbeat := (if 0 > hb then 0 else hb)\<rparr>"
  have s: "limits_set cm fm hb st ?s"
    using assms assembly_inv_cong [of ?s st] by (simp add: limits_set_def memory_inv_def own_blocks_def own_distinct_def)
  have size: "size_of_int fm = nat fm" using assms(3,4) by (simp add: size_of_int_def)
  have hb: "\<not> amqp_heartbeat_recv ?s \<ge> 2 ^ 31" using assms(5) by (auto simp: amqp_heartbeat_recv_def)
  let ?send = "set_deadline next_send_heartbeat_update next_send_heartbeat (amqp_heartbeat_send ?s)"
  let ?recv = "set_deadline next_recv_heartbeat_update next_recv_heartbeat (amqp_heartbeat_recv ?s)"
  have tune: "amqp_tune_connection u cm fm hb st = bindP ?send (\<lambda>_. bindP ?recv (\<lambda>_. resize_outbound u (nat fm))) ?s"
    using assms(2) hb size by (simp add: amqp_tune_connection_def Let_def)
  obtain r1 s1 where r1: "?send ?s = (r1, s1)" by fastforce
  have d1: "case ?send ?s of (Ok _, s') \<Rightarrow> limits_set cm fm hb st s'
      | (Err e, s') \<Rightarrow> e \<in> {AMQP_STATUS_TIMER_FAILURE, AMQP_STATUS_INVALID_PARAMETER} \<and> limits_set cm fm hb st s' | _ \<Rightarrow> False"
    by (rule set_deadline_limits [OF s]) (intro limits_deadlines s)+
  show ?thesis
  proof (cases r1)
    case (Ok x)
    with d1 r1 have s1: "limits_set cm fm hb st s1" by simp
    obtain r2 s2 where r2: "?recv s1 = (r2, s2)" by fastforce
    have d2: "case ?recv s1 of (Ok _, s') \<Rightarrow> limits_set cm fm hb st s'
        | (Err e, s') \<Rightarrow> e \<in> {AMQP_STATUS_TIMER_FAILURE, AMQP_STATUS_INVALID_PARAMETER} \<and> limits_set cm fm hb st s' | _ \<Rightarrow> False"
      by (rule set_deadline_limits [OF s1]) (intro limits_deadlines s1)+
    show ?thesis
    proof (cases r2)
      case (Ok y)
      with d2 r2 have "limits_set cm fm hb st s2" by simp
      from resize_outbound_limits [OF this, of "nat fm" u] show ?thesis
        using r1 r2 Ok \<open>r1 = _\<close> unfolding tune by (auto simp: bindP_def split: prod.splits outcome.splits)
    qed (use d2 r1 r2 Ok in \<open>auto simp: tune bindP_def limits_set_def\<close>)
  qed (use d1 r1 in \<open>auto simp: tune bindP_def limits_set_def\<close>)
qed

text \<open>
  Tuning a connection: on success the limits are set and the outbound buffer has exactly the size
  recorded for it. When the buffer cannot be reallocated, the connection keeps its old, possibly
  smaller buffer, but records the new length; everything stays allocated in any case.
\<close>

theorem amqp_tune_connection_outcome:
  assumes "memory_inv st" and "conn_state st = CONNECTION_STATE_IDLE" and "0 \<le> fm" and "fm < 2 ^ 31" and "hb < 2 ^ 30"
  shows "case amqp_tune_connection u cm fm hb st of
      (Ok _, st') \<Rightarrow> memory_inv st' \<and> channel_max st' = cm \<and> frame_max st' = fm \<and> heartbeat st' = max 0 hb
        \<and> outbound_len st' = nat fm \<and> length (outbound_mem st') = nat fm \<and> assembly_inv st' = assembly_inv st
    | (Err e, st') \<Rightarrow> memory_inv st' \<and> outbound_mem st' = outbound_mem st
        \<and> (e = AMQP_STATUS_NO_MEMORY \<and> outbound_len st' = nat fm
           \<or> e \<in> {AMQP_STATUS_TIMER_FAILURE, AMQP_STATUS_INVALID_PARAMETER} \<and> outbound_len st' = outbound_len st)
    | (_, st') \<Rightarrow> False"
  by (rule tune_cases [OF assms])

theorem amqp_tune_connection_outcome_witness:
  "case amqp_tune_connection sample_memory 10 4096 0 (return_to_idle (first_connection sample_memory)) of
      (Ok _, st') \<Rightarrow> outbound_len st' = 4096 \<and> length (outbound_mem st') = 4096
    | (Err e, st') \<Rightarrow> memory_inv st' | (_, st') \<Rightarrow> False"
  using amqp_tune_connection_outcome [of "return_to_idle (first_connection sample_memory)" 4096 0 10 sample_memory]
    return_to_idle_inv [OF first_connection(1) [of sample_memory]]
  by (auto simp: conn_inv_def return_to_idle_def split: prod.splits outcome.splits)

section \<open>Running out of memory while connecting\<close>

text \<open>
  When the buffer for the socket's input cannot be allocated, the connection is given up, but the
  outbound buffer allocated before is not freed.
\<close>

theorem amqp_new_connection_leaks:
  "\<exists>h'. amqp_new_connection u clk \<lparr>h_live = Map.empty, h_calls = 0, h_grant = (\<lambda>i n. i \<noteq> 2), h_fault = False\<rparr> = (None, h')
    \<and> h_live h' = [1 \<mapsto> 65536]"
proof -
  let ?h1 = "\<lparr>h_live = [0 \<mapsto> sizeof_connection], h_calls = 1, h_grant = (\<lambda>i n. i \<noteq> 2), h_fault = False\<rparr>"
  let ?h2 = "\<lparr>h_live = [0 \<mapsto> sizeof_connection, 1 \<mapsto> 65536], h_calls = 2, h_grant = (\<lambda>i n. i \<noteq> 2), h_fault = False\<rparr>"
  obtain r s where t: "amqp_tune_connection u 0 AMQP_INITIAL_FRAME_POOL_PAGE_SIZE 0 (zeroed_connection clk 0 ?h1) = (r, s)" by fastforce
  have "heap_inv ?h1" by (simp add: heap_inv_def)
  from zeroed_tune [OF this _ _ t] have "r = Ok ()" "conn_heap s = ?h2"
    by (auto simp: heap_malloc_def)
  with t show ?thesis by (auto simp: amqp_new_connection_def heap_malloc_def heap_free_def fun_eq_iff)
qed

end
