(* ===== verification/Amqp_Merge.thy ===== *)
theory Amqp_Merge
  imports Amqp_Pools
begin

text \<open>
  \<^verbatim>\<open>amqp_merge_capabilities\<close> of librabbitmq/amqp\_socket.c: the client's properties are merged over the
  default ones, tables under the same key recursively.

  The result is collected in a temporary pool and cloned into the pool of the caller. Reading the
  value of an entry that is not there, or reading a value that is no table as one, is
  \<open>Undefined\<close>.
\<close>

section \<open>The operation\<close>

text \<open>\<^verbatim>\<open>e->value = v\<close>, for the first entry with the key.\<close>

fun put_value :: "amqp_table_t \<Rightarrow> byte list \<Rightarrow> amqp_field_value_t \<Rightarrow> amqp_table_t" where
  "put_value [] k v = []"
| "put_value (e # es) k v =
     (if amqp_bytes_equal (of_list (key e)) (of_list k) = Ok True then Entry (key e) v # es else e # put_value es k v)"

text \<open>A callee with the temporary pool; it is emptied on every way out.\<close>

definition in_temp_pool :: "(pool_state, amqp_table_t) prog \<Rightarrow> (pool_state, amqp_table_t) prog" where
  "in_temp_pool m = (\<lambda>(pool, h).
     case m (init_amqp_pool 4096, h) of
       (Ok temp_result, (temp_pool, h1)) \<Rightarrow>
         (case amqp_table_clone temp_result (pool, h1) of
            (r, (pool', h2)) \<Rightarrow> (r, (pool', snd (empty_amqp_pool temp_pool h2))))
     | (r, (temp_pool, h1)) \<Rightarrow> (r, (pool, snd (empty_amqp_pool temp_pool h1))))"

fun merge_tables :: "amqp_table_t \<Rightarrow> amqp_table_t \<Rightarrow> (pool_state, amqp_table_t) prog"
  and merge_entries :: "amqp_table_t \<Rightarrow> amqp_table_t \<Rightarrow> amqp_table_t \<Rightarrow> (pool_state, amqp_table_t) prog" where
  "merge_tables base add =
     in_temp_pool (
       bindP (amqp_pool_alloc (sizeof_table_entry * (length base + length add))) (\<lambda>entries.
       case entries of
         None \<Rightarrow> throw AMQP_STATUS_NO_MEMORY
       | Some _ \<Rightarrow> merge_entries base base add))"
| "merge_entries base temp_result [] = ret temp_result"
| "merge_entries base temp_result (Entry k v # add) =
     (case amqp_table_get_entry_by_key temp_result k of
        None \<Rightarrow> merge_entries base (temp_result @ [Entry k v]) add
      | Some e \<Rightarrow>
          (case v of
             FV_TABLE a \<Rightarrow>
               (case entry_value e of
                  FV_TABLE _ \<Rightarrow>
                    (case amqp_table_get_entry_by_key base k of
                       None \<Rightarrow> (\<lambda>s. (Undefined, s))
                     | Some be \<Rightarrow>
                         (case entry_value be of
                            FV_TABLE b \<Rightarrow>
                              bindP (merge_tables b a) (\<lambda>t. merge_entries base (put_value temp_result k (FV_TABLE t)) add)
                          | _ \<Rightarrow> (\<lambda>s. (Undefined, s))))
                | _ \<Rightarrow> merge_entries base (put_value temp_result k v) add)
           | _ \<Rightarrow> merge_entries base (put_value temp_result k v) add))"

definition amqp_merge_capabilities :: "amqp_table_t \<Rightarrow> amqp_table_t option \<Rightarrow> (pool_state, amqp_table_t) prog" where
  "amqp_merge_capabilities base add = (case add of None \<Rightarrow> amqp_table_clone base | Some add \<Rightarrow> merge_tables base add)"

section \<open>The reference: an overlay\<close>

text \<open>
  The entries of \<open>base\<close> in their order, each with the value \<open>add\<close> has for its key, tables being merged
  again; then the entries of \<open>add\<close> with new keys.
\<close>

fun merged :: "amqp_table_t \<Rightarrow> amqp_table_t \<Rightarrow> amqp_table_t"
  and merge_over :: "amqp_table_t \<Rightarrow> amqp_table_t \<Rightarrow> amqp_table_t"
  and merge_value :: "amqp_field_value_t \<Rightarrow> amqp_field_value_t \<Rightarrow> amqp_field_value_t" where
  "merged base add = merge_over base add @ filter (\<lambda>e. key e \<notin> key ` set base) add"
| "merge_over [] add = []"
| "merge_over (Entry k v # es) add =
     Entry k (case find (\<lambda>e. key e = k) add of None \<Rightarrow> v | Some e \<Rightarrow> merge_value v (entry_value e)) # merge_over es add"
| "merge_value v a = (case v of
       FV_TABLE b \<Rightarrow> (case a of FV_TABLE t \<Rightarrow> FV_TABLE (merged b t) | _ \<Rightarrow> a)
     | _ \<Rightarrow> a)"

text \<open>Tables without repeated keys, also inside.\<close>

fun tidy :: "amqp_table_t \<Rightarrow> bool"
  and tidy_value :: "amqp_field_value_t \<Rightarrow> bool" where
  "tidy [] = True"
| "tidy (Entry k v # es) = (k \<notin> key ` set es \<and> tidy_value v \<and> tidy es)"
| "tidy_value v = (case v of FV_TABLE t \<Rightarrow> tidy t | _ \<Rightarrow> True)"

text \<open>Two tables that can be merged and cloned: never two empty ones.\<close>

fun mergeable :: "amqp_table_t \<Rightarrow> amqp_table_t \<Rightarrow> bool"
  and mergeable_entries :: "amqp_table_t \<Rightarrow> amqp_table_t \<Rightarrow> bool" where
  "mergeable base add = ((base \<noteq> [] \<or> add \<noteq> []) \<and> clonable_entries (merged base add) \<and> mergeable_entries base add)"
| "mergeable_entries base [] = True"
| "mergeable_entries base (Entry k v # add) =
     ((case v of
         FV_TABLE a \<Rightarrow>
           (case find (\<lambda>e. key e = k) base of
              None \<Rightarrow> True
            | Some e \<Rightarrow> (case entry_value e of FV_TABLE b \<Rightarrow> mergeable b a | _ \<Rightarrow> True))
       | _ \<Rightarrow> True) \<and> mergeable_entries base add)"

section \<open>Work on a pool\<close>

text \<open>
  \<open>advances s s'\<close>: a valid pool became a valid pool; blocks kept their size, nothing was freed twice, and
  what belonged to others still lives and still belongs to others.
\<close>

definition advances :: "pool_state \<Rightarrow> pool_state \<Rightarrow> bool" where
  "advances s s' \<longleftrightarrow> pool_ready s' \<and> evolves (snd s) (snd s') \<and> h_fault (snd s') = h_fault (snd s)
     \<and> h_grant (snd s') = h_grant (snd s)
     \<and> (\<forall>B. foreign (fst s) (snd s) B \<longrightarrow> foreign (fst s') (snd s') B)"

lemma advances_refl: "pool_ready s \<Longrightarrow> advances s s"
  by (simp add: advances_def)

lemma advances_trans: "advances s s' \<Longrightarrow> advances s' s'' \<Longrightarrow> advances s s''"
  unfolding advances_def by (metis evolves_trans)

lemma advances_alloc:
  assumes "pool_inv p h" and "amqp_pool_alloc n (p, h) = (r, p', h')"
  shows "advances (p, h) (p', h')"
proof -
  from assms(1) have h: "heap_inv h" by (simp add: pool_inv_def)
  have "h_grant h' = h_grant h"
  proof (cases "n = 0")
    case True
    with assms(2) show ?thesis by (auto simp: amqp_pool_alloc_def)
  next
    case False
    from amqp_pool_alloc_post [OF assms(1) pool_owns_empty False, unfolded assms(2)] show ?thesis
      by (auto simp: alloc_post_def)
  qed
  then show ?thesis
    using pool_alloc_settles [OF assms] evolves_pool_alloc [OF assms(2)] pool_step_foreign [OF pool_step_alloc [OF assms] h]
    by (simp add: advances_def pool_ready_def)
qed

text \<open>\<open>works m\<close>: the program only does work on its pool, and has no undefined behaviour.\<close>

definition works :: "(pool_state, 'a) prog \<Rightarrow> bool" where
  "works m \<longleftrightarrow> (\<forall>s. pool_ready s \<longrightarrow> advances s (snd (m s)) \<and> fst (m s) \<noteq> Undefined \<and> fst (m s) \<noteq> OutOfFuel)"

named_theorems works_intros \<open>programs that only work on their pool\<close>

lemma works_ret [works_intros]: "works (ret x)" "works (throw e)"
  by (simp_all add: works_def ret_def throw_def advances_refl)

lemma works_bind [works_intros]:
  assumes "works m" and "\<And>x. works (k x)"
  shows "works (bindP m k)"
  unfolding works_def
proof (intro allI impI)
  fix s
  assume s: "pool_ready s"
  obtain r s1 where m: "m s = (r, s1)" by (rule prod.exhaust)
  with assms(1) s have 1: "advances s s1" "r \<noteq> Undefined" "r \<noteq> OutOfFuel"
    unfolding works_def by (metis fst_conv snd_conv)+
  from 1(1) have "pool_ready s1" by (simp add: advances_def)
  with assms(2) have "advances s1 (snd (k x s1)) \<and> fst (k x s1) \<noteq> Undefined \<and> fst (k x s1) \<noteq> OutOfFuel" for x
    unfolding works_def by blast
  with 1 m show "advances s (snd (bindP m k s)) \<and> fst (bindP m k s) \<noteq> Undefined \<and> fst (bindP m k s) \<noteq> OutOfFuel"
    by (cases r) (auto simp: bindP_def intro: advances_trans)
qed

lemma works_alloc [works_intros]: "works (amqp_pool_alloc n)" "works (amqp_pool_alloc_bytes n)"
proof -
  show *: "works (amqp_pool_alloc n)"
    unfolding works_def
  proof (intro allI impI)
    fix s
    assume "pool_ready s"
    then obtain p h where s: "s = (p, h)" "pool_inv p h" by (auto simp: pool_ready_def)
    obtain r p' h' where run: "amqp_pool_alloc n (p, h) = (r, p', h')" by (metis surj_pair)
    show "advances s (snd (amqp_pool_alloc n s)) \<and> fst (amqp_pool_alloc n s) \<noteq> Undefined \<and> fst (amqp_pool_alloc n s) \<noteq> OutOfFuel"
      using advances_alloc [OF s(2) run] pool_alloc_settles(1) [OF s(2) run] s(1) run by auto
  qed
  show "works (amqp_pool_alloc_bytes n)"
    unfolding amqp_pool_alloc_bytes_def by (intro works_intros *)
qed

lemma works_if [works_intros]: "(b \<Longrightarrow> works m) \<Longrightarrow> (\<not> b \<Longrightarrow> works m') \<Longrightarrow> works (if b then m else m')"
  by simp

lemma works_clone_parts [works_intros]:
  "works (clone_bytes bs)" "works (clone_block n)" "works m \<Longrightarrow> works (clone_table m n)"
  unfolding clone_bytes_def clone_block_def clone_table_def
  by (auto intro!: works_intros split: prod.splits)

lemma works_clones:
  "works (amqp_field_value_clone v)" "works (clone_values vs)" "works (clone_entries es)"
proof (induction v and vs and es rule: amqp_field_value_clone_clone_values_clone_entries.induct)
  case (1 v)
  then show ?case
    by (cases v) (auto intro!: works_intros)
qed (auto intro!: works_intros simp del: amqp_field_value_clone.simps)

lemma works_clone [works_intros]: "works (amqp_table_clone t)"
  unfolding amqp_table_clone_def by (intro works_intros works_clones)

text \<open>Work in the temporary pool is no work of the caller's pool.\<close>

lemma empty_blocklist_grant: "empty_blocklist x h = (x', h') \<Longrightarrow> h_grant h' = h_grant h"
proof -
  have free: "h_grant (heap_free b h) = h_grant h" for b and h :: heap
    by (auto simp: heap_free_def split: option.splits)
  have "h_grant (fold (\<lambda>b. heap_free (Some b)) bs h) = h_grant h" for bs and h :: heap
    by (induction bs arbitrary: h) (simp_all add: free)
  then show "empty_blocklist x h = (x', h') \<Longrightarrow> h_grant h' = h_grant h"
    by (auto simp: empty_blocklist_def free split: option.splits)
qed

lemma empty_pool_grant: "h_grant (snd (empty_amqp_pool p h)) = h_grant h"
  by (auto simp: empty_amqp_pool_def recycle_amqp_pool_def split: prod.splits dest!: empty_blocklist_grant)

lemma in_temp_pool_advances:
  assumes p: "pool_inv p h" and temp: "advances (init_amqp_pool 4096, h) (q, h1)"
    and next_step: "pool_inv p h1 \<Longrightarrow> advances (p, h1) (p', h2)" and run: "empty_amqp_pool q h2 = (q', h3)"
  shows "pool_inv p h1" "advances (p, h) (p', h3)"
proof -
  have start: "foreign (init_amqp_pool 4096) h B" if "\<And>b. b \<in> B \<Longrightarrow> h_live h b \<noteq> None" for B
    using that by (simp add: foreign_def init_amqp_pool_def pool_blocks_def empty_blocks_def list_array_def)
  from temp have q1: "pool_inv q h1" and e1: "evolves h h1" and fault1: "h_fault h1 = h_fault h" "h_grant h1 = h_grant h"
    by (simp_all add: advances_def pool_ready_def)
  from q1 have hinv1: "heap_inv h1" by (simp add: pool_inv_def)
  have other1: "foreign q h1 {b. h_live h b \<noteq> None}"
    using temp start [of "{b. h_live h b \<noteq> None}"] by (simp add: advances_def)
  then have live1: "h_live h1 b \<noteq> None" and notq: "b \<notin> foot q" if "h_live h b \<noteq> None" for b
    using that by (auto simp: foreign_def foot_def)
  show p1: "pool_inv p h1"
    by (rule pool_inv_evolves [OF p e1 hinv1]) (use live1 foot_live [OF p] in blast)
  note step = next_step [OF p1]
  have keep: "foreign p h1 B" if "foreign p h B" for B using that live1 by (auto simp: foreign_def)
  have "b \<notin> foot p" if "b \<in> foot q" for b using that notq foot_live [OF p] by blast
  then have "foreign p h1 (foot q)" using foot_live [OF q1] by (simp add: foreign_def foot_def)
  with step have apart: "foreign p' h2 (foot q)" and p2: "pool_inv p' h2" and e2: "evolves h1 h2"
    and fault2: "h_fault h2 = h_fault h1" "h_grant h2 = h_grant h1"
    by (simp_all add: advances_def pool_ready_def)
  from p2 have hinv2: "heap_inv h2" by (simp add: pool_inv_def)
  have q2: "pool_inv q h2"
    by (rule pool_inv_evolves [OF q1 e2 hinv2]) (use apart in \<open>simp add: foreign_def\<close>)
  note x = empty_pool_exact [OF q2 run]
  have hinv3: "heap_inv h3" using x(1) by (simp add: pool_inv_def)
  have e3: "evolves h2 h3" using x(4,5) by (simp add: evolves_def restrict_map_def)
  have live3: "h_live h3 b = h_live h2 b" if "b \<notin> foot q" for b
    using that x(5) by (simp add: restrict_map_def foot_def)
  have "b \<notin> foot q" if "b \<in> foot p'" for b using that apart by (auto simp: foreign_def foot_def)
  then have p3: "pool_inv p' h3"
    by (intro pool_inv_evolves [OF p2 e3 hinv3]) (metis live3 foot_live [OF p2])
  have "foreign p' h3 B" if B: "foreign p h B" for B
  proof -
    have "foreign p' h2 B" using step keep [OF B] by (simp add: advances_def)
    moreover have "b \<notin> foot q" if "b \<in> B" for b using that B notq by (simp add: foreign_def)
    ultimately show ?thesis using live3 by (simp add: foreign_def)
  qed
  moreover have "h_grant h3 = h_grant h2" using empty_pool_grant [of q h2] run by simp
  ultimately show "advances (p, h) (p', h3)"
    using p3 evolves_trans [OF e1 evolves_trans [OF e2 e3]] fault1 fault2 x(3) by (simp add: advances_def pool_ready_def)
qed

text \<open>
  \<open>merges m v ok\<close>: the program works on its pool and returns \<open>v\<close> or fails; it does not fail if \<open>ok\<close>
  and the allocator serves every request.
\<close>

definition merges :: "(pool_state, 'a) prog \<Rightarrow> 'a \<Rightarrow> bool \<Rightarrow> bool" where
  "merges m v ok \<longleftrightarrow> (\<forall>s r s'. pool_ready s \<longrightarrow> m s = (r, s') \<longrightarrow>
     advances s s' \<and> (r = Ok v \<or> (\<exists>e. r = Err e)) \<and> (ok \<longrightarrow> generous (snd s) \<longrightarrow> r = Ok v))"

lemma mergesD:
  assumes "merges m v ok" and "pool_ready s" and "m s = (r, s')"
  shows "advances s s'" "r = Ok v \<or> (\<exists>e. r = Err e)" "ok \<Longrightarrow> generous (snd s) \<Longrightarrow> r = Ok v"
  using assms unfolding merges_def by blast+

lemma merges_ret: "merges (ret v) v ok"
  by (simp add: merges_def ret_def advances_refl)

lemma merges_bind:
  assumes "merges m x a" and "merges (k x) v b"
  shows "merges (bindP m k) v (a \<and> b)"
  unfolding merges_def
proof (intro allI impI)
  fix s r s'
  assume s: "pool_ready s" and run: "bindP m k s = (r, s')"
  obtain r1 s1 where m: "m s = (r1, s1)" by (rule prod.exhaust)
  note 1 = mergesD [OF assms(1) s m]
  have ready: "pool_ready s1" and gen: "generous (snd s) \<Longrightarrow> generous (snd s1)"
    using 1(1) by (simp_all add: advances_def generous_def)
  show "advances s s' \<and> (r = Ok v \<or> (\<exists>e. r = Err e)) \<and> (a \<and> b \<longrightarrow> generous (snd s) \<longrightarrow> r = Ok v)"
  proof (cases "r1 = Ok x")
    case True
    with run m have "k x s1 = (r, s')" by (simp add: bindP_def)
    from mergesD [OF assms(2) ready this] 1(1) gen show ?thesis by (blast intro: advances_trans)
  next
    case False
    with 1(2) obtain e where "r1 = Err e" by blast
    with run m 1 False show ?thesis by (auto simp: bindP_def)
  qed
qed

lemma merges_mono: "merges m v a \<Longrightarrow> (b \<Longrightarrow> a) \<Longrightarrow> merges m v b"
  by (simp add: merges_def)

lemma merges_clone: "merges (amqp_table_clone t) t (clonable_entries t)"
  unfolding merges_def
proof (intro allI impI)
  fix s r s'
  assume s: "pool_ready s" and run: "amqp_table_clone t s = (r, s')"
  have "clones (amqp_table_clone t) t (clonable_entries t)"
    unfolding amqp_table_clone_def by (rule clones_table [OF clones_all(3)]) auto
  then have c: "settles (\<lambda>x s. x = t \<and> clonable_entries t \<and> pool_ready s) pool_ready (amqp_table_clone t s)"
    "clonable_entries t \<Longrightarrow> generous (snd s) \<Longrightarrow> \<exists>s'. amqp_table_clone t s = (Ok t, s')"
    using s unfolding clones_def hoare_def by (blast, metis case_prod_unfold pool_generous_def pool_ready_def)
  have w: "advances s s'" "r \<noteq> Undefined" "r \<noteq> OutOfFuel"
    using works_clone [of t] s run unfolding works_def by (metis fst_conv snd_conv)+
  show "advances s s' \<and> (r = Ok t \<or> (\<exists>e. r = Err e)) \<and> (clonable_entries t \<longrightarrow> generous (snd s) \<longrightarrow> r = Ok t)"
    using c w run by (cases r) (auto simp: settles_iff)
qed

lemma merges_in_temp_pool:
  assumes "merges m v ok"
  shows "merges (in_temp_pool m) v (ok \<and> clonable_entries v)"
  unfolding merges_def
proof (intro allI impI)
  fix s r s'
  assume "pool_ready s" and run: "in_temp_pool m s = (r, s')"
  then obtain p h where s: "s = (p, h)" and p: "pool_inv p h" by (auto simp: pool_ready_def)
  have init: "pool_ready (init_amqp_pool 4096, h)"
    unfolding pool_ready_def prod.case by (rule pool_inv_init) (use p in \<open>simp_all add: pool_inv_def ptrdiff_max_def\<close>)
  obtain r1 q h1 where m: "m (init_amqp_pool 4096, h) = (r1, q, h1)" by (metis surj_pair)
  note 1 = mergesD [OF assms init m]
  have gen: "generous h \<Longrightarrow> generous h1" using 1(1) by (simp add: advances_def generous_def)
  show "advances s s' \<and> (r = Ok v \<or> (\<exists>e. r = Err e)) \<and> (ok \<and> clonable_entries v \<longrightarrow> generous (snd s) \<longrightarrow> r = Ok v)"
  proof (cases "r1 = Ok v")
    case True
    obtain r2 p' h2 where c: "amqp_table_clone v (p, h1) = (r2, p', h2)" by (metis surj_pair)
    obtain q' h3 where e: "empty_amqp_pool q h2 = (q', h3)" by fastforce
    have out: "r = r2" "s' = (p', h3)" using run s m True c e by (simp_all add: in_temp_pool_def)
    have 2: "pool_inv p h1 \<Longrightarrow> advances (p, h1) (p', h2)"
      using mergesD(1) [OF merges_clone _ c] by (simp add: pool_ready_def)
    note t = in_temp_pool_advances [OF p 1(1) 2 e]
    from t(1) have "pool_ready (p, h1)" by (simp add: pool_ready_def)
    from mergesD(2,3) [OF merges_clone this c] t(2) gen out s show ?thesis by auto
  next
    case False
    with 1(2) obtain err where err: "r1 = Err err" by blast
    obtain q' h3 where e: "empty_amqp_pool q h1 = (q', h3)" by fastforce
    have out: "r = Err err" "s' = (p, h3)" using run s m err e by (simp_all add: in_temp_pool_def)
    have "pool_inv p h1 \<Longrightarrow> advances (p, h1) (p, h1)" by (rule advances_refl) (simp add: pool_ready_def)
    note t = in_temp_pool_advances [OF p 1(1) this e]
    from t(2) out s 1(3) False show ?thesis by auto
  qed
qed

section \<open>The loop computes the overlay\<close>

lemma key_equal [simp]: "amqp_bytes_equal (of_list a) (of_list b) = Ok True \<longleftrightarrow> a = b"
  by (auto simp: amqp_bytes_equal_def mem_read_def split: option.splits if_splits)

lemma get_entry_find: "amqp_table_get_entry_by_key es k = List.find (\<lambda>e. key e = k) es"
  by (induction es) simp_all

lemma find_key_None: "List.find (\<lambda>e. key e = k) es = None \<longleftrightarrow> k \<notin> key ` set es"
  by (auto simp: find_None_iff)

lemma find_append: "List.find P (xs @ ys) = (case List.find P xs of None \<Rightarrow> List.find P ys | Some x \<Rightarrow> Some x)"
  by (induction xs) simp_all

lemma put_value_append:
  "put_value (xs @ ys) k v = (if k \<in> key ` set xs then put_value xs k v @ ys else xs @ put_value ys k v)"
  by (induction xs) auto

lemma tidy_Cons: "tidy (e # es) \<longleftrightarrow> key e \<notin> key ` set es \<and> tidy_value (entry_value e) \<and> tidy es"
  by (cases e) simp

lemma merge_over_Cons:
  "merge_over (e # es) add =
     Entry (key e) (case List.find (\<lambda>f. key f = key e) add of None \<Rightarrow> entry_value e | Some f \<Rightarrow> merge_value (entry_value e) (entry_value f))
       # merge_over es add"
  by (cases e) (simp split: option.splits)

lemma tidy_distinct: "tidy es \<Longrightarrow> distinct (map key es)"
  by (induction es) (simp_all add: tidy_Cons)

lemma tidy_append: "tidy (xs @ ys) \<Longrightarrow> tidy ys \<and> key ` set xs \<inter> key ` set ys = {}"
  by (induction xs) (auto simp: tidy_Cons)

lemma tidy_entry: "tidy es \<Longrightarrow> e \<in> set es \<Longrightarrow> entry_value e = FV_TABLE t \<Longrightarrow> tidy t"
  by (induction es) (auto simp: tidy_Cons)

lemma merge_over_keys: "map key (merge_over base add) = map key base"
  by (induction base) (simp_all add: merge_over_Cons)

lemma merge_over_new_key:
  "k \<notin> key ` set base \<Longrightarrow> merge_over base (done @ [Entry k v]) = merge_over base done"
  by (induction base) (auto simp: merge_over_Cons find_append split: option.splits)

lemma merge_over_old_key:
  "List.find (\<lambda>e. key e = k) base = Some be \<Longrightarrow> k \<notin> key ` set done \<Longrightarrow> distinct (map key base) \<Longrightarrow>
    List.find (\<lambda>e. key e = k) (merge_over base done) = Some be \<and>
    put_value (merge_over base done) k (merge_value (entry_value be) v) = merge_over base (done @ [Entry k v])"
proof (induction base)
  case (Cons e es)
  obtain k' v' where e: "e = Entry k' v'" by (cases e)
  show ?case
  proof (cases "k' = k")
    case True
    with Cons.prems e have "List.find (\<lambda>e. key e = k) done = None" "be = Entry k v'" "k \<notin> key ` set es"
      by (auto simp: find_key_None)
    with True e merge_over_new_key [of k es "done" v] show ?thesis by (simp add: find_append del: merge_value.simps)
  next
    case False
    with Cons e have "List.find (\<lambda>e. key e = k) (merge_over es done) = Some be"
      "put_value (merge_over es done) k (merge_value (entry_value be) v) = merge_over es (done @ [Entry k v])"
      by (auto simp del: merge_value.simps)
    with False e show ?thesis by (simp add: find_append del: merge_value.simps split: option.splits)
  qed
qed simp

lemma merged_new_key:
  assumes "k \<notin> key ` set base" and "k \<notin> key ` set done"
  shows "List.find (\<lambda>e. key e = k) (merged base done) = None" "merged base (done @ [Entry k v]) = merged base done @ [Entry k v]"
proof -
  have "key ` set (merge_over base done) = key ` set base" using merge_over_keys [of base "done"] by (metis set_map)
  with assms show "List.find (\<lambda>e. key e = k) (merged base done) = None" by (auto simp: find_key_None)
  show "merged base (done @ [Entry k v]) = merged base done @ [Entry k v]"
    using assms(1) by (simp add: merge_over_new_key)
qed

lemma merged_old_key:
  assumes "List.find (\<lambda>e. key e = k) base = Some be" and "k \<notin> key ` set done" and "distinct (map key base)"
  shows "List.find (\<lambda>e. key e = k) (merged base done) = Some be"
    "put_value (merged base done) k (merge_value (entry_value be) v) = merged base (done @ [Entry k v])"
proof -
  note o = merge_over_old_key [OF assms, of v]
  then show "List.find (\<lambda>e. key e = k) (merged base done) = Some be" by (simp add: find_append)
  have "k \<in> key ` set base" using assms(1) by (metis find_key_None option.distinct(1))
  moreover have "key ` set (merge_over base done) = key ` set base" using merge_over_keys [of base "done"] by (metis set_map)
  ultimately show "put_value (merged base done) k (merge_value (entry_value be) v) = merged base (done @ [Entry k v])"
    using o by (simp add: put_value_append del: merge_value.simps)
qed

text \<open>One entry of \<open>add\<close>, then the loop.\<close>

lemma merge_entries_step:
  assumes "tidy base" and "k \<notin> key ` set done" and "tidy_value v"
    and sub: "\<And>a b. v = FV_TABLE a \<Longrightarrow> tidy b \<Longrightarrow> tidy a \<Longrightarrow> merges (merge_tables b a) (merged b a) (mergeable b a)"
    and loop: "merges (merge_entries base (merged base (done @ [Entry k v])) add) r (mergeable_entries base add)"
  shows "merges (merge_entries base (merged base done) (Entry k v # add)) r (mergeable_entries base (Entry k v # add))"
proof (cases "List.find (\<lambda>e. key e = k) base")
  case None
  then have "k \<notin> key ` set base" by (simp add: find_key_None)
  note m = merged_new_key [OF this assms(2)]
  have "merge_entries base (merged base done) (Entry k v # add) = merge_entries base (merged base (done @ [Entry k v])) add"
    by (simp only: merge_entries.simps get_entry_find m option.case)
  moreover have "mergeable_entries base (Entry k v # add) \<longleftrightarrow> mergeable_entries base add"
    using None by (auto split: amqp_field_value_t.splits)
  ultimately show ?thesis using loop by simp
next
  case (Some be)
  note m = merged_old_key [OF Some assms(2) tidy_distinct [OF assms(1)]]
  have be: "be \<in> set base" using Some by (metis find_Some_iff nth_mem)
  show ?thesis
  proof (cases "(\<exists>a. v = FV_TABLE a) \<and> (\<exists>b. entry_value be = FV_TABLE b)")
    case True
    then obtain a b where ab: "v = FV_TABLE a" "entry_value be = FV_TABLE b" by blast
    have eq: "merge_entries base (merged base done) (Entry k v # add) =
        bindP (merge_tables b a) (\<lambda>t. merge_entries base (put_value (merged base done) k (FV_TABLE t)) add)"
      unfolding merge_entries.simps get_entry_find m(1) Some by (simp only: ab option.case amqp_field_value_t.case)
    have put: "put_value (merged base done) k (FV_TABLE (merged b a)) = merged base (done @ [Entry k v])"
      using m(2) [of v] ab by simp
    have "tidy b" "tidy a" using tidy_entry [OF assms(1) be ab(2)] assms(3) ab(1) by auto
    from merges_bind [OF sub [OF ab(1) this], of "\<lambda>t. merge_entries base (put_value (merged base done) k (FV_TABLE t)) add", unfolded put, OF loop]
    show ?thesis unfolding eq by (rule merges_mono) (use ab Some in simp)
  next
    case False
    then have "merge_value (entry_value be) v = v" by (auto split: amqp_field_value_t.splits)
    with m(2) [of v] have put: "put_value (merged base done) k v = merged base (done @ [Entry k v])" by simp
    have "merge_entries base (merged base done) (Entry k v # add) = merge_entries base (merged base (done @ [Entry k v])) add"
      unfolding merge_entries.simps get_entry_find m(1) put using False
      by (auto split: amqp_field_value_t.splits)
    moreover have "mergeable_entries base (Entry k v # add) \<longleftrightarrow> mergeable_entries base add"
      using Some False by (auto split: amqp_field_value_t.splits)
    ultimately show ?thesis using loop by simp
  qed
qed

lemma merge_entries_loop:
  assumes "tidy base" and "tidy (done @ add)"
    and "\<And>e a b. e \<in> set add \<Longrightarrow> entry_value e = FV_TABLE a \<Longrightarrow> tidy b \<Longrightarrow> tidy a \<Longrightarrow>
      merges (merge_tables b a) (merged b a) (mergeable b a)"
  shows "merges (merge_entries base (merged base done) add) (merged base (done @ add)) (mergeable_entries base add)"
  using assms(2,3)
proof (induction add arbitrary: "done")
  case Nil
  show ?case by (simp add: merges_ret del: merged.simps)
next
  case (Cons e add)
  obtain k v where e: "e = Entry k v" by (cases e)
  have t: "tidy (e # add)" "k \<notin> key ` set done" using tidy_append [OF Cons.prems(1)] e by auto
  have "merges (merge_entries base (merged base (done @ [e])) add) (merged base ((done @ [e]) @ add)) (mergeable_entries base add)"
    using Cons.prems by (intro Cons.IH) auto
  then have loop: "merges (merge_entries base (merged base (done @ [Entry k v])) add) (merged base (done @ e # add)) (mergeable_entries base add)"
    using e by (simp del: merged.simps)
  show ?case
    unfolding e by (rule merge_entries_step [OF assms(1) t(2) _ _ loop [unfolded e]])
      (use t(1) e Cons.prems(2) [of e] in \<open>simp_all del: merge_tables.simps merged.simps mergeable.simps\<close>)
qed

lemma merges_alloc:
  assumes m: "merges m v ok"
  shows "merges (bindP (amqp_pool_alloc n) (\<lambda>p. case p of None \<Rightarrow> throw AMQP_STATUS_NO_MEMORY | Some _ \<Rightarrow> m)) v (n \<noteq> 0 \<and> ok)"
  unfolding merges_def
proof (intro allI impI)
  fix s r s'
  assume s: "pool_ready s" and run: "bindP (amqp_pool_alloc n) (\<lambda>p. case p of None \<Rightarrow> throw AMQP_STATUS_NO_MEMORY | Some _ \<Rightarrow> m) s = (r, s')"
  obtain q s1 where alloc: "amqp_pool_alloc n s = (q, s1)" by (rule prod.exhaust)
  have adv: "advances s s1" and "q \<noteq> Undefined" "q \<noteq> OutOfFuel"
    using works_alloc(1) [of n] s alloc unfolding works_def by (metis fst_conv snd_conv)+
  moreover have "\<nexists>e. q = Err e" using pool_alloc_settles(1) [of "fst s" "snd s" n] alloc s
    by (cases s; cases s1) (auto simp: pool_ready_def)
  ultimately obtain p where q: "q = Ok p" by (cases q) auto
  have ready: "pool_ready s1" and gen: "generous (snd s) \<Longrightarrow> generous (snd s1)"
    using adv by (simp_all add: advances_def generous_def)
  show "advances s s' \<and> (r = Ok v \<or> (\<exists>e. r = Err e)) \<and> (n \<noteq> 0 \<and> ok \<longrightarrow> generous (snd s) \<longrightarrow> r = Ok v)"
  proof (cases p)
    case None
    have "n = 0 \<or> \<not> generous (snd s)"
      using pool_alloc_clones(2) [of n s] s alloc q None by (cases s) (auto simp: pool_ready_def pool_generous_def)
    with run alloc q None adv show ?thesis by (auto simp: bindP_def throw_def)
  next
    case (Some b)
    with run alloc q have "m s1 = (r, s')" by (simp add: bindP_def)
    from mergesD [OF m ready this] gen adv show ?thesis by (blast intro: advances_trans)
  qed
qed

lemma merges_tables: "tidy base \<Longrightarrow> tidy add \<Longrightarrow> merges (merge_tables base add) (merged base add) (mergeable base add)"
proof (induction add arbitrary: base rule: measure_induct_rule [where f = "size_list size"])
  case (less add)
  have nested: "merges (merge_tables b a) (merged b a) (mergeable b a)"
    if "e \<in> set add" "entry_value e = FV_TABLE a" "tidy b" "tidy a" for e a b
  proof (rule less.IH [OF _ that(3,4)])
    have "size_list size a < size e" using that(2) by (cases e) simp
    also have "size e \<le> size_list size add" using that(1) by (simp add: size_list_estimation')
    finally show "size_list size a < size_list size add" .
  qed
  have start: "merged base [] = base"
  proof -
    have "merge_over base [] = base" by (induction base) (simp_all add: merge_over_Cons)
    then show ?thesis by simp
  qed
  have loop: "merges (merge_entries base base add) (merged base add) (mergeable_entries base add)"
    using merge_entries_loop [OF less.prems(1), of "[]" add] less.prems(2) nested start by (simp del: merged.simps)
  show ?case unfolding merge_tables.simps
    by (rule merges_mono [OF merges_in_temp_pool [OF merges_alloc [OF loop]]]) (auto simp: sizeof_table_entry_def)
qed
section \<open>Merging capabilities\<close>

text \<open>
  C12: Merging two tables without repeated keys gives their overlay or an error, never undefined behaviour; the
  pool stays valid, nothing is freed twice, and with enough memory it fails only for tables that cannot be
  cloned or when two empty tables meet.
\<close>

theorem amqp_merge_capabilities_overlay:
  assumes "pool_inv p h" and "tidy base" and "tidy add"
  shows "case amqp_merge_capabilities base (Some add) (p, h) of
      (Ok t, (p', h')) \<Rightarrow> t = merged base add \<and> pool_inv p' h' \<and> h_fault h' = h_fault h
    | (Err e, (p', h')) \<Rightarrow> \<not> (mergeable base add \<and> generous h) \<and> pool_inv p' h' \<and> h_fault h' = h_fault h
    | _ \<Rightarrow> False"
proof -
  obtain r p' h' where run: "amqp_merge_capabilities base (Some add) (p, h) = (r, p', h')" by (metis surj_pair)
  then have "merge_tables base add (p, h) = (r, p', h')" by (simp only: amqp_merge_capabilities_def option.case)
  from mergesD [OF merges_tables [OF assms(2,3)] _ this] assms(1) run show ?thesis
    by (cases r) (auto simp: pool_ready_def advances_def simp del: merged.simps mergeable.simps)
qed

text \<open>In an overlay the added value wins, unless both are tables.\<close>

lemma find_merge_over:
  "List.find (\<lambda>e. key e = k) (merge_over base add) = map_option (\<lambda>e. Entry k
     (case List.find (\<lambda>e. key e = k) add of None \<Rightarrow> entry_value e | Some a \<Rightarrow> merge_value (entry_value e) (entry_value a)))
     (List.find (\<lambda>e. key e = k) base)"
  by (induction base) (auto simp: merge_over_Cons simp del: merge_value.simps split: option.splits)

lemma find_merged:
  "map_option entry_value (amqp_table_get_entry_by_key (merged base add) k) =
     (case (map_option entry_value (amqp_table_get_entry_by_key base k), map_option entry_value (amqp_table_get_entry_by_key add k)) of
        (None, a) \<Rightarrow> a | (b, None) \<Rightarrow> b | (Some b, Some a) \<Rightarrow> Some (merge_value b a))"
proof -
  have "List.find (\<lambda>e. key e = k) (filter (\<lambda>e. key e \<notin> key ` set base) add) = List.find (\<lambda>e. key e = k) add"
    if "k \<notin> key ` set base"
    using that by (induction add) auto
  then show ?thesis
    by (auto simp: get_entry_find find_append find_merge_over find_key_None [symmetric] simp del: merge_value.simps split: option.splits)
qed

text \<open>
  The code looks a table that occurs twice up in \<open>base\<close>, without checking that it is there: with a key that
  only the client's properties have, and have twice, the null pointer is read.
\<close>

theorem merge_repeated_key_undefined:
  assumes "pool_inv p h" and "generous h" and "k \<notin> key ` set base"
  shows "fst (amqp_merge_capabilities base (Some [Entry k (FV_TABLE a), Entry k (FV_TABLE b)]) (p, h)) = Undefined"
proof -
  have ready: "pool_inv (init_amqp_pool 4096) h"
    by (rule pool_inv_init) (use assms(1) in \<open>simp_all add: pool_inv_def ptrdiff_max_def\<close>)
  let ?n = "sizeof_table_entry * (length base + 2)"
  have "?n \<noteq> 0" by (simp add: sizeof_table_entry_def)
  from generous_pool_alloc [OF ready assms(2) this] obtain q p' h' where
    alloc: "amqp_pool_alloc ?n (init_amqp_pool 4096, h) = (Ok (Some q), p', h')" by metis
  have "List.find (\<lambda>e. key e = k) base = None" using assms(3) by (simp add: find_key_None)
  then have "merge_entries base base [Entry k (FV_TABLE a), Entry k (FV_TABLE b)] s = (Undefined, s)" for s
    by (simp add: get_entry_find find_append del: merge_tables.simps)
  with alloc show ?thesis
    by (simp add: amqp_merge_capabilities_def in_temp_pool_def bindP_def numeral_2_eq_2 del: merge_entries.simps split: prod.splits)
qed

text \<open>Two empty tables need no memory for their entries, which is taken for a lack of memory.\<close>

theorem merge_empty_tables: "fst (amqp_merge_capabilities [] (Some []) s) = Err AMQP_STATUS_NO_MEMORY"
  by (cases s) (simp add: amqp_merge_capabilities_def in_temp_pool_def amqp_pool_alloc_def bindP_def throw_def)

theorem amqp_merge_capabilities_overlay_witness:
  "\<exists>p h. amqp_merge_capabilities
      [Entry [1] (FV_TABLE [Entry [2] (FV_BOOLEAN True)]), Entry [3] (FV_UTF8 [4])]
      (Some [Entry [5] (FV_UTF8 [6]), Entry [1] (FV_TABLE [Entry [7] (FV_BOOLEAN False)])]) (init_amqp_pool 64, fresh_heap) =
    (Ok [Entry [1] (FV_TABLE [Entry [2] (FV_BOOLEAN True), Entry [7] (FV_BOOLEAN False)]), Entry [3] (FV_UTF8 [4]),
         Entry [5] (FV_UTF8 [6])], (p, h))"
  (is "\<exists>p h. amqp_merge_capabilities ?base (Some ?add) _ = _")
proof -
  have "merged ?base ?add = [Entry [1] (FV_TABLE [Entry [2] (FV_BOOLEAN True), Entry [7] (FV_BOOLEAN False)]), Entry [3] (FV_UTF8 [4]),
      Entry [5] (FV_UTF8 [6])]" by simp
  moreover have "mergeable ?base ?add" by simp
  moreover have "tidy ?base" "tidy ?add" by simp_all
  moreover have "generous fresh_heap" by (simp add: generous_def fresh_heap_def)
  ultimately show ?thesis
    using amqp_merge_capabilities_overlay [OF small_pool_inv, of ?base ?add]
    by (auto simp del: merged.simps mergeable.simps split: prod.splits outcome.splits)
qed

theorem merge_repeated_key_undefined_witness:
  "fst (amqp_merge_capabilities [] (Some [Entry [1] (FV_TABLE []), Entry [1] (FV_TABLE [])]) (init_amqp_pool 64, fresh_heap)) = Undefined"
  using merge_repeated_key_undefined [OF small_pool_inv, of "[1]" "[]" "[]" "[]"] by (simp add: generous_def fresh_heap_def)

end
