(* ===== verification/Amqp_Socket.thy ===== *)
theory Amqp_Socket
  imports Amqp_Frames Amqp_Lifecycle
begin

text \<open>
  librabbitmq/amqp\_tcp\_socket.c and the part of librabbitmq/amqp\_socket.c that moves bytes and
  frames: system calls on the socket, waiting with a deadline, sending and receiving frames with
  heartbeats, and the queue of frames.

  The operating system is a script: the results of the calls of \<^verbatim>\<open>recv\<close>, \<^verbatim>\<open>send\<close>, \<^verbatim>\<open>poll\<close> and \<^verbatim>\<open>close\<close>
  in their order. A run that needs a result beyond the end of the script is still waiting; its
  outcome is \<open>OutOfFuel\<close>. The loops carry fuel computed from the script and the buffers when they
  are entered; the lemmas show that it is not used up before the script is.
\<close>

section \<open>The state of the library and the system\<close>

datatype recv_result = Recv_bytes "byte list" | Recv_interrupted | Recv_again | Recv_failed
datatype send_result = Send_accepts nat | Send_interrupted | Send_again | Send_failed
datatype poll_result = Poll_ready | Poll_timeout | Poll_interrupted | Poll_failed

datatype amqp_response_type_enum =
    AMQP_RESPONSE_NONE | AMQP_RESPONSE_NORMAL | AMQP_RESPONSE_LIBRARY_EXCEPTION | AMQP_RESPONSE_SERVER_EXCEPTION

text \<open>A reply is the number and the structure of a method; \<open>None\<close> is a null pointer or not set.\<close>

record amqp_rpc_reply_t =
  reply_type :: amqp_response_type_enum
  reply :: "(amqp_method_number_t \<times> amqp_method_t) option"
  library_error :: amqp_status_enum

definition no_reply :: amqp_rpc_reply_t where
  "no_reply = \<lparr>reply_type = AMQP_RESPONSE_NONE, reply = None, library_error = AMQP_STATUS_OK\<rparr>"

definition amqp_rpc_reply_error :: "amqp_status_enum \<Rightarrow> amqp_rpc_reply_t" where
  "amqp_rpc_reply_error status =
     \<lparr>reply_type = AMQP_RESPONSE_LIBRARY_EXCEPTION, reply = None, library_error = status\<rparr>"

text \<open>
  \<open>sock\<close> is the descriptor of the TCP socket of the connection; the connection may have no socket. \<open>wire\<close>
  collects the bytes that the system has accepted.
\<close>

record net =
  conn :: amqp_connection_state_t
  sock :: "int option"
  recvs :: "recv_result list"
  sends :: "send_result list"
  polls :: "poll_result list"
  closes :: "bool list"
  wire :: "byte list"
  most_recent_api_result :: amqp_rpc_reply_t

type_synonym 'a nprog = "(net, 'a) prog"

definition on_conn :: "'a cprog \<Rightarrow> 'a nprog" where
  "on_conn m = (\<lambda>w. case m (conn w) of (r, st) \<Rightarrow> (r, w\<lparr>conn := st\<rparr>))"

definition read_conn :: "(amqp_connection_state_t \<Rightarrow> 'a) \<Rightarrow> 'a nprog" where
  "read_conn f = (\<lambda>w. (Ok (f (conn w)), w))"

definition still_waiting :: "'a nprog" where
  "still_waiting = (\<lambda>w. (OutOfFuel, w))"

section \<open>The TCP socket\<close>

text \<open>
  The result of an operation of a socket: the number or the bytes, \<^verbatim>\<open>AMQP_PRIVATE_STATUS_SOCKET_NEEDREAD\<close>
  and \<^verbatim>\<open>NEEDWRITE\<close>, or a status.
\<close>

datatype 'a sock_result = Done 'a | Need_read | Need_write | Sock_error amqp_status_enum

definition amqp_get_sockfd :: "net \<Rightarrow> int" where
  "amqp_get_sockfd w = (case sock w of None \<Rightarrow> - 1 | Some fd \<Rightarrow> fd)"

text \<open>
  \<^verbatim>\<open>recv\<close> returns at most the bytes asked for; the others stay in the system. No byte is the end of
  the stream.
\<close>

fun tcp_recv :: "nat \<Rightarrow> recv_result list \<Rightarrow> (byte list sock_result \<times> recv_result list) option" where
  "tcp_recv n [] = None"
| "tcp_recv n (Recv_bytes bs # rs) =
     Some (if take n bs = [] then Sock_error AMQP_STATUS_CONNECTION_CLOSED else Done (take n bs),
       if length bs \<le> n then rs else Recv_bytes (drop n bs) # rs)"
| "tcp_recv n (Recv_interrupted # rs) = tcp_recv n rs"
| "tcp_recv n (Recv_again # rs) = Some (Need_read, rs)"
| "tcp_recv n (Recv_failed # rs) = Some (Sock_error AMQP_STATUS_SOCKET_ERROR, rs)"

definition amqp_tcp_socket_recv :: "nat \<Rightarrow> byte list sock_result nprog" where
  "amqp_tcp_socket_recv n = (\<lambda>w.
     case sock w of
       None \<Rightarrow> (Undefined, w)
     | Some fd \<Rightarrow>
         if fd = - 1 then (Ok (Sock_error AMQP_STATUS_SOCKET_CLOSED), w)
         else case tcp_recv n (recvs w) of
             None \<Rightarrow> (OutOfFuel, w\<lparr>recvs := []\<rparr>)
           | Some (r, rs) \<Rightarrow> (Ok r, w\<lparr>recvs := rs\<rparr>))"

fun tcp_send :: "nat \<Rightarrow> send_result list \<Rightarrow> (nat sock_result \<times> send_result list) option" where
  "tcp_send n [] = None"
| "tcp_send n (Send_accepts k # rs) = Some (Done (min k n), rs)"
| "tcp_send n (Send_interrupted # rs) = tcp_send n rs"
| "tcp_send n (Send_again # rs) = Some (Need_write, rs)"
| "tcp_send n (Send_failed # rs) = Some (Sock_error AMQP_STATUS_SOCKET_ERROR, rs)"

definition amqp_tcp_socket_send :: "byte list \<Rightarrow> nat sock_result nprog" where
  "amqp_tcp_socket_send buf = (\<lambda>w.
     case sock w of
       None \<Rightarrow> (Undefined, w)
     | Some fd \<Rightarrow>
         if fd = - 1 then (Ok (Sock_error AMQP_STATUS_SOCKET_CLOSED), w)
         else case tcp_send (length buf) (sends w) of
             None \<Rightarrow> (OutOfFuel, w\<lparr>sends := []\<rparr>)
           | Some (Done k, rs) \<Rightarrow> (Ok (Done k), w\<lparr>sends := rs, wire := wire w @ take k buf\<rparr>)
           | Some (r, rs) \<Rightarrow> (Ok r, w\<lparr>sends := rs\<rparr>))"

text \<open>\<^verbatim>\<open>close\<close> may fail, and then the descriptor is kept; a script that says nothing of it lets it succeed.\<close>

definition amqp_tcp_socket_close :: "amqp_status_enum nprog" where
  "amqp_tcp_socket_close = (\<lambda>w.
     case sock w of
       None \<Rightarrow> (Undefined, w)
     | Some fd \<Rightarrow>
         if fd = - 1 then (Ok AMQP_STATUS_SOCKET_CLOSED, w)
         else case closes w of
             False # cs \<Rightarrow> (Ok AMQP_STATUS_SOCKET_ERROR, w\<lparr>closes := cs\<rparr>)
           | cs \<Rightarrow> (Ok AMQP_STATUS_OK, w\<lparr>closes := drop 1 cs, sock := Some (- 1)\<rparr>))"

section \<open>Waiting\<close>

definition time_left_ms :: "amqp_time_t \<Rightarrow> int cprog" where
  "time_left_ms time = (\<lambda>st.
     if time_point_ns time = UINT64_MAX \<or> time_point_ns time = 0 then (Ok (amqp_time_ms_until 0 time), st)
     else case read_clock st of (_, st') \<Rightarrow> (Ok (amqp_time_ms_until (clock st (ticks st)) time), st'))"

text \<open>
  \<^verbatim>\<open>amqp_poll\<close>, with the events to wait for left to the script. A time that is no timeout is passed on
  as the status, whatever it is.
\<close>

fun poll_loop :: "poll_result list \<Rightarrow> amqp_time_t \<Rightarrow> (amqp_connection_state_t, amqp_status_enum \<times> poll_result list) prog" where
  "poll_loop ps deadline =
     bindP (time_left_ms deadline) (\<lambda>timeout_ms.
     if - 1 > timeout_ms then ret (status_of_code timeout_ms, ps)
     else case ps of
         [] \<Rightarrow> (\<lambda>st. (OutOfFuel, st))
       | p # ps' \<Rightarrow>
           (case p of
              Poll_ready \<Rightarrow> ret (AMQP_STATUS_OK, ps')
            | Poll_timeout \<Rightarrow> ret (AMQP_STATUS_TIMEOUT, ps')
            | Poll_interrupted \<Rightarrow> poll_loop ps' deadline
            | Poll_failed \<Rightarrow> ret (AMQP_STATUS_SOCKET_ERROR, ps')))"

definition amqp_poll :: "amqp_time_t \<Rightarrow> amqp_status_enum nprog" where
  "amqp_poll deadline = (\<lambda>w.
     case poll_loop (polls w) deadline (conn w) of
       (Ok (status, ps), st) \<Rightarrow> (Ok status, w\<lparr>conn := st, polls := ps\<rparr>)
     | (Err e, st) \<Rightarrow> (Err e, w\<lparr>conn := st\<rparr>)
     | (Undefined, st) \<Rightarrow> (Undefined, w\<lparr>conn := st\<rparr>)
     | (OutOfFuel, st) \<Rightarrow> (OutOfFuel, w\<lparr>conn := st, polls := []\<rparr>))"

definition do_poll :: "nat sock_result \<Rightarrow> amqp_time_t \<Rightarrow> amqp_status_enum nprog" where
  "do_poll res deadline = (\<lambda>w.
     if amqp_get_sockfd w = - 1 then (Ok AMQP_STATUS_SOCKET_CLOSED, w)
     else case res of
         Need_read \<Rightarrow> amqp_poll deadline w
       | Need_write \<Rightarrow> amqp_poll deadline w
       | Sock_error e \<Rightarrow> (Ok e, w)
       | Done _ \<Rightarrow> (Ok AMQP_STATUS_OK, w))"

section \<open>Sending bytes\<close>

text \<open>
  The number of bytes sent: all of them, or fewer when the deadline passed. A result of 0 of \<^verbatim>\<open>send\<close>
  is tried again at once.
\<close>

fun try_send :: "nat \<Rightarrow> nat \<Rightarrow> byte list \<Rightarrow> amqp_time_t \<Rightarrow> nat nprog" where
  "try_send 0 whole left deadline = still_waiting"
| "try_send (Suc fuel) whole left deadline =
     bindP (amqp_tcp_socket_send left) (\<lambda>res.
     let again = bindP (do_poll res deadline) (\<lambda>status.
           if status = AMQP_STATUS_OK then try_send fuel whole left deadline
           else if status = AMQP_STATUS_TIMEOUT then ret (whole - length left)
           else throw status)
     in case res of
          Done n \<Rightarrow>
            if n > 0 then
              (if length left - n = 0 then ret whole else try_send fuel whole (drop n left) deadline)
            else again
        | _ \<Rightarrow> again)"

definition amqp_try_send :: "byte list \<Rightarrow> amqp_time_t \<Rightarrow> nat nprog" where
  "amqp_try_send buf deadline = (\<lambda>w. try_send (Suc (length (sends w))) (length buf) buf deadline w)"

section \<open>Receiving bytes\<close>

definition amqp_frames_enqueued :: "amqp_connection_state_t \<Rightarrow> bool" where
  "amqp_frames_enqueued st \<longleftrightarrow> first_queued_frame st \<noteq> []"

definition amqp_data_in_buffer :: "amqp_connection_state_t \<Rightarrow> bool" where
  "amqp_data_in_buffer st \<longleftrightarrow> sock_inbound_offset st < sock_inbound_limit st"

text \<open>The bytes received but not consumed.\<close>

definition buffered :: "amqp_connection_state_t \<Rightarrow> byte list" where
  "buffered st = take (sock_inbound_limit st - sock_inbound_offset st) (drop (sock_inbound_offset st) (sock_inbound_buffer st))"

definition consume_one_frame :: "unspecified \<Rightarrow> amqp_frame_t cprog" where
  "consume_one_frame u =
     bindP (gets buffered) (\<lambda>data.
     bindP (amqp_handle_input u data) (\<lambda>(res, decoded_frame).
     bindP (modify (\<lambda>st. st\<lparr>sock_inbound_offset := sock_inbound_offset st + res\<rparr>)) (\<lambda>_.
     ret decoded_frame)))"

definition store_received :: "byte list \<Rightarrow> amqp_connection_state_t \<Rightarrow> amqp_connection_state_t" where
  "store_received bs st = st\<lparr>sock_inbound_buffer := bs @ drop (length bs) (sock_inbound_buffer st),
     sock_inbound_limit := length bs, sock_inbound_offset := 0\<rparr>"

fun recv_loop :: "nat \<Rightarrow> amqp_time_t \<Rightarrow> unit nprog" where
  "recv_loop 0 timeout = still_waiting"
| "recv_loop (Suc fuel) timeout =
     bindP (read_conn (\<lambda>st. length (sock_inbound_buffer st))) (\<lambda>n.
     bindP (amqp_tcp_socket_recv n) (\<lambda>res.
     case res of
       Done bs \<Rightarrow>
         bindP (on_conn (modify (store_received bs))) (\<lambda>_.
         bindP (read_conn amqp_heartbeat_recv) (\<lambda>secs.
         on_conn (set_deadline next_recv_heartbeat_update next_recv_heartbeat secs)))
     | _ \<Rightarrow> (\<lambda>w.
         if amqp_get_sockfd w = - 1 then (Err AMQP_STATUS_CONNECTION_CLOSED, w)
         else (case res of
             Sock_error e \<Rightarrow> throw e
           | _ \<Rightarrow> bindP (amqp_poll timeout) (\<lambda>status.
               if status = AMQP_STATUS_OK then recv_loop fuel timeout else throw status)) w)))"

text \<open>
  A measure of what is to come: taking a result from the script, moving bytes into the buffer and
  consuming buffered bytes all make it smaller. The loops over received data get it as their fuel.
\<close>

definition recv_weight :: "recv_result list \<Rightarrow> nat" where
  "recv_weight rs = (\<Sum>r\<leftarrow>rs. case r of Recv_bytes bs \<Rightarrow> Suc (2 * length bs) | _ \<Rightarrow> 1)"

definition pending :: "net \<Rightarrow> nat" where
  "pending w = length (buffered (conn w)) + recv_weight (recvs w)"

definition recv_with_timeout :: "amqp_time_t \<Rightarrow> unit nprog" where
  "recv_with_timeout timeout = (\<lambda>w. recv_loop (Suc (pending w)) timeout w)"

section \<open>The queue of frames\<close>

text \<open>The sizes of \<^verbatim>\<open>amqp_frame_t\<close> and \<^verbatim>\<open>amqp_link_t\<close>.\<close>

definition sizeof_frame :: nat where "sizeof_frame = 48"
definition sizeof_link :: nat where "sizeof_link = 16"

text \<open>
  A link and a copy of the frame from the pool of its channel, in either order; both are requested
  before either is looked at.
\<close>

definition frame_link :: "nat \<Rightarrow> nat \<Rightarrow> amqp_frame_t \<Rightarrow> unit cprog" where
  "frame_link size1 size2 frame =
     bindP (channel_pool (frame_channel frame)) (\<lambda>_.
     bindP (with_pool (frame_channel frame) (pool_alloc size1)) (\<lambda>a.
     bindP (with_pool (frame_channel frame) (pool_alloc size2)) (\<lambda>b.
     if a = None \<or> b = None then throw AMQP_STATUS_NO_MEMORY else ret ())))"

definition amqp_create_link_for_frame :: "amqp_frame_t \<Rightarrow> unit cprog" where
  "amqp_create_link_for_frame = frame_link sizeof_link sizeof_frame"

definition append_frame :: "amqp_frame_t \<Rightarrow> unit cprog" where
  "append_frame frame = modify (\<lambda>st. st\<lparr>first_queued_frame := first_queued_frame st @ [frame]\<rparr>)"

definition amqp_queue_frame :: "amqp_frame_t \<Rightarrow> unit cprog" where
  "amqp_queue_frame frame = bindP (amqp_create_link_for_frame frame) (\<lambda>_. append_frame frame)"

definition amqp_put_back_frame :: "amqp_frame_t \<Rightarrow> unit cprog" where
  "amqp_put_back_frame frame =
     bindP (amqp_create_link_for_frame frame) (\<lambda>_.
     modify (\<lambda>st. st\<lparr>first_queued_frame := frame # first_queued_frame st\<rparr>))"

text \<open>The same, written out in \<^verbatim>\<open>amqp_try_recv\<close> and \<^verbatim>\<open>simple_rpc_inner\<close>.\<close>

definition enqueue :: "amqp_frame_t \<Rightarrow> unit cprog" where
  "enqueue frame = bindP (frame_link sizeof_frame sizeof_link frame) (\<lambda>_. append_frame frame)"

fun queue_buffered :: "unspecified \<Rightarrow> nat \<Rightarrow> unit cprog" where
  "queue_buffered u 0 = (\<lambda>st. (OutOfFuel, st))"
| "queue_buffered u (Suc fuel) =
     bindP (gets amqp_data_in_buffer) (\<lambda>more.
     if \<not> more then ret ()
     else
       bindP (consume_one_frame u) (\<lambda>frame.
       bindP (if frame_type frame \<noteq> 0 then enqueue frame else ret ()) (\<lambda>_.
       queue_buffered u fuel)))"

text \<open>The timeout of 0 seconds is an infinite one.\<close>

definition amqp_try_recv :: "unspecified \<Rightarrow> unit nprog" where
  "amqp_try_recv u =
     bindP (on_conn (\<lambda>st. queue_buffered u (Suc (length (buffered st))) st)) (\<lambda>_.
     case amqp_time_s_from_now 0 0 amqp_time_infinite of
       (status, timeout) \<Rightarrow> if status \<noteq> AMQP_STATUS_OK then throw status else recv_with_timeout timeout)"

section \<open>Sending frames\<close>

definition encode_frame :: "amqp_frame_t \<Rightarrow> byte list cprog" where
  "encode_frame frame = (\<lambda>st.
     case amqp_frame_to_bytes frame (outbound_len st) (outbound_mem st) of
       Ok (encoded, mem) \<Rightarrow> (Ok encoded, st\<lparr>outbound_mem := mem\<rparr>)
     | Err e \<Rightarrow> (Err e, st)
     | Undefined \<Rightarrow> (Undefined, st)
     | OutOfFuel \<Rightarrow> (OutOfFuel, st))"

definition on_status :: "'a nprog \<Rightarrow> (amqp_status_enum \<Rightarrow> 'a nprog) \<Rightarrow> 'a nprog" where
  "on_status m f = (\<lambda>w. case m w of (Err e, w') \<Rightarrow> f e w' | (r, w') \<Rightarrow> (r, w'))"

fun send_encoded :: "unspecified \<Rightarrow> nat \<Rightarrow> byte list \<Rightarrow> amqp_time_t \<Rightarrow> unit nprog" where
  "send_encoded u 0 encoded deadline = still_waiting"
| "send_encoded u (Suc fuel) encoded deadline =
     bindP (read_conn next_recv_heartbeat) (\<lambda>recv_heartbeat.
     let next_timeout = amqp_time_first deadline recv_heartbeat in
     bindP (amqp_try_send encoded next_timeout) (\<lambda>sent.
     if length encoded \<noteq> sent then
       (if amqp_time_equal next_timeout deadline then throw AMQP_STATUS_TIMEOUT
        else
          bindP (on_status (amqp_try_recv u) (\<lambda>e.
            throw (if e = AMQP_STATUS_TIMEOUT then AMQP_STATUS_HEARTBEAT_TIMEOUT else e))) (\<lambda>_.
          send_encoded u fuel (drop sent encoded) deadline))
     else
       bindP (read_conn amqp_heartbeat_send) (\<lambda>secs.
       on_conn (set_deadline next_send_heartbeat_update next_send_heartbeat secs))))"

definition amqp_send_frame_inner :: "unspecified \<Rightarrow> amqp_frame_t \<Rightarrow> amqp_time_t \<Rightarrow> unit nprog" where
  "amqp_send_frame_inner u frame deadline =
     bindP (on_conn (encode_frame frame)) (\<lambda>encoded w.
       send_encoded u (Suc (length (sends w))) encoded deadline w)"

definition amqp_send_frame :: "unspecified \<Rightarrow> amqp_frame_t \<Rightarrow> unit nprog" where
  "amqp_send_frame u frame = amqp_send_frame_inner u frame amqp_time_infinite"

section \<open>What the assembly leaves alone\<close>

text \<open>The assembly of frames touches the pools and the current frame, not the buffers and the queue.\<close>

definition same_io :: "amqp_connection_state_t \<Rightarrow> amqp_connection_state_t \<Rightarrow> bool" where
  "same_io st st' \<longleftrightarrow> sock_inbound_buffer st' = sock_inbound_buffer st \<and> sock_inbound_offset st' = sock_inbound_offset st
     \<and> sock_inbound_limit st' = sock_inbound_limit st \<and> outbound_len st' = outbound_len st
     \<and> outbound_mem st' = outbound_mem st \<and> first_queued_frame st' = first_queued_frame st
     \<and> frame_max st' = frame_max st \<and> heartbeat st' = heartbeat st \<and> channel_max st' = channel_max st
     \<and> next_recv_heartbeat st' = next_recv_heartbeat st \<and> next_send_heartbeat st' = next_send_heartbeat st"

definition ckeeps :: "'a cprog \<Rightarrow> bool" where
  "ckeeps m \<longleftrightarrow> (\<forall>st. same_io st (snd (m st)))"

named_theorems ckeeps_intros \<open>steps that leave the buffers and the queue alone\<close>

lemma same_io_refl [simp]: "same_io st st"
  by (simp add: same_io_def)

lemma same_io_trans: "same_io st st' \<Longrightarrow> same_io st' st'' \<Longrightarrow> same_io st st''"
  by (simp add: same_io_def)

lemma ckeepsD: "ckeeps m \<Longrightarrow> m st = (r, st') \<Longrightarrow> same_io st st'"
  by (metis ckeeps_def snd_conv)

lemma ckeeps_bind [ckeeps_intros]:
  assumes "ckeeps m" and "\<And>x. ckeeps (k x)"
  shows "ckeeps (bindP m k)"
  unfolding ckeeps_def
proof
  fix st
  obtain r s where m: "m st = (r, s)" by fastforce
  then have "same_io st s" by (rule ckeepsD [OF assms(1)])
  moreover have "same_io s (snd (k x s))" for x using assms(2) by (simp add: ckeeps_def)
  ultimately show "same_io st (snd (bindP m k st))" using m by (cases r) (auto simp: bindP_def intro: same_io_trans)
qed

lemma ckeeps_simple [ckeeps_intros]:
  "ckeeps (ret x)" "ckeeps (throw e)" "ckeeps (gets f)" "ckeeps (\<lambda>st. (Undefined, st))" "ckeeps (peek k n d)"
  by (auto simp: ckeeps_def ret_def throw_def gets_def peek_def split: option.splits)

lemma ckeeps_modify: "(\<And>st. same_io st (f st)) \<Longrightarrow> ckeeps (modify f)"
  by (simp add: ckeeps_def modify_def)

lemma ckeeps_if [ckeeps_intros]: "ckeeps m \<Longrightarrow> ckeeps m' \<Longrightarrow> ckeeps (if b then m else m')"
  by simp

lemma ckeeps_pools [ckeeps_intros]: "ckeeps (channel_pool c)" "ckeeps (with_pool c m)"
  by (auto simp: ckeeps_def channel_pool_def with_pool_def same_io_def split: prod.splits option.splits)

lemma ckeeps_decode [ckeeps_intros]: "ckeeps (decode_frame u t c)"
  unfolding decode_frame_def method_frame_def header_frame_def body_frame_def by (intro ckeeps_intros)

lemma same_io_modifies:
  "same_io st (return_to_idle st)" "same_io st (st\<lparr>target_size := n\<rparr>)" "same_io st (st\<lparr>inbound_buffer := i\<rparr>)"
  "same_io st (st\<lparr>inbound_buffer := i, conn_state := c\<rparr>)" "same_io st (st\<lparr>conn_state := c\<rparr>)"
  by (simp_all add: same_io_def return_to_idle_def)

lemma ckeeps_consume [ckeeps_intros]: "ckeeps (consume_data data)"
proof -
  have "same_io st (put_inbound bs i st\<lparr>inbound_offset := n\<rparr>)" for st bs i n by (cases i) (simp_all add: same_io_def)
  then show ?thesis by (auto simp: ckeeps_def consume_data_def Let_def split: option.splits)
qed

lemma ckeeps_finish [ckeeps_intros]: "ckeeps (finish_frame u c)"
  unfolding finish_frame_def by (intro ckeeps_intros ckeeps_modify same_io_modifies)

lemma ckeeps_allocate [ckeeps_intros]: "ckeeps (allocate_frame u)"
  unfolding allocate_frame_def Let_def
  by (intro ckeeps_intros ckeeps_modify same_io_modifies)
    (auto intro!: ckeeps_intros ckeeps_modify same_io_modifies split: option.splits)

lemma ckeeps_continue [ckeeps_intros]: "ckeeps (continue_frame u data c)" "ckeeps (begin_frame u data c)"
  unfolding continue_frame_def begin_frame_def by (auto intro!: ckeeps_intros)

lemma ckeeps_handle_input [ckeeps_intros]: "ckeeps (amqp_handle_input u data)"
  unfolding amqp_handle_input_def protocol_frame_def
  by (auto intro!: ckeeps_intros ckeeps_modify same_io_modifies split: amqp_connection_state_enum.splits)

section \<open>Safety and progress of the socket layer\<close>

text \<open>The invariant of a connection with its buffers.\<close>

definition io_inv :: "amqp_connection_state_t \<Rightarrow> bool" where
  "io_inv st \<longleftrightarrow> conn_inv st \<and> sock_inbound_offset st \<le> sock_inbound_limit st
     \<and> sock_inbound_limit st \<le> length (sock_inbound_buffer st)
     \<and> outbound_len st = length (outbound_mem st) \<and> 8 \<le> outbound_len st \<and> outbound_len st \<le> ptrdiff_max"

definition waits :: "net \<Rightarrow> bool" where
  "waits w \<longleftrightarrow> recvs w = [] \<or> sends w = [] \<or> polls w = []"

text \<open>
  \<open>nsound P m Q\<close>: from \<open>P\<close> the operation returns with \<open>Q\<close>, or fails with the memory of the connection
  intact, or meets a malformed frame, or waits for the system.
\<close>

definition intact :: "net \<Rightarrow> bool" where
  "intact w \<longleftrightarrow> memory_inv (conn w) \<and> sock w \<noteq> None"

fun nsettles :: "('a \<Rightarrow> net \<Rightarrow> bool) \<Rightarrow> 'a outcome \<times> net \<Rightarrow> bool" where
  "nsettles Q (Ok x, w) = Q x w"
| "nsettles Q (Err e, w) = intact w"
| "nsettles Q (Undefined, w) = malformed (raw_frame (conn w))"
| "nsettles Q (OutOfFuel, w) = waits w"

definition nsound :: "(net \<Rightarrow> bool) \<Rightarrow> 'a nprog \<Rightarrow> ('a \<Rightarrow> net \<Rightarrow> bool) \<Rightarrow> bool" where
  "nsound P m Q \<longleftrightarrow> (\<forall>w. P w \<longrightarrow> nsettles Q (m w))"

definition net_at :: "nat \<Rightarrow> nat \<Rightarrow> net \<Rightarrow> bool" where
  "net_at a b w \<longleftrightarrow> io_inv (conn w) \<and> sock w \<noteq> None \<and> pending w \<le> a \<and> length (sends w) \<le> b"

named_theorems nsound_intros \<open>triples of the socket layer\<close>

lemma nsoundI: "(\<And>w. P w \<Longrightarrow> nsettles Q (m w)) \<Longrightarrow> nsound P m Q"
  by (simp add: nsound_def)

lemma nsoundD: "nsound P m Q \<Longrightarrow> P w \<Longrightarrow> nsettles Q (m w)"
  by (simp add: nsound_def)

lemma nsound_bind:
  assumes "nsound P m R" and "\<And>x. nsound (R x) (k x) Q"
  shows "nsound P (bindP m k) Q"
proof (rule nsoundI)
  fix w
  assume "P w"
  obtain r w' where m: "m w = (r, w')" by fastforce
  from nsoundD [OF assms(1) \<open>P w\<close>] m assms(2) show "nsettles Q (bindP m k w)"
    by (cases r) (auto simp: bindP_def nsound_def)
qed

lemma nsettles_mono: "nsettles Q r \<Longrightarrow> (\<And>x w. Q x w \<Longrightarrow> Q' x w) \<Longrightarrow> nsettles Q' r"
  by (cases r; cases "fst r") auto

lemma nsound_conseq:
  assumes "nsound P m Q" and "\<And>w. P' w \<Longrightarrow> P w" and "\<And>x w. Q x w \<Longrightarrow> Q' x w"
  shows "nsound P' m Q'"
  using assms by (blast intro: nsoundI nsettles_mono dest: nsoundD)

lemma nsound_ret: "(\<And>w. P w \<Longrightarrow> Q x w) \<Longrightarrow> nsound P (ret x) Q"
  by (simp add: nsound_def ret_def)

lemma nsound_throw: "(\<And>w. P w \<Longrightarrow> intact w) \<Longrightarrow> nsound P (throw e) Q"
  by (simp add: nsound_def throw_def)

lemma nsound_read: "(\<And>x. nsound (\<lambda>w. P w \<and> f (conn w) = x) (k x) Q) \<Longrightarrow> nsound P (bindP (read_conn f) k) Q"
  by (simp add: nsound_def bindP_def read_conn_def)

lemma nsound_if: "(b \<Longrightarrow> nsound P m Q) \<Longrightarrow> (\<not> b \<Longrightarrow> nsound P m' Q) \<Longrightarrow> nsound P (if b then m else m') Q"
  by simp

lemma nsound_pre: "(\<And>w. P w \<Longrightarrow> C) \<Longrightarrow> (C \<Longrightarrow> nsound P m Q) \<Longrightarrow> nsound P m Q"
  by (auto simp: nsound_def)

lemma io_inv_memory: "io_inv st \<Longrightarrow> memory_inv st"
  by (simp add: io_inv_def conn_inv_def)

lemma net_memory: "net_at a b w \<Longrightarrow> intact w"
  by (simp add: net_at_def intact_def io_inv_memory)

lemma net_mono: "net_at a b w \<Longrightarrow> a \<le> a' \<Longrightarrow> b \<le> b' \<Longrightarrow> net_at a' b' w"
  by (simp add: net_at_def)

text \<open>Updates that the invariant does not depend on.\<close>

lemma conn_inv_cong:
  assumes "same_memory st st'" and "header_buffer st' = header_buffer st" and "conn_state st' = conn_state st"
    and "inbound_buffer st' = inbound_buffer st" and "inbound_offset st' = inbound_offset st" and "target_size st' = target_size st"
    and "conn_inv st"
  shows "conn_inv st'"
  using assms memory_inv_same assembly_inv_cong [of st' st] by (simp add: conn_inv_def)

lemma io_inv_updates:
  assumes "io_inv st"
  shows "io_inv (st\<lparr>ticks := n\<rparr>)" "io_inv (st\<lparr>next_recv_heartbeat := t\<rparr>)" "io_inv (st\<lparr>next_send_heartbeat := t\<rparr>)"
    "io_inv (st\<lparr>first_queued_frame := q\<rparr>)"
    "k \<le> sock_inbound_limit st \<Longrightarrow> io_inv (st\<lparr>sock_inbound_offset := k\<rparr>)"
    "length mem = length (outbound_mem st) \<Longrightarrow> io_inv (st\<lparr>outbound_mem := mem\<rparr>)"
proof -
  have c: "conn_inv st" using assms by (simp add: io_inv_def)
  have "conn_inv (st\<lparr>ticks := n\<rparr>)" "conn_inv (st\<lparr>next_recv_heartbeat := t\<rparr>)" "conn_inv (st\<lparr>next_send_heartbeat := t\<rparr>)"
    "conn_inv (st\<lparr>first_queued_frame := q\<rparr>)" "conn_inv (st\<lparr>sock_inbound_offset := k\<rparr>)" "conn_inv (st\<lparr>outbound_mem := mem\<rparr>)"
    by (rule conn_inv_cong [OF _ _ _ _ _ _ c]; simp add: same_memory_def)+
  with assms show "io_inv (st\<lparr>ticks := n\<rparr>)" "io_inv (st\<lparr>next_recv_heartbeat := t\<rparr>)" "io_inv (st\<lparr>next_send_heartbeat := t\<rparr>)"
    "io_inv (st\<lparr>first_queued_frame := q\<rparr>)"
    "k \<le> sock_inbound_limit st \<Longrightarrow> io_inv (st\<lparr>sock_inbound_offset := k\<rparr>)"
    "length mem = length (outbound_mem st) \<Longrightarrow> io_inv (st\<lparr>outbound_mem := mem\<rparr>)"
    by (simp_all add: io_inv_def)
qed

lemma io_inv_same: "io_inv st \<Longrightarrow> conn_inv st' \<Longrightarrow> same_io st st' \<Longrightarrow> io_inv st'"
  by (simp add: io_inv_def same_io_def)

lemma io_inv_store:
  assumes "io_inv st" and "length bs \<le> length (sock_inbound_buffer st)"
  shows "io_inv (store_received bs st)"
proof -
  have "conn_inv (store_received bs st)"
    by (rule conn_inv_cong [of st]) (use assms in \<open>simp_all add: same_memory_def store_received_def io_inv_def\<close>)
  then show ?thesis using assms by (simp add: io_inv_def store_received_def)
qed

lemma recv_weight_simps [simp]:
  "recv_weight [] = 0" "recv_weight (Recv_bytes bs # rs) = Suc (2 * length bs) + recv_weight rs"
  "recv_weight (Recv_interrupted # rs) = Suc (recv_weight rs)" "recv_weight (Recv_again # rs) = Suc (recv_weight rs)"
  "recv_weight (Recv_failed # rs) = Suc (recv_weight rs)"
  by (simp_all add: recv_weight_def)

lemma tcp_recv_some:
  assumes "tcp_recv n rs = Some (r, rs')"
  shows "recv_weight rs' \<le> recv_weight rs" and "r = Need_read \<or> r = Need_write \<Longrightarrow> recv_weight rs' < recv_weight rs"
    and "r = Done bs \<Longrightarrow> bs \<noteq> [] \<and> length bs \<le> n \<and> length bs + recv_weight rs' < recv_weight rs"
  using assms by (induction n rs rule: tcp_recv.induct) (auto split: if_splits)

lemma buffered_ticks [simp]: "buffered (st\<lparr>ticks := n\<rparr>) = buffered st" "buffered (st\<lparr>next_recv_heartbeat := t\<rparr>) = buffered st"
  "buffered (st\<lparr>next_send_heartbeat := t\<rparr>) = buffered st" "buffered (st\<lparr>outbound_mem := mem\<rparr>) = buffered st"
  by (simp_all add: buffered_def)

lemma buffered_store: "buffered (store_received bs st) = bs"
  by (simp add: buffered_def store_received_def)

lemma tcp_send_some:
  assumes "tcp_send n rs = Some (r, rs')"
  shows "length rs' < length rs" and "r = Done k \<Longrightarrow> k \<le> n"
  using assms by (induction n rs rule: tcp_send.induct) (auto simp: less_Suc_eq)

lemma nsound_recv:
  "nsound (\<lambda>w. net_at a b w \<and> F (conn w)) (amqp_tcp_socket_recv n) (\<lambda>r w. net_at a b w \<and> F (conn w)
     \<and> (r = Need_read \<or> r = Need_write \<longrightarrow> pending w < a) \<and> (\<forall>bs. r = Done bs \<longrightarrow> length bs \<le> n \<and> length bs + recv_weight (recvs w) < a))"
proof (rule nsoundI)
  fix w
  assume "net_at a b w \<and> F (conn w)"
  then have w: "net_at a b w" "F (conn w)" by simp_all
  from w(1) obtain fd where fd: "sock w = Some fd" by (auto simp: net_at_def)
  show "nsettles (\<lambda>r w. net_at a b w \<and> F (conn w) \<and> (r = Need_read \<or> r = Need_write \<longrightarrow> pending w < a)
      \<and> (\<forall>bs. r = Done bs \<longrightarrow> length bs \<le> n \<and> length bs + recv_weight (recvs w) < a)) (amqp_tcp_socket_recv n w)"
  proof (cases "fd = - 1")
    case True
    then show ?thesis using w fd by (simp add: amqp_tcp_socket_recv_def)
  next
    case False
    show ?thesis
    proof (cases "tcp_recv n (recvs w)")
      case None
      then show ?thesis using fd False by (simp add: amqp_tcp_socket_recv_def waits_def)
    next
      case (Some p)
      obtain r rs where p: "p = (r, rs)" by fastforce
      note t = tcp_recv_some [OF Some [unfolded p]]
      let ?k = "length (buffered (conn w))"
      have "?k + recv_weight rs \<le> a" "r = Need_read \<or> r = Need_write \<Longrightarrow> ?k + recv_weight rs < a"
        "\<And>bs. r = Done bs \<Longrightarrow> length bs \<le> n \<and> length bs + recv_weight rs < a"
        using t w by (fastforce simp: net_at_def pending_def)+
      with w fd False Some p show ?thesis by (simp add: amqp_tcp_socket_recv_def net_at_def pending_def)
    qed
  qed
qed

lemma nsound_send:
  "nsound (net_at a b) (amqp_tcp_socket_send buf) (\<lambda>r w. net_at a b w
     \<and> (amqp_get_sockfd w \<noteq> - 1 \<longrightarrow> length (sends w) < b) \<and> (\<forall>k. r = Done k \<longrightarrow> k \<le> length buf \<and> length (sends w) < b))"
proof (rule nsoundI)
  fix w
  assume w: "net_at a b w"
  then obtain fd where fd: "sock w = Some fd" by (auto simp: net_at_def)
  let ?Q = "\<lambda>r w. net_at a b w \<and> (amqp_get_sockfd w \<noteq> - 1 \<longrightarrow> length (sends w) < b)
    \<and> (\<forall>k. r = Done k \<longrightarrow> k \<le> length buf \<and> length (sends w) < b)"
  show "nsettles ?Q (amqp_tcp_socket_send buf w)"
  proof (cases "fd = - 1")
    case True
    then show ?thesis using w fd by (simp add: amqp_tcp_socket_send_def amqp_get_sockfd_def)
  next
    case False
    show ?thesis
    proof (cases "tcp_send (length buf) (sends w)")
      case None
      then show ?thesis using fd False by (simp add: amqp_tcp_socket_send_def waits_def)
    next
      case (Some p)
      obtain r rs where p: "p = (r, rs)" by fastforce
      note t = tcp_send_some [OF Some [unfolded p]]
      have "length rs < b" using t(1) w by (simp add: net_at_def)
      with w fd False Some p t(2) show ?thesis
        by (cases r) (simp_all add: amqp_tcp_socket_send_def net_at_def pending_def)
    qed
  qed
qed

lemma time_left_ms_run: "\<exists>n ms. time_left_ms t st = (Ok ms, st\<lparr>ticks := n\<rparr>)"
proof -
  have "time_left_ms t st = (Ok (amqp_time_ms_until 0 t), st\<lparr>ticks := ticks st\<rparr>)
      \<or> time_left_ms t st = (Ok (amqp_time_ms_until (clock st (ticks st)) t), st\<lparr>ticks := Suc (ticks st)\<rparr>)"
    by (simp add: time_left_ms_def read_clock_def)
  then show ?thesis by blast
qed

lemma poll_loop_run:
  "\<exists>n. (\<exists>e ps'. poll_loop ps t st = (Ok (e, ps'), st\<lparr>ticks := n\<rparr>)) \<or> poll_loop ps t st = (OutOfFuel, st\<lparr>ticks := n\<rparr>)"
proof (induction ps arbitrary: st)
  case Nil
  obtain n ms where "time_left_ms t st = (Ok ms, st\<lparr>ticks := n\<rparr>)" using time_left_ms_run by blast
  then show ?case by (subst poll_loop.simps, subst (2) poll_loop.simps) (auto simp: bindP_def ret_def)
next
  case (Cons p ps)
  obtain n ms where ms: "time_left_ms t st = (Ok ms, st\<lparr>ticks := n\<rparr>)" using time_left_ms_run by blast
  show ?case
  proof (cases "p = Poll_interrupted \<and> \<not> - 1 > ms")
    case True
    then have "poll_loop (p # ps) t st = poll_loop ps t (st\<lparr>ticks := n\<rparr>)" using ms by (simp add: bindP_def)
    with Cons.IH [of "st\<lparr>ticks := n\<rparr>"] show ?thesis by auto
  next
    case False
    with ms show ?thesis by (cases p) (auto simp: bindP_def ret_def)
  qed
qed

lemma nsound_poll: "nsound (net_at a b) (amqp_poll t) (\<lambda>_. net_at a b)"
proof (rule nsoundI)
  fix w
  assume w: "net_at a b w"
  obtain n where "(\<exists>e ps. poll_loop (polls w) t (conn w) = (Ok (e, ps), (conn w)\<lparr>ticks := n\<rparr>))
      \<or> poll_loop (polls w) t (conn w) = (OutOfFuel, (conn w)\<lparr>ticks := n\<rparr>)" using poll_loop_run by blast
  then show "nsettles (\<lambda>_. net_at a b) (amqp_poll t w)"
    using w by (auto simp: amqp_poll_def net_at_def waits_def pending_def io_inv_updates simp del: poll_loop.simps)
qed

lemma nsound_poll_then:
  assumes "nsound (net_at a b) m Q"
  shows "nsound (net_at a b) (bindP (amqp_poll t) (\<lambda>status. if status = AMQP_STATUS_OK then m else throw status)) Q"
  by (rule nsound_bind [OF nsound_poll]) (auto intro: assms nsound_throw net_memory)

lemma nsound_deadline:
  assumes "\<And>st t. io_inv st \<Longrightarrow> io_inv (upd (\<lambda>_. t) st)" and "\<And>st t. buffered (upd (\<lambda>_. t) st) = buffered st"
  shows "nsound (net_at a b) (on_conn (set_deadline upd sel secs)) (\<lambda>_. net_at a b)"
proof (rule nsoundI)
  fix w
  assume w: "net_at a b w"
  then have "io_inv (conn w)" by (simp add: net_at_def)
  then have "\<exists>r st. set_deadline upd sel secs (conn w) = (r, st) \<and> io_inv st \<and> buffered st = buffered (conn w) \<and> (r = Ok () \<or> (\<exists>e. r = Err e))"
    using assms io_inv_updates(1) [of "conn w"] by (auto simp: set_deadline_def read_clock_def split: prod.splits)
  then show "nsettles (\<lambda>_. net_at a b) (on_conn (set_deadline upd sel secs) w)"
    using w by (auto simp: on_conn_def net_at_def pending_def intact_def io_inv_memory)
qed

text \<open>A step that does not enlarge the measure keeps a strict bound on it.\<close>

definition sooner :: "nat \<Rightarrow> nat \<Rightarrow> net \<Rightarrow> bool" where
  "sooner a b w \<longleftrightarrow> net_at a b w \<and> pending w < a"

lemma sooner_net: "sooner a b w \<Longrightarrow> net_at a b w"
  by (simp add: sooner_def)

lemma sooner_mono: "net_at a' b w \<Longrightarrow> a' < a \<Longrightarrow> sooner a b w"
  by (simp add: sooner_def net_at_def)

lemma nsound_sooner:
  assumes "\<And>a'. a' < a \<Longrightarrow> nsound (net_at a' b) m (\<lambda>x w. net_at a' b w \<and> R x)"
  shows "nsound (sooner a b) m (\<lambda>x w. sooner a b w \<and> R x)"
proof (rule nsoundI)
  fix w
  assume w: "sooner a b w"
  then have lt: "pending w < a" and n: "net_at (pending w) b w" by (simp_all add: sooner_def net_at_def)
  from nsoundD [OF assms [OF lt] n] show "nsettles (\<lambda>x w. sooner a b w \<and> R x) (m w)"
    by (rule nsettles_mono) (use lt in \<open>auto intro: sooner_mono\<close>)
qed

lemma nsound_sooner_plain:
  "(\<And>a'. a' < a \<Longrightarrow> nsound (net_at a' b) m (\<lambda>_. net_at a' b)) \<Longrightarrow> nsound (sooner a b) m (\<lambda>_. sooner a b)"
  using nsound_sooner [of a b m "\<lambda>_. True"] by simp

lemma nsound_recv_loop: "a < fuel \<Longrightarrow> nsound (net_at a b) (recv_loop fuel t) (\<lambda>_. sooner a b)"
proof (induction fuel arbitrary: a)
  case (Suc fuel)
  let ?poll = "bindP (amqp_poll t) (\<lambda>status. if status = AMQP_STATUS_OK then recv_loop fuel t else throw status)"
  have store: "nsound (\<lambda>w. net_at a b w \<and> length bs \<le> length (sock_inbound_buffer (conn w)) \<and> length bs + recv_weight (recvs w) < a)
      (on_conn (modify (store_received bs))) (\<lambda>_. sooner a b)" for bs
    by (rule nsoundI) (auto simp: on_conn_def modify_def sooner_def net_at_def pending_def io_inv_store buffered_store)
  have done_: "nsound (\<lambda>w. net_at a b w \<and> length bs \<le> length (sock_inbound_buffer (conn w)) \<and> length bs + recv_weight (recvs w) < a)
      (bindP (on_conn (modify (store_received bs))) (\<lambda>_.
       bindP (read_conn amqp_heartbeat_recv) (\<lambda>secs.
       on_conn (set_deadline next_recv_heartbeat_update next_recv_heartbeat secs)))) (\<lambda>_. sooner a b)" for bs
    by (rule nsound_bind [OF store nsound_read], rule nsound_conseq [OF nsound_sooner_plain [OF nsound_deadline]])
      (auto intro: io_inv_updates)
  have again: "nsound (sooner a b) ?poll (\<lambda>_. sooner a b)"
  proof (rule nsound_sooner_plain)
    fix a'
    assume "a' < a"
    with Suc.prems have "nsound (net_at a' b) (recv_loop fuel t) (\<lambda>_. sooner a' b)" by (intro Suc.IH) simp
    from nsound_poll_then [OF this] show "nsound (net_at a' b) ?poll (\<lambda>_. net_at a' b)"
      by (rule nsound_conseq) (auto intro: sooner_net)
  qed
  have closed: "nsound P (\<lambda>w. if amqp_get_sockfd w = - 1 then (Err AMQP_STATUS_CONNECTION_CLOSED, w) else m w) (\<lambda>_. sooner a b)"
    if "nsound P m (\<lambda>_. sooner a b)" "\<And>w. P w \<Longrightarrow> net_at a b w" for P m
    using that net_memory [of a b] by (auto simp: nsound_def)
  show ?case
    unfolding recv_loop.simps
  proof (rule nsound_read, rule nsound_bind)
    fix n
    show "nsound (\<lambda>w. net_at a b w \<and> length (sock_inbound_buffer (conn w)) = n) (amqp_tcp_socket_recv n)
      (\<lambda>r w. net_at a b w \<and> length (sock_inbound_buffer (conn w)) = n
        \<and> (r = Need_read \<or> r = Need_write \<longrightarrow> pending w < a) \<and> (\<forall>bs. r = Done bs \<longrightarrow> length bs \<le> n \<and> length bs + recv_weight (recvs w) < a))"
      by (rule nsound_recv)
    fix res
    show "nsound (\<lambda>w. net_at a b w \<and> length (sock_inbound_buffer (conn w)) = n
        \<and> (res = Need_read \<or> res = Need_write \<longrightarrow> pending w < a) \<and> (\<forall>bs. res = Done bs \<longrightarrow> length bs \<le> n \<and> length bs + recv_weight (recvs w) < a))
      (case res of
         Done bs \<Rightarrow> bindP (on_conn (modify (store_received bs))) (\<lambda>_.
           bindP (read_conn amqp_heartbeat_recv) (\<lambda>secs.
           on_conn (set_deadline next_recv_heartbeat_update next_recv_heartbeat secs)))
       | _ \<Rightarrow> (\<lambda>w. if amqp_get_sockfd w = - 1 then (Err AMQP_STATUS_CONNECTION_CLOSED, w)
           else (case res of Sock_error e \<Rightarrow> throw e | _ \<Rightarrow> ?poll) w)) (\<lambda>_. sooner a b)"
    proof (cases res)
      case (Done bs)
      then show ?thesis by (simp, intro nsound_conseq [OF done_ [of bs]]) auto
    next
      case Need_read
      show ?thesis unfolding Need_read sock_result.case by (rule closed, rule nsound_conseq [OF again]) (auto simp: sooner_def)
    next
      case Need_write
      show ?thesis unfolding Need_write sock_result.case by (rule closed, rule nsound_conseq [OF again]) (auto simp: sooner_def)
    next
      case (Sock_error e)
      show ?thesis unfolding Sock_error sock_result.case by (rule closed, rule nsound_throw) (auto intro: net_memory)
    qed
  qed
qed simp

lemma nsound_recv_with_timeout: "nsound (net_at a b) (recv_with_timeout t) (\<lambda>_. sooner a b)"
proof (rule nsoundI)
  fix w
  assume w: "net_at a b w"
  then have "net_at (pending w) b w" by (simp add: net_at_def)
  from nsoundD [OF nsound_recv_loop [OF lessI] this, of t] show "nsettles (\<lambda>_. sooner a b) (recv_with_timeout t w)"
    unfolding recv_with_timeout_def by (rule nsettles_mono) (use w in \<open>auto simp: net_at_def sooner_def\<close>)
qed

lemma nsound_less_sends:
  assumes "\<And>b'. b' < b \<Longrightarrow> nsound (net_at a b') m (\<lambda>x. net_at a b')"
  shows "nsound (\<lambda>w. net_at a b w \<and> length (sends w) < b) m (\<lambda>x w. net_at a b w \<and> length (sends w) < b)"
proof (rule nsoundI)
  fix w
  assume w: "net_at a b w \<and> length (sends w) < b"
  then have "net_at a (length (sends w)) w" by (simp add: net_at_def)
  from nsoundD [OF assms this] w show "nsettles (\<lambda>x w. net_at a b w \<and> length (sends w) < b) (m w)"
    by (auto simp: net_at_def elim!: nsettles_mono)
qed

lemma nsound_do_poll:
  "nsound (\<lambda>w. net_at a b w \<and> (amqp_get_sockfd w \<noteq> - 1 \<longrightarrow> length (sends w) < b)) (do_poll res t)
     (\<lambda>s w. net_at a b w \<and> (s = AMQP_STATUS_OK \<or> s = AMQP_STATUS_TIMEOUT \<longrightarrow> length (sends w) < b))"
proof (rule nsoundI)
  fix w
  let ?Q = "\<lambda>s w. net_at a b w \<and> (s = AMQP_STATUS_OK \<or> s = AMQP_STATUS_TIMEOUT \<longrightarrow> length (sends w) < b)"
  assume w: "net_at a b w \<and> (amqp_get_sockfd w \<noteq> - 1 \<longrightarrow> length (sends w) < b)"
  show "nsettles ?Q (do_poll res t w)"
  proof (cases "amqp_get_sockfd w = - 1")
    case True
    then show ?thesis using w by (simp add: do_poll_def)
  next
    case False
    have "nsettles (\<lambda>_ w. net_at a b w \<and> length (sends w) < b) (amqp_poll t w)"
      by (rule nsoundD [OF nsound_less_sends [OF nsound_poll]]) (use w False in simp)
    then have "nsettles ?Q (amqp_poll t w)" by (auto elim!: nsettles_mono)
    with w False show ?thesis by (cases res) (simp_all add: do_poll_def)
  qed
qed

lemma nsound_try_send:
  "b < fuel \<Longrightarrow> nsound (net_at a b) (try_send fuel whole left t) (\<lambda>n w. net_at a b w \<and> length (sends w) < b)"
proof (induction fuel arbitrary: b left)
  case (Suc fuel)
  let ?Q = "\<lambda>n w. net_at a b w \<and> length (sends w) < b"
  have more: "nsound (\<lambda>w. net_at a b w \<and> length (sends w) < b) (try_send fuel whole xs t) ?Q" for xs
  proof (rule nsoundI)
    fix w
    assume w: "net_at a b w \<and> length (sends w) < b"
    then have n: "net_at a (length (sends w)) w" by (simp add: net_at_def)
    have "length (sends w) < fuel" using w Suc.prems by simp
    from nsoundD [OF Suc.IH [OF this] n] show "nsettles ?Q (try_send fuel whole xs t w)"
      by (rule nsettles_mono) (use w in \<open>auto simp: net_at_def\<close>)
  qed
  let ?again = "\<lambda>res. bindP (do_poll res t) (\<lambda>status.
      if status = AMQP_STATUS_OK then try_send fuel whole left t
      else if status = AMQP_STATUS_TIMEOUT then ret (whole - length left) else throw status)"
  have again: "nsound (\<lambda>w. net_at a b w \<and> (amqp_get_sockfd w \<noteq> - 1 \<longrightarrow> length (sends w) < b)) (?again res) ?Q" for res
    by (rule nsound_bind [OF nsound_do_poll])
      (intro nsound_if nsound_conseq [OF more] nsound_ret nsound_throw; auto intro: net_memory)
  show ?case
    unfolding try_send.simps Let_def
  proof (rule nsound_bind [OF nsound_send])
    fix res
    show "nsound (\<lambda>w. net_at a b w \<and> (amqp_get_sockfd w \<noteq> - 1 \<longrightarrow> length (sends w) < b)
        \<and> (\<forall>k. res = Done k \<longrightarrow> k \<le> length left \<and> length (sends w) < b))
      (case res of Done n \<Rightarrow> if n > 0 then (if length left - n = 0 then ret whole else try_send fuel whole (drop n left) t)
          else ?again res | _ \<Rightarrow> ?again res) ?Q"
    proof (cases res)
      case (Done k)
      show ?thesis unfolding Done sock_result.case
        by (intro nsound_if nsound_ret nsound_conseq [OF more] nsound_conseq [OF again]) auto
    next
      case Need_read
      show ?thesis unfolding Need_read sock_result.case by (rule nsound_conseq [OF again]) auto
    next
      case Need_write
      show ?thesis unfolding Need_write sock_result.case by (rule nsound_conseq [OF again]) auto
    next
      case (Sock_error e)
      show ?thesis unfolding Sock_error sock_result.case by (rule nsound_conseq [OF again]) auto
    qed
  qed
qed simp

lemma nsound_amqp_try_send:
  "nsound (net_at a b) (amqp_try_send buf t) (\<lambda>n w. net_at a b w \<and> length (sends w) < b)"
proof (rule nsoundI)
  fix w
  assume w: "net_at a b w"
  then have n: "net_at a (length (sends w)) w" by (simp add: net_at_def)
  from nsoundD [OF nsound_try_send [OF lessI] n] show "nsettles (\<lambda>n w. net_at a b w \<and> length (sends w) < b) (amqp_try_send buf t w)"
    unfolding amqp_try_send_def by (rule nsettles_mono) (use w in \<open>auto simp: net_at_def\<close>)
qed

section \<open>Frames from the buffer\<close>

lemma length_buffered: "sock_inbound_limit st \<le> length (sock_inbound_buffer st) \<Longrightarrow>
    length (buffered st) = sock_inbound_limit st - sock_inbound_offset st"
  by (simp add: buffered_def)

text \<open>Consuming a frame takes some of the buffered bytes and hands them to the assembly.\<close>

lemma consume_one_frame_run:
  "consume_one_frame u st = (case amqp_handle_input u (buffered st) st of
       (Ok (n, f), st') \<Rightarrow> (Ok f, st'\<lparr>sock_inbound_offset := sock_inbound_offset st + n\<rparr>)
     | (Err e, st') \<Rightarrow> (Err e, st') | (Undefined, st') \<Rightarrow> (Undefined, st') | (OutOfFuel, st') \<Rightarrow> (OutOfFuel, st'))"
proof -
  obtain r s where run: "amqp_handle_input u (buffered st) st = (r, s)" by fastforce
  then have "sock_inbound_offset s = sock_inbound_offset st"
    using ckeepsD [OF ckeeps_handle_input] by (simp add: same_io_def)
  with run show ?thesis
    by (cases r) (auto simp: consume_one_frame_def bindP_def gets_def modify_def ret_def split: prod.splits)
qed

lemma consume_one_frame_safe:
  assumes inv: "io_inv st" and more: "amqp_data_in_buffer st"
  shows "case consume_one_frame u st of
      (Ok f, st') \<Rightarrow> io_inv st' \<and> length (buffered st') < length (buffered st)
    | (Err e, st') \<Rightarrow> memory_inv st' | (Undefined, st') \<Rightarrow> malformed (raw_frame st') | (OutOfFuel, st') \<Rightarrow> False"
proof -
  have c: "conn_inv st" and lim: "sock_inbound_limit st \<le> length (sock_inbound_buffer st)" using inv by (simp_all add: io_inv_def)
  then have a: "assembly_inv st" by (simp add: conn_inv_def)
  note len = length_buffered [OF lim]
  then have ne: "buffered st \<noteq> []" using more by (auto simp: amqp_data_in_buffer_def)
  obtain r s where run: "amqp_handle_input u (buffered st) st = (r, s)" by fastforce
  note p = promised_handle_input [OF c, of "buffered st" u, unfolded run promised_def]
  show ?thesis
  proof (cases r)
    case (Ok x)
    obtain n f where x: "x = (n, f)" by fastforce
    have n: "0 < n" "n \<le> length (buffered st)" using handle_input_progress [OF a ne run [unfolded Ok x]] by simp_all
    have s: "same_io st s" by (rule ckeepsD [OF ckeeps_handle_input run])
    then have "io_inv s" using io_inv_same [OF inv _ s] p Ok x by simp
    moreover have "sock_inbound_offset st + n \<le> sock_inbound_limit s"
      using n(2) len s inv by (auto simp: same_io_def io_inv_def)
    ultimately have "io_inv (s\<lparr>sock_inbound_offset := sock_inbound_offset st + n\<rparr>)" by (rule io_inv_updates)
    moreover have "length (buffered (s\<lparr>sock_inbound_offset := sock_inbound_offset st + n\<rparr>)) < length (buffered st)"
      using n len lim s by (simp add: length_buffered same_io_def)
    ultimately show ?thesis using run Ok x by (simp add: consume_one_frame_run)
  qed (use run p in \<open>auto simp: consume_one_frame_run\<close>)
qed


section \<open>Safety of the queue and of sending\<close>

lemma with_pool_alloc:
  assumes inv: "memory_inv st" and c: "amqp_get_channel_pool (pool_table st) c \<noteq> None"
  obtains a t h where "with_pool c (pool_alloc n) st = (Ok a, st\<lparr>pool_table := t, conn_heap := h\<rparr>)"
    "memory_inv (st\<lparr>pool_table := t, conn_heap := h\<rparr>)" "amqp_get_channel_pool t c \<noteq> None"
proof -
  obtain r s where run: "with_pool c (pool_alloc n) st = (r, s)" by fastforce
  have w: "(case r of Undefined \<Rightarrow> False | OutOfFuel \<Rightarrow> False | _ \<Rightarrow> memory_inv s) \<and> (\<exists>t h. s = st\<lparr>pool_table := t, conn_heap := h\<rparr>)"
  proof (rule with_pool_inv [OF inv c dkeeps_alloc(1) _ run])
    fix B p h
    assume d: "d_fail B \<lparr>offset = 0, dpool = p, dheap = h\<rparr>"
    from hoareD [OF dsafe_pool_alloc [of "\<lparr>len = 0, bytes = []\<rparr>" B n], of "\<lparr>offset = 0, dpool = p, dheap = h\<rparr>"] d
    show "case pool_alloc n \<lparr>offset = 0, dpool = p, dheap = h\<rparr> of
        (Ok x, d) \<Rightarrow> d_fail B d | (Err e, d) \<Rightarrow> d_fail B d | (Undefined, d) \<Rightarrow> False | (OutOfFuel, d) \<Rightarrow> False"
      by (auto simp: d_ok_def valid_bytes_def settles_iff split: prod.splits)
  qed
  have t: "table_inv (pool_table st)" using inv by (auto simp: memory_inv_def dest: pools_invD(1))
  obtain p where p: "amqp_get_channel_pool (pool_table st) c = Some p" using c by blast
  obtain q d where a: "pool_alloc n \<lparr>offset = 0, dpool = p, dheap = conn_heap st\<rparr> = (q, d)" by fastforce
  with p run have "r = q" and s: "s = st\<lparr>pool_table := set_channel_pool (pool_table st) c (dpool d), conn_heap := dheap d\<rparr>"
    by (auto simp: with_pool_def on_pool_def)
  moreover have "q \<noteq> Err e" for e
    using a by (auto simp: pool_alloc_def amqp_pool_alloc_def pool_take_page_def Let_def split: prod.splits if_splits option.splits bool.splits)
  moreover have "amqp_get_channel_pool (set_channel_pool (pool_table st) c (dpool d)) c \<noteq> None"
    using pool_table.put_look [OF t c] by simp
  ultimately show ?thesis using run w that by (cases q) auto
qed

lemma frame_link_run:
  assumes inv: "memory_inv st"
  obtains r :: "unit outcome" and t h where "frame_link n m f st = (r, st\<lparr>pool_table := t, conn_heap := h\<rparr>)"
    "memory_inv (st\<lparr>pool_table := t, conn_heap := h\<rparr>)" "r = Ok () \<or> r = Err AMQP_STATUS_NO_MEMORY"
proof -
  let ?c = "frame_channel f"
  obtain r1 s1 where run: "channel_pool ?c st = (r1, s1)" by fastforce
  note c = channel_pool_inv [OF inv run]
  from c(2) obtain t1 h1 where s1: "s1 = st\<lparr>pool_table := t1, conn_heap := h1\<rparr>" by blast
  show ?thesis
  proof (cases r1)
    case (Ok _)
    then have p: "amqp_get_channel_pool (pool_table s1) ?c \<noteq> None" and r1: "r1 = Ok ()" using c(3) by auto
    obtain a t2 h2 where a: "with_pool ?c (pool_alloc n) s1 = (Ok a, s1\<lparr>pool_table := t2, conn_heap := h2\<rparr>)"
      "memory_inv (s1\<lparr>pool_table := t2, conn_heap := h2\<rparr>)" "amqp_get_channel_pool t2 ?c \<noteq> None"
      by (rule with_pool_alloc [OF c(1) p])
    obtain b t3 h3 where b: "with_pool ?c (pool_alloc m) (s1\<lparr>pool_table := t2, conn_heap := h2\<rparr>)
        = (Ok b, s1\<lparr>pool_table := t2, conn_heap := h2\<rparr>\<lparr>pool_table := t3, conn_heap := h3\<rparr>)"
      "memory_inv (s1\<lparr>pool_table := t2, conn_heap := h2\<rparr>\<lparr>pool_table := t3, conn_heap := h3\<rparr>)"
      by (rule with_pool_alloc [OF a(2), of ?c m]) (use a(3) in simp)
    have "frame_link n m f st = (if a = None \<or> b = None then Err AMQP_STATUS_NO_MEMORY else Ok (),
        st\<lparr>pool_table := t3, conn_heap := h3\<rparr>)"
      using run r1 a(1) b(1) s1 by (simp add: frame_link_def bindP_def throw_def ret_def)
    then show ?thesis by (rule that) (use b(2) s1 in simp_all)
  next
    case (Err e)
    then show ?thesis using that [of "Err e" h1 t1] c run s1 by (simp add: frame_link_def bindP_def)
  qed (use c(3) in auto)
qed


lemma same_io_pools: "same_io st (st\<lparr>pool_table := t, conn_heap := h\<rparr>)"
  by (simp add: same_io_def)

lemma io_inv_pools: "io_inv st \<Longrightarrow> memory_inv (st\<lparr>pool_table := t, conn_heap := h\<rparr>) \<Longrightarrow> io_inv (st\<lparr>pool_table := t, conn_heap := h\<rparr>)"
  using assembly_inv_cong [of "st\<lparr>pool_table := t, conn_heap := h\<rparr>" st]
  by (intro io_inv_same [OF _ _ same_io_pools]) (simp_all add: io_inv_def conn_inv_def)

lemma buffered_cong:
  "sock_inbound_buffer s = sock_inbound_buffer t \<Longrightarrow> sock_inbound_offset s = sock_inbound_offset t \<Longrightarrow>
   sock_inbound_limit s = sock_inbound_limit t \<Longrightarrow> buffered s = buffered t"
  by (simp add: buffered_def)

definition buffering :: "nat \<Rightarrow> amqp_connection_state_t \<Rightarrow> bool" where
  "buffering n st \<longleftrightarrow> io_inv st \<and> length (buffered st) \<le> n"

lemma sound_link:
  assumes "\<And>st t h. buffering n st \<Longrightarrow> memory_inv (st\<lparr>pool_table := t, conn_heap := h\<rparr>) \<Longrightarrow> buffering n (upd (st\<lparr>pool_table := t, conn_heap := h\<rparr>))"
  shows "sound malformed (buffering n) (bindP (frame_link i j f) (\<lambda>_. modify upd)) (\<lambda>_. buffering n)"
proof (rule soundI)
  fix st
  assume st: "buffering n st"
  then have "memory_inv st" by (simp add: buffering_def io_inv_memory)
  then obtain r t h where run: "frame_link i j f st = (r, st\<lparr>pool_table := t, conn_heap := h\<rparr>)"
    "memory_inv (st\<lparr>pool_table := t, conn_heap := h\<rparr>)" "r = Ok () \<or> r = Err AMQP_STATUS_NO_MEMORY"
    by (rule frame_link_run)
  then show "case bindP (frame_link i j f) (\<lambda>_. modify upd) st of
      (Ok x, st') \<Rightarrow> buffering n st' | (Err e, st') \<Rightarrow> memory_inv st'
    | (Undefined, st') \<Rightarrow> malformed (raw_frame st') | (OutOfFuel, st') \<Rightarrow> False"
    using assms [OF st run(2)] by (auto simp: bindP_def modify_def)
qed

lemma buffering_queue:
  assumes "buffering n st" and "memory_inv (st\<lparr>pool_table := t, conn_heap := h\<rparr>)"
  shows "buffering n (st\<lparr>pool_table := t, conn_heap := h, first_queued_frame := q\<rparr>)"
proof -
  have "io_inv (st\<lparr>pool_table := t, conn_heap := h\<rparr>\<lparr>first_queued_frame := q\<rparr>)"
    using assms io_inv_pools io_inv_updates(4) unfolding buffering_def by blast
  then show ?thesis using assms(1) buffered_cong [of "st\<lparr>pool_table := t, conn_heap := h, first_queued_frame := q\<rparr>" st]
    by (simp add: buffering_def)
qed

lemma sound_enqueue:
  "sound malformed (buffering n) (enqueue f) (\<lambda>_. buffering n)"
  "sound malformed (buffering n) (amqp_queue_frame f) (\<lambda>_. buffering n)"
  "sound malformed (buffering n) (amqp_put_back_frame f) (\<lambda>_. buffering n)"
  unfolding enqueue_def append_frame_def amqp_queue_frame_def amqp_put_back_frame_def amqp_create_link_for_frame_def
  by (rule sound_link, simp add: buffering_queue)+

lemma sound_consume:
  "sound malformed (\<lambda>st. buffering n st \<and> amqp_data_in_buffer st) (consume_one_frame u) (\<lambda>_ st. io_inv st \<and> length (buffered st) < n)"
proof (rule soundI)
  fix st
  assume st: "buffering n st \<and> amqp_data_in_buffer st"
  then have "io_inv st" "amqp_data_in_buffer st" "length (buffered st) \<le> n" by (simp_all add: buffering_def)
  from consume_one_frame_safe [OF this(1,2), of u] this(3) show "case consume_one_frame u st of
      (Ok x, st') \<Rightarrow> io_inv st' \<and> length (buffered st') < n | (Err e, st') \<Rightarrow> memory_inv st'
    | (Undefined, st') \<Rightarrow> malformed (raw_frame st') | (OutOfFuel, st') \<Rightarrow> False"
    by (auto split: prod.splits outcome.splits)
qed

lemma sound_fetch: "(\<And>x. sound U (\<lambda>st. P st \<and> f st = x) (k x) Q) \<Longrightarrow> sound U P (bindP (gets f) k) Q"
  by (simp add: sound_def bindP_def gets_def)

lemma sound_queue_buffered: "n < fuel \<Longrightarrow> sound malformed (buffering n) (queue_buffered u fuel) (\<lambda>_. buffering n)"
proof (induction fuel arbitrary: n)
  case (Suc fuel)
  have step: "sound malformed (\<lambda>st. io_inv st \<and> length (buffered st) < n)
      (bindP (if frame_type f \<noteq> 0 then enqueue f else ret ()) (\<lambda>_. queue_buffered u fuel)) (\<lambda>_. buffering n)" for f
  proof (cases n)
    case 0
    then show ?thesis by (simp add: sound_def)
  next
    case (Suc m)
    have "sound malformed (buffering m) (if frame_type f \<noteq> 0 then enqueue f else ret ()) (\<lambda>_. buffering m)"
      by (intro sound_if sound_enqueue sound_ret)
    then have "sound malformed (buffering m) (bindP (if frame_type f \<noteq> 0 then enqueue f else ret ()) (\<lambda>_. queue_buffered u fuel)) (\<lambda>_. buffering m)"
      by (rule sound_bind) (use Suc Suc.prems in \<open>auto intro: Suc.IH\<close>)
    then show ?thesis by (rule sound_conseq) (use Suc in \<open>auto simp: buffering_def\<close>)
  qed
  have "sound malformed (\<lambda>st. buffering n st \<and> amqp_data_in_buffer st = more)
      (if \<not> more then ret () else bindP (consume_one_frame u) (\<lambda>frame.
         bindP (if frame_type frame \<noteq> 0 then enqueue frame else ret ()) (\<lambda>_. queue_buffered u fuel))) (\<lambda>_. buffering n)" for more
    by (intro sound_if sound_ret sound_bind [OF sound_conseq [OF sound_consume] step]) simp_all
  then show ?case unfolding queue_buffered.simps by (rule sound_fetch)
qed simp

text \<open>An operation on the connection alone.\<close>

lemma nsound_on_conn:
  assumes "\<And>n. sound malformed (\<lambda>st. buffering n st \<and> P st) m (\<lambda>x st. buffering n st \<and> Q x st \<and> (S x \<longrightarrow> length (buffered st) < n))"
  shows "nsound (\<lambda>w. net_at a b w \<and> P (conn w)) (on_conn m) (\<lambda>x w. net_at a b w \<and> Q x (conn w) \<and> (S x \<longrightarrow> sooner a b w))"
proof (rule nsoundI)
  fix w
  assume "net_at a b w \<and> P (conn w)"
  then have w: "net_at a b w" "P (conn w)" by blast+
  let ?n = "length (buffered (conn w))"
  have "buffering ?n (conn w)" using w(1) by (simp add: buffering_def net_at_def)
  obtain r st where run: "m (conn w) = (r, st)" by fastforce
  from assms [of ?n] w(2) run \<open>buffering ?n (conn w)\<close> have "case r of
      Ok x \<Rightarrow> buffering ?n st \<and> Q x st \<and> (S x \<longrightarrow> length (buffered st) < ?n)
    | Err e \<Rightarrow> memory_inv st | Undefined \<Rightarrow> malformed (raw_frame st) | OutOfFuel \<Rightarrow> False"
    by (auto simp: sound_def split: outcome.splits)
  with run w(1) show "nsettles (\<lambda>x w. net_at a b w \<and> Q x (conn w) \<and> (S x \<longrightarrow> sooner a b w)) (on_conn m w)"
    by (cases r) (auto simp: on_conn_def sooner_def net_at_def pending_def buffering_def intact_def)
qed

lemma nsound_on_conn_plain:
  assumes "\<And>n. sound malformed (buffering n) m (\<lambda>_. buffering n)"
  shows "nsound (net_at a b) (on_conn m) (\<lambda>_. net_at a b)"
  by (rule nsound_conseq [OF nsound_on_conn [where P = "\<lambda>_. True" and Q = "\<lambda>_ _. True" and S = "\<lambda>_. False"]])
    (use assms in simp_all)

lemma nsound_amqp_try_recv: "nsound (net_at a b) (amqp_try_recv u) (\<lambda>_. net_at a b)"
proof -
  have "nsound (net_at a b) (on_conn (\<lambda>st. queue_buffered u (Suc (length (buffered st))) st)) (\<lambda>_. net_at a b)"
  proof (rule nsound_on_conn_plain, rule soundI)
    fix n st
    assume st: "buffering n st"
    then have b: "buffering (length (buffered st)) st" by (simp add: buffering_def)
    have "sound malformed (\<lambda>s. s = st) (queue_buffered u (Suc (length (buffered st)))) (\<lambda>_. buffering n)"
      by (rule sound_conseq [OF sound_queue_buffered [OF lessI]]) (use st b in \<open>auto simp: buffering_def\<close>)
    then show "case queue_buffered u (Suc (length (buffered st))) st of
        (Ok x, st') \<Rightarrow> buffering n st' | (Err e, st') \<Rightarrow> memory_inv st'
      | (Undefined, st') \<Rightarrow> malformed (raw_frame st') | (OutOfFuel, st') \<Rightarrow> False"
      by (simp add: sound_def del: queue_buffered.simps)
  qed
  moreover have "nsound (net_at a b) (recv_with_timeout t) (\<lambda>_. net_at a b)" for t
    by (rule nsound_conseq [OF nsound_recv_with_timeout]) (auto intro: sooner_net)
  ultimately show ?thesis unfolding amqp_try_recv_def
    by (auto intro!: nsound_bind nsound_throw net_memory split: prod.splits)
qed

definition sendable :: "amqp_frame_t \<Rightarrow> amqp_connection_state_t \<Rightarrow> bool" where
  "sendable f st \<longleftrightarrow> wf_frame f \<and>
     (length (ser_frame f) \<le> outbound_len st \<or> frame_type f \<noteq> FRAME_BODY \<and> 20 \<le> outbound_len st)"

lemma encode_frame_run:
  assumes "io_inv st" and "sendable f st"
  shows "(\<exists>mem. encode_frame f st = (Ok (ser_frame f), st\<lparr>outbound_mem := mem\<rparr>) \<and> length mem = length (outbound_mem st))
    \<or> (\<exists>e. encode_frame f st = (Err e, st))"
proof -
  have len: "outbound_len st = length (outbound_mem st)" "length (outbound_mem st) \<le> ptrdiff_max"
    using assms(1) by (simp_all add: io_inv_def)
  show ?thesis
  proof (cases "length (ser_frame f) \<le> length (outbound_mem st)")
    case True
    then obtain mem where "amqp_frame_to_bytes f (length (outbound_mem st)) (outbound_mem st) = Ok (ser_frame f, mem)"
      "length mem = length (outbound_mem st)"
      using frame_to_bytes_fits [of f "outbound_mem st"] assms(2) len(2) unfolding sendable_def by blast
    then show ?thesis using len(1) by (intro disjI1 exI [of _ mem]) (simp add: encode_frame_def)
  next
    case False
    with assms(2) len have "wf_frame f" "frame_type f \<noteq> FRAME_BODY" "20 \<le> length (outbound_mem st)" by (auto simp: sendable_def)
    with False len(2) obtain e where "amqp_frame_to_bytes f (length (outbound_mem st)) (outbound_mem st) = Err e"
      using frame_to_bytes_cases [of f "outbound_mem st"] unfolding if_not_P [OF False] by auto
    then show ?thesis using len(1) by (simp add: encode_frame_def)
  qed
qed

lemma sound_encode:
  "sound malformed (\<lambda>st. buffering n st \<and> sendable f st) (encode_frame f) (\<lambda>encoded st. buffering n st \<and> encoded = ser_frame f)"
proof (rule soundI)
  fix st
  assume st: "buffering n st \<and> sendable f st"
  with encode_frame_run [of st f] show "case encode_frame f st of
      (Ok x, st') \<Rightarrow> buffering n st' \<and> x = ser_frame f | (Err e, st') \<Rightarrow> memory_inv st'
    | (Undefined, st') \<Rightarrow> malformed (raw_frame st') | (OutOfFuel, st') \<Rightarrow> False"
    by (auto simp: buffering_def io_inv_updates io_inv_memory)
qed

lemma nsound_on_status:
  assumes "nsound P m Q" and "\<And>e w. intact w \<Longrightarrow> nsettles Q (f e w)"
  shows "nsound P (on_status m f) Q"
proof (rule nsoundI)
  fix w
  assume "P w"
  obtain r w' where "m w = (r, w')" by fastforce
  with nsoundD [OF assms(1) \<open>P w\<close>] assms(2) show "nsettles Q (on_status m f w)"
    by (cases r) (auto simp: on_status_def)
qed

lemma nsound_send_encoded: "b < fuel \<Longrightarrow> nsound (net_at a b) (send_encoded u fuel encoded t) (\<lambda>_. net_at a b)"
proof (induction fuel arbitrary: b encoded)
  case (Suc fuel)
  have recv: "nsound (\<lambda>w. net_at a b w \<and> length (sends w) < b) (on_status (amqp_try_recv u) (\<lambda>e.
      throw (if e = AMQP_STATUS_TIMEOUT then AMQP_STATUS_HEARTBEAT_TIMEOUT else e))) (\<lambda>_ w. net_at a b w \<and> length (sends w) < b)"
    by (rule nsound_on_status [OF nsound_less_sends [OF nsound_amqp_try_recv]]) (simp add: throw_def)
  have more: "nsound (\<lambda>w. net_at a b w \<and> length (sends w) < b) (send_encoded u fuel xs t) (\<lambda>_. net_at a b)" for xs
  proof (rule nsoundI)
    fix w
    assume w: "net_at a b w \<and> length (sends w) < b"
    then have n: "net_at a (length (sends w)) w" by (simp add: net_at_def)
    have "length (sends w) < fuel" using w Suc.prems by simp
    from nsoundD [OF Suc.IH [OF this] n] show "nsettles (\<lambda>_. net_at a b) (send_encoded u fuel xs t w)"
      by (rule nsettles_mono) (use w in \<open>auto simp: net_at_def\<close>)
  qed
  have finish: "nsound (\<lambda>w. net_at a b w \<and> length (sends w) < b) (bindP (read_conn amqp_heartbeat_send) (\<lambda>secs.
       on_conn (set_deadline next_send_heartbeat_update next_send_heartbeat secs))) (\<lambda>_. net_at a b)"
    by (rule nsound_read, rule nsound_conseq [OF nsound_deadline]) (auto intro: io_inv_updates)
  show ?case
    unfolding send_encoded.simps Let_def
    apply (rule nsound_read)
    apply (rule nsound_bind [OF nsound_conseq [OF nsound_amqp_try_send]], erule conjunct1, assumption)
    apply (intro nsound_if nsound_bind [OF recv more] finish nsound_throw)
    by (auto intro: net_memory)
qed simp

lemma nsound_send_frame:
  "nsound (\<lambda>w. net_at a b w \<and> sendable f (conn w)) (amqp_send_frame_inner u f t) (\<lambda>_. net_at a b)"
  unfolding amqp_send_frame_inner_def
proof (rule nsound_bind [OF nsound_on_conn [where Q = "\<lambda>_ _. True" and S = "\<lambda>_. False"]])
  show "sound malformed (\<lambda>st. buffering n st \<and> sendable f st) (encode_frame f)
      (\<lambda>x st. buffering n st \<and> True \<and> (False \<longrightarrow> length (buffered st) < n))" for n
    by (rule sound_conseq [OF sound_encode]) auto
  fix encoded
  show "nsound (\<lambda>w. net_at a b w \<and> True \<and> (False \<longrightarrow> sooner a b w))
      (\<lambda>w. send_encoded u (Suc (length (sends w))) encoded t w) (\<lambda>_. net_at a b)"
  proof (rule nsoundI)
    fix w
    assume w: "net_at a b w \<and> True \<and> (False \<longrightarrow> sooner a b w)"
    then have n: "net_at a (length (sends w)) w" by (simp add: net_at_def)
    from nsoundD [OF nsound_send_encoded [OF lessI] n] show "nsettles (\<lambda>_. net_at a b) (send_encoded u (Suc (length (sends w))) encoded t w)"
      by (rule nsettles_mono) (use w in \<open>auto simp: net_at_def\<close>)
  qed
qed

section \<open>What goes over the wire\<close>

definition wkeeps :: "'a nprog \<Rightarrow> bool" where
  "wkeeps m \<longleftrightarrow> (\<forall>w. wire (snd (m w)) = wire w)"

named_theorems wkeeps_intros \<open>steps that send nothing\<close>

lemma wkeepsD: "wkeeps m \<Longrightarrow> m w = (r, w') \<Longrightarrow> wire w' = wire w"
  by (metis wkeeps_def snd_conv)

lemma wkeeps_bind [wkeeps_intros]: "wkeeps m \<Longrightarrow> (\<And>x. wkeeps (k x)) \<Longrightarrow> wkeeps (bindP m k)"
  by (auto simp: wkeeps_def bindP_def split: prod.splits outcome.splits) (metis snd_conv)+

lemma wkeeps_simple [wkeeps_intros]:
  "wkeeps (ret x)" "wkeeps (throw e)" "wkeeps (read_conn f)" "wkeeps (on_conn m')" "wkeeps still_waiting"
  by (auto simp: wkeeps_def ret_def throw_def read_conn_def on_conn_def still_waiting_def split: prod.splits)

lemma wkeeps_if [wkeeps_intros]: "wkeeps m \<Longrightarrow> wkeeps m' \<Longrightarrow> wkeeps (if b then m else m')"
  by simp

lemma wkeeps_on_status [wkeeps_intros]: "wkeeps m \<Longrightarrow> (\<And>e. wkeeps (f e)) \<Longrightarrow> wkeeps (on_status m f)"
  by (auto simp: wkeeps_def on_status_def split: prod.splits outcome.splits) (metis snd_conv)+

lemma wkeeps_system [wkeeps_intros]: "wkeeps (amqp_tcp_socket_recv n)" "wkeeps (amqp_poll t)" "wkeeps (do_poll res t)"
  "wkeeps amqp_tcp_socket_close"
  by (auto simp: wkeeps_def amqp_tcp_socket_recv_def amqp_poll_def do_poll_def amqp_tcp_socket_close_def
      split: option.splits prod.splits outcome.splits sock_result.splits list.splits bool.splits)

lemma wkeeps_recv_loop: "wkeeps (recv_loop fuel t)"
proof (induction fuel)
  case (Suc fuel)
  have cond: "wkeeps (\<lambda>w. if c w then (Err e, w) else m w)" if "wkeeps m" for c e m
    using that by (simp add: wkeeps_def)
  show ?case unfolding recv_loop.simps
    by (intro wkeeps_intros) (auto intro!: wkeeps_intros Suc cond split: sock_result.splits)
qed (simp add: wkeeps_intros)

lemma wkeeps_recv [wkeeps_intros]: "wkeeps (recv_with_timeout t)" "wkeeps (amqp_try_recv u)"
proof -
  show "wkeeps (recv_with_timeout t)" for t using wkeeps_recv_loop by (simp add: recv_with_timeout_def wkeeps_def del: recv_loop.simps)
  then show "wkeeps (amqp_try_recv u)" unfolding amqp_try_recv_def by (auto intro!: wkeeps_intros split: prod.splits)
qed

text \<open>Sending puts a prefix of the buffer on the wire, and reports how long it is.\<close>

definition puts :: "byte list \<Rightarrow> (nat \<Rightarrow> 'a \<Rightarrow> bool) \<Rightarrow> 'a nprog \<Rightarrow> bool" where
  "puts buf Q m \<longleftrightarrow> (\<forall>w r w'. m w = (r, w') \<longrightarrow>
     (\<exists>k \<le> length buf. wire w' = wire w @ take k buf \<and> (\<forall>x. r = Ok x \<longrightarrow> Q k x)))"

lemma putsD: "puts buf Q m \<Longrightarrow> m w = (r, w') \<Longrightarrow>
    \<exists>k \<le> length buf. wire w' = wire w @ take k buf \<and> (\<forall>x. r = Ok x \<longrightarrow> Q k x)"
  by (simp add: puts_def)

lemma puts_nothing: "puts buf Q (throw e)" "puts buf Q still_waiting" "Q 0 x \<Longrightarrow> puts buf Q (ret x)"
  by (auto simp: puts_def throw_def ret_def still_waiting_def intro!: exI [of _ 0])

lemma puts_after:
  assumes "wkeeps m" and "\<And>x. puts buf Q (k x)"
  shows "puts buf Q (bindP m k)"
  unfolding puts_def
proof (intro allI impI)
  fix w r w'
  assume run: "bindP m k w = (r, w')"
  obtain q w1 where m: "m w = (q, w1)" by fastforce
  with assms(1) have "wire w1 = wire w" by (rule wkeepsD)
  show "\<exists>n \<le> length buf. wire w' = wire w @ take n buf \<and> (\<forall>x. r = Ok x \<longrightarrow> Q n x)"
  proof (cases q)
    case (Ok x)
    with m run have "k x w1 = (r, w')" by (simp add: bindP_def)
    with assms(2) [of x] \<open>wire w1 = wire w\<close> show ?thesis unfolding puts_def by metis
  qed (use m run \<open>wire w1 = wire w\<close> in \<open>auto simp: bindP_def intro!: exI [of _ 0]\<close>)
qed

lemma puts_seq:
  assumes m: "puts buf R m" and k: "\<And>n x. n \<le> length buf \<Longrightarrow> R n x \<Longrightarrow> puts (drop n buf) (\<lambda>j. Q (n + j)) (k x)"
  shows "puts buf Q (bindP m k)"
  unfolding puts_def
proof (intro allI impI)
  fix w r w'
  assume run: "bindP m k w = (r, w')"
  obtain q w1 where w1: "m w = (q, w1)" by fastforce
  from putsD [OF m w1] obtain n where n: "n \<le> length buf" "wire w1 = wire w @ take n buf" "\<And>x. q = Ok x \<Longrightarrow> R n x"
    by blast
  show "\<exists>n \<le> length buf. wire w' = wire w @ take n buf \<and> (\<forall>x. r = Ok x \<longrightarrow> Q n x)"
  proof (cases q)
    case (Ok x)
    with run w1 have "k x w1 = (r, w')" by (simp add: bindP_def)
    from putsD [OF k [OF n(1) n(3) [OF Ok]] this] obtain j where j: "j \<le> length (drop n buf)"
      "wire w' = wire w1 @ take j (drop n buf)" "\<forall>y. r = Ok y \<longrightarrow> Q (n + j) y" by blast
    have "n + j \<le> length buf" using j(1) n(1) by simp
    moreover have "wire w' = wire w @ take (n + j) buf" using j(2) n(2) by (simp add: take_add)
    ultimately show ?thesis using j(3) by blast
  qed (use run w1 n(1,2) in \<open>auto simp: bindP_def intro!: exI [of _ n]\<close>)
qed

lemma puts_socket_send: "puts buf (\<lambda>k r. (r = Done k \<or> (\<forall>n. r \<noteq> Done n) \<and> k = 0)) (amqp_tcp_socket_send buf)"
proof -
  have "k \<le> length buf" if "tcp_send (length buf) rs = Some (Done k, rs')" for k rs rs' using tcp_send_some(2) [OF that] by simp
  then show ?thesis
    by (auto simp: puts_def amqp_tcp_socket_send_def split: option.splits if_splits prod.splits sock_result.splits intro!: exI [of _ 0])
qed

lemma puts_try_send:
  "length left \<le> whole \<Longrightarrow> puts left (\<lambda>k n. n = whole - length left + k) (try_send fuel whole left t)"
proof (induction fuel arbitrary: left)
  case (Suc fuel)
  let ?Q = "\<lambda>left k n. n = whole - length left + k"
  have again: "puts left (?Q left) (bindP (do_poll res t) (\<lambda>status.
      if status = AMQP_STATUS_OK then try_send fuel whole left t
      else if status = AMQP_STATUS_TIMEOUT then ret (whole - length left) else throw status))" for res
    by (rule puts_after [OF wkeeps_system(3)]) (auto intro!: puts_nothing Suc)
  show ?case
    unfolding try_send.simps Let_def
  proof (rule puts_seq [OF puts_socket_send])
    fix n res
    assume n: "n \<le> length left" "res = Done n \<or> (\<forall>n. res \<noteq> Done n) \<and> n = 0"
    let ?again = "bindP (do_poll res t) (\<lambda>status.
      if status = AMQP_STATUS_OK then try_send fuel whole left t
      else if status = AMQP_STATUS_TIMEOUT then ret (whole - length left) else throw status)"
    have more: "puts (drop n left) (\<lambda>j. ?Q left (n + j)) (try_send fuel whole (drop n left) t)"
      using Suc.IH [of "drop n left"] Suc.prems n(1) by (simp add: puts_def add.assoc)
    show "puts (drop n left) (\<lambda>j. ?Q left (n + j)) (case res of
        Done n \<Rightarrow> if n > 0 then (if length left - n = 0 then ret whole else try_send fuel whole (drop n left) t) else ?again
      | _ \<Rightarrow> ?again)"
      using n again [of res] more Suc.prems by (auto intro!: puts_nothing split: sock_result.splits)
  qed
qed (simp add: puts_nothing)


lemma puts_weaken: "puts buf Q m \<Longrightarrow> (\<And>k x. k \<le> length buf \<Longrightarrow> Q k x \<Longrightarrow> Q' k x) \<Longrightarrow> puts buf Q' m"
  unfolding puts_def by metis

lemma puts_amqp_try_send: "puts buf (\<lambda>k n. n = k) (amqp_try_send buf t)"
proof -
  have "puts buf (\<lambda>k n. n = k) (try_send fuel (length buf) buf t)" for fuel
    by (rule puts_weaken [OF puts_try_send]) simp_all
  then show ?thesis by (simp add: amqp_try_send_def puts_def del: try_send.simps)
qed

lemma puts_send_encoded: "puts encoded (\<lambda>k _. k = length encoded) (send_encoded u fuel encoded t)"
proof (induction fuel arbitrary: encoded)
  case (Suc fuel)
  show ?case
    unfolding send_encoded.simps Let_def
  proof (rule puts_after [OF wkeeps_simple(3)], rule puts_seq [OF puts_amqp_try_send])
    fix x k n
    assume k: "k \<le> length encoded" "n = k"
    have more: "puts (drop k encoded) (\<lambda>j _. k + j = length encoded) (send_encoded u fuel (drop k encoded) t)"
      using k(1) by (intro puts_weaken [OF Suc]) simp
    have finish: "puts (drop k encoded) (\<lambda>j _. k + j = length encoded) (bindP (read_conn amqp_heartbeat_send) (\<lambda>secs.
        on_conn (set_deadline next_send_heartbeat_update next_send_heartbeat secs)))" if "k = length encoded"
      using that by (intro puts_after [OF wkeeps_simple(3)]) (auto simp: puts_def on_conn_def split: prod.splits)
    show "puts (drop k encoded) (\<lambda>j _. k + j = length encoded)
      (if length encoded \<noteq> n then
         (if amqp_time_equal (amqp_time_first t x) t then throw AMQP_STATUS_TIMEOUT
          else bindP (on_status (amqp_try_recv u) (\<lambda>e. throw (if e = AMQP_STATUS_TIMEOUT then AMQP_STATUS_HEARTBEAT_TIMEOUT else e)))
            (\<lambda>_. send_encoded u fuel (drop n encoded) t))
       else bindP (read_conn amqp_heartbeat_send) (\<lambda>secs.
         on_conn (set_deadline next_send_heartbeat_update next_send_heartbeat secs)))"
      unfolding k(2) using more finish
      by (auto intro!: puts_nothing puts_after wkeeps_intros)
  qed
qed (simp add: puts_nothing)

lemma puts_send_frame:
  assumes w: "io_inv (conn w)" "sendable f (conn w)" and run: "amqp_send_frame_inner u f t w = (r, w')"
  shows "\<exists>k \<le> length (ser_frame f). wire w' = wire w @ take k (ser_frame f) \<and> (r = Ok () \<longrightarrow> k = length (ser_frame f))"
  using encode_frame_run [OF w]
proof
  assume "\<exists>mem. encode_frame f (conn w) = (Ok (ser_frame f), (conn w)\<lparr>outbound_mem := mem\<rparr>) \<and> length mem = length (outbound_mem (conn w))"
  then obtain mem where e: "encode_frame f (conn w) = (Ok (ser_frame f), (conn w)\<lparr>outbound_mem := mem\<rparr>)" by blast
  let ?w = "w\<lparr>conn := (conn w)\<lparr>outbound_mem := mem\<rparr>\<rparr>"
  from e run have "send_encoded u (Suc (length (sends w))) (ser_frame f) t ?w = (r, w')"
    by (simp add: amqp_send_frame_inner_def bindP_def on_conn_def del: send_encoded.simps)
  from putsD [OF puts_send_encoded this] show ?thesis by auto
next
  assume "\<exists>e. encode_frame f (conn w) = (Err e, conn w)"
  with run show ?thesis by (auto simp: amqp_send_frame_inner_def bindP_def on_conn_def intro!: exI [of _ 0])
qed

definition net_inv :: "net \<Rightarrow> bool" where
  "net_inv w \<longleftrightarrow> io_inv (conn w) \<and> sock w \<noteq> None"

lemma net_inv_at: "net_inv w \<longleftrightarrow> net_at (pending w) (length (sends w)) w"
  by (simp add: net_inv_def net_at_def)

lemma net_at_inv: "net_at a b w \<Longrightarrow> net_inv w"
  by (simp add: net_inv_def net_at_def)

lemma nsettles_inv: "net_inv w \<Longrightarrow> (\<And>a b. nsound (net_at a b) m (\<lambda>_. net_at a b)) \<Longrightarrow> nsettles (\<lambda>_. net_inv) (m w)"
  using nsoundD net_inv_at nsettles_mono net_at_inv by metis


section \<open>The stream of received bytes\<close>

definition incoming :: "recv_result list \<Rightarrow> byte list" where
  "incoming rs = concat (map (\<lambda>r. case r of Recv_bytes bs \<Rightarrow> bs | _ \<Rightarrow> []) rs)"

lemma incoming_simps [simp]:
  "incoming [] = []" "incoming (Recv_bytes bs # rs) = bs @ incoming rs" "incoming (Recv_interrupted # rs) = incoming rs"
  "incoming (Recv_again # rs) = incoming rs" "incoming (Recv_failed # rs) = incoming rs"
  by (simp_all add: incoming_def)

lemma tcp_recv_incoming:
  assumes "tcp_recv n rs = Some (r, rs')" and "r = Done bs \<or> (r = Need_read \<or> r = Need_write) \<and> bs = []"
  shows "incoming rs = bs @ incoming rs'"
  using assms by (induction n rs rule: tcp_recv.induct) (auto split: if_splits simp del: append_assoc simp add: append_assoc [symmetric])

lemma socket_recv_run:
  assumes "amqp_tcp_socket_recv n w = (Ok r, w')"
  shows "conn w' = conn w" and "sock w' = sock w"
    and "r = Done bs \<Longrightarrow> bs \<noteq> [] \<and> length bs \<le> n \<and> incoming (recvs w) = bs @ incoming (recvs w')"
    and "r = Need_read \<or> r = Need_write \<Longrightarrow> incoming (recvs w') = incoming (recvs w)"
proof -
  show "conn w' = conn w" "sock w' = sock w"
    using assms by (auto simp: amqp_tcp_socket_recv_def split: option.splits if_splits prod.splits)
  show "r = Done bs \<Longrightarrow> bs \<noteq> [] \<and> length bs \<le> n \<and> incoming (recvs w) = bs @ incoming (recvs w')"
    using assms tcp_recv_some(3) [of n "recvs w" r _ bs] tcp_recv_incoming [of n "recvs w" r _ bs]
    by (auto simp: amqp_tcp_socket_recv_def split: option.splits if_splits)
  show "r = Need_read \<or> r = Need_write \<Longrightarrow> incoming (recvs w') = incoming (recvs w)"
    using assms tcp_recv_incoming [of n "recvs w" r _ "[]"]
    by (auto simp: amqp_tcp_socket_recv_def split: option.splits if_splits)
qed

lemma amqp_poll_run:
  assumes "amqp_poll t w = (r, w')"
  shows "\<exists>n. conn w' = (conn w)\<lparr>ticks := n\<rparr>" and "recvs w' = recvs w" and "sock w' = sock w" and "sends w' = sends w"
proof -
  obtain n where "(\<exists>e ps. poll_loop (polls w) t (conn w) = (Ok (e, ps), (conn w)\<lparr>ticks := n\<rparr>))
      \<or> poll_loop (polls w) t (conn w) = (OutOfFuel, (conn w)\<lparr>ticks := n\<rparr>)" using poll_loop_run by blast
  then have "conn w' = (conn w)\<lparr>ticks := n\<rparr> \<and> recvs w' = recvs w \<and> sock w' = sock w \<and> sends w' = sends w"
    using assms by (auto simp: amqp_poll_def simp del: poll_loop.simps)
  then show "\<exists>n. conn w' = (conn w)\<lparr>ticks := n\<rparr>" "recvs w' = recvs w" "sock w' = sock w" "sends w' = sends w" by blast+
qed

text \<open>
  A reading that succeeds takes the next bytes of the stream into the buffer, at least one; the
  connection is otherwise as it was.
\<close>

definition arrived :: "byte list \<Rightarrow> nat \<Rightarrow> amqp_time_t \<Rightarrow> amqp_connection_state_t \<Rightarrow> amqp_connection_state_t" where
  "arrived bs n d st = st\<lparr>sock_inbound_buffer := bs @ drop (length bs) (sock_inbound_buffer st),
     sock_inbound_limit := length bs, sock_inbound_offset := 0, ticks := n, next_recv_heartbeat := d\<rparr>"

lemma buffered_arrived: "buffered (arrived bs n d st) = bs"
  by (simp add: buffered_def arrived_def)

lemma set_recv_deadline_arrived:
  "set_deadline next_recv_heartbeat_update next_recv_heartbeat secs (store_received bs st) = (r, st') \<Longrightarrow>
   \<exists>n t. st' = arrived bs n t st \<and> (secs \<le> 0 \<longrightarrow> t = amqp_time_infinite)"
proof -
  assume run: "set_deadline next_recv_heartbeat_update next_recv_heartbeat secs (store_received bs st) = (r, st')"
  let ?t = "\<lambda>now. snd (amqp_time_s_from_now now secs (next_recv_heartbeat st))"
  have "st' = arrived bs (ticks st) (?t 0) st \<or> st' = arrived bs (Suc (ticks st)) (?t (clock st (ticks st))) st"
    using run by (auto simp: set_deadline_def read_clock_def arrived_def store_received_def split: if_splits prod.splits)
  moreover have "secs \<le> 0 \<Longrightarrow> ?t now = amqp_time_infinite" for now by (simp add: amqp_time_s_from_now_def)
  ultimately show ?thesis by blast
qed

lemma recv_loop_stream:
  assumes "recv_loop fuel t w = (Ok (), w')"
  shows "\<exists>bs n d. bs \<noteq> [] \<and> length bs \<le> length (sock_inbound_buffer (conn w)) \<and> incoming (recvs w) = bs @ incoming (recvs w')
    \<and> conn w' = arrived bs n d (conn w) \<and> sock w' = sock w \<and> (heartbeat (conn w) = 0 \<longrightarrow> d = amqp_time_infinite)"
  using assms
proof (induction fuel arbitrary: w)
  case (Suc fuel)
  let ?n = "length (sock_inbound_buffer (conn w))"
  obtain r w1 where recv: "amqp_tcp_socket_recv ?n w = (Ok r, w1)"
    using Suc.prems by (auto simp: bindP_def read_conn_def split: prod.splits outcome.splits)
  note keep = socket_recv_run(1,2) [OF recv] and got = socket_recv_run(3,4) [OF recv]
  have again: ?case if r: "r = Need_read \<or> r = Need_write"
  proof -
    from Suc.prems recv r obtain w2 where poll: "amqp_poll t w1 = (Ok AMQP_STATUS_OK, w2)" and more: "recv_loop fuel t w2 = (Ok (), w')"
      by (auto simp: bindP_def read_conn_def throw_def split: prod.splits outcome.splits if_splits)
    from amqp_poll_run(1) [OF poll] obtain n where n: "conn w2 = (conn w)\<lparr>ticks := n\<rparr>" using keep by auto
    note p = amqp_poll_run(2,3) [OF poll]
    from Suc.IH [OF more] obtain bs m d where "bs \<noteq> []" "length bs \<le> length (sock_inbound_buffer (conn w2))"
      "incoming (recvs w2) = bs @ incoming (recvs w')" "conn w' = arrived bs m d (conn w2)" "sock w' = sock w2"
      "heartbeat (conn w2) = 0 \<longrightarrow> d = amqp_time_infinite" by blast
    moreover have "arrived bs m d (conn w2) = arrived bs m d (conn w)" by (simp add: arrived_def n)
    ultimately show ?thesis using got(2) [OF r] n p keep by (intro exI [of _ bs] exI [of _ m] exI [of _ d]) simp
  qed
  show ?case
  proof (cases r)
    case (Done bs)
    note bs = got(1) [OF Done]
    from Suc.prems recv Done keep obtain q st where
      d: "set_deadline next_recv_heartbeat_update next_recv_heartbeat (amqp_heartbeat_recv (store_received bs (conn w))) (store_received bs (conn w)) = (q, st)" "w' = w1\<lparr>conn := st\<rparr>"
      by (auto simp: bindP_def read_conn_def on_conn_def modify_def split: prod.splits)
    from set_recv_deadline_arrived [OF d(1)] obtain n t' where "st = arrived bs n t' (conn w)"
      "heartbeat (conn w) = 0 \<longrightarrow> t' = amqp_time_infinite" by (auto simp: amqp_heartbeat_recv_def store_received_def)
    with d(2) bs keep show ?thesis by (intro exI [of _ bs] exI [of _ n] exI [of _ t']) simp
  qed (use Suc.prems recv again in \<open>auto simp: bindP_def read_conn_def throw_def split: if_splits\<close>)
qed (simp add: still_waiting_def)

lemma recv_stream:
  assumes "recv_with_timeout t w = (Ok (), w')"
  obtains bs n d where "bs \<noteq> []" "length bs \<le> length (sock_inbound_buffer (conn w))" "incoming (recvs w) = bs @ incoming (recvs w')"
    "conn w' = arrived bs n d (conn w)" "sock w' = sock w" "heartbeat (conn w) = 0 \<longrightarrow> d = amqp_time_infinite"
  using recv_loop_stream [OF assms [unfolded recv_with_timeout_def]] by blast

section \<open>Theorems\<close>

text \<open>
  C14: Sending a frame on a connection that is intact always comes to an end: it succeeds, and then
  exactly the encoding of the frame has been appended to what the peer receives, and the connection is intact;
  or it fails, and then a prefix of the encoding has been sent; or a frame that arrived meanwhile is malformed;
  or the system gives no further result.
\<close>

theorem amqp_send_frame_settles:
  assumes "net_inv w" and "sendable f (conn w)"
  shows "case amqp_send_frame_inner u f deadline w of
      (Ok _, w') \<Rightarrow> net_inv w' \<and> wire w' = wire w @ ser_frame f
    | (Err e, w') \<Rightarrow> intact w' \<and> (\<exists>k. wire w' = wire w @ take k (ser_frame f))
    | (Undefined, w') \<Rightarrow> malformed (raw_frame (conn w'))
    | (OutOfFuel, w') \<Rightarrow> waits w'"
proof -
  obtain r w' where run: "amqp_send_frame_inner u f deadline w = (r, w')" by fastforce
  from assms have "net_at (pending w) (length (sends w)) w \<and> sendable f (conn w)" by (simp add: net_inv_at)
  from nsoundD [OF nsound_send_frame this] run have s: "nsettles (\<lambda>_. net_at (pending w) (length (sends w))) (r, w')" by metis
  have "io_inv (conn w)" using assms(1) by (simp add: net_inv_def)
  from puts_send_frame [OF this assms(2) run] obtain k where "wire w' = wire w @ take k (ser_frame f)"
    "r = Ok () \<longrightarrow> k = length (ser_frame f)" by blast
  with s run show ?thesis by (cases r) (auto intro: net_at_inv simp del: length_ser_frame)
qed

definition sample_net :: "recv_result list \<Rightarrow> send_result list \<Rightarrow> poll_result list \<Rightarrow> net" where
  "sample_net rs ss ps = \<lparr>conn = first_connection sample_memory, sock = Some 3, recvs = rs, sends = ss, polls = ps,
     closes = [], wire = [], most_recent_api_result = no_reply\<rparr>"

lemma first_connection_io: "io_inv (first_connection u)"
  using first_connection [of u] by (simp add: io_inv_def ptrdiff_max_def)

lemma sample_net_sel: "wire (sample_net rs ss ps) = []" "conn (sample_net rs ss ps) = first_connection sample_memory"
  by (simp_all add: sample_net_def)

lemma sample_net_inv: "net_inv (sample_net rs ss ps)"
  by (simp add: net_inv_def sample_net_def first_connection_io)

lemma sample_frame_sendable: "sendable (hd sample_frames) (conn (sample_net rs ss ps))"
  by (simp add: sample_net_sel sendable_def wf_frame_def sample_frames_def INT32_MAX_def first_connection(6))

theorem amqp_send_frame_settles_witness:
  "case amqp_send_frame_inner sample_memory (hd sample_frames) amqp_time_infinite
      (sample_net [] [Send_accepts 4, Send_again, Send_accepts 100] [Poll_ready]) of
      (Ok _, w') \<Rightarrow> net_inv w' \<and> wire w' = [] @ ser_frame (hd sample_frames)
    | (Err e, w') \<Rightarrow> intact w' \<and> (\<exists>k. wire w' = [] @ take k (ser_frame (hd sample_frames)))
    | (Undefined, w') \<Rightarrow> malformed (raw_frame (conn w'))
    | (OutOfFuel, w') \<Rightarrow> waits w'"
  using amqp_send_frame_settles [OF sample_net_inv sample_frame_sendable,
      of "[]" "[Send_accepts 4, Send_again, Send_accepts 100]" "[Poll_ready]" sample_memory amqp_time_infinite]
  unfolding sample_net_sel by simp

end
