(* ===== verification/Amqp_Rpc.thy ===== *)
theory Amqp_Rpc
  imports Amqp_Socket
begin

text \<open>
  The part of librabbitmq/amqp\_socket.c that waits for frames and methods and makes remote
  procedure calls: draining the buffer, the heartbeats, the deadlines, the frames kept for later, and
  the reply.
\<close>

section \<open>Waiting for a frame\<close>

text \<open>The frames in the buffer up to the first one for the caller; heartbeats are only released.\<close>

fun drain_buffer :: "unspecified \<Rightarrow> nat \<Rightarrow> amqp_frame_t option cprog" where
  "drain_buffer u 0 = (\<lambda>st. (OutOfFuel, st))"
| "drain_buffer u (Suc fuel) =
     bindP (gets amqp_data_in_buffer) (\<lambda>more.
     if \<not> more then ret None
     else
       bindP (consume_one_frame u) (\<lambda>decoded_frame.
       if frame_type decoded_frame = FRAME_HEARTBEAT then
         bindP (modify (amqp_maybe_release_buffers_on_channel 0)) (\<lambda>_. drain_buffer u fuel)
       else if frame_type decoded_frame \<noteq> 0 then ret (Some decoded_frame)
       else drain_buffer u fuel))"

definition has_past :: "(amqp_connection_state_t \<Rightarrow> amqp_time_t) \<Rightarrow> amqp_status_enum cprog" where
  "has_past sel = (\<lambda>st.
     if time_point_ns (sel st) = UINT64_MAX then (Ok (amqp_time_has_past 0 (sel st)), st)
     else case read_clock st of (_, st') \<Rightarrow> (Ok (amqp_time_has_past (clock st (ticks st)) (sel st)), st'))"

definition heartbeat_frame :: amqp_frame_t where
  "heartbeat_frame = \<lparr>frame_type = FRAME_HEARTBEAT, frame_channel = 0, payload = No_payload\<rparr>"

definition send_heartbeat :: "unspecified \<Rightarrow> unit nprog" where
  "send_heartbeat u =
     bindP (on_conn (has_past next_send_heartbeat)) (\<lambda>res.
     if res = AMQP_STATUS_TIMER_FAILURE then throw res
     else if res = AMQP_STATUS_TIMEOUT then amqp_send_frame u heartbeat_frame
     else ret ())"

text \<open>Whether bytes arrived before the deadline.\<close>

definition recv_until :: "amqp_time_t \<Rightarrow> bool nprog" where
  "recv_until deadline =
     on_status (bindP (recv_with_timeout deadline) (\<lambda>_. ret True))
       (\<lambda>e. if e = AMQP_STATUS_TIMEOUT then ret False else throw e)"

text \<open>
  What the passing of a deadline means; the last branch is an \<^verbatim>\<open>amqp_abort\<close>. \<open>again\<close> is the loop, entered
  with or without draining the buffer.
\<close>

definition timed_out :: "(bool \<Rightarrow> amqp_frame_t nprog) \<Rightarrow> amqp_time_t \<Rightarrow> amqp_time_t \<Rightarrow> amqp_frame_t nprog" where
  "timed_out again timeout_deadline deadline =
     bindP (read_conn next_recv_heartbeat) (\<lambda>recv_heartbeat.
     bindP (read_conn next_send_heartbeat) (\<lambda>send_heartbeat.
     if amqp_time_equal deadline recv_heartbeat then
       bindP amqp_tcp_socket_close (\<lambda>_. throw AMQP_STATUS_HEARTBEAT_TIMEOUT)
     else if amqp_time_equal deadline timeout_deadline then throw AMQP_STATUS_TIMEOUT
     else if amqp_time_equal deadline send_heartbeat then again False
     else (\<lambda>w. (Undefined, w))))"

definition receive_more :: "unspecified \<Rightarrow> (bool \<Rightarrow> amqp_frame_t nprog) \<Rightarrow> amqp_time_t \<Rightarrow> amqp_frame_t nprog" where
  "receive_more u again timeout_deadline =
     bindP (send_heartbeat u) (\<lambda>_.
     bindP (read_conn (\<lambda>st. amqp_time_first timeout_deadline
       (amqp_time_first (next_recv_heartbeat st) (next_send_heartbeat st)))) (\<lambda>deadline.
     bindP (recv_until deadline) (\<lambda>got.
     if got then again True else timed_out again timeout_deadline deadline)))"

fun wait_loop :: "unspecified \<Rightarrow> nat \<Rightarrow> amqp_time_t \<Rightarrow> bool \<Rightarrow> amqp_frame_t nprog" where
  "wait_loop u 0 timeout_deadline drain = still_waiting"
| "wait_loop u (Suc fuel) timeout_deadline drain =
     bindP (if drain then on_conn (\<lambda>st. drain_buffer u (Suc (length (buffered st))) st) else ret None) (\<lambda>res.
     case res of
       Some decoded_frame \<Rightarrow> ret decoded_frame
     | None \<Rightarrow> receive_more u (wait_loop u fuel timeout_deadline) timeout_deadline)"

definition wait_frame_inner :: "unspecified \<Rightarrow> amqp_time_t \<Rightarrow> amqp_frame_t nprog" where
  "wait_frame_inner u timeout_deadline = (\<lambda>w. wait_loop u (Suc (pending w)) timeout_deadline True w)"

text \<open>The first queued frame of the channel; those before it are dropped from the queue.\<close>

fun wait_channel_loop :: "unspecified \<Rightarrow> nat \<Rightarrow> amqp_channel_t \<Rightarrow> amqp_frame_t nprog" where
  "wait_channel_loop u 0 channel = still_waiting"
| "wait_channel_loop u (Suc fuel) channel =
     bindP (wait_frame_inner u amqp_time_infinite) (\<lambda>decoded_frame.
     if channel = frame_channel decoded_frame then ret decoded_frame
     else bindP (on_conn (amqp_queue_frame decoded_frame)) (\<lambda>_. wait_channel_loop u fuel channel))"

definition amqp_simple_wait_frame_on_channel :: "unspecified \<Rightarrow> amqp_channel_t \<Rightarrow> amqp_frame_t nprog" where
  "amqp_simple_wait_frame_on_channel u channel =
     bindP (read_conn (\<lambda>st. dropWhile (\<lambda>f. channel \<noteq> frame_channel f) (first_queued_frame st))) (\<lambda>found.
     case found of
       frame # next_frames \<Rightarrow>
         bindP (on_conn (modify (\<lambda>st. st\<lparr>first_queued_frame := next_frames\<rparr>))) (\<lambda>_. ret frame)
     | [] \<Rightarrow> (\<lambda>w. wait_channel_loop u (Suc (pending w)) channel w))"

text \<open>\<^verbatim>\<open>amqp_time_from_now\<close> of an optional timeout; no timeout does not read the clock.\<close>

definition time_from_now :: "timeval option \<Rightarrow> amqp_time_t nprog" where
  "time_from_now timeout = on_conn (\<lambda>st.
     case timeout of
       None \<Rightarrow> (Ok amqp_time_infinite, st)
     | Some tv \<Rightarrow>
         if tv_sec tv < 0 \<or> tv_usec tv < 0 then (Err AMQP_STATUS_INVALID_PARAMETER, st)
         else (case amqp_time_from_now (clock st (ticks st)) timeout amqp_time_infinite of
             (status, t) \<Rightarrow> (if status = AMQP_STATUS_OK then Ok t else Err status, st\<lparr>ticks := Suc (ticks st)\<rparr>)))"

definition amqp_simple_wait_frame_noblock :: "unspecified \<Rightarrow> timeval option \<Rightarrow> amqp_frame_t nprog" where
  "amqp_simple_wait_frame_noblock u timeout =
     bindP (time_from_now timeout) (\<lambda>deadline.
     bindP (read_conn first_queued_frame) (\<lambda>frames.
     case frames of
       f # next_frames \<Rightarrow> bindP (on_conn (modify (\<lambda>st. st\<lparr>first_queued_frame := next_frames\<rparr>))) (\<lambda>_. ret f)
     | [] \<Rightarrow> wait_frame_inner u deadline))"

definition amqp_simple_wait_frame :: "unspecified \<Rightarrow> amqp_frame_t nprog" where
  "amqp_simple_wait_frame u = amqp_simple_wait_frame_noblock u None"

section \<open>Waiting for a method\<close>

text \<open>A list of numbers ends with 0.\<close>

fun amqp_id_in_reply_list :: "amqp_method_number_t \<Rightarrow> amqp_method_number_t list \<Rightarrow> bool" where
  "amqp_id_in_reply_list expected [] = False"
| "amqp_id_in_reply_list expected (x # xs) = (if x = 0 then False else if x = expected then True else amqp_id_in_reply_list expected xs)"

definition tv_until :: "amqp_time_t \<Rightarrow> timeval option nprog" where
  "tv_until deadline = on_conn (\<lambda>st.
     if time_point_ns deadline = UINT64_MAX \<or> time_point_ns deadline = 0 then (amqp_time_tv_until 0 deadline, st)
     else (amqp_time_tv_until (clock st (ticks st)) deadline, st\<lparr>ticks := Suc (ticks st)\<rparr>))"

definition amqp_simple_wait_method_list ::
  "unspecified \<Rightarrow> amqp_channel_t \<Rightarrow> amqp_method_number_t list \<Rightarrow> amqp_time_t \<Rightarrow> (amqp_method_number_t \<times> amqp_method_t) nprog" where
  "amqp_simple_wait_method_list u expected_channel expected_methods deadline =
     bindP (tv_until deadline) (\<lambda>tv.
     bindP (amqp_simple_wait_frame_noblock u tv) (\<lambda>frame.
     case payload frame of
       Method mid decoded \<Rightarrow>
         if FRAME_METHOD \<noteq> frame_type frame \<or> expected_channel \<noteq> frame_channel frame
           \<or> \<not> amqp_id_in_reply_list mid expected_methods
         then throw AMQP_STATUS_WRONG_METHOD else ret (mid, decoded)
     | _ \<Rightarrow> throw AMQP_STATUS_WRONG_METHOD))"

definition simple_wait_method_inner ::
  "unspecified \<Rightarrow> amqp_channel_t \<Rightarrow> amqp_method_number_t \<Rightarrow> amqp_time_t \<Rightarrow> (amqp_method_number_t \<times> amqp_method_t) nprog" where
  "simple_wait_method_inner u expected_channel expected_method deadline =
     amqp_simple_wait_method_list u expected_channel [expected_method, 0] deadline"

definition amqp_simple_wait_method ::
  "unspecified \<Rightarrow> amqp_channel_t \<Rightarrow> amqp_method_number_t \<Rightarrow> (amqp_method_number_t \<times> amqp_method_t) nprog" where
  "amqp_simple_wait_method u expected_channel expected_method =
     simple_wait_method_inner u expected_channel expected_method amqp_time_infinite"

definition amqp_send_method_inner ::
  "unspecified \<Rightarrow> amqp_channel_t \<Rightarrow> amqp_method_number_t \<Rightarrow> amqp_method_t \<Rightarrow> amqp_time_t \<Rightarrow> unit nprog" where
  "amqp_send_method_inner u channel mid decoded deadline =
     amqp_send_frame_inner u \<lparr>frame_type = FRAME_METHOD, frame_channel = channel, payload = Method mid decoded\<rparr> deadline"

definition amqp_send_method :: "unspecified \<Rightarrow> amqp_channel_t \<Rightarrow> amqp_method_number_t \<Rightarrow> amqp_method_t \<Rightarrow> unit nprog" where
  "amqp_send_method u channel mid decoded = amqp_send_method_inner u channel mid decoded amqp_time_infinite"

section \<open>Remote procedure calls\<close>

text \<open>A frame that concerns the caller: an expected reply, or the closing of its channel or of the connection.\<close>

definition concerns :: "amqp_channel_t \<Rightarrow> amqp_method_number_t list \<Rightarrow> amqp_frame_t \<Rightarrow> bool" where
  "concerns channel expected_reply_ids frame \<longleftrightarrow>
     frame_type frame = FRAME_METHOD \<and>
     (case payload frame of
        Method mid _ \<Rightarrow>
          frame_channel frame = channel \<and> (amqp_id_in_reply_list mid expected_reply_ids \<or> mid = AMQP_CHANNEL_CLOSE_METHOD)
          \<or> frame_channel frame = 0 \<and> mid = AMQP_CONNECTION_CLOSE_METHOD
      | _ \<Rightarrow> False)"

definition reply_of :: "amqp_method_number_t list \<Rightarrow> amqp_frame_t \<Rightarrow> amqp_rpc_reply_t" where
  "reply_of expected_reply_ids frame = (case payload frame of
       Method mid decoded \<Rightarrow>
         \<lparr>reply_type = (if amqp_id_in_reply_list mid expected_reply_ids then AMQP_RESPONSE_NORMAL else AMQP_RESPONSE_SERVER_EXCEPTION),
           reply = Some (mid, decoded), library_error = AMQP_STATUS_OK\<rparr>
     | _ \<Rightarrow> no_reply)"

text \<open>The status of a failure becomes the reply.\<close>

definition reply_error :: "amqp_rpc_reply_t nprog \<Rightarrow> amqp_rpc_reply_t nprog" where
  "reply_error m = on_status m (\<lambda>e. ret (amqp_rpc_reply_error e))"

fun rpc_loop :: "unspecified \<Rightarrow> nat \<Rightarrow> amqp_channel_t \<Rightarrow> amqp_method_number_t list \<Rightarrow> amqp_time_t \<Rightarrow> amqp_rpc_reply_t nprog" where
  "rpc_loop u 0 channel expected_reply_ids deadline = still_waiting"
| "rpc_loop u (Suc fuel) channel expected_reply_ids deadline =
     bindP (on_status (wait_frame_inner u deadline) (\<lambda>e.
       if e = AMQP_STATUS_TIMEOUT then bindP amqp_tcp_socket_close (\<lambda>_. throw e) else throw e)) (\<lambda>frame.
     if \<not> concerns channel expected_reply_ids frame then
       bindP (on_conn (enqueue frame)) (\<lambda>_. rpc_loop u fuel channel expected_reply_ids deadline)
     else ret (reply_of expected_reply_ids frame))"

definition simple_rpc_inner ::
  "unspecified \<Rightarrow> amqp_channel_t \<Rightarrow> amqp_method_number_t \<Rightarrow> amqp_method_number_t list \<Rightarrow> amqp_method_t \<Rightarrow> amqp_time_t \<Rightarrow> amqp_rpc_reply_t nprog" where
  "simple_rpc_inner u channel request_id expected_reply_ids decoded_request_method deadline =
     reply_error (bindP (amqp_send_method u channel request_id decoded_request_method) (\<lambda>_ w.
       rpc_loop u (Suc (pending w)) channel expected_reply_ids deadline w))"

definition rpc_deadline :: "amqp_time_t nprog" where
  "rpc_deadline = bindP (read_conn rpc_timeout) time_from_now"

definition amqp_simple_rpc ::
  "unspecified \<Rightarrow> amqp_channel_t \<Rightarrow> amqp_method_number_t \<Rightarrow> amqp_method_number_t list \<Rightarrow> amqp_method_t \<Rightarrow> amqp_rpc_reply_t nprog" where
  "amqp_simple_rpc u channel request_id expected_reply_ids decoded_request_method =
     reply_error (bindP rpc_deadline (\<lambda>deadline.
       simple_rpc_inner u channel request_id expected_reply_ids decoded_request_method deadline))"

text \<open>The decoded reply, or a null pointer.\<close>

definition amqp_simple_rpc_decoded ::
  "unspecified \<Rightarrow> amqp_channel_t \<Rightarrow> amqp_method_number_t \<Rightarrow> amqp_method_number_t \<Rightarrow> amqp_method_t \<Rightarrow> amqp_method_t option nprog" where
  "amqp_simple_rpc_decoded u channel request_id reply_id decoded_request_method =
     bindP (reply_error (bindP rpc_deadline (\<lambda>deadline.
       simple_rpc_inner u channel request_id [reply_id, 0] decoded_request_method deadline))) (\<lambda>result w.
     (Ok (if reply_type result = AMQP_RESPONSE_NORMAL then map_option snd (reply result) else None),
      w\<lparr>most_recent_api_result := result\<rparr>))"

definition amqp_get_rpc_reply :: "net \<Rightarrow> amqp_rpc_reply_t" where
  "amqp_get_rpc_reply w = most_recent_api_result w"


section \<open>Safety and progress\<close>

lemma set_deadline_error:
  "set_deadline upd sel secs st = (Err e, st') \<Longrightarrow> e = AMQP_STATUS_TIMER_FAILURE \<or> e = AMQP_STATUS_INVALID_PARAMETER"
  by (auto simp: set_deadline_def read_clock_def amqp_time_s_from_now_def add_delta_def Let_def split: prod.splits if_splits)

lemma tcp_recv_error: "tcp_recv n rs = Some (Sock_error e, rs') \<Longrightarrow> e \<noteq> AMQP_STATUS_TIMEOUT"
  by (induction n rs rule: tcp_recv.induct) (auto split: if_splits)

lemma socket_recv_error: "amqp_tcp_socket_recv n w = (Ok (Sock_error e), w') \<Longrightarrow> e \<noteq> AMQP_STATUS_TIMEOUT"
  using tcp_recv_error by (auto simp: amqp_tcp_socket_recv_def split: option.splits if_splits prod.splits)

lemma socket_recv_again:
  assumes "amqp_tcp_socket_recv n w = (Ok r, w')" and "r = Need_read \<or> r = Need_write"
  shows "recv_weight (recvs w') < recv_weight (recvs w)" and "conn w' = conn w" and "sock w' = sock w" and "sends w' = sends w"
  using assms tcp_recv_some(2) [of n "recvs w" r]
  by (auto simp: amqp_tcp_socket_recv_def split: option.splits if_splits prod.splits)

text \<open>A timeout leaves the connection as it was, and used up a result of the script.\<close>

lemma recv_loop_timeout:
  assumes "recv_loop fuel t w = (Err AMQP_STATUS_TIMEOUT, w')"
  shows "(\<exists>n. conn w' = (conn w)\<lparr>ticks := n\<rparr>) \<and> sock w' = sock w \<and> sends w' = sends w
    \<and> recv_weight (recvs w') < recv_weight (recvs w) \<and> incoming (recvs w') = incoming (recvs w)"
  using assms
proof (induction fuel arbitrary: w)
  case (Suc fuel)
  let ?n = "length (sock_inbound_buffer (conn w))"
  obtain q w1 where recv: "amqp_tcp_socket_recv ?n w = (q, w1)" by fastforce
  then obtain r where q: "q = Ok r"
    using Suc.prems by (cases q) (auto simp: bindP_def read_conn_def amqp_tcp_socket_recv_def split: option.splits if_splits prod.splits)
  note recv = recv [unfolded q]
  have again: ?case if r: "r = Need_read \<or> r = Need_write"
  proof -
    note k = socket_recv_again [OF recv r] socket_recv_run(4) [OF recv r]
    from Suc.prems recv r have "(case amqp_poll t w1 of (Ok status, w2) \<Rightarrow>
        (if status = AMQP_STATUS_OK then recv_loop fuel t else throw status) w2 | (Err e, w2) \<Rightarrow> (Err e, w2)
        | (Undefined, w2) \<Rightarrow> (Undefined, w2) | (OutOfFuel, w2) \<Rightarrow> (OutOfFuel, w2)) = (Err AMQP_STATUS_TIMEOUT, w') \<and> amqp_get_sockfd w1 \<noteq> - 1"
      by (auto simp: bindP_def read_conn_def split: if_splits prod.splits outcome.splits)
    then obtain p w2 where poll: "amqp_poll t w1 = (p, w2)"
      and "p = Ok AMQP_STATUS_OK \<and> recv_loop fuel t w2 = (Err AMQP_STATUS_TIMEOUT, w') \<or> w' = w2"
      by (auto simp: throw_def split: prod.splits outcome.splits if_splits)
    from amqp_poll_run(1) [OF poll] obtain n where n: "conn w2 = (conn w)\<lparr>ticks := n\<rparr>" using k by auto
    note p = amqp_poll_run(2-4) [OF poll]
    from \<open>_ \<or> w' = w2\<close> show ?thesis
    proof
      assume "w' = w2"
      then show ?thesis using n p k by auto
    next
      assume "p = Ok AMQP_STATUS_OK \<and> recv_loop fuel t w2 = (Err AMQP_STATUS_TIMEOUT, w')"
      with Suc.IH [of w2] n p k show ?thesis by auto
    qed
  qed
  show ?case
  proof (cases r)
    case (Done bs)
    with Suc.prems recv have False
      by (auto simp: bindP_def read_conn_def on_conn_def modify_def split: prod.splits outcome.splits dest!: set_deadline_error)
    then show ?thesis ..
  next
    case (Sock_error e)
    with Suc.prems recv socket_recv_error [of _ w e] show ?thesis
      by (auto simp: bindP_def read_conn_def throw_def split: if_splits)
  qed (use again in auto)
qed (simp add: still_waiting_def)

lemma nsound_recv_until:
  "nsound (\<lambda>w. net_at a b w \<and> next_recv_heartbeat (conn w) = x \<and> next_send_heartbeat (conn w) = y) (recv_until t)
     (\<lambda>got w. sooner a b w \<and> (got \<or> next_recv_heartbeat (conn w) = x \<and> next_send_heartbeat (conn w) = y))"
proof (rule nsoundI)
  fix w
  assume w: "net_at a b w \<and> next_recv_heartbeat (conn w) = x \<and> next_send_heartbeat (conn w) = y"
  obtain r w' where run: "recv_with_timeout t w = (r, w')" by fastforce
  from nsoundD [OF nsound_recv_with_timeout, of a b w t] w run have s: "nsettles (\<lambda>_. sooner a b) (r, w')" by simp
  have "sooner a b w' \<and> next_recv_heartbeat (conn w') = x \<and> next_send_heartbeat (conn w') = y" if "r = Err AMQP_STATUS_TIMEOUT"
  proof -
    from recv_loop_timeout [of _ t w w'] run that obtain n where n: "conn w' = (conn w)\<lparr>ticks := n\<rparr>" "sock w' = sock w" "sends w' = sends w"
      "recv_weight (recvs w') < recv_weight (recvs w)" unfolding recv_with_timeout_def by blast
    then show ?thesis using w by (simp add: sooner_def net_at_def pending_def io_inv_updates)
  qed
  with s run show "nsettles (\<lambda>got w. sooner a b w \<and> (got \<or> next_recv_heartbeat (conn w) = x \<and> next_send_heartbeat (conn w) = y)) (recv_until t w)"
    by (cases r) (auto simp: recv_until_def on_status_def bindP_def ret_def throw_def)
qed

lemma sound_at: "(\<And>st. P st \<Longrightarrow> sound U (\<lambda>s. s = st) (m st) Q) \<Longrightarrow> sound U P (\<lambda>st. m st st) Q"
  by (simp add: sound_def)

lemma sound_has_past: "sound malformed (buffering n) (has_past sel) (\<lambda>_. buffering n)"
  by (rule soundI) (auto simp: has_past_def read_clock_def buffering_def io_inv_updates)

lemma heartbeat_sendable: "io_inv st \<Longrightarrow> sendable heartbeat_frame st"
  by (simp add: sendable_def wf_frame_def heartbeat_frame_def io_inv_def INT32_MAX_def)

lemma nsound_send_heartbeat: "nsound (net_at a b) (send_heartbeat u) (\<lambda>_. net_at a b)"
proof -
  have "nsound (net_at a b) (amqp_send_frame u heartbeat_frame) (\<lambda>_. net_at a b)"
    unfolding amqp_send_frame_def
    by (rule nsound_conseq [OF nsound_send_frame]) (auto simp: net_at_def intro: heartbeat_sendable)
  then show ?thesis unfolding send_heartbeat_def
    by (intro nsound_bind [OF nsound_on_conn_plain [OF sound_has_past]] nsound_if nsound_throw nsound_ret) (auto intro: net_memory)
qed

lemma buffering_release: "buffering n st \<Longrightarrow> buffering n (amqp_maybe_release_buffers_on_channel c st)"
proof (cases "conn_state st = CONNECTION_STATE_IDLE")
  case True
  assume st: "buffering n st"
  then have "memory_inv st" by (simp add: buffering_def io_inv_memory)
  from release_channel [OF this True, of c] obtain t h where r: "amqp_maybe_release_buffers_on_channel c st = st\<lparr>pool_table := t, conn_heap := h\<rparr>"
    "memory_inv (st\<lparr>pool_table := t, conn_heap := h\<rparr>)" by blast
  moreover have "buffered (st\<lparr>pool_table := t, conn_heap := h\<rparr>) = buffered st" by (simp add: buffered_def)
  ultimately show ?thesis using st by (simp add: buffering_def io_inv_pools)
qed (simp add: amqp_maybe_release_buffers_on_channel_def)

lemma sound_drain:
  "n < fuel \<Longrightarrow> sound malformed (buffering n) (drain_buffer u fuel) (\<lambda>r st. buffering n st \<and> (r \<noteq> None \<longrightarrow> length (buffered st) < n))"
proof (induction fuel arbitrary: n)
  case (Suc fuel)
  let ?Q = "\<lambda>n r st. buffering n st \<and> (r \<noteq> None \<longrightarrow> length (buffered st) < n)"
  let ?P = "\<lambda>st. io_inv st \<and> length (buffered st) < n"
  have more: "sound malformed ?P (drain_buffer u fuel) (?Q n)"
  proof (cases n)
    case 0
    then show ?thesis by (simp add: sound_def)
  next
    case (Suc m)
    with Suc.prems have "sound malformed (buffering m) (drain_buffer u fuel) (?Q m)" by (intro Suc.IH) simp
    then show ?thesis by (rule sound_conseq) (use Suc in \<open>auto simp: buffering_def\<close>)
  qed
  have release: "sound malformed ?P (modify (amqp_maybe_release_buffers_on_channel 0)) (\<lambda>_. ?P)"
  proof (rule sound_modify)
    fix st
    assume "?P st"
    with buffering_release [of "length (buffered st)" st 0] show "?P (amqp_maybe_release_buffers_on_channel 0 st)"
      by (auto simp: buffering_def)
  qed
  have "sound malformed (\<lambda>st. buffering n st \<and> amqp_data_in_buffer st = d)
      (if \<not> d then ret None else bindP (consume_one_frame u) (\<lambda>f.
         if frame_type f = FRAME_HEARTBEAT then bindP (modify (amqp_maybe_release_buffers_on_channel 0)) (\<lambda>_. drain_buffer u fuel)
         else if frame_type f \<noteq> 0 then ret (Some f) else drain_buffer u fuel)) (?Q n)" for d
  proof (rule sound_if)
    assume "\<not> \<not> d"
    then have "sound malformed (\<lambda>st. buffering n st \<and> amqp_data_in_buffer st = d) (consume_one_frame u) (\<lambda>_. ?P)"
      by (intro sound_conseq [OF sound_consume]) auto
    then show "sound malformed (\<lambda>st. buffering n st \<and> amqp_data_in_buffer st = d) (bindP (consume_one_frame u) (\<lambda>f.
         if frame_type f = FRAME_HEARTBEAT then bindP (modify (amqp_maybe_release_buffers_on_channel 0)) (\<lambda>_. drain_buffer u fuel)
         else if frame_type f \<noteq> 0 then ret (Some f) else drain_buffer u fuel)) (?Q n)"
      by (rule sound_bind) (intro sound_if sound_ret sound_bind [OF release more] more; auto simp: buffering_def)
  qed (rule sound_ret, simp)
  then show ?case unfolding drain_buffer.simps by (rule sound_fetch)
qed simp

lemma nsound_drain:
  "nsound (net_at a b) (on_conn (\<lambda>st. drain_buffer u (Suc (length (buffered st))) st)) (\<lambda>r w. net_at a b w \<and> (r \<noteq> None \<longrightarrow> sooner a b w))"
proof (rule nsound_conseq [OF nsound_on_conn [where P = "\<lambda>_. True" and Q = "\<lambda>_ _. True" and S = "\<lambda>r. r \<noteq> None"]])
  fix n
  show "sound malformed (\<lambda>st. buffering n st \<and> True) (\<lambda>st. drain_buffer u (Suc (length (buffered st))) st)
    (\<lambda>r st. buffering n st \<and> True \<and> (r \<noteq> None \<longrightarrow> length (buffered st) < n))"
  proof (rule sound_at [where m = "\<lambda>st. drain_buffer u (Suc (length (buffered st)))"])
    fix st
    assume "buffering n st \<and> True"
    then have b: "buffering (length (buffered st)) st" "length (buffered st) \<le> n" by (simp_all add: buffering_def)
    show "sound malformed (\<lambda>s. s = st) (drain_buffer u (Suc (length (buffered st))))
        (\<lambda>r st. buffering n st \<and> True \<and> (r \<noteq> None \<longrightarrow> length (buffered st) < n))"
      by (rule sound_conseq [OF sound_drain [OF lessI]]) (use b in \<open>auto simp: buffering_def\<close>)
  qed
qed auto


lemma bindP_read: "bindP (read_conn f) k w = k (f (conn w)) w"
  by (simp add: bindP_def read_conn_def)

lemma nsound_keep:
  assumes "nsound P m (\<lambda>_. sooner a b)"
  shows "nsound P m (\<lambda>_. net_at a b)"
  using assms by (rule nsound_conseq) (auto intro: sooner_net)

lemma nsound_close: "nsound (net_at a b) amqp_tcp_socket_close (\<lambda>_. net_at a b)"
  by (rule nsoundI) (auto simp: amqp_tcp_socket_close_def net_at_def pending_def split: list.splits bool.splits)

lemma amqp_time_first_cases: "amqp_time_first s t = s \<or> amqp_time_first s t = t"
  by (simp add: amqp_time_first_def)

lemma nsound_close_throw: "nsound (net_at a b) (bindP amqp_tcp_socket_close (\<lambda>_. throw e)) Q"
  by (rule nsound_bind [OF nsound_close], rule nsound_throw) (auto intro: net_memory)

lemma nsound_timed_out:
  assumes again: "\<And>drain. nsound (sooner a b) (again drain) (\<lambda>_. sooner a b)"
  shows "nsound (\<lambda>w. sooner a b w \<and> next_recv_heartbeat (conn w) = x \<and> next_send_heartbeat (conn w) = y)
    (timed_out again t (amqp_time_first t (amqp_time_first x y))) (\<lambda>_. sooner a b)"
  unfolding timed_out_def
proof (rule nsound_read, rule nsound_read)
  fix x' y'
  let ?d = "amqp_time_first t (amqp_time_first x y)"
  let ?P = "\<lambda>w. ((sooner a b w \<and> next_recv_heartbeat (conn w) = x \<and> next_send_heartbeat (conn w) = y)
    \<and> next_recv_heartbeat (conn w) = x') \<and> next_send_heartbeat (conn w) = y'"
  have "?d = t \<or> ?d = x \<or> ?d = y" using amqp_time_first_cases by metis
  then have d: "amqp_time_equal ?d x \<or> amqp_time_equal ?d t \<or> amqp_time_equal ?d y" by (auto simp: amqp_time_equal_def)
  show "nsound ?P (if amqp_time_equal ?d x' then bindP amqp_tcp_socket_close (\<lambda>_. throw AMQP_STATUS_HEARTBEAT_TIMEOUT)
      else if amqp_time_equal ?d t then throw AMQP_STATUS_TIMEOUT
      else if amqp_time_equal ?d y' then again False else (\<lambda>w. (Undefined, w))) (\<lambda>_. sooner a b)"
  proof (intro nsound_if)
    show "nsound ?P (bindP amqp_tcp_socket_close (\<lambda>_. throw AMQP_STATUS_HEARTBEAT_TIMEOUT)) (\<lambda>_. sooner a b)"
      by (rule nsound_conseq [OF nsound_close_throw [of a b]]) (auto simp: sooner_def)
    show "nsound ?P (throw AMQP_STATUS_TIMEOUT) (\<lambda>_. sooner a b)"
      by (rule nsound_throw) (auto simp: sooner_def intro: net_memory)
    show "nsound ?P (again False) (\<lambda>_. sooner a b)" by (rule nsound_conseq [OF again]) auto
    assume "\<not> amqp_time_equal ?d x'" "\<not> amqp_time_equal ?d t" "\<not> amqp_time_equal ?d y'"
    with d show "nsound ?P (\<lambda>w. (Undefined, w)) (\<lambda>_. sooner a b)" by (auto simp: nsound_def)
  qed
qed

lemma nsound_receive_more:
  assumes again: "\<And>drain. nsound (sooner a b) (again drain) (\<lambda>_. sooner a b)"
  shows "nsound (net_at a b) (receive_more u again t) (\<lambda>_. sooner a b)"
  unfolding receive_more_def
proof (rule nsound_bind [OF nsound_send_heartbeat], rule nsoundI)
  fix w
  assume w: "net_at a b w"
  let ?x = "next_recv_heartbeat (conn w)" and ?y = "next_send_heartbeat (conn w)"
  let ?d = "amqp_time_first t (amqp_time_first ?x ?y)"
  have "nsound (\<lambda>w. net_at a b w \<and> next_recv_heartbeat (conn w) = ?x \<and> next_send_heartbeat (conn w) = ?y)
      (bindP (recv_until ?d) (\<lambda>got. if got then again True else timed_out again t ?d)) (\<lambda>_. sooner a b)"
    by (rule nsound_bind [OF nsound_recv_until], rule nsound_if)
      (rule nsound_conseq [OF again] nsound_conseq [OF nsound_timed_out [OF again]]; simp)+
  from nsoundD [OF this, of w] w show "nsettles (\<lambda>_. sooner a b)
      (bindP (read_conn (\<lambda>st. amqp_time_first t (amqp_time_first (next_recv_heartbeat st) (next_send_heartbeat st)))) (\<lambda>deadline.
       bindP (recv_until deadline) (\<lambda>got. if got then again True else timed_out again t deadline)) w)"
    by (simp add: bindP_read)
qed

lemma nsound_wait_loop: "a < fuel \<Longrightarrow> nsound (net_at a b) (wait_loop u fuel t drain) (\<lambda>_. sooner a b)"
proof (induction fuel arbitrary: a drain)
  case (Suc fuel)
  have "nsound (sooner a b) (wait_loop u fuel t drain) (\<lambda>_. sooner a b)" for drain
  proof (rule nsound_sooner_plain)
    fix a'
    assume "a' < a"
    then have "nsound (net_at a' b) (wait_loop u fuel t drain) (\<lambda>_. sooner a' b)" by (intro Suc.IH) (use Suc.prems in simp)
    then show "nsound (net_at a' b) (wait_loop u fuel t drain) (\<lambda>_. net_at a' b)" by (rule nsound_keep)
  qed
  then have more: "nsound (net_at a b) (receive_more u (wait_loop u fuel t) t) (\<lambda>_. sooner a b)" by (rule nsound_receive_more)
  have head: "nsound (net_at a b) (if drain then on_conn (\<lambda>st. drain_buffer u (Suc (length (buffered st))) st) else ret None)
      (\<lambda>r w. net_at a b w \<and> (r \<noteq> None \<longrightarrow> sooner a b w))"
    by (intro nsound_if nsound_drain nsound_ret) simp
  show ?case unfolding wait_loop.simps
  proof (rule nsound_bind [OF head])
    fix r
    show "nsound (\<lambda>w. net_at a b w \<and> (r \<noteq> None \<longrightarrow> sooner a b w))
      (case r of None \<Rightarrow> receive_more u (wait_loop u fuel t) t | Some f \<Rightarrow> ret f) (\<lambda>_. sooner a b)"
      by (cases r) (auto intro: nsound_ret nsound_conseq [OF more])
  qed
qed simp

lemma nsound_fuel:
  assumes "\<And>a. nsound (net_at a b) (m (Suc a)) (\<lambda>_. sooner a b)"
  shows "nsound (net_at a b) (\<lambda>w. m (Suc (pending w)) w) (\<lambda>_. sooner a b)"
proof (rule nsoundI)
  fix w
  assume w: "net_at a b w"
  then have n: "net_at (pending w) b w" by (simp add: net_at_def)
  from nsoundD [OF assms n] show "nsettles (\<lambda>_. sooner a b) (m (Suc (pending w)) w)"
    by (rule nsettles_mono) (use w in \<open>auto simp: net_at_def sooner_def\<close>)
qed

lemma nsound_wait_frame: "nsound (net_at a b) (wait_frame_inner u t) (\<lambda>_. sooner a b)"
  unfolding wait_frame_inner_def by (rule nsound_fuel [where m = "\<lambda>k. wait_loop u k t True"], rule nsound_wait_loop) simp

lemma nsound_queue: "nsound (sooner a b) (on_conn (enqueue f)) (\<lambda>_. sooner a b)" "nsound (sooner a b) (on_conn (amqp_queue_frame f)) (\<lambda>_. sooner a b)"
  by (rule nsound_sooner_plain, rule nsound_on_conn_plain, rule sound_enqueue)+

lemma nsound_wait_channel: "a < fuel \<Longrightarrow> nsound (net_at a b) (wait_channel_loop u fuel c) (\<lambda>_. sooner a b)"
proof (induction fuel arbitrary: a)
  case (Suc fuel)
  have again: "nsound (sooner a b) (wait_channel_loop u fuel c) (\<lambda>_. sooner a b)"
    by (rule nsound_sooner_plain, rule nsound_keep, rule Suc.IH) (use Suc.prems in simp)
  show ?case unfolding wait_channel_loop.simps
    by (rule nsound_bind [OF nsound_wait_frame]) (intro nsound_if nsound_ret nsound_bind [OF nsound_queue(2) again])
qed simp


lemma nsound_take:
  "nsound (net_at a b) (bindP (on_conn (modify (\<lambda>st. st\<lparr>first_queued_frame := q\<rparr>))) (\<lambda>_. ret f)) (\<lambda>_. net_at a b)"
proof (rule nsound_bind [OF nsound_on_conn_plain])
  show "sound malformed (buffering n) (modify (\<lambda>st. st\<lparr>first_queued_frame := q\<rparr>)) (\<lambda>_. buffering n)" for n
    by (rule sound_modify) (auto simp: buffering_def io_inv_updates buffered_def)
qed (rule nsound_ret)

lemma nsound_read_case:
  assumes "\<And>x. nsound P (k x) Q"
  shows "nsound P (bindP (read_conn f) k) Q"
  by (rule nsound_read, rule nsound_conseq [OF assms]) auto

lemma nsound_wait_on_channel: "nsound (net_at a b) (amqp_simple_wait_frame_on_channel u c) (\<lambda>_. net_at a b)"
  unfolding amqp_simple_wait_frame_on_channel_def
proof (rule nsound_read_case)
  fix found
  have "nsound (net_at a b) (\<lambda>w. wait_channel_loop u (Suc (pending w)) c w) (\<lambda>_. net_at a b)"
    by (rule nsound_keep, rule nsound_fuel [where m = "\<lambda>k. wait_channel_loop u k c"], rule nsound_wait_channel) simp
  then show "nsound (net_at a b) (case found of [] \<Rightarrow> (\<lambda>w. wait_channel_loop u (Suc (pending w)) c w)
      | f # fs \<Rightarrow> bindP (on_conn (modify (\<lambda>st. st\<lparr>first_queued_frame := fs\<rparr>))) (\<lambda>_. ret f)) (\<lambda>_. net_at a b)"
    by (cases found) (simp_all only: list.case nsound_take)
qed

lemma nsound_time_from_now: "nsound (net_at a b) (time_from_now timeout) (\<lambda>_. net_at a b)"
  unfolding time_from_now_def
  by (rule nsound_on_conn_plain, rule soundI)
    (auto simp: buffering_def io_inv_updates io_inv_memory split: option.splits prod.splits)

lemma nsound_tv_until: "nsound (net_at a b) (tv_until t) (\<lambda>_. net_at a b)"
  unfolding tv_until_def
  by (rule nsound_on_conn_plain, rule soundI)
    (auto simp: buffering_def io_inv_updates io_inv_memory amqp_time_tv_until_def Let_def)

lemma nsound_wait_noblock: "nsound (net_at a b) (amqp_simple_wait_frame_noblock u timeout) (\<lambda>_. net_at a b)"
  unfolding amqp_simple_wait_frame_noblock_def
proof (rule nsound_bind [OF nsound_time_from_now], rule nsound_read_case)
  fix t frames
  show "nsound (net_at a b) (case frames of [] \<Rightarrow> wait_frame_inner u t
      | f # fs \<Rightarrow> bindP (on_conn (modify (\<lambda>st. st\<lparr>first_queued_frame := fs\<rparr>))) (\<lambda>_. ret f)) (\<lambda>_. net_at a b)"
    by (cases frames) (simp_all only: list.case nsound_take nsound_keep [OF nsound_wait_frame])
qed

lemma nsound_wait_method: "nsound (net_at a b) (amqp_simple_wait_method_list u c ids t) (\<lambda>_. net_at a b)"
  unfolding amqp_simple_wait_method_list_def
  by (intro nsound_bind [OF nsound_tv_until] nsound_bind [OF nsound_wait_noblock])
    (auto intro!: nsound_if nsound_ret nsound_throw net_memory split: amqp_payload_t.split)

definition method_sendable :: "amqp_method_t \<Rightarrow> amqp_connection_state_t \<Rightarrow> bool" where
  "method_sendable m st \<longleftrightarrow> wf_method m \<and> length (ser_method m) + 12 \<le> INT32_MAX \<and> 20 \<le> outbound_len st"

lemma nsound_send_method:
  "nsound (\<lambda>w. net_at a b w \<and> method_sendable m (conn w)) (amqp_send_method_inner u c (method_number m) m t) (\<lambda>_. net_at a b)"
  unfolding amqp_send_method_inner_def
  by (rule nsound_conseq [OF nsound_send_frame]) (auto simp: method_sendable_def sendable_def wf_frame_def)

lemma nsound_rpc_loop: "a < fuel \<Longrightarrow> nsound (net_at a b) (rpc_loop u fuel c ids t) (\<lambda>_. sooner a b)"
proof (induction fuel arbitrary: a)
  case (Suc fuel)
  have again: "nsound (sooner a b) (rpc_loop u fuel c ids t) (\<lambda>_. sooner a b)"
    by (rule nsound_sooner_plain, rule nsound_keep, rule Suc.IH) (use Suc.prems in simp)
  have wait: "nsound (net_at a b) (on_status (wait_frame_inner u t) (\<lambda>e.
       if e = AMQP_STATUS_TIMEOUT then bindP amqp_tcp_socket_close (\<lambda>_. throw e) else throw e)) (\<lambda>_. sooner a b)"
  proof (rule nsound_on_status [OF nsound_wait_frame])
    fix e :: amqp_status_enum and w :: net
    assume "intact w"
    then show "nsettles (\<lambda>_. sooner a b) ((if e = AMQP_STATUS_TIMEOUT then bindP amqp_tcp_socket_close (\<lambda>_. throw e) else throw e) w)"
      by (auto simp: amqp_tcp_socket_close_def intact_def bindP_def throw_def split: list.splits bool.splits)
  qed
  show ?case unfolding rpc_loop.simps
    by (rule nsound_bind [OF wait]) (intro nsound_if nsound_ret nsound_bind [OF nsound_queue(1) again])
qed simp


text \<open>The result of a call: a failure is a reply, too, but the connection may be broken then.\<close>

definition replied :: "nat \<Rightarrow> nat \<Rightarrow> amqp_rpc_reply_t \<Rightarrow> net \<Rightarrow> bool" where
  "replied a b r w \<longleftrightarrow> intact w \<and> (reply_type r = AMQP_RESPONSE_LIBRARY_EXCEPTION \<or> net_at a b w)"

lemma nsound_reply_error: "nsound P m (replied a b) \<Longrightarrow> nsound P (reply_error m) (replied a b)"
  unfolding reply_error_def
  by (rule nsound_on_status) (auto simp: ret_def replied_def amqp_rpc_reply_error_def)

lemma nsound_simple_rpc:
  "nsound (\<lambda>w. net_at a b w \<and> method_sendable m (conn w)) (simple_rpc_inner u c (method_number m) ids m t) (replied a b)"
  unfolding simple_rpc_inner_def amqp_send_method_def
proof (rule nsound_reply_error, rule nsound_bind [OF nsound_send_method])
  have "nsound (net_at a b) (\<lambda>w. rpc_loop u (Suc (pending w)) c ids t w) (\<lambda>_. sooner a b)"
    by (rule nsound_fuel [where m = "\<lambda>k. rpc_loop u k c ids t"], rule nsound_rpc_loop) simp
  then show "nsound (net_at a b) (\<lambda>w. rpc_loop u (Suc (pending w)) c ids t w) (replied a b)"
    by (rule nsound_conseq) (auto simp: replied_def intro: net_memory sooner_net)
qed

lemma time_from_now_keeps: "time_from_now timeout w = (r, w') \<Longrightarrow> \<exists>n. conn w' = (conn w)\<lparr>ticks := n\<rparr>"
  by (auto simp: time_from_now_def on_conn_def split: option.splits prod.splits if_splits intro: exI [of _ "ticks (conn w)"])

lemma nsound_rpc_deadline: "nsound (\<lambda>w. net_at a b w \<and> method_sendable m (conn w)) rpc_deadline (\<lambda>_ w. net_at a b w \<and> method_sendable m (conn w))"
proof (rule nsoundI)
  fix w
  assume w: "net_at a b w \<and> method_sendable m (conn w)"
  obtain r w' where run: "rpc_deadline w = (r, w')" by fastforce
  then have t: "time_from_now (rpc_timeout (conn w)) w = (r, w')" by (simp add: rpc_deadline_def bindP_read)
  from nsoundD [OF nsound_time_from_now, of a b w] w t have "nsettles (\<lambda>_. net_at a b) (r, w')" by metis
  moreover from time_from_now_keeps [OF t] w have "method_sendable m (conn w')" by (auto simp: method_sendable_def)
  ultimately show "nsettles (\<lambda>_ w. net_at a b w \<and> method_sendable m (conn w)) (rpc_deadline w)" unfolding run by (cases r) simp_all
qed

lemma nsound_amqp_simple_rpc:
  "nsound (\<lambda>w. net_at a b w \<and> method_sendable m (conn w)) (amqp_simple_rpc u c (method_number m) ids m) (replied a b)"
  unfolding amqp_simple_rpc_def by (rule nsound_reply_error, rule nsound_bind [OF nsound_rpc_deadline nsound_simple_rpc])

lemma nsound_simple_rpc_decoded:
  "nsound (\<lambda>w. net_at a b w \<and> method_sendable m (conn w)) (amqp_simple_rpc_decoded u c (method_number m) reply_id m)
     (\<lambda>r w. replied a b (most_recent_api_result w) w \<and> (r = None \<or> net_at a b w))"
  unfolding amqp_simple_rpc_decoded_def
  by (rule nsound_bind [OF nsound_reply_error [OF nsound_bind [OF nsound_rpc_deadline nsound_simple_rpc]]])
    (auto simp: nsound_def replied_def intact_def net_at_def pending_def)

section \<open>Theorems\<close>

text \<open>
  Waiting for a frame comes to an end: with a frame, and then input has been used up and the connection is intact;
  with an error; at a malformed frame; or because the system gives no further result. In particular
  the reason of a timeout is always found: the call of \<^verbatim>\<open>amqp_abort\<close> is never reached.
\<close>

theorem wait_frame_settles:
  assumes "net_inv w"
  shows "case wait_frame_inner u deadline w of
      (Ok f, w') \<Rightarrow> net_inv w' \<and> pending w' < pending w
    | (Err e, w') \<Rightarrow> intact w'
    | (Undefined, w') \<Rightarrow> malformed (raw_frame (conn w'))
    | (OutOfFuel, w') \<Rightarrow> waits w'"
proof -
  obtain r w' where run: "wait_frame_inner u deadline w = (r, w')" by fastforce
  from nsoundD [OF nsound_wait_frame assms [unfolded net_inv_at], of u deadline] run show ?thesis
    by (cases r) (auto simp: sooner_def intro: net_at_inv)
qed

theorem wait_frame_settles_witness:
  "case wait_frame_inner sample_memory amqp_time_infinite (sample_net [Recv_bytes [8, 0, 0], Recv_again] [] [Poll_timeout]) of
      (Ok f, w') \<Rightarrow> net_inv w' \<and> pending w' < pending (sample_net [Recv_bytes [8, 0, 0], Recv_again] [] [Poll_timeout])
    | (Err e, w') \<Rightarrow> intact w'
    | (Undefined, w') \<Rightarrow> malformed (raw_frame (conn w'))
    | (OutOfFuel, w') \<Rightarrow> waits w'"
  using wait_frame_settles [OF sample_net_inv] .

text \<open>
  C13: A remote procedure call comes to an end: it never fails but returns a reply, and unless that is a
  library error the connection is intact; or it ends at a malformed frame, or the system gives no further result.
\<close>

theorem amqp_simple_rpc_settles:
  assumes "net_inv w" and "method_sendable m (conn w)"
  shows "case amqp_simple_rpc u channel (method_number m) ids m w of
      (Ok r, w') \<Rightarrow> intact w' \<and> (reply_type r = AMQP_RESPONSE_LIBRARY_EXCEPTION \<or> net_inv w')
    | (Err e, w') \<Rightarrow> False
    | (Undefined, w') \<Rightarrow> malformed (raw_frame (conn w'))
    | (OutOfFuel, w') \<Rightarrow> waits w'"
proof -
  obtain r w' where run: "amqp_simple_rpc u channel (method_number m) ids m w = (r, w')" by fastforce
  have "\<not> (\<exists>e. r = Err e)"
    using run by (auto simp: amqp_simple_rpc_def reply_error_def on_status_def ret_def split: prod.splits outcome.splits)
  with nsoundD [OF nsound_amqp_simple_rpc, of _ _ w m u channel ids] assms [unfolded net_inv_at] run show ?thesis
    by (cases r) (fastforce simp: replied_def intro: net_at_inv)+
qed

lemma sample_method_sendable: "method_sendable amqp_tx_select_t (conn (sample_net rs ss ps))"
  by (simp add: method_sendable_def sample_net_sel first_connection INT32_MAX_def)

theorem amqp_simple_rpc_settles_witness:
  "case amqp_simple_rpc sample_memory 1 (method_number amqp_tx_select_t) [AMQP_TX_SELECT_OK_METHOD, 0] amqp_tx_select_t
      (sample_net [Recv_bytes [1, 0, 1, 0, 0, 0, 4, 0, 90, 0, 11, 206]] [Send_accepts 100] []) of
      (Ok r, w') \<Rightarrow> intact w' \<and> (reply_type r = AMQP_RESPONSE_LIBRARY_EXCEPTION \<or> net_inv w')
    | (Err e, w') \<Rightarrow> False
    | (Undefined, w') \<Rightarrow> malformed (raw_frame (conn w'))
    | (OutOfFuel, w') \<Rightarrow> waits w'"
  using amqp_simple_rpc_settles [OF sample_net_inv sample_method_sendable] .

end
