(* ===== verification/Amqp_Typing.thy ===== *)
theory Amqp_Typing
  imports Amqp_Rpc
begin

text \<open>
  The type of what is received. A frame carries the number of its method and an untyped pointer to the
  decoded structure, and every user of the frame casts the pointer to the type the number stands for.
  A frame is \<open>typed\<close> if the structure is the one of its number. Every frame that is assembled, queued or
  returned is typed, so each cast is correct; moreover nothing but tuning changes the limits and the size of the outbound buffer.
\<close>

section \<open>Typed frames\<close>

definition typed :: "amqp_frame_t \<Rightarrow> bool" where
  "typed f \<longleftrightarrow> (case payload f of Method mid m \<Rightarrow> method_number m = mid | _ \<Rightarrow> True)"

definition limits :: "amqp_connection_state_t \<Rightarrow> int \<times> int \<times> int \<times> nat" where
  "limits st = (channel_max st, frame_max st, heartbeat st, outbound_len st)"

definition orderly :: "int \<times> int \<times> int \<times> nat \<Rightarrow> amqp_connection_state_t \<Rightarrow> bool" where
  "orderly L st \<longleftrightarrow> list_all typed (first_queued_frame st) \<and> limits st = L"

definition norderly :: "int \<times> int \<times> int \<times> nat \<Rightarrow> net \<Rightarrow> bool" where
  "norderly L w \<longleftrightarrow> orderly L (conn w)"

text \<open>\<open>preserves I m R\<close>: from \<open>I\<close> the program ends, in whatever way, with \<open>I\<close>, and returns only values in \<open>R\<close>.\<close>

definition preserves :: "('s \<Rightarrow> bool) \<Rightarrow> ('s, 'a) prog \<Rightarrow> ('a \<Rightarrow> bool) \<Rightarrow> bool" where
  "preserves I m R \<longleftrightarrow> (\<forall>s. I s \<longrightarrow> I (snd (m s)) \<and> (\<forall>x. fst (m s) = Ok x \<longrightarrow> R x))"

named_theorems preserves_intros \<open>programs that keep the order of a connection\<close>

lemma preservesD:
  assumes "preserves I m R" and "m s = (r, s')" and "I s"
  shows "I s'" and "r = Ok x \<Longrightarrow> R x"
  using assms unfolding preserves_def by (metis fst_conv snd_conv)+

lemma preserves_bind:
  assumes "preserves I m R" and "\<And>x. R x \<Longrightarrow> preserves I (k x) Q"
  shows "preserves I (bindP m k) Q"
  unfolding preserves_def
proof (intro allI impI)
  fix s
  assume s: "I s"
  obtain r s1 where m: "m s = (r, s1)" by (rule prod.exhaust)
  note 1 = preservesD [OF assms(1) m s]
  show "I (snd (bindP m k s)) \<and> (\<forall>x. fst (bindP m k s) = Ok x \<longrightarrow> Q x)"
  proof (cases r)
    case (Ok x)
    with assms(2) [OF 1(2) [OF Ok]] 1(1) m show ?thesis by (simp add: bindP_def preserves_def)
  qed (use m 1 in \<open>simp_all add: bindP_def\<close>)
qed

lemma preserves_bind_any [preserves_intros]:
  "preserves I m (\<lambda>_. True) \<Longrightarrow> (\<And>x. preserves I (k x) Q) \<Longrightarrow> preserves I (bindP m k) Q"
  by (rule preserves_bind)

lemma preserves_weaken: "preserves I m R \<Longrightarrow> (\<And>x. R x \<Longrightarrow> Q x) \<Longrightarrow> preserves I m Q"
  by (auto simp: preserves_def)

lemma preserves_simple [preserves_intros]:
  "R x \<Longrightarrow> preserves I (ret x) R" "preserves I (throw e) R" "preserves I (\<lambda>s. (Undefined, s)) R" "preserves I (\<lambda>s. (OutOfFuel, s)) R"
  by (auto simp: preserves_def ret_def throw_def)

lemma preserves_if [preserves_intros]:
  "(b \<Longrightarrow> preserves I m R) \<Longrightarrow> (\<not> b \<Longrightarrow> preserves I m' R) \<Longrightarrow> preserves I (if b then m else m') R"
  by simp

lemma preserves_gets [preserves_intros]: "preserves I (gets f) (\<lambda>_. True)"
  by (simp add: preserves_def gets_def)

lemma preserves_state: "(\<And>s. preserves I (m s) R) \<Longrightarrow> preserves I (\<lambda>s. m s s) R"
  by (simp add: preserves_def)

lemma same_io_orderly: "same_io st st' \<Longrightarrow> orderly L st' = orderly L st"
  by (simp add: same_io_def orderly_def limits_def)

lemma preserves_ckeeps: "ckeeps m \<Longrightarrow> (\<And>st x. fst (m st) = Ok x \<Longrightarrow> R x) \<Longrightarrow> preserves (orderly L) m R"
  unfolding preserves_def ckeeps_def using same_io_orderly by blast

section \<open>Decoded methods have the type of their number\<close>

definition returns :: "('s, 'a) prog \<Rightarrow> ('a \<Rightarrow> bool) \<Rightarrow> bool" where
  "returns m R \<longleftrightarrow> (\<forall>s x. fst (m s) = Ok x \<longrightarrow> R x)"

lemma returns_bind: "(\<And>x. returns (k x) R) \<Longrightarrow> returns (bindP m k) R"
  unfolding returns_def
proof (intro allI impI)
  fix s x
  assume k: "\<And>y. \<forall>s x. fst (k y s) = Ok x \<longrightarrow> R x" and run: "fst (bindP m k s) = Ok x"
  obtain r s1 where "m s = (r, s1)" by (rule prod.exhaust)
  with k run show "R x" by (cases r) (auto simp: bindP_def)
qed

lemma returns_bind_typed:
  assumes "returns m R" and "\<And>x. R x \<Longrightarrow> returns (k x) Q"
  shows "returns (bindP m k) Q"
  unfolding returns_def
proof (intro allI impI)
  fix s x
  assume run: "fst (bindP m k s) = Ok x"
  obtain r s1 where m: "m s = (r, s1)" by (rule prod.exhaust)
  with run obtain y where y: "r = Ok y" by (cases r) (simp_all add: bindP_def)
  with assms(1) m have "R y" unfolding returns_def by (metis fst_conv)
  from assms(2) [OF this] run m y show "Q x" by (simp add: bindP_def returns_def)
qed

lemma returns_ret: "R x \<Longrightarrow> returns (ret x) R"
  by (simp add: returns_def ret_def)

lemma returns_if: "returns m R \<Longrightarrow> returns m' R \<Longrightarrow> returns (if b then m else m') R"
  by simp

lemma decoder_type: "(n, d) \<in> set method_decoders \<Longrightarrow> returns (d encoded) (\<lambda>m. method_number m = n)"
  unfolding method_decoders_def decoder_defs
  by (auto intro!: returns_bind returns_ret simp only: set_simps insert_iff empty_iff prod.inject simp_thms method_number.simps)

lemma decode_method_type: "returns (amqp_decode_method n encoded) (\<lambda>m. method_number m = n)"
proof (cases "map_of method_decoders n")
  case (Some d)
  from decoder_type [OF map_of_SomeD [OF this], of encoded] Some show ?thesis
    by (simp add: returns_def amqp_decode_method_def)
qed (simp add: returns_def amqp_decode_method_def throw_def)

lemma returns_with_pool: "returns m R \<Longrightarrow> returns (with_pool c m) R"
  by (auto simp: returns_def with_pool_def on_pool_def split: prod.splits option.splits) (metis fst_conv)

lemma returns_typed:
  "returns (method_frame c) typed" "returns (header_frame u c) typed" "returns (body_frame c) typed"
proof -
  have "returns (bindP (with_pool c (amqp_decode_method n encoded)) (\<lambda>m.
      ret \<lparr>frame_type = FRAME_METHOD, frame_channel = c, payload = Method n m\<rparr>)) typed" for n encoded
    by (rule returns_bind_typed [OF returns_with_pool [OF decode_method_type]], rule returns_ret) (simp add: typed_def)
  then show "returns (method_frame c) typed"
    unfolding method_frame_def by (intro returns_bind [of _ _ "peek32 HEADER_SIZE"] returns_bind [of _ _ "gets _"])
qed (auto simp: header_frame_def body_frame_def typed_def intro!: returns_bind returns_ret)

lemma returns_decode_frame: "returns (decode_frame u t c) typed"
  unfolding decode_frame_def using returns_typed by (auto intro!: returns_ret simp: typed_def)

lemma returns_finish: "returns (finish_frame u n) (\<lambda>(k, f). typed f)"
proof -
  have last: "returns (bindP (modify return_to_idle) (\<lambda>_. ret (n, f))) (\<lambda>(k, f). typed f)" if "typed f" for f
    using that by (intro returns_bind returns_ret) simp
  have "returns (bindP (channel_pool c) (\<lambda>_. bindP (decode_frame u t c) (\<lambda>f. bindP (modify return_to_idle) (\<lambda>_. ret (n, f)))))
      (\<lambda>(k, f). typed f)" for t c
    by (rule returns_bind, rule returns_bind_typed [OF returns_decode_frame last])
  moreover have "returns (throw e) R" for e and R :: "nat \<times> amqp_frame_t \<Rightarrow> bool" by (simp add: returns_def throw_def)
  ultimately show ?thesis unfolding finish_frame_def
    by (intro returns_bind [of _ _ "gets _"] returns_bind [of _ _ "peek _ _ _"] returns_if)
qed

lemma returns_handle_input: "returns (amqp_handle_input u data) (\<lambda>(k, f). typed f)"
proof -
  have none: "returns (ret (n, no_frame)) (\<lambda>(k, f). typed f)" for n
    by (rule returns_ret) (simp add: no_frame_def typed_def)
  have continue: "returns (continue_frame u bs n) (\<lambda>(k, f). typed f)" for bs n
    unfolding continue_frame_def by (auto intro!: returns_bind none returns_finish)
  have "returns (begin_frame u bs n) (\<lambda>(k, f). typed f)" for bs n
    unfolding begin_frame_def by (rule returns_bind) (rule continue)
  moreover have "returns (protocol_frame n) (\<lambda>(k, f). typed f)" for n
    unfolding protocol_frame_def by (auto intro!: returns_bind returns_ret simp: typed_def)
  moreover have "returns (\<lambda>st. (Undefined, st)) R" for R :: "nat \<times> amqp_frame_t \<Rightarrow> bool" by (simp add: returns_def)
  ultimately show ?thesis unfolding amqp_handle_input_def
    using returns_finish none by (auto intro!: returns_bind split: amqp_connection_state_enum.splits)
qed

section \<open>The socket layer keeps frames typed\<close>

lemma preserves_modify: "(\<And>st. orderly L st \<Longrightarrow> orderly L (f st)) \<Longrightarrow> preserves (orderly L) (modify f) (\<lambda>_. True)"
  by (simp add: preserves_def modify_def)

lemma preserves_handle_input: "preserves (orderly L) (amqp_handle_input u data) (\<lambda>(k, f). typed f)"
  using returns_handle_input by (intro preserves_ckeeps ckeeps_intros) (auto simp: returns_def)

lemma preserves_consume: "preserves (orderly L) (consume_one_frame u) typed"
  unfolding consume_one_frame_def
  by (rule preserves_bind_any [OF preserves_gets], rule preserves_bind [OF preserves_handle_input])
    (auto intro!: preserves_bind_any preserves_modify preserves_simple simp: orderly_def limits_def)

lemma preserves_deadline [preserves_intros]:
  "preserves (orderly L) (set_deadline next_recv_heartbeat_update next_recv_heartbeat secs) (\<lambda>_. True)"
  "preserves (orderly L) (set_deadline next_send_heartbeat_update next_send_heartbeat secs) (\<lambda>_. True)"
  by (auto simp: preserves_def set_deadline_def read_clock_def orderly_def limits_def split: prod.splits)

lemma preserves_has_past [preserves_intros]: "preserves (orderly L) (has_past sel) (\<lambda>_. True)"
  by (auto simp: preserves_def has_past_def read_clock_def orderly_def limits_def split: prod.splits)

lemma preserves_frame_link [preserves_intros]: "preserves (orderly L) (frame_link a b f) (\<lambda>_. True)"
  unfolding frame_link_def by (rule preserves_ckeeps) (auto intro!: ckeeps_intros)

lemma preserves_append: "typed f \<Longrightarrow> preserves (orderly L) (append_frame f) (\<lambda>_. True)"
  unfolding append_frame_def by (rule preserves_modify) (simp add: orderly_def limits_def)

lemma preserves_enqueue:
  assumes "typed f"
  shows "preserves (orderly L) (enqueue f) (\<lambda>_. True)" "preserves (orderly L) (amqp_queue_frame f) (\<lambda>_. True)"
  unfolding enqueue_def amqp_queue_frame_def amqp_create_link_for_frame_def
  by (auto intro!: preserves_intros preserves_append assms)

lemma preserves_queue_buffered [preserves_intros]: "preserves (orderly L) (queue_buffered u fuel) (\<lambda>_. True)"
proof (induction fuel)
  case (Suc fuel)
  have "preserves (orderly L) (bindP (consume_one_frame u) (\<lambda>frame.
      bindP (if frame_type frame \<noteq> 0 then enqueue frame else ret ()) (\<lambda>_. queue_buffered u fuel))) (\<lambda>_. True)"
    by (rule preserves_bind [OF preserves_consume]) (auto intro!: preserves_intros preserves_enqueue Suc)
  then show ?case by (auto intro!: preserves_intros)
qed (simp add: preserves_simple)

lemma preserves_drain: "preserves (orderly L) (drain_buffer u fuel) (\<lambda>r. \<forall>f. r = Some f \<longrightarrow> typed f)"
proof (induction fuel)
  case (Suc fuel)
  have release: "preserves (orderly L) (modify (amqp_maybe_release_buffers_on_channel 0)) (\<lambda>_. True)"
    by (rule preserves_modify)
      (auto simp: amqp_maybe_release_buffers_on_channel_def orderly_def limits_def split: option.splits prod.splits)
  show ?case unfolding drain_buffer.simps
    by (rule preserves_bind_any [OF preserves_gets], rule preserves_if, rule preserves_simple, simp,
        rule preserves_bind [OF preserves_consume])
      (auto intro!: preserves_if preserves_simple preserves_bind_any [OF release] Suc)
qed (simp add: preserves_simple)

lemma preserves_on_conn: "preserves (orderly L) m R \<Longrightarrow> preserves (norderly L) (on_conn m) R"
  by (auto simp: preserves_def on_conn_def norderly_def split: prod.splits)

lemma preserves_on_conn_any [preserves_intros]: "preserves (orderly L) m (\<lambda>_. True) \<Longrightarrow> preserves (norderly L) (on_conn m) (\<lambda>_. True)"
  by (rule preserves_on_conn)

lemma preserves_read [preserves_intros]: "preserves (norderly L) (read_conn f) (\<lambda>_. True)"
  by (simp add: preserves_def read_conn_def)

lemma preserves_waiting [preserves_intros]: "preserves I still_waiting R"
  by (simp add: still_waiting_def preserves_simple)

lemma preserves_on_status [preserves_intros]:
  assumes "preserves I m R" and "\<And>e. preserves I (f e) R"
  shows "preserves I (on_status m f) R"
  unfolding preserves_def
proof (intro allI impI)
  fix s
  assume s: "I s"
  obtain r s1 where m: "m s = (r, s1)" by (rule prod.exhaust)
  note 1 = preservesD [OF assms(1) m s]
  show "I (snd (on_status m f s)) \<and> (\<forall>x. fst (on_status m f s) = Ok x \<longrightarrow> R x)"
    using m 1 assms(2) by (cases r) (auto simp: on_status_def preserves_def)
qed

lemma preserves_system [preserves_intros]:
  "preserves (norderly L) (amqp_tcp_socket_recv n) (\<lambda>_. True)" "preserves (norderly L) (amqp_tcp_socket_send buf) (\<lambda>_. True)"
  "preserves (norderly L) amqp_tcp_socket_close (\<lambda>_. True)"
  by (auto simp: preserves_def amqp_tcp_socket_recv_def amqp_tcp_socket_send_def amqp_tcp_socket_close_def norderly_def
      split: option.splits prod.splits sock_result.splits list.splits bool.splits)

lemma preserves_poll [preserves_intros]: "preserves (norderly L) (amqp_poll t) (\<lambda>_. True)"
  unfolding preserves_def
proof (intro allI impI conjI)
  fix w
  assume w: "norderly L w"
  obtain n where "(\<exists>e ps. poll_loop (polls w) t (conn w) = (Ok (e, ps), (conn w)\<lparr>ticks := n\<rparr>))
      \<or> poll_loop (polls w) t (conn w) = (OutOfFuel, (conn w)\<lparr>ticks := n\<rparr>)" using poll_loop_run by blast
  with w show "norderly L (snd (amqp_poll t w))" by (auto simp: amqp_poll_def norderly_def orderly_def limits_def)
qed simp

lemma preserves_do_poll [preserves_intros]: "preserves (norderly L) (do_poll res t) (\<lambda>_. True)"
  using preserves_poll [of L t] by (auto simp: preserves_def do_poll_def split: sock_result.splits)

lemma preserves_try_send [preserves_intros]: "preserves (norderly L) (try_send fuel n left t) (\<lambda>_. True)"
proof (induction fuel arbitrary: left)
  case (Suc fuel)
  show ?case unfolding try_send.simps Let_def
    by (rule preserves_bind_any [OF preserves_system(2)]) (auto intro!: preserves_intros Suc split: sock_result.splits)
qed (simp add: preserves_intros)

lemma preserves_amqp_try_send [preserves_intros]: "preserves (norderly L) (amqp_try_send buf t) (\<lambda>_. True)"
  unfolding amqp_try_send_def by (rule preserves_state) (rule preserves_try_send)

lemma preserves_recv_loop: "preserves (norderly L) (recv_loop fuel t) (\<lambda>_. True)"
proof (induction fuel)
  case (Suc fuel)
  have store: "preserves (norderly L) (on_conn (modify (store_received bs))) (\<lambda>_. True)" for bs
    by (intro preserves_on_conn preserves_modify) (simp add: store_received_def orderly_def limits_def)
  have cond: "preserves (norderly L) m R \<Longrightarrow> preserves (norderly L) (\<lambda>w. if amqp_get_sockfd w = - 1 then (Err e, w) else m w) R"
    for m :: "unit nprog" and R e by (auto simp: preserves_def)
  show ?case unfolding recv_loop.simps
    by (intro preserves_bind_any [OF preserves_read] preserves_bind_any [OF preserves_system(1)])
      (auto intro!: preserves_intros store cond Suc split: sock_result.splits)
qed (simp add: preserves_intros)

lemma preserves_recv [preserves_intros]: "preserves (norderly L) (recv_with_timeout t) (\<lambda>_. True)"
  unfolding recv_with_timeout_def by (rule preserves_state) (rule preserves_recv_loop)

lemma preserves_try_recv [preserves_intros]: "preserves (norderly L) (amqp_try_recv u) (\<lambda>_. True)"
proof -
  have "preserves (orderly L) (\<lambda>st. queue_buffered u (Suc (length (buffered st))) st) (\<lambda>_. True)"
    by (rule preserves_state) (rule preserves_queue_buffered)
  then show ?thesis unfolding amqp_try_recv_def by (auto intro!: preserves_intros split: prod.splits)
qed

lemma preserves_send_encoded [preserves_intros]: "preserves (norderly L) (send_encoded u fuel encoded t) (\<lambda>_. True)"
proof (induction fuel arbitrary: encoded)
  case (Suc fuel)
  show ?case unfolding send_encoded.simps Let_def by (auto intro!: preserves_intros Suc)
qed (simp add: preserves_intros)

lemma preserves_send_frame [preserves_intros]:
  "preserves (norderly L) (amqp_send_frame_inner u f t) (\<lambda>_. True)" "preserves (norderly L) (amqp_send_frame u f) (\<lambda>_. True)"
proof -
  have encode: "preserves (orderly L) (encode_frame f) (\<lambda>_. True)"
    by (auto simp: preserves_def encode_frame_def orderly_def limits_def split: outcome.splits prod.splits)
  have "preserves (norderly L) (\<lambda>w. send_encoded u (Suc (length (sends w))) encoded t w) (\<lambda>_. True)" for encoded t
    by (rule preserves_state) (rule preserves_send_encoded)
  then show "preserves (norderly L) (amqp_send_frame_inner u f t) (\<lambda>_. True)" for t
    unfolding amqp_send_frame_inner_def by (auto intro!: preserves_intros encode)
  then show "preserves (norderly L) (amqp_send_frame u f) (\<lambda>_. True)" unfolding amqp_send_frame_def .
qed

lemma preserves_send_heartbeat [preserves_intros]: "preserves (norderly L) (send_heartbeat u) (\<lambda>_. True)"
  unfolding send_heartbeat_def by (auto intro!: preserves_intros)

lemma preserves_receive_more:
  assumes "\<And>d. preserves (norderly L) (again d) typed"
  shows "preserves (norderly L) (receive_more u again t) typed"
  unfolding receive_more_def timed_out_def recv_until_def by (auto intro!: preserves_intros assms)

lemma preserves_wait_loop: "preserves (norderly L) (wait_loop u fuel t d) typed"
proof (induction fuel arbitrary: d)
  case (Suc fuel)
  let ?drain = "if d then on_conn (\<lambda>st. drain_buffer u (Suc (length (buffered st))) st) else ret None"
  have "preserves (norderly L) ?drain (\<lambda>r. \<forall>f. r = Some f \<longrightarrow> typed f)"
    by (intro preserves_if preserves_on_conn preserves_simple, rule preserves_state, rule preserves_drain) simp
  then show ?case unfolding wait_loop.simps
  proof (rule preserves_bind)
    fix r
    assume "\<forall>f. r = Some f \<longrightarrow> typed f"
    then show "preserves (norderly L) (case r of None \<Rightarrow> receive_more u (wait_loop u fuel t) t | Some f \<Rightarrow> ret f) typed"
      by (cases r) (simp_all only: option.case preserves_receive_more [OF Suc] preserves_simple simp_thms)
  qed
qed (simp add: preserves_intros)

lemma preserves_wait_frame: "preserves (norderly L) (wait_frame_inner u t) typed"
  unfolding wait_frame_inner_def by (rule preserves_state) (rule preserves_wait_loop)

lemma preserves_take:
  assumes "list_all typed (f # fs)"
  shows "preserves (norderly L) (bindP (on_conn (modify (\<lambda>st. st\<lparr>first_queued_frame := fs\<rparr>))) (\<lambda>_. ret f)) typed"
  using assms by (intro preserves_bind_any preserves_on_conn preserves_modify preserves_simple)
    (auto simp: orderly_def limits_def)

lemma preserves_read_queue:
  "preserves (norderly L) (read_conn (\<lambda>st. dropWhile P (first_queued_frame st))) (list_all typed)"
  "preserves (norderly L) (read_conn first_queued_frame) (list_all typed)"
  by (auto simp: preserves_def read_conn_def norderly_def orderly_def list_all_iff dest: set_dropWhileD)

lemma preserves_wait_channel: "preserves (norderly L) (wait_channel_loop u fuel c) typed"
proof (induction fuel)
  case (Suc fuel)
  show ?case unfolding wait_channel_loop.simps
    by (rule preserves_bind [OF preserves_wait_frame])
      (auto intro!: preserves_simple preserves_if preserves_bind_any preserves_on_conn preserves_enqueue Suc)
qed (simp add: preserves_intros)

lemma preserves_wait_on_channel: "preserves (norderly L) (amqp_simple_wait_frame_on_channel u c) typed"
  unfolding amqp_simple_wait_frame_on_channel_def
proof (rule preserves_bind [OF preserves_read_queue(1)])
  fix found
  assume "list_all typed found"
  moreover have "preserves (norderly L) (\<lambda>w. wait_channel_loop u (Suc (pending w)) c w) typed"
    by (rule preserves_state) (rule preserves_wait_channel)
  ultimately show "preserves (norderly L) (case found of [] \<Rightarrow> (\<lambda>w. wait_channel_loop u (Suc (pending w)) c w)
      | f # fs \<Rightarrow> bindP (on_conn (modify (\<lambda>st. st\<lparr>first_queued_frame := fs\<rparr>))) (\<lambda>_. ret f)) typed"
    by (cases found) (simp_all only: list.case preserves_take)
qed

lemma preserves_time [preserves_intros]:
  "preserves (norderly L) (time_from_now timeout) (\<lambda>_. True)" "preserves (norderly L) (tv_until t) (\<lambda>_. True)"
  unfolding time_from_now_def tv_until_def
proof -
  show "preserves (norderly L) (on_conn (\<lambda>st. case timeout of None \<Rightarrow> (Ok amqp_time_infinite, st)
      | Some tv \<Rightarrow> if tv_sec tv < 0 \<or> tv_usec tv < 0 then (Err AMQP_STATUS_INVALID_PARAMETER, st)
        else case amqp_time_from_now (clock st (ticks st)) timeout amqp_time_infinite of (status, t) \<Rightarrow>
          (if status = AMQP_STATUS_OK then Ok t else Err status, st\<lparr>ticks := Suc (ticks st)\<rparr>))) (\<lambda>_. True)"
    by (rule preserves_on_conn) (auto simp: preserves_def orderly_def limits_def split: option.splits prod.splits)
  show "preserves (norderly L) (on_conn (\<lambda>st. if time_point_ns t = UINT64_MAX \<or> time_point_ns t = 0
      then (amqp_time_tv_until 0 t, st)
      else (amqp_time_tv_until (clock st (ticks st)) t, st\<lparr>ticks := Suc (ticks st)\<rparr>))) (\<lambda>_. True)"
    by (rule preserves_on_conn) (auto simp: preserves_def orderly_def limits_def)
qed

lemma preserves_noblock: "preserves (norderly L) (amqp_simple_wait_frame_noblock u timeout) typed"
  unfolding amqp_simple_wait_frame_noblock_def
proof (rule preserves_bind_any [OF preserves_time(1)], rule preserves_bind [OF preserves_read_queue(2)])
  fix t frames
  assume "list_all typed frames"
  then show "preserves (norderly L) (case frames of [] \<Rightarrow> wait_frame_inner u t
      | f # fs \<Rightarrow> bindP (on_conn (modify (\<lambda>st. st\<lparr>first_queued_frame := fs\<rparr>))) (\<lambda>_. ret f)) typed"
    by (cases frames) (simp_all only: list.case preserves_take preserves_wait_frame)
qed

definition has_type :: "amqp_method_number_t list \<Rightarrow> amqp_method_number_t \<times> amqp_method_t \<Rightarrow> bool" where
  "has_type ids = (\<lambda>(mid, m). method_number m = mid \<and> amqp_id_in_reply_list mid ids)"

lemma preserves_wait_method: "preserves (norderly L) (amqp_simple_wait_method_list u c ids t) (has_type ids)"
  unfolding amqp_simple_wait_method_list_def
  by (rule preserves_bind_any [OF preserves_time(2)], rule preserves_bind [OF preserves_noblock])
    (auto intro!: preserves_simple preserves_if simp: typed_def has_type_def split: amqp_payload_t.splits)

definition reply_typed :: "amqp_method_number_t list \<Rightarrow> amqp_rpc_reply_t \<Rightarrow> bool" where
  "reply_typed ids r \<longleftrightarrow> (reply_type r = AMQP_RESPONSE_NORMAL \<longrightarrow> (\<exists>x. reply r = Some x \<and> has_type ids x))
     \<and> (reply_type r = AMQP_RESPONSE_SERVER_EXCEPTION \<longrightarrow>
         (\<exists>x. reply r = Some x \<and> has_type [AMQP_CHANNEL_CLOSE_METHOD, AMQP_CONNECTION_CLOSE_METHOD] x))"

lemma reply_of_typed: "typed f \<Longrightarrow> concerns c ids f \<Longrightarrow> reply_typed ids (reply_of ids f)"
  by (auto simp: typed_def concerns_def reply_of_def reply_typed_def has_type_def no_reply_def method_numbers split: amqp_payload_t.splits)

lemma preserves_rpc_loop: "preserves (norderly L) (rpc_loop u fuel c ids t) (reply_typed ids)"
proof (induction fuel)
  case (Suc fuel)
  have "preserves (norderly L) (on_status (wait_frame_inner u t) (\<lambda>e.
      if e = AMQP_STATUS_TIMEOUT then bindP amqp_tcp_socket_close (\<lambda>_. throw e) else throw e)) typed"
    by (auto intro!: preserves_intros preserves_wait_frame)
  then show ?case unfolding rpc_loop.simps
    by (rule preserves_bind)
      (auto intro!: preserves_simple preserves_if preserves_bind_any preserves_on_conn preserves_enqueue Suc reply_of_typed)
qed (simp add: preserves_intros)

lemma preserves_simple_rpc:
  "preserves (norderly L) (simple_rpc_inner u c rid ids m t) (reply_typed ids)"
  "preserves (norderly L) (amqp_simple_rpc u c rid ids m) (reply_typed ids)"
proof -
  have err: "reply_typed ids (amqp_rpc_reply_error e)" for e by (simp add: reply_typed_def amqp_rpc_reply_error_def)
  have loop: "preserves (norderly L) (\<lambda>w. rpc_loop u (Suc (pending w)) c ids t w) (reply_typed ids)" for t
    by (rule preserves_state) (rule preserves_rpc_loop)
  show rpc: "preserves (norderly L) (simple_rpc_inner u c rid ids m t) (reply_typed ids)" for t
    unfolding simple_rpc_inner_def reply_error_def amqp_send_method_def amqp_send_method_inner_def
    by (auto intro!: preserves_intros loop err simp del: rpc_loop.simps)
  show "preserves (norderly L) (amqp_simple_rpc u c rid ids m) (reply_typed ids)"
    unfolding amqp_simple_rpc_def reply_error_def rpc_deadline_def by (auto intro!: preserves_intros rpc err)
qed

section \<open>Every cast is correct\<close>

text \<open>
  C18: A remote procedure call whose queue holds typed frames returns, if it returns a reply of the server, a
  structure of the type of its method number, and that is one of the expected numbers or a close; the
  frames it queued are typed, and the limits of the connection are unchanged.
\<close>

theorem amqp_simple_rpc_typed:
  assumes "list_all typed (first_queued_frame (conn w))"
  shows "case amqp_simple_rpc u channel request_id ids m w of
      (Ok r, w') \<Rightarrow> reply_typed ids r \<and> list_all typed (first_queued_frame (conn w')) \<and> limits (conn w') = limits (conn w)
    | (_, w') \<Rightarrow> list_all typed (first_queued_frame (conn w')) \<and> limits (conn w') = limits (conn w)"
proof -
  obtain r w' where run: "amqp_simple_rpc u channel request_id ids m w = (r, w')" by (rule prod.exhaust)
  have "norderly (limits (conn w)) w" using assms by (simp add: norderly_def orderly_def)
  note p = preservesD [OF preserves_simple_rpc(2) run this]
  then show ?thesis using run by (cases r) (auto simp: norderly_def orderly_def)
qed

theorem amqp_simple_rpc_typed_witness:
  "case amqp_simple_rpc sample_memory 1 (method_number amqp_tx_select_t) [AMQP_TX_SELECT_OK_METHOD, 0] amqp_tx_select_t
      (sample_net [Recv_bytes [1, 0, 1, 0, 0, 0, 4, 0, 90, 0, 11, 206]] [Send_accepts 100] []) of
      (Ok r, w') \<Rightarrow> reply_typed [AMQP_TX_SELECT_OK_METHOD, 0] r \<and> list_all typed (first_queued_frame (conn w'))
    | (_, w') \<Rightarrow> list_all typed (first_queued_frame (conn w'))"
  using amqp_simple_rpc_typed [where w = "sample_net [Recv_bytes [1, 0, 1, 0, 0, 0, 4, 0, 90, 0, 11, 206]] [Send_accepts 100] []"
      and u = sample_memory and channel = 1 and request_id = "method_number amqp_tx_select_t"
      and ids = "[AMQP_TX_SELECT_OK_METHOD, 0]" and m = amqp_tx_select_t]
  by (simp add: sample_net_def first_connection split: prod.splits outcome.splits)

end
