(* ===== verification/Amqp_Login.thy ===== *)
theory Amqp_Login
  imports Amqp_Merge Amqp_Typing
begin

text \<open>
  The opening of a connection, librabbitmq/amqp\_socket.c: the protocol header, the choice of the
  authentication mechanism, the client's properties, the negotiation of the limits, and the opening of
  the virtual host.

  A C string is a list of bytes; it is undefined to use one without a terminating zero. The variable
  arguments are the list of the strings. The platform's name, which the build system writes into
  config.h, is an argument.
\<close>

section \<open>The protocol header\<close>

definition AMQP_PROTOCOL_VERSION_MAJOR :: uint8 where "AMQP_PROTOCOL_VERSION_MAJOR = 0"
definition AMQP_PROTOCOL_VERSION_MINOR :: uint8 where "AMQP_PROTOCOL_VERSION_MINOR = 9"
definition AMQP_PROTOCOL_VERSION_REVISION :: uint8 where "AMQP_PROTOCOL_VERSION_REVISION = 1"

definition ascii :: "string \<Rightarrow> byte list" where
  "ascii s = map (\<lambda>c. of_nat (of_char c)) s"

definition header :: "byte list" where
  "header = ascii ''AMQP'' @ [0, AMQP_PROTOCOL_VERSION_MAJOR, AMQP_PROTOCOL_VERSION_MINOR, AMQP_PROTOCOL_VERSION_REVISION]"

text \<open>The number of bytes sent becomes the status if it is not that of the whole header.\<close>

definition send_header_inner :: "amqp_time_t \<Rightarrow> unit nprog" where
  "send_header_inner deadline =
     bindP (amqp_try_send header deadline) (\<lambda>res.
     if length header = res then ret ()
     else let status = status_of_code (int res) in if status = AMQP_STATUS_OK then ret () else throw status)"

definition amqp_send_header :: "unit nprog" where
  "amqp_send_header = send_header_inner amqp_time_infinite"

section \<open>Authentication\<close>

datatype amqp_sasl_method_enum = AMQP_SASL_METHOD_UNDEFINED | AMQP_SASL_METHOD_PLAIN | AMQP_SASL_METHOD_EXTERNAL

definition sasl_method_name :: "amqp_sasl_method_enum \<Rightarrow> byte list outcome" where
  "sasl_method_name method = (case method of
       AMQP_SASL_METHOD_PLAIN \<Rightarrow> Ok (ascii ''PLAIN'')
     | AMQP_SASL_METHOD_EXTERNAL \<Rightarrow> Ok (ascii ''EXTERNAL'')
     | AMQP_SASL_METHOD_UNDEFINED \<Rightarrow> Undefined)"

definition bytes_equal :: "byte list \<Rightarrow> byte list \<Rightarrow> bool" where
  "bytes_equal l r \<longleftrightarrow> length l = length r \<and> l = r"

text \<open>
  The loop over the list of mechanisms: \<open>left\<close> is the rest of the list from \<^verbatim>\<open>start\<close>; the mechanism ends
  at the next space or at the end. The loop ends after the mechanism that ends at the end of the list.
\<close>

function mechanism_loop :: "byte list \<Rightarrow> byte list \<Rightarrow> bool" where
  "mechanism_loop mechanism left =
     (let supported_mechanism = takeWhile (\<lambda>c. c \<noteq> 0x20) left;
          current = dropWhile (\<lambda>c. c \<noteq> 0x20) left
      in if bytes_equal mechanism supported_mechanism then True
         else case current of [] \<Rightarrow> False | _ # rest \<Rightarrow> mechanism_loop mechanism rest)"
  by auto
termination
proof (relation "measure (\<lambda>(m, s). length s)")
  fix mechanism left supported current x and rest :: "byte list"
  assume "current = dropWhile (\<lambda>c. c \<noteq> 0x20) left" and "current = x # rest"
  then have "length (x # rest) \<le> length left" by (metis length_dropWhile_le)
  then show "((mechanism, rest), (mechanism, left)) \<in> measure (\<lambda>(m, s). length s)" by simp
qed simp

definition sasl_mechanism_in_list :: "byte list \<Rightarrow> amqp_sasl_method_enum \<Rightarrow> bool outcome" where
  "sasl_mechanism_in_list mechanisms method = (case sasl_method_name method of
       Ok mechanism \<Rightarrow> Ok (if mechanisms = [] then False else mechanism_loop mechanism mechanisms)
     | Err e \<Rightarrow> Err e | Undefined \<Rightarrow> Undefined | OutOfFuel \<Rightarrow> OutOfFuel)"

definition terminated :: "byte list \<Rightarrow> bool" where
  "terminated s \<longleftrightarrow> 0 \<in> set s"

text \<open>The response, or nothing when the memory for it is refused.\<close>

definition sasl_response :: "amqp_sasl_method_enum \<Rightarrow> byte list list \<Rightarrow> (pool_state, byte list option) prog" where
  "sasl_response method args = (case (method, args) of
       (AMQP_SASL_METHOD_PLAIN, username # password # _) \<Rightarrow>
         if \<not> terminated username \<or> \<not> terminated password then (\<lambda>s. (Undefined, s))
         else bindP (amqp_pool_alloc_bytes (length (cstr username) + length (cstr password) + 2)) (\<lambda>(n, p).
           ret (if p = None then None else Some ([0] @ cstr username @ [0] @ cstr password)))
     | (AMQP_SASL_METHOD_EXTERNAL, identity # _) \<Rightarrow>
         if \<not> terminated identity then (\<lambda>s. (Undefined, s))
         else bindP (amqp_pool_alloc_bytes (length (cstr identity))) (\<lambda>(n, p).
           ret (if p = None then None else Some (cstr identity)))
     | _ \<Rightarrow> (\<lambda>s. (Undefined, s)))"

section \<open>The client's properties\<close>

definition AMQP_VERSION_STRING :: string where "AMQP_VERSION_STRING = ''0.13.0''"

definition AMQ_COPYRIGHT :: string where
  "AMQ_COPYRIGHT = ''Copyright (c) 2007-2014 VMWare Inc, Tony Garnock-Jones,'' @ '' and Alan Antonuk.''"

definition client_capabilities_table :: amqp_table_t where
  "client_capabilities_table =
     [amqp_table_construct_bool_entry (ascii ''authentication_failure_close'') 1,
      amqp_table_construct_bool_entry (ascii ''exchange_exchange_bindings'') 1]"

definition default_table :: "byte list \<Rightarrow> amqp_table_t" where
  "default_table platform =
     [amqp_table_construct_utf8_entry (ascii ''product'') (ascii ''rabbitmq-c''),
      amqp_table_construct_utf8_entry (ascii ''version'') (ascii AMQP_VERSION_STRING),
      amqp_table_construct_utf8_entry (ascii ''platform'') platform,
      amqp_table_construct_utf8_entry (ascii ''copyright'') (ascii AMQ_COPYRIGHT),
      amqp_table_construct_utf8_entry (ascii ''information'') (ascii ''See https://github.com/alanxz/rabbitmq-c''),
      amqp_table_construct_table_entry (ascii ''capabilities'') client_capabilities_table]"

section \<open>The limits\<close>

definition negotiate_channel_max :: "uint16 \<Rightarrow> uint16 \<Rightarrow> uint16" where
  "negotiate_channel_max server_channel_max client_channel_max =
     (if server_channel_max \<noteq> 0 \<and> (server_channel_max < client_channel_max \<or> client_channel_max = 0) then server_channel_max
      else if server_channel_max = 0 \<and> client_channel_max = 0 then 0xFFFF
      else client_channel_max)"

definition negotiate_frame_max :: "uint32 \<Rightarrow> uint32 \<Rightarrow> uint32" where
  "negotiate_frame_max server_frame_max client_frame_max =
     (if server_frame_max \<noteq> 0 \<and> server_frame_max < client_frame_max then server_frame_max else client_frame_max)"

definition negotiate_heartbeat :: "uint16 \<Rightarrow> uint16 \<Rightarrow> uint16" where
  "negotiate_heartbeat server_heartbeat client_heartbeat =
     (if server_heartbeat \<noteq> 0 \<and> server_heartbeat < client_heartbeat then server_heartbeat else client_heartbeat)"

section \<open>The login\<close>

text \<open>Callees that get the pool of a channel, or the pool for the server's properties.\<close>

definition in_channel_pool :: "amqp_channel_t \<Rightarrow> (pool_state, 'a) prog \<Rightarrow> 'a cprog" where
  "in_channel_pool c m = (\<lambda>st. case amqp_get_channel_pool (pool_table st) c of
       None \<Rightarrow> (Undefined, st)
     | Some p \<Rightarrow> (case m (p, conn_heap st) of
         (r, p', h) \<Rightarrow> (r, st\<lparr>pool_table := set_channel_pool (pool_table st) c p', conn_heap := h\<rparr>)))"

definition in_properties_pool :: "(pool_state, 'a) prog \<Rightarrow> 'a cprog" where
  "in_properties_pool m = (\<lambda>st. case m (properties_pool st, conn_heap st) of
     (r, p', h) \<Rightarrow> (r, st\<lparr>properties_pool := p', conn_heap := h\<rparr>))"

definition lift_outcome :: "'a outcome \<Rightarrow> ('s, 'a) prog" where
  "lift_outcome r = (\<lambda>s. (r, s))"

text \<open>The checks of the server's \<^verbatim>\<open>connection.start\<close>.\<close>

definition accept_start :: "amqp_sasl_method_enum \<Rightarrow> amqp_method_t \<Rightarrow> unit cprog" where
  "accept_start sasl_method decoded = (case decoded of
       amqp_connection_start_t version_major version_minor properties mechanisms locales \<Rightarrow>
         if version_major \<noteq> AMQP_PROTOCOL_VERSION_MAJOR \<or> version_minor \<noteq> AMQP_PROTOCOL_VERSION_MINOR
         then throw AMQP_STATUS_INCOMPATIBLE_AMQP_VERSION
         else
           bindP (in_properties_pool (amqp_table_clone properties)) (\<lambda>t.
           bindP (modify (\<lambda>st. st\<lparr>server_properties := t\<rparr>)) (\<lambda>_.
           bindP (lift_outcome (sasl_mechanism_in_list mechanisms sasl_method)) (\<lambda>listed.
           if \<not> listed then throw AMQP_STATUS_BROKER_UNSUPPORTED_SASL_METHOD else ret ())))
     | _ \<Rightarrow> (\<lambda>st. (Undefined, st)))"

definition make_start_ok ::
  "byte list \<Rightarrow> amqp_table_t option \<Rightarrow> amqp_sasl_method_enum \<Rightarrow> byte list list \<Rightarrow> amqp_method_t cprog" where
  "make_start_ok platform properties sasl_method vl =
     bindP (channel_pool 0) (\<lambda>_.
     bindP (in_channel_pool 0 (sasl_response sasl_method vl)) (\<lambda>response.
     case response of
       None \<Rightarrow> throw AMQP_STATUS_NO_MEMORY
     | Some response_bytes \<Rightarrow>
         bindP (in_channel_pool 0 (amqp_merge_capabilities (default_table platform) properties)) (\<lambda>t.
         bindP (modify (\<lambda>st. st\<lparr>client_properties := t\<rparr>)) (\<lambda>_.
         bindP (lift_outcome (sasl_method_name sasl_method)) (\<lambda>mechanism.
         ret (amqp_connection_start_ok_t t mechanism response_bytes (ascii ''en_US'')))))))"

text \<open>The answer to the server's \<^verbatim>\<open>connection.tune\<close>.\<close>

definition tune_and_confirm ::
  "unspecified \<Rightarrow> uint16 \<Rightarrow> uint32 \<Rightarrow> uint16 \<Rightarrow> amqp_method_t \<Rightarrow> amqp_time_t \<Rightarrow> unit nprog" where
  "tune_and_confirm u client_channel_max client_frame_max client_heartbeat decoded deadline = (case decoded of
       amqp_connection_tune_t server_channel_max server_frame_max server_heartbeat \<Rightarrow>
         let chan_max = negotiate_channel_max server_channel_max client_channel_max;
             fmax = negotiate_frame_max server_frame_max client_frame_max;
             hb = negotiate_heartbeat server_heartbeat client_heartbeat in
         bindP (on_conn (amqp_tune_connection u (uint chan_max) (uint fmax) (uint hb))) (\<lambda>_.
         amqp_send_method_inner u 0 AMQP_CONNECTION_TUNE_OK_METHOD (amqp_connection_tune_ok_t chan_max fmax hb) deadline)
     | _ \<Rightarrow> (\<lambda>w. (Undefined, w)))"

definition open_host :: "unspecified \<Rightarrow> byte list \<Rightarrow> amqp_time_t \<Rightarrow> amqp_rpc_reply_t nprog" where
  "open_host u vhost deadline =
     bindP (if terminated vhost then ret () else (\<lambda>w. (Undefined, w))) (\<lambda>_.
     bindP (simple_rpc_inner u 0 AMQP_CONNECTION_OPEN_METHOD [AMQP_CONNECTION_OPEN_OK_METHOD, 0]
       (amqp_connection_open_t (cstr vhost) [] True) deadline) (\<lambda>result.
     if reply_type result \<noteq> AMQP_RESPONSE_NORMAL then ret result
     else
       bindP (on_conn amqp_maybe_release_buffers) (\<lambda>_.
       ret \<lparr>reply_type = AMQP_RESPONSE_NORMAL, reply = None, library_error = AMQP_STATUS_OK\<rparr>)))"

definition handshake ::
  "unspecified \<Rightarrow> byte list \<Rightarrow> byte list \<Rightarrow> uint16 \<Rightarrow> uint32 \<Rightarrow> uint16 \<Rightarrow> amqp_table_t option \<Rightarrow>
   timeval option \<Rightarrow> amqp_sasl_method_enum \<Rightarrow> byte list list \<Rightarrow> amqp_rpc_reply_t nprog" where
  "handshake u platform vhost client_channel_max client_frame_max client_heartbeat properties timeout sasl_method vl =
     bindP (time_from_now timeout) (\<lambda>deadline.
     bindP (send_header_inner deadline) (\<lambda>_.
     bindP (simple_wait_method_inner u 0 AMQP_CONNECTION_START_METHOD deadline) (\<lambda>(_, decoded).
     bindP (on_conn (accept_start sasl_method decoded)) (\<lambda>_.
     bindP (on_conn (make_start_ok platform properties sasl_method vl)) (\<lambda>start_ok.
     bindP (amqp_send_method_inner u 0 AMQP_CONNECTION_START_OK_METHOD start_ok deadline) (\<lambda>_.
     bindP (on_conn amqp_release_buffers) (\<lambda>_.
     bindP (amqp_simple_wait_method_list u 0 [AMQP_CONNECTION_TUNE_METHOD, AMQP_CONNECTION_CLOSE_METHOD, 0] deadline) (\<lambda>(mid, decoded).
     if mid = AMQP_CONNECTION_CLOSE_METHOD then
       ret \<lparr>reply_type = AMQP_RESPONSE_SERVER_EXCEPTION, reply = Some (mid, decoded), library_error = AMQP_STATUS_OK\<rparr>
     else
       bindP (tune_and_confirm u client_channel_max client_frame_max client_heartbeat decoded deadline) (\<lambda>_.
       bindP (on_conn amqp_release_buffers) (\<lambda>_.
       open_host u vhost deadline))))))))))"

definition UINT16_MAX :: int where "UINT16_MAX = 65535"

definition amqp_login_inner ::
  "unspecified \<Rightarrow> byte list \<Rightarrow> byte list \<Rightarrow> int \<Rightarrow> int \<Rightarrow> int \<Rightarrow> amqp_table_t option \<Rightarrow> timeval option \<Rightarrow>
   amqp_sasl_method_enum \<Rightarrow> byte list list \<Rightarrow> amqp_rpc_reply_t nprog" where
  "amqp_login_inner u platform vhost chan_max fmax hb properties timeout sasl_method vl =
     (if chan_max < 0 \<or> chan_max > UINT16_MAX then ret (amqp_rpc_reply_error AMQP_STATUS_INVALID_PARAMETER)
      else if fmax < 0 then ret (amqp_rpc_reply_error AMQP_STATUS_INVALID_PARAMETER)
      else if hb < 0 \<or> hb > UINT16_MAX then ret (amqp_rpc_reply_error AMQP_STATUS_INVALID_PARAMETER)
      else
        on_status (handshake u platform vhost (of_int chan_max) (of_int fmax) (of_int hb) properties timeout sasl_method vl) (\<lambda>res.
          bindP amqp_tcp_socket_close (\<lambda>_. ret (amqp_rpc_reply_error res))))"

definition amqp_login ::
  "unspecified \<Rightarrow> byte list \<Rightarrow> byte list \<Rightarrow> int \<Rightarrow> int \<Rightarrow> int \<Rightarrow> amqp_sasl_method_enum \<Rightarrow> byte list list \<Rightarrow> amqp_rpc_reply_t nprog" where
  "amqp_login u platform vhost chan_max fmax hb sasl_method vl =
     bindP (read_conn handshake_timeout) (\<lambda>timeout.
     amqp_login_inner u platform vhost chan_max fmax hb (Some []) timeout sasl_method vl)"

definition amqp_login_with_properties ::
  "unspecified \<Rightarrow> byte list \<Rightarrow> byte list \<Rightarrow> int \<Rightarrow> int \<Rightarrow> int \<Rightarrow> amqp_table_t option \<Rightarrow>
   amqp_sasl_method_enum \<Rightarrow> byte list list \<Rightarrow> amqp_rpc_reply_t nprog" where
  "amqp_login_with_properties u platform vhost chan_max fmax hb properties sasl_method vl =
     bindP (read_conn handshake_timeout) (\<lambda>timeout.
     amqp_login_inner u platform vhost chan_max fmax hb properties timeout sasl_method vl)"

section \<open>The choice of the mechanism\<close>

text \<open>The words of a list separated by single spaces.\<close>

fun words :: "byte list \<Rightarrow> byte list list" where
  "words [] = [[]]"
| "words (c # cs) = (if c = 0x20 then [] # words cs else case words cs of [] \<Rightarrow> [[c]] | w # ws \<Rightarrow> (c # w) # ws)"

lemma words_step:
  "words cs = takeWhile (\<lambda>c. c \<noteq> 0x20) cs # (case dropWhile (\<lambda>c. c \<noteq> 0x20) cs of [] \<Rightarrow> [] | _ # rest \<Rightarrow> words rest)"
  by (induction cs) (auto split: list.splits)

declare mechanism_loop.simps [simp del]

lemma mechanism_loop_words: "mechanism_loop m cs \<longleftrightarrow> m \<in> set (words cs)"
proof (induction m cs rule: mechanism_loop.induct)
  case (1 m cs)
  show ?case
  proof (cases "dropWhile (\<lambda>c. c \<noteq> 0x20) cs")
    case Nil
    show ?thesis by (subst mechanism_loop.simps, subst words_step, simp only: Nil Let_def list.case) (auto simp: bytes_equal_def)
  next
    case (Cons c rest)
    have "mechanism_loop m rest \<longleftrightarrow> m \<in> set (words rest)" if "\<not> bytes_equal m (takeWhile (\<lambda>c. c \<noteq> 0x20) cs)"
      by (rule 1 [OF refl refl that]) (use Cons in auto)
    then show ?thesis by (subst mechanism_loop.simps, subst words_step) (auto simp: Let_def bytes_equal_def Cons)
  qed
qed

text \<open>
  C38: The scan of the server's list finds a mechanism exactly if it is one of the words of the list: no part
  of a word is taken for it, at the beginning, in the middle or at the end.
\<close>

theorem sasl_mechanism_in_list_words:
  assumes "sasl_method_name method = Ok name"
  shows "sasl_mechanism_in_list mechanisms method = Ok (name \<in> set (words mechanisms))"
proof -
  have "name \<noteq> []" using assms by (auto simp: sasl_method_name_def ascii_def split: amqp_sasl_method_enum.splits)
  then show ?thesis using assms by (simp add: sasl_mechanism_in_list_def mechanism_loop_words)
qed

theorem sasl_mechanism_in_list_words_witness:
  "sasl_mechanism_in_list (ascii ''AMQPLAIN PLAIN'') AMQP_SASL_METHOD_PLAIN = Ok True
   \<and> sasl_mechanism_in_list (ascii ''AMQPLAIN XPLAIN'') AMQP_SASL_METHOD_PLAIN = Ok False"
proof -
  have name: "sasl_method_name AMQP_SASL_METHOD_PLAIN = Ok (ascii ''PLAIN'')" by (simp add: sasl_method_name_def)
  have "ascii ''PLAIN'' \<in> set (words (ascii ''AMQPLAIN PLAIN''))" by (simp add: ascii_def)
  moreover have "ascii ''PLAIN'' \<notin> set (words (ascii ''AMQPLAIN XPLAIN''))" by (simp add: ascii_def)
  ultimately show ?thesis by (simp only: sasl_mechanism_in_list_words [OF name] simp_thms)
qed

section \<open>The negotiated limits\<close>

text \<open>
  A limit that is 0 stands for no limit. The client's 0 is different for the size of a frame, where it is kept as a limit of no
  bytes, and for the heartbeat, where it switches the heartbeats off whatever the server offers.
\<close>

definition limit :: "'a::len word \<Rightarrow> 'a word" where
  "limit n = (if n = 0 then - 1 else n)"

lemma negotiated_minimum:
  "negotiate_channel_max s c = min (limit s) (limit c)" "negotiate_frame_max sf cf = min (limit sf) cf"
  "negotiate_heartbeat sh ch = min (limit sh) ch"
proof -
  have top: "x \<le> - 1" "- 1 \<le> x \<longleftrightarrow> x = - 1" for x :: "'a::len word" by (auto intro: antisym)
  have 16: "(- 1 :: uint16) = 0xFFFF" by simp
  show "negotiate_channel_max s c = min (limit s) (limit c)"
    unfolding negotiate_channel_max_def limit_def min_def 16 [symmetric] by (auto simp: top not_less)
  show "negotiate_frame_max sf cf = min (limit sf) cf" "negotiate_heartbeat sh ch = min (limit sh) ch"
    by (auto simp: negotiate_frame_max_def negotiate_heartbeat_def limit_def min_def top not_less not_le)
qed

section \<open>Work on the pools of the connection\<close>

lemma merges_works: "merges m v ok \<Longrightarrow> works m"
  unfolding merges_def works_def by (metis outcome.distinct(3,5,7,9) prod.collapse)

lemma in_channel_pool_inv:
  assumes inv: "memory_inv st" and c: "amqp_get_channel_pool (pool_table st) c \<noteq> None" and m: "works m"
    and run: "in_channel_pool c m st = (r, st')"
  shows "memory_inv st'" "r \<noteq> Undefined" "r \<noteq> OutOfFuel" "\<exists>t h. st' = st\<lparr>pool_table := t, conn_heap := h\<rparr>"
    "amqp_get_channel_pool (pool_table st') c \<noteq> None"
proof -
  from c obtain p where p: "amqp_get_channel_pool (pool_table st) c = Some p" by blast
  from inv have pools: "pools_inv (pool_table st) (conn_heap st) (own_blocks st)" by (simp add: memory_inv_def)
  obtain r' p' h where d: "m (p, conn_heap st) = (r', p', h)" by (metis surj_pair)
  have st': "r' = r" "st' = st\<lparr>pool_table := set_channel_pool (pool_table st) c p', conn_heap := h\<rparr>"
    using run d p by (auto simp: in_channel_pool_def)
  have "pool_ready (p, conn_heap st)" using pools_invD(8) [OF pools p] by (simp add: pool_ready_def)
  then have w: "advances (p, conn_heap st) (p', h)" "r \<noteq> Undefined" "r \<noteq> OutOfFuel"
    using m d st'(1) unfolding works_def by (metis fst_conv snd_conv)+
  then have a: "pool_inv p' h" "\<not> h_fault h" "foreign p' h (others (pool_table st) c (own_blocks st))" "evolves (conn_heap st) h"
    using foreign_others [OF pools p] pools_invD(3) [OF pools] by (auto simp: advances_def pool_ready_def)
  show "memory_inv st'" by (rule memory_inv_step [OF inv st'(2) pools_inv_set [OF pools p a] a(4)])
  show "r \<noteq> Undefined" "r \<noteq> OutOfFuel" by (fact w)+
  show "\<exists>t h. st' = st\<lparr>pool_table := t, conn_heap := h\<rparr>" using st'(2) by blast
  have "amqp_get_channel_pool (set_channel_pool (pool_table st) c p') = (amqp_get_channel_pool (pool_table st))(c \<mapsto> p')"
    by (rule pool_table.put_look [OF pools_invD(1) [OF pools]]) (simp add: p)
  then show "amqp_get_channel_pool (pool_table st') c \<noteq> None" by (simp add: st'(2))
qed

lemma in_properties_pool_inv:
  assumes inv: "memory_inv st" and m: "works m" and run: "in_properties_pool m st = (r, st')"
  shows "memory_inv st'" "r \<noteq> Undefined" "r \<noteq> OutOfFuel" "\<exists>p h. st' = st\<lparr>properties_pool := p, conn_heap := h\<rparr>"
proof -
  let ?p = "properties_pool st" and ?h = "conn_heap st" and ?t = "pool_table st"
  let ?rest = "insert (conn_block st) (set_option (outbound_block st) \<union> set_option (sock_inbound_block st))"
  from inv have pools: "pools_inv ?t ?h (own_blocks st)" and p: "pool_inv ?p ?h" and own: "own_distinct st"
    by (simp_all add: memory_inv_def)
  obtain r' p' h where d: "m (?p, ?h) = (r', p', h)" by (metis surj_pair)
  have st': "r' = r" "st' = st\<lparr>properties_pool := p', conn_heap := h\<rparr>" using run d by (auto simp: in_properties_pool_def)
  have w: "advances (?p, ?h) (p', h)" "r \<noteq> Undefined" "r \<noteq> OutOfFuel"
    using m d st'(1) p unfolding works_def pool_ready_def by (metis fst_conv snd_conv case_prod_conv)+
  let ?B = "?rest \<union> entry_blocks ?t \<union> \<Union>{foot q | q c. amqp_get_channel_pool ?t c = Some q}"
  have live: "h_live ?h b \<noteq> None" and notin: "b \<notin> foot ?p" if "b \<in> ?B" for b
  proof -
    show "h_live ?h b \<noteq> None"
    proof (cases "b \<in> ?rest \<union> entry_blocks ?t")
      case True
      then show ?thesis by (intro pools_invD(7) [OF pools]) (auto simp: own_blocks_def)
    next
      case False
      with that obtain q c where "amqp_get_channel_pool ?t c = Some q" "b \<in> foot q" by blast
      then show ?thesis using foot_live [OF pools_invD(8) [OF pools]] by blast
    qed
    have sub: "foot ?p \<subseteq> own_blocks st" by (auto simp: own_blocks_def)
    show "b \<notin> foot ?p"
    proof (cases "b \<in> ?rest \<union> entry_blocks ?t")
      case True
      then show ?thesis using own sub pools_invD(6) [OF pools] unfolding own_distinct_def by blast
    next
      case False
      with that obtain q c where "amqp_get_channel_pool ?t c = Some q" "b \<in> foot q" by blast
      then show ?thesis using sub pools_invD(9) [OF pools] by blast
    qed
  qed
  then have "foreign ?p ?h ?B" by (simp add: foreign_def foot_def)
  with w(1) have f: "foreign p' h ?B" and p': "pool_inv p' h" and e: "evolves ?h h" and fault: "h_fault h = h_fault ?h"
    by (simp_all add: advances_def pool_ready_def)
  have live': "h_live h b \<noteq> None" and notin': "b \<notin> foot p'" if "b \<in> ?B" for b
    using bspec [OF f [unfolded foreign_def] that] by (auto simp: foot_def)
  have hinv: "heap_inv h" using p' by (simp add: pool_inv_def)
  have B: "own_blocks st' = ?rest \<union> foot p'" by (auto simp: own_blocks_def st'(2))
  have rest: "?rest \<subseteq> own_blocks st" by (auto simp: own_blocks_def)
  have "b \<notin> foot p'" if "b \<in> entry_blocks ?t" for b by (rule notin') (use that in auto)
  then have apart: "foot p' \<inter> entry_blocks ?t = {}" by blast
  have "pools_inv ?t h (own_blocks st')"
  proof (rule pools_invI)
    show "own_blocks st' \<inter> entry_blocks ?t = {}"
      using apart pools_invD(6) [OF pools] rest unfolding B by blast
    show "h_live h b \<noteq> None" if b: "b \<in> own_blocks st' \<union> entry_blocks ?t" for b
    proof (cases "b \<in> foot p'")
      case False
      with b have "b \<in> ?B" unfolding B by auto
      then show ?thesis by (rule live')
    qed (rule foot_live [OF p'])
    show "pool_inv q h \<and> foot q \<inter> (own_blocks st' \<union> entry_blocks ?t) = {}" if q: "amqp_get_channel_pool ?t c = Some q" for c q
    proof -
      have sub: "b \<in> ?B" if "b \<in> foot q" for b using q that by blast
      have "pool_inv q h" by (rule pool_inv_evolves [OF pools_invD(8) [OF pools q] e hinv]) (rule live' [OF sub])
      moreover have "foot q \<inter> foot p' = {}" using notin' [OF sub] by blast
      ultimately show ?thesis
        using pools_invD(9) [OF pools q] rest unfolding B by blast
    qed
    show "foot q \<inter> foot q' = {}" if "amqp_get_channel_pool ?t c = Some q" "amqp_get_channel_pool ?t d = Some q'" "c \<noteq> d" for c d q q'
      by (rule pools_invD(10) [OF pools that])
    show "\<not> h_fault h" using pools_invD(3) [OF pools] fault by simp
    show "table_inv ?t" "distinct (map entry_channel (concat ?t))" "distinct (map entry_block (concat ?t))"
      by (rule pools_invD(1,4,5) [OF pools])+
  qed (rule hinv)
  moreover have "b \<notin> foot p'" if "b \<in> ?rest" for b by (rule notin') (use that in auto)
  then have "foot p' \<inter> ?rest = {}" by blast
  then have "own_distinct st'" using own by (simp add: own_distinct_def st'(2))
  ultimately show "memory_inv st'" using inv p' by (simp add: memory_inv_def st'(2))
  show "r \<noteq> Undefined" "r \<noteq> OutOfFuel" by (fact w)+
  show "\<exists>p h. st' = st\<lparr>properties_pool := p, conn_heap := h\<rparr>" using st'(2) by blast
qed

end
