(* ===== verification/Amqp_Login_Safety.thy ===== *)
theory Amqp_Login_Safety
  imports Amqp_Login
begin

text \<open>
  The login settles, whatever the server sends: it ends with a reply and an intact connection, or at one
  of the conditions named. The steps up to the negotiation keep the invariant of the connection and
  the types of its frames; after the negotiation the same holds if the agreed size of a frame has room
  for the answer.
\<close>

section \<open>Triples for the login\<close>

definition usettles :: "('a \<Rightarrow> net \<Rightarrow> bool) \<Rightarrow> 'a outcome \<times> net \<Rightarrow> bool" where
  "usettles Q = (\<lambda>(r, w). case r of
       Ok x \<Rightarrow> Q x w
     | Err e \<Rightarrow> intact w
     | Undefined \<Rightarrow> malformed (raw_frame (conn w)) \<or> conn_state (conn w) \<noteq> CONNECTION_STATE_IDLE
     | OutOfFuel \<Rightarrow> waits w)"

definition usound :: "(net \<Rightarrow> bool) \<Rightarrow> 'a nprog \<Rightarrow> ('a \<Rightarrow> net \<Rightarrow> bool) \<Rightarrow> bool" where
  "usound P m Q \<longleftrightarrow> (\<forall>w. P w \<longrightarrow> usettles Q (m w))"

lemma usoundD: "usound P m Q \<Longrightarrow> P w \<Longrightarrow> usettles Q (m w)"
  by (simp add: usound_def)

lemma usettles_bind:
  assumes "usettles R (m w)" and "\<And>x w'. R x w' \<Longrightarrow> usettles Q (k x w')"
  shows "usettles Q (bindP m k w)"
  using assms by (cases "m w"; cases "fst (m w)") (auto simp: usettles_def bindP_def)

lemma usound_bind: "usound P m R \<Longrightarrow> (\<And>x. usound (R x) (k x) Q) \<Longrightarrow> usound P (bindP m k) Q"
  unfolding usound_def by (blast intro: usettles_bind)

lemma usettles_mono: "usettles Q r \<Longrightarrow> (\<And>x w. Q x w \<Longrightarrow> Q' x w) \<Longrightarrow> usettles Q' r"
  by (auto simp: usettles_def split: outcome.splits prod.splits)

lemma usound_conseq:
  "usound P m Q \<Longrightarrow> (\<And>w. P' w \<Longrightarrow> P w) \<Longrightarrow> (\<And>x w. Q x w \<Longrightarrow> Q' x w) \<Longrightarrow> usound P' m Q'"
  unfolding usound_def by (blast intro: usettles_mono)

text \<open>The state of the login: a valid connection with typed frames and the given limits.\<close>

definition prepared :: "int \<times> int \<times> int \<times> nat \<Rightarrow> net \<Rightarrow> bool" where
  "prepared L w \<longleftrightarrow> net_inv w \<and> norderly L w"

lemma nsettles_usettles: "nsettles Q r \<Longrightarrow> usettles Q r"
  by (cases r; cases "fst r") (auto simp: usettles_def)

lemma usound_step:
  assumes "\<And>a b. nsound (\<lambda>w. net_at a b w \<and> F (conn w)) m (\<lambda>x. net_at a b)" and "preserves (norderly L) m R"
  shows "usound (\<lambda>w. prepared L w \<and> F (conn w)) m (\<lambda>x w. prepared L w \<and> R x)"
  unfolding usound_def
proof (intro allI impI)
  fix w
  assume w: "prepared L w \<and> F (conn w)"
  then have at: "net_at (pending w) (length (sends w)) w \<and> F (conn w)" by (simp add: prepared_def net_inv_at)
  obtain r w' where run: "m w = (r, w')" by (rule prod.exhaust)
  note p = preservesD [OF assms(2) run]
  from nsoundD [OF assms(1) at] w p run show "usettles (\<lambda>x w. prepared L w \<and> R x) (m w)"
    by (cases r) (auto simp: usettles_def prepared_def intro: net_at_inv)
qed

lemma usound_step_plain:
  assumes "\<And>a b. nsound (net_at a b) m (\<lambda>x. net_at a b)" and "preserves (norderly L) m R"
  shows "usound (prepared L) m (\<lambda>x w. prepared L w \<and> R x)"
  using usound_step [where F = "\<lambda>_. True", OF _ assms(2)] assms(1) by simp

text \<open>Steps that change the pools, the heap and the properties only.\<close>

definition same_frame :: "amqp_connection_state_t \<Rightarrow> amqp_connection_state_t \<Rightarrow> bool" where
  "same_frame st st' \<longleftrightarrow> (\<exists>t h p s c. st' = st\<lparr>pool_table := t, conn_heap := h, properties_pool := p,
     server_properties := s, client_properties := c\<rparr>)"

lemma same_frame_refl: "same_frame st st"
  unfolding same_frame_def by (intro exI [of _ "pool_table st"] exI [of _ "conn_heap st"] exI [of _ "properties_pool st"]
      exI [of _ "server_properties st"] exI [of _ "client_properties st"]) simp

lemma same_frame_trans: "same_frame st st' \<Longrightarrow> same_frame st' st'' \<Longrightarrow> same_frame st st''"
  unfolding same_frame_def by fastforce

lemma same_frame_io:
  assumes "io_inv st" and "memory_inv st'" and "same_frame st st'"
  shows "io_inv st'" "buffered st' = buffered st" "orderly L st' = orderly L st"
proof -
  from assms(3) obtain t h p s c where st': "st' = st\<lparr>pool_table := t, conn_heap := h, properties_pool := p,
     server_properties := s, client_properties := c\<rparr>" by (auto simp: same_frame_def)
  have "assembly_inv st' = assembly_inv st" by (rule assembly_inv_cong) (simp_all add: st')
  then show "io_inv st'" using assms(1,2) by (simp add: io_inv_def conn_inv_def st')
  show "buffered st' = buffered st" "orderly L st' = orderly L st"
    by (simp_all add: buffered_def orderly_def limits_def st')
qed

lemma usound_frame:
  assumes "\<And>st r st'. memory_inv st \<Longrightarrow> m st = (r, st') \<Longrightarrow>
    memory_inv st' \<and> same_frame st st' \<and> r \<noteq> Undefined \<and> r \<noteq> OutOfFuel \<and> (\<forall>x. r = Ok x \<longrightarrow> R x)"
  shows "usound (prepared L) (on_conn m) (\<lambda>x w. prepared L w \<and> R x)"
  unfolding usound_def
proof (intro allI impI)
  fix w
  assume w: "prepared L w"
  then have io: "io_inv (conn w)" and s: "sock w \<noteq> None" by (simp_all add: prepared_def net_inv_def)
  obtain r st where run: "m (conn w) = (r, st)" by (rule prod.exhaust)
  note a = assms [OF io_inv_memory [OF io] run]
  note f = same_frame_io [OF io]
  show "usettles (\<lambda>x w. prepared L w \<and> R x) (on_conn m w)"
    using a f w s run by (cases r) (auto simp: usettles_def on_conn_def prepared_def net_inv_def norderly_def intact_def)
qed

section \<open>The steps on the connection\<close>

lemma works_frame:
  assumes "memory_inv st" and "in_properties_pool m st = (r, st')" and "works m"
  shows "memory_inv st'" "same_frame st st'" "r \<noteq> Undefined" "r \<noteq> OutOfFuel"
proof -
  note p = in_properties_pool_inv [OF assms(1,3,2)]
  show "memory_inv st'" "r \<noteq> Undefined" "r \<noteq> OutOfFuel" by (fact p)+
  from p(4) obtain q h where "st' = st\<lparr>properties_pool := q, conn_heap := h\<rparr>" by blast
  then show "same_frame st st'" unfolding same_frame_def
    by (intro exI [of _ "pool_table st"] exI [of _ h] exI [of _ q] exI [of _ "server_properties st"] exI [of _ "client_properties st"]) simp
qed

lemma works_frame_channel:
  assumes "memory_inv st" and "in_channel_pool c m st = (r, st')" and "works m" and "amqp_get_channel_pool (pool_table st) c \<noteq> None"
  shows "memory_inv st'" "same_frame st st'" "r \<noteq> Undefined" "r \<noteq> OutOfFuel" "amqp_get_channel_pool (pool_table st') c \<noteq> None"
proof -
  note p = in_channel_pool_inv [OF assms(1,4,3,2)]
  show "memory_inv st'" "r \<noteq> Undefined" "r \<noteq> OutOfFuel" "amqp_get_channel_pool (pool_table st') c \<noteq> None" by (fact p)+
  from p(4) obtain t h where "st' = st\<lparr>pool_table := t, conn_heap := h\<rparr>" by blast
  then show "same_frame st st'" unfolding same_frame_def
    by (intro exI [of _ t] exI [of _ h] exI [of _ "properties_pool st"] exI [of _ "server_properties st"] exI [of _ "client_properties st"]) simp
qed

lemma same_frame_properties:
  "same_frame st (st\<lparr>server_properties := s\<rparr>)" "same_frame st (st\<lparr>client_properties := s\<rparr>)"
  "same_frame st (st\<lparr>pool_table := t, conn_heap := h\<rparr>)"
  by (cases st; auto simp: same_frame_def)+

lemma memory_inv_properties:
  "memory_inv (st\<lparr>server_properties := s\<rparr>) = memory_inv st" "memory_inv (st\<lparr>client_properties := s\<rparr>) = memory_inv st"
  by (simp_all add: memory_inv_def own_blocks_def own_distinct_def)

lemma method_number_inv:
  "method_number m = AMQP_CONNECTION_START_METHOD \<Longrightarrow> \<exists>a b c d e. m = amqp_connection_start_t a b c d e"
  "method_number m = AMQP_CONNECTION_TUNE_METHOD \<Longrightarrow> \<exists>a b c. m = amqp_connection_tune_t a b c"
  by (cases m; simp add: method_numbers)+

lemma accept_start_frame:
  assumes "memory_inv st" and "accept_start sasl decoded st = (r, st')" and "sasl_method_name sasl = Ok name"
    and "method_number decoded = AMQP_CONNECTION_START_METHOD"
  shows "memory_inv st' \<and> same_frame st st' \<and> r \<noteq> Undefined \<and> r \<noteq> OutOfFuel"
proof -
  from method_number_inv(1) [OF assms(4)] obtain major minor props mechs locs where
    d: "decoded = amqp_connection_start_t major minor props mechs locs" by blast
  show ?thesis
  proof (cases "major \<noteq> AMQP_PROTOCOL_VERSION_MAJOR \<or> minor \<noteq> AMQP_PROTOCOL_VERSION_MINOR")
    case True
    with assms d show ?thesis by (auto simp: accept_start_def throw_def same_frame_refl)
  next
    case False
    obtain r1 s1 where run: "in_properties_pool (amqp_table_clone props) st = (r1, s1)" by (rule prod.exhaust)
    note p = works_frame [OF assms(1) run works_clone]
    have "\<exists>b. sasl_mechanism_in_list mechs sasl = Ok b" using assms(3) by (simp add: sasl_mechanism_in_list_def)
    then obtain b where b: "sasl_mechanism_in_list mechs sasl = Ok b" by blast
    have "same_frame st (s1\<lparr>server_properties := t\<rparr>)" for t by (rule same_frame_trans [OF p(2) same_frame_properties(1)])
    then show ?thesis
      using assms(2) False p run b d
      by (cases r1) (auto simp: accept_start_def bindP_def lift_outcome_def modify_def memory_inv_properties throw_def ret_def split: if_splits)
  qed
qed

text \<open>The arguments of the login that are in order, and the response for them.\<close>

fun credentials :: "amqp_sasl_method_enum \<Rightarrow> byte list list \<Rightarrow> bool" where
  "credentials AMQP_SASL_METHOD_PLAIN (username # password # _) = (terminated username \<and> terminated password)"
| "credentials AMQP_SASL_METHOD_EXTERNAL (identity # _) = terminated identity"
| "credentials _ _ = False"

fun response_of :: "amqp_sasl_method_enum \<Rightarrow> byte list list \<Rightarrow> byte list" where
  "response_of AMQP_SASL_METHOD_PLAIN (username # password # _) = [0] @ cstr username @ [0] @ cstr password"
| "response_of AMQP_SASL_METHOD_EXTERNAL (identity # _) = cstr identity"
| "response_of _ _ = []"

lemma sasl_response_works: "credentials sasl vl \<Longrightarrow> works (sasl_response sasl vl)"
  by (cases "(sasl, vl)" rule: credentials.cases)
    (auto simp: sasl_response_def intro!: works_intros split: prod.splits)

lemma sasl_response_value: "fst (sasl_response sasl vl s) = Ok (Some bs) \<Longrightarrow> bs = response_of sasl vl"
  by (cases "(sasl, vl)" rule: credentials.cases)
    (auto simp: sasl_response_def bindP_def ret_def split: prod.splits outcome.splits if_splits amqp_sasl_method_enum.splits)

lemma default_table_tidy: "tidy (default_table platform)"
  by (simp add: default_table_def client_capabilities_table_def amqp_table_construct_utf8_entry_def
      amqp_table_construct_bool_entry_def amqp_table_construct_table_entry_def ascii_def cstr_def)

definition start_ok :: "byte list \<Rightarrow> amqp_table_t \<Rightarrow> amqp_sasl_method_enum \<Rightarrow> byte list \<Rightarrow> byte list list \<Rightarrow> amqp_method_t" where
  "start_ok platform add sasl name vl =
     amqp_connection_start_ok_t (merged (default_table platform) add) name (response_of sasl vl) (ascii ''en_US'')"

lemma make_start_ok_frame:
  assumes inv: "memory_inv st" and run: "make_start_ok platform (Some add) sasl vl st = (r, st')"
    and sasl: "sasl_method_name sasl = Ok name" "credentials sasl vl" and add: "tidy add"
  shows "memory_inv st' \<and> same_frame st st' \<and> r \<noteq> Undefined \<and> r \<noteq> OutOfFuel \<and> (\<forall>m. r = Ok m \<longrightarrow> m = start_ok platform add sasl name vl)"
proof -
  let ?merge = "amqp_merge_capabilities (default_table platform) (Some add)"
  obtain r1 s1 where r1: "channel_pool 0 st = (r1, s1)" by (rule prod.exhaust)
  note c = channel_pool_inv [OF inv r1]
  have f1: "same_frame st s1" using c(2) same_frame_properties(3) by metis
  show ?thesis
  proof (cases "r1 = Ok ()")
    case False
    then show ?thesis using c f1 run r1 by (auto simp: make_start_ok_def bindP_def)
  next
    case True
    then have pool: "amqp_get_channel_pool (pool_table s1) 0 \<noteq> None" using c(3) by auto
    obtain r2 s2 where r2: "in_channel_pool 0 (sasl_response sasl vl) s1 = (r2, s2)" by (rule prod.exhaust)
    note p2 = works_frame_channel [OF c(1) r2 sasl_response_works [OF sasl(2)] pool]
    have f2: "same_frame st s2" by (rule same_frame_trans [OF f1 p2(2)])
    show ?thesis
    proof (cases "\<exists>bs. r2 = Ok (Some bs)")
      case False
      then show ?thesis using p2 f2 run r1 r2 True
        by (cases r2) (auto simp: make_start_ok_def bindP_def throw_def split: option.splits)
    next
      case True': True
      then obtain bs where bs: "r2 = Ok (Some bs)" by blast
      have "bs = response_of sasl vl"
        using r2 bs pool sasl_response_value by (auto simp: in_channel_pool_def split: option.splits prod.splits) (metis fst_conv)
      obtain r3 s3 where r3: "in_channel_pool 0 ?merge s2 = (r3, s3)" by (rule prod.exhaust)
      have m: "merges ?merge (merged (default_table platform) add) (mergeable (default_table platform) add)"
        unfolding amqp_merge_capabilities_def option.case by (rule merges_tables [OF default_table_tidy add])
      note p3 = works_frame_channel [OF p2(1) r3 merges_works [OF m] p2(5)]
      have f3: "same_frame st (s3\<lparr>client_properties := t\<rparr>)" "same_frame st s3" for t
        using same_frame_trans [OF f2 p3(2)] same_frame_trans same_frame_properties(2) by blast+
      have v: "r3 = Ok t \<Longrightarrow> t = merged (default_table platform) add" for t
      proof -
        assume r3': "r3 = Ok t"
        obtain p where p: "amqp_get_channel_pool (pool_table s2) 0 = Some p" using p2(5) by blast
        have "pool_ready (p, conn_heap s2)" using p2(1) p by (auto simp: memory_inv_def pool_ready_def dest: pools_invD(8))
        from mergesD(2) [OF m this] r3 r3' p show ?thesis
          by (cases "?merge (p, conn_heap s2)") (auto simp: in_channel_pool_def split: prod.splits)
      qed
      show ?thesis
        using run r1 True r2 bs r3 p3 f3 v sasl(1) \<open>bs = _\<close>
        by (cases r3) (auto simp: make_start_ok_def bindP_def modify_def lift_outcome_def ret_def memory_inv_properties start_ok_def simp del: merged.simps)
    qed
  qed
qed

section \<open>Releasing and tuning\<close>

lemma release_frame:
  assumes "memory_inv st" and "conn_state st = CONNECTION_STATE_IDLE" and "amqp_release_buffers st = (r, st')"
  shows "memory_inv st' \<and> same_frame st st' \<and> r = Ok ()"
  using release_cases [OF assms(1)] assms(2,3) same_frame_properties(3) by fastforce

lemma usound_release: "usound (prepared L) (on_conn amqp_release_buffers) (\<lambda>_. prepared L)"
  unfolding usound_def
proof (intro allI impI)
  fix w
  assume w: "prepared L w"
  then have io: "io_inv (conn w)" and s: "sock w \<noteq> None" by (simp_all add: prepared_def net_inv_def)
  obtain r st where run: "amqp_release_buffers (conn w) = (r, st)" by (rule prod.exhaust)
  show "usettles (\<lambda>_. prepared L) (on_conn amqp_release_buffers w)"
  proof (cases "conn_state (conn w) = CONNECTION_STATE_IDLE")
    case True
    from release_frame [OF io_inv_memory [OF io] this run] have f: "memory_inv st" "same_frame (conn w) st" "r = Ok ()" by simp_all
    with same_frame_io [OF io f(1,2)] run w s show ?thesis
      by (simp add: usettles_def on_conn_def prepared_def net_inv_def norderly_def)
  next
    case False
    then show ?thesis by (simp add: usettles_def on_conn_def amqp_release_buffers_def)
  qed
qed

lemma usound_maybe_release: "usound (prepared L) (on_conn amqp_maybe_release_buffers) (\<lambda>x w. prepared L w \<and> True)"
proof (rule usound_frame)
  fix st r st'
  assume "memory_inv st" and "amqp_maybe_release_buffers st = (r, st')"
  then show "memory_inv st' \<and> same_frame st st' \<and> r \<noteq> Undefined \<and> r \<noteq> OutOfFuel \<and> (\<forall>x. r = Ok x \<longrightarrow> True)"
    using release_frame [of st r st'] by (auto simp: amqp_maybe_release_buffers_def amqp_release_buffers_ok_def same_frame_refl split: if_splits)
qed

definition receiving :: "amqp_connection_state_t \<Rightarrow> byte list \<times> nat \<times> nat \<times> amqp_frame_t list" where
  "receiving st = (sock_inbound_buffer st, sock_inbound_offset st, sock_inbound_limit st, first_queued_frame st)"

lemma receiving_deadline:
  "preserves (\<lambda>st. receiving st = F) (set_deadline next_send_heartbeat_update next_send_heartbeat secs) (\<lambda>_. True)"
  "preserves (\<lambda>st. receiving st = F) (set_deadline next_recv_heartbeat_update next_recv_heartbeat secs) (\<lambda>_. True)"
  by (auto simp: preserves_def set_deadline_def read_clock_def receiving_def split: prod.splits)

lemma receiving_resize: "preserves (\<lambda>st. receiving st = F) (resize_outbound u n) (\<lambda>_. True)"
  by (auto simp: preserves_def resize_outbound_def receiving_def split: prod.splits option.splits)

lemma tune_keeps:
  assumes "amqp_tune_connection u cm fm hb st = (r, st')"
  shows "receiving st' = receiving st"
proof (cases "conn_state st = CONNECTION_STATE_IDLE")
  case True
  let ?s = "st\<lparr>channel_max := cm, frame_max := fm, heartbeat := (if 0 > hb then 0 else hb)\<rparr>"
  let ?m = "bindP (set_deadline next_send_heartbeat_update next_send_heartbeat (amqp_heartbeat_send ?s)) (\<lambda>_.
       bindP (if amqp_heartbeat_recv ?s \<ge> 2 ^ 31 then (\<lambda>st. (Undefined, st))
         else set_deadline next_recv_heartbeat_update next_recv_heartbeat (amqp_heartbeat_recv ?s)) (\<lambda>_.
       resize_outbound u (size_of_int fm)))"
  have p: "preserves (\<lambda>s. receiving s = receiving st) ?m (\<lambda>_. True)"
    by (intro preserves_intros receiving_deadline receiving_resize)
  have run: "?m ?s = (r, st')" using assms True unfolding amqp_tune_connection_def Let_def by simp
  show ?thesis by (rule preservesD(1) [OF p run]) (simp add: receiving_def)
qed (use assms in \<open>auto simp: amqp_tune_connection_def\<close>)

definition tuned :: "int \<times> int \<times> int \<times> nat \<Rightarrow> net \<Rightarrow> bool" where
  "tuned L w \<longleftrightarrow> norderly L w \<and> intact w \<and> (20 \<le> snd (snd (snd L)) \<longrightarrow> net_inv w)"

lemma usound_tune:
  fixes cm :: uint16 and fm :: uint32 and hb :: uint16
  assumes "uint fm < 2 ^ 31"
  shows "usound (prepared L) (on_conn (amqp_tune_connection u (uint cm) (uint fm) (uint hb)))
    (\<lambda>_. tuned (uint cm, uint fm, uint hb, nat (uint fm)))"
  unfolding usound_def
proof (intro allI impI)
  fix w
  assume w: "prepared L w"
  then have io: "io_inv (conn w)" and s: "sock w \<noteq> None" by (simp_all add: prepared_def net_inv_def)
  obtain r st where run: "amqp_tune_connection u (uint cm) (uint fm) (uint hb) (conn w) = (r, st)" by (rule prod.exhaust)
  note k = tune_keeps [OF run]
  show "usettles (\<lambda>_. tuned (uint cm, uint fm, uint hb, nat (uint fm))) (on_conn (amqp_tune_connection u (uint cm) (uint fm) (uint hb)) w)"
  proof (cases "conn_state (conn w) = CONNECTION_STATE_IDLE")
    case True
    have hb: "uint hb < 2 ^ 30" using uint_lt2p [of hb] by simp
    have len: "nat (uint fm) \<le> ptrdiff_max" using assms by (simp add: ptrdiff_max_def nat_le_iff del: nat_uint_eq)
    note c = tune_cases [OF io_inv_memory [OF io] True uint_ge_0 assms hb, where u = u and cm = "uint cm"]
    show ?thesis
      using c run k w s io len
      by (cases r) (auto simp: usettles_def on_conn_def tuned_def norderly_def orderly_def limits_def intact_def
          prepared_def net_inv_def io_inv_def conn_inv_def receiving_def simp del: nat_uint_eq)
  next
    case False
    then show ?thesis using run by (simp add: usettles_def on_conn_def amqp_tune_connection_def)
  qed
qed

section \<open>The whole login\<close>

lemma usound_send_method:
  assumes "wf_method m" and "length (ser_method m) + 12 \<le> INT32_MAX" and "20 \<le> snd (snd (snd L))"
  shows "usound (prepared L) (amqp_send_method_inner u c (method_number m) m t) (\<lambda>_. prepared L)"
proof -
  have p: "preserves (norderly L) (amqp_send_method_inner u c (method_number m) m t) (\<lambda>_. True)"
    unfolding amqp_send_method_inner_def by (intro preserves_intros)
  have "method_sendable m (conn w)" if "prepared L w" for w
    using that assms by (auto simp: prepared_def norderly_def orderly_def limits_def method_sendable_def)
  then show ?thesis
    by (intro usound_conseq [OF usound_step [where F = "method_sendable m", OF nsound_send_method p]]) auto
qed

definition opened :: "int \<times> int \<times> int \<times> nat \<Rightarrow> amqp_rpc_reply_t \<Rightarrow> net \<Rightarrow> bool" where
  "opened L r w \<longleftrightarrow> intact w \<and> (reply_type r = AMQP_RESPONSE_NORMAL \<longrightarrow> prepared L w)"

lemma usound_open_host:
  assumes "terminated vhost" and "length (cstr vhost) < 256" and "20 \<le> snd (snd (snd L))"
  shows "usound (prepared L) (open_host u vhost t) (opened L)"
proof -
  let ?m = "amqp_connection_open_t (cstr vhost) [] True"
  let ?rpc = "simple_rpc_inner u 0 AMQP_CONNECTION_OPEN_METHOD [AMQP_CONNECTION_OPEN_OK_METHOD, 0] ?m t"
  have m: "wf_method ?m" "length (ser_method ?m) + 12 \<le> INT32_MAX" using assms(2) by (simp_all add: INT32_MAX_def ser_shortstr_def ser_bits_def)
  have rpc: "usound (prepared L) ?rpc (opened L)"
    unfolding usound_def
  proof (intro allI impI)
    fix w
    assume w: "prepared L w"
    then have s: "net_at (pending w) (length (sends w)) w \<and> method_sendable ?m (conn w)"
      using m assms(3) by (auto simp: prepared_def net_inv_at norderly_def orderly_def limits_def method_sendable_def)
    obtain r w' where run: "?rpc w = (r, w')" by (rule prod.exhaust)
    note p = preservesD [OF preserves_simple_rpc(1) run]
    from nsoundD [OF nsound_simple_rpc s] run have "nsettles (replied (pending w) (length (sends w))) (r, w')"
      by (metis method_number.simps(7))
    with run w p(1) [of L] show "usettles (opened L) (?rpc w)"
      by (cases r) (auto simp: usettles_def opened_def replied_def prepared_def intro: net_at_inv)
  qed
  have finish: "usound (prepared L) (bindP (on_conn amqp_maybe_release_buffers) (\<lambda>_. ret x)) (opened L)" for x
    by (rule usound_bind [OF usound_maybe_release])
      (auto simp: usound_def usettles_def ret_def opened_def prepared_def intact_def net_inv_def io_inv_memory)
  have "usound (opened L result) (if reply_type result \<noteq> AMQP_RESPONSE_NORMAL then ret result
      else bindP (on_conn amqp_maybe_release_buffers) (\<lambda>_. ret x)) (opened L)" for result x
    using finish by (auto simp: usound_def usettles_def ret_def opened_def)
  from usound_bind [OF rpc this] show ?thesis unfolding open_host_def
    by (rule usound_bind [where R = "\<lambda>_. prepared L", rotated]) (use assms(1) in \<open>simp add: usound_def usettles_def ret_def\<close>)
qed

text \<open>After the negotiation of a frame size without room for the answers nothing is claimed.\<close>

definition fsettles :: "('a \<Rightarrow> net \<Rightarrow> bool) \<Rightarrow> 'a outcome \<times> net \<Rightarrow> bool" where
  "fsettles Q x \<longleftrightarrow> frame_max (conn (snd x)) < 20 \<or> usettles Q x"

lemma fsettles_bind:
  assumes "usettles R (m w)" and "\<And>x w'. R x w' \<Longrightarrow> fsettles Q (k x w')"
  shows "fsettles Q (bindP m k w)"
  using assms by (cases "m w"; cases "fst (m w)") (auto simp: usettles_def fsettles_def bindP_def)

lemma fsettles_sound: "usound P m R \<Longrightarrow> P w \<Longrightarrow> (\<And>x w'. R x w' \<Longrightarrow> fsettles Q (k x w')) \<Longrightarrow> fsettles Q (bindP m k w)"
  by (rule fsettles_bind [OF usoundD])

definition negotiated :: "uint16 \<Rightarrow> uint32 \<Rightarrow> uint16 \<Rightarrow> int \<times> int \<times> int \<times> nat \<Rightarrow> bool" where
  "negotiated cm fm hb L \<longleftrightarrow> (\<exists>sc sf sh. L = (uint (negotiate_channel_max sc cm), uint (negotiate_frame_max sf fm),
     uint (negotiate_heartbeat sh hb), nat (uint (negotiate_frame_max sf fm))))"

definition logged_in :: "uint16 \<Rightarrow> uint32 \<Rightarrow> uint16 \<Rightarrow> amqp_rpc_reply_t \<Rightarrow> net \<Rightarrow> bool" where
  "logged_in cm fm hb r w \<longleftrightarrow> intact w \<and>
     (reply_type r = AMQP_RESPONSE_NORMAL \<longrightarrow> net_inv w \<and> negotiated cm fm hb (limits (conn w)))"

lemma tune_and_open_settles:
  assumes w: "prepared L w" and decoded: "method_number decoded = AMQP_CONNECTION_TUNE_METHOD"
    and vhost: "terminated vhost" "length (cstr vhost) < 256" and fm: "uint fm < 2 ^ 31"
  shows "fsettles (logged_in cm fm hb) (bindP (tune_and_confirm u cm fm hb decoded t) (\<lambda>_.
    bindP (on_conn amqp_release_buffers) (\<lambda>_. open_host u vhost t)) w)"
proof -
  from method_number_inv(2) [OF decoded] obtain sc sf sh where d: "decoded = amqp_connection_tune_t sc sf sh" by blast
  let ?c = "negotiate_channel_max sc cm" and ?f = "negotiate_frame_max sf fm" and ?h = "negotiate_heartbeat sh hb"
  let ?L = "(uint ?c, uint ?f, uint ?h, nat (uint ?f))"
  let ?ok = "amqp_connection_tune_ok_t ?c ?f ?h"
  let ?send = "amqp_send_method_inner u 0 (method_number ?ok) ?ok t"
  let ?rest = "bindP ?send (\<lambda>_. bindP (on_conn amqp_release_buffers) (\<lambda>_. open_host u vhost t))"
  have "uint ?f \<le> uint fm" by (auto simp: negotiate_frame_max_def word_less_def)
  with fm have f: "uint ?f < 2 ^ 31" by simp
  have eq: "bindP (tune_and_confirm u cm fm hb decoded t) (\<lambda>_. bindP (on_conn amqp_release_buffers) (\<lambda>_. open_host u vhost t)) =
      bindP (on_conn (amqp_tune_connection u (uint ?c) (uint ?f) (uint ?h))) (\<lambda>_. ?rest)"
    by (simp add: d tune_and_confirm_def Let_def bindP_assoc)
  have "fsettles (logged_in cm fm hb) (?rest w')" if tuned: "tuned ?L w'" for w'
  proof (cases "20 \<le> uint ?f")
    case True
    then have room: "20 \<le> snd (snd (snd ?L))" by (simp add: nat_le_iff le_nat_iff del: nat_uint_eq)
    with tuned have r: "prepared ?L w'" by (simp add: tuned_def prepared_def del: nat_uint_eq)
    have send: "usound (prepared ?L) ?send (\<lambda>_. prepared ?L)"
      by (rule usound_send_method [OF _ _ room]) (simp_all add: INT32_MAX_def)
    have "usound (prepared ?L) ?rest (opened ?L)"
      by (rule usound_bind [OF send usound_bind [OF usound_release usound_open_host [OF vhost room]]])
    from usettles_mono [OF usoundD [OF this r], of "logged_in cm fm hb"] show ?thesis
      unfolding fsettles_def by (auto simp: opened_def logged_in_def prepared_def norderly_def orderly_def negotiated_def)
  next
    case False
    obtain r w2 where run: "?rest w' = (r, w2)" by (rule prod.exhaust)
    have release: "preserves (orderly L) amqp_release_buffers (\<lambda>_. True)" "preserves (orderly L) amqp_maybe_release_buffers (\<lambda>_. True)" for L
    proof -
      have "orderly L (fold amqp_maybe_release_buffers_on_channel cs st) = orderly L st" for cs st
        by (induction cs arbitrary: st)
          (auto simp: amqp_maybe_release_buffers_on_channel_def orderly_def limits_def split: option.splits prod.splits)
      then show "preserves (orderly L) amqp_release_buffers (\<lambda>_. True)" "preserves (orderly L) amqp_maybe_release_buffers (\<lambda>_. True)"
        by (auto simp: preserves_def amqp_release_buffers_def amqp_maybe_release_buffers_def)
    qed
    have "preserves (norderly ?L) ?rest (\<lambda>_. True)"
      unfolding open_host_def amqp_send_method_inner_def
      by (intro preserves_intros release preserves_weaken [OF preserves_simple_rpc(1)]) simp_all
    from preservesD(1) [OF this run] tuned have "norderly ?L w2" by (simp add: tuned_def)
    with False run show ?thesis by (simp add: fsettles_def norderly_def orderly_def limits_def)
  qed
  then show ?thesis unfolding eq by (rule fsettles_sound [OF usound_tune [OF f] w])
qed

lemma usound_header: "usound (prepared L) (send_header_inner t) (\<lambda>x w. prepared L w \<and> True)"
proof (rule usound_step_plain)
  show "nsound (net_at a b) (send_header_inner t) (\<lambda>_. net_at a b)" for a b
    unfolding send_header_inner_def Let_def
    by (rule nsound_bind [OF nsound_amqp_try_send]) (auto intro!: nsound_if nsound_ret nsound_throw intro: net_memory)
  show "preserves (norderly L) (send_header_inner t) (\<lambda>_. True)"
    unfolding send_header_inner_def Let_def by (auto intro!: preserves_intros)
qed

lemma usound_wait: "usound (prepared L) (amqp_simple_wait_method_list u c ids t) (\<lambda>x w. prepared L w \<and> has_type ids x)"
  by (rule usound_step_plain [OF nsound_wait_method preserves_wait_method])

lemma usound_time: "usound (prepared L) (time_from_now timeout) (\<lambda>x w. prepared L w \<and> True)"
  by (rule usound_step_plain [OF nsound_time_from_now preserves_time(1)])

lemma handshake_settles:
  assumes w: "prepared L w" and room: "20 \<le> snd (snd (snd L))"
    and sasl: "sasl_method_name sasl = Ok name" "credentials sasl vl" and add: "tidy add"
    and ok: "wf_method (start_ok platform add sasl name vl)" "length (ser_method (start_ok platform add sasl name vl)) + 12 \<le> INT32_MAX"
    and vhost: "terminated vhost" "length (cstr vhost) < 256" and fm: "uint fm < 2 ^ 31"
  shows "fsettles (logged_in cm fm hb) (handshake u platform vhost cm fm hb (Some add) timeout sasl vl w)"
  unfolding handshake_def
proof (rule fsettles_sound [OF usound_time w], elim conjE, rule fsettles_sound [OF usound_header], assumption,
    elim conjE, unfold simple_wait_method_inner_def, rule fsettles_sound [OF usound_wait], assumption)
  fix t x2 w2
  assume "prepared L w2 \<and> has_type [AMQP_CONNECTION_START_METHOD, 0] x2"
  then obtain decoded where x2: "x2 = (AMQP_CONNECTION_START_METHOD, decoded)" "method_number decoded = AMQP_CONNECTION_START_METHOD"
    and w2: "prepared L w2"
    by (cases x2) (auto simp: has_type_def split: if_splits)
  have start: "usound (prepared L) (on_conn (accept_start sasl decoded)) (\<lambda>_ w. prepared L w \<and> True)"
    by (rule usound_frame) (use accept_start_frame [OF _ _ sasl(1) x2(2)] in blast)
  have make: "usound (prepared L) (on_conn (make_start_ok platform (Some add) sasl vl)) (\<lambda>m w. prepared L w \<and> m = start_ok platform add sasl name vl)"
    by (rule usound_frame) (rule make_start_ok_frame [OF _ _ sasl add])
  have number: "method_number (start_ok platform add sasl name vl) = AMQP_CONNECTION_START_OK_METHOD" by (simp add: start_ok_def)
  note send = usound_send_method [OF ok room, where u = u and c = 0 and t = t, unfolded number]
  let ?rest = "bindP (amqp_simple_wait_method_list u 0 [AMQP_CONNECTION_TUNE_METHOD, AMQP_CONNECTION_CLOSE_METHOD, 0] t) (\<lambda>(mid, decoded).
     if mid = AMQP_CONNECTION_CLOSE_METHOD then
       ret \<lparr>reply_type = AMQP_RESPONSE_SERVER_EXCEPTION, reply = Some (mid, decoded), library_error = AMQP_STATUS_OK\<rparr>
     else bindP (tune_and_confirm u cm fm hb decoded t) (\<lambda>_.
       bindP (on_conn amqp_release_buffers) (\<lambda>_. open_host u vhost t)))"
  have rest: "fsettles (logged_in cm fm hb) (?rest w3)" if "prepared L w3" for w3
  proof (rule fsettles_sound [OF usound_wait that])
    fix x w4
    assume x: "prepared L w4 \<and> has_type [AMQP_CONNECTION_TUNE_METHOD, AMQP_CONNECTION_CLOSE_METHOD, 0] x"
    obtain mid d where xd: "x = (mid, d)" by (rule prod.exhaust)
    have tune: "method_number d = AMQP_CONNECTION_TUNE_METHOD" if "mid \<noteq> AMQP_CONNECTION_CLOSE_METHOD"
      using x xd that by (auto simp: has_type_def split: if_splits)
    have "intact w4" using x by (simp add: prepared_def net_inv_def intact_def io_inv_memory)
    then show "fsettles (logged_in cm fm hb) ((case x of (mid, decoded) \<Rightarrow>
        if mid = AMQP_CONNECTION_CLOSE_METHOD then
          ret \<lparr>reply_type = AMQP_RESPONSE_SERVER_EXCEPTION, reply = Some (mid, decoded), library_error = AMQP_STATUS_OK\<rparr>
        else bindP (tune_and_confirm u cm fm hb decoded t) (\<lambda>_. bindP (on_conn amqp_release_buffers) (\<lambda>_. open_host u vhost t))) w4)"
      using tune_and_open_settles [OF _ tune vhost fm, of L w4 cm hb u t] x xd
      by (auto simp: fsettles_def usettles_def ret_def logged_in_def)
  qed
  show "fsettles (logged_in cm fm hb) ((case x2 of (_, decoded) \<Rightarrow>
      bindP (on_conn (accept_start sasl decoded)) (\<lambda>_.
      bindP (on_conn (make_start_ok platform (Some add) sasl vl)) (\<lambda>start_ok.
      bindP (amqp_send_method_inner u 0 AMQP_CONNECTION_START_OK_METHOD start_ok t) (\<lambda>_.
      bindP (on_conn amqp_release_buffers) (\<lambda>_. ?rest))))) w2)"
    unfolding x2(1) prod.case
    by (rule fsettles_sound [OF start w2], elim conjE, rule fsettles_sound [OF make], assumption, elim conjE, simp only:,
        rule fsettles_sound [OF send], assumption, rule fsettles_sound [OF usound_release], assumption, rule rest)
qed

text \<open>
  C9: A login with valid arguments comes to an end, whatever the server does. It returns a reply; if the reply
  is normal, the connection is valid and its limits are the negotiated ones, and otherwise its memory is
  intact. Undefined behaviour is left at a malformed frame, at the release of buffers in the middle of a
  frame, and after the negotiation of frames of less than 20 bytes.
\<close>

theorem amqp_login_settles:
  assumes "net_inv w" and "list_all typed (first_queued_frame (conn w))" and "20 \<le> outbound_len (conn w)"
    and "sasl_method_name sasl = Ok name" and "credentials sasl vl" and "tidy add"
    and "wf_method (start_ok platform add sasl name vl)" and "length (ser_method (start_ok platform add sasl name vl)) + 12 \<le> INT32_MAX"
    and "terminated vhost" and "length (cstr vhost) < 256" and "fm < 2 ^ 31"
  shows "case amqp_login_inner u platform vhost cm fm hb (Some add) timeout sasl vl w of (r, w') \<Rightarrow>
      frame_max (conn w') < 20 \<or>
      (case r of
         Ok rep \<Rightarrow> intact w' \<and> (reply_type rep = AMQP_RESPONSE_NORMAL \<longrightarrow>
           net_inv w' \<and> negotiated (of_int cm) (of_int fm) (of_int hb) (limits (conn w')))
       | Err e \<Rightarrow> False
       | Undefined \<Rightarrow> malformed (raw_frame (conn w')) \<or> conn_state (conn w') \<noteq> CONNECTION_STATE_IDLE
       | OutOfFuel \<Rightarrow> waits w')"
proof (cases "cm < 0 \<or> cm > UINT16_MAX \<or> fm < 0 \<or> hb < 0 \<or> hb > UINT16_MAX")
  case True
  have "intact w" using assms(1) by (simp add: net_inv_def intact_def io_inv_memory)
  then show ?thesis using True by (auto simp: amqp_login_inner_def ret_def amqp_rpc_reply_error_def)
next
  case False
  let ?h = "handshake u platform vhost (of_int cm) (of_int fm) (of_int hb) (Some add) timeout sasl vl"
  have w: "prepared (limits (conn w)) w" using assms(1,2) by (simp add: prepared_def norderly_def orderly_def)
  have "take_bit 32 fm = fm" using assms(11) False by (intro take_bit_int_eq_self) auto
  then have fm: "uint (of_int fm :: uint32) < 2 ^ 31" using assms(11) by (simp add: uint_word_of_int_eq)
  obtain r w' where run: "?h w = (r, w')" by (rule prod.exhaust)
  have login: "amqp_login_inner u platform vhost cm fm hb (Some add) timeout sasl vl =
      on_status ?h (\<lambda>res. bindP amqp_tcp_socket_close (\<lambda>_. ret (amqp_rpc_reply_error res)))"
    using False by (simp add: amqp_login_inner_def)
  have "fsettles (logged_in (of_int cm) (of_int fm) (of_int hb)) (r, w')"
    using handshake_settles [OF w _ assms(4-10) fm, of "of_int cm" "of_int hb" u timeout] assms(3) run
    by (simp add: limits_def)
  then show ?thesis
    unfolding login on_status_def run
    by (cases r) (auto simp: fsettles_def usettles_def logged_in_def bindP_def ret_def amqp_tcp_socket_close_def
        amqp_rpc_reply_error_def intact_def split: option.splits list.splits bool.splits)
qed

definition tune_ok_frame :: "uint16 \<Rightarrow> uint32 \<Rightarrow> uint16 \<Rightarrow> amqp_frame_t" where
  "tune_ok_frame c f h = \<lparr>frame_type = FRAME_METHOD, frame_channel = 0,
     payload = Method AMQP_CONNECTION_TUNE_OK_METHOD (amqp_connection_tune_ok_t c f h)\<rparr>"

text \<open>
  C37: The limits both sides work with after a \<^verbatim>\<open>connection.tune\<close> are the same: each is the smaller one of the two limits, where 0 of the server, and 0 of the client for the
  number of channels, stands for no limit. When the answer succeeds, these are the limits of the connection, its outbound buffer has room
  for a frame of that size, and what the server was sent is exactly the encoding of a \<^verbatim>\<open>connection.tune-ok\<close> that names them. When it fails, a prefix
  of that encoding was sent.
\<close>

theorem tune_and_confirm_agrees:
  assumes "net_inv w" and "list_all typed (first_queued_frame (conn w))" and "conn_state (conn w) = CONNECTION_STATE_IDLE"
    and "C = min (limit sc) (limit cc)" and "F = min (limit sf) cf" and "H = min (limit sh) ch"
    and "20 \<le> unat F" and "unat F < 2 ^ 31"
  shows "case tune_and_confirm u cc cf ch (amqp_connection_tune_t sc sf sh) deadline w of
      (Ok _, w') \<Rightarrow> net_inv w' \<and> channel_max (conn w') = uint C \<and> frame_max (conn w') = uint F \<and> heartbeat (conn w') = uint H
        \<and> length (outbound_mem (conn w')) = unat F \<and> wire w' = wire w @ ser_frame (tune_ok_frame C F H)
    | (Err e, w') \<Rightarrow> intact w' \<and> (\<exists>k. wire w' = wire w @ take k (ser_frame (tune_ok_frame C F H)))
    | (Undefined, w') \<Rightarrow> malformed (raw_frame (conn w'))
    | (OutOfFuel, w') \<Rightarrow> waits w'"
proof -
  let ?L = "(uint C, uint F, uint H, nat (uint F))" and ?f = "tune_ok_frame C F H"
  let ?tune = "on_conn (amqp_tune_connection u (uint C) (uint F) (uint H))" and ?send = "amqp_send_frame_inner u ?f deadline"
  have run: "tune_and_confirm u cc cf ch (amqp_connection_tune_t sc sf sh) deadline = bindP ?tune (\<lambda>_. ?send)"
    by (simp add: tune_and_confirm_def negotiated_minimum Let_def amqp_send_method_inner_def tune_ok_frame_def flip: assms(4-6))
  have f: "uint F < 2 ^ 31" "uint H < 2 ^ 30" using assms(8) uint_lt2p [of H] by (simp_all add: unat_eq_nat_uint nat_less_iff del: nat_uint_eq)
  have w: "prepared (limits (conn w)) w" using assms(1,2) by (simp add: prepared_def norderly_def orderly_def)
  have m: "memory_inv (conn w)" using assms(1) by (simp add: net_inv_def io_inv_memory)
  obtain r st where t: "amqp_tune_connection u (uint C) (uint F) (uint H) (conn w) = (r, st)" by (rule prod.exhaust)
  let ?w = "w\<lparr>conn := st\<rparr>"
  from t have tune: "?tune w = (r, ?w)" by (simp add: on_conn_def)
  from tune_cases [OF m assms(3) uint_ge_0 f, where u = u and cm = "uint C"] t have c: "r \<noteq> Undefined" "r \<noteq> OutOfFuel" by (cases r; simp)+
  from usoundD [OF usound_tune [OF f(1), where u = u and cm = C and hb = H] w] tune have s: "usettles (\<lambda>_. tuned ?L) (r, ?w)" by simp
  show ?thesis
  proof (cases r)
    case (Err e)
    with s tune have "intact ?w" by (simp add: usettles_def)
    then show ?thesis using Err tune by (auto simp: run bindP_def intro: exI [of _ 0])
  next
    case (Ok x)
    have inv: "net_inv ?w" "norderly ?L ?w" using s Ok assms(7) by (simp_all add: usettles_def tuned_def)
    then have io: "io_inv st" and snd: "sendable ?f st"
      using assms(7) by (auto simp: net_inv_def sendable_def norderly_def orderly_def limits_def tune_ok_frame_def wf_frame_def INT32_MAX_def)
    obtain r' w' where send: "?send ?w = (r', w')" by (rule prod.exhaust)
    from puts_send_frame [OF _ _ send] io snd obtain k where k: "wire w' = wire w @ take k (ser_frame ?f)" "r' = Ok () \<longrightarrow> k = length (ser_frame ?f)" by auto
    have "net_at (pending ?w) (length (sends ?w)) ?w \<and> sendable ?f (conn ?w)" using inv(1) snd by (simp add: net_inv_at)
    from nsoundD [OF nsound_send_frame this, of u deadline] send
    have n: "nsettles (\<lambda>_. net_at (pending ?w) (length (sends ?w))) (r', w')" by simp
    from preservesD(1) [OF preserves_send_frame(1) send inv(2)]
    have l: "limits (conn w') = ?L" by (simp add: norderly_def orderly_def)
    have "tune_and_confirm u cc cf ch (amqp_connection_tune_t sc sf sh) deadline w = (r', w')" using Ok tune send by (simp add: run bindP_def)
    then show ?thesis using n k l
      by (cases r') (auto simp: limits_def net_inv_def io_inv_def conn_inv_def memory_inv_def dest!: net_at_inv)
  qed (use c in simp_all)
qed

text \<open>
  The negotiated size of a frame is also the size of the outbound buffer. The server may set it to less
  than the head of a method frame, and the answer to it is then written behind the buffer.
\<close>

theorem small_frame_overflows:
  assumes "frame_type f = FRAME_METHOD" and "length (outbound_mem (conn w)) < 11"
  shows "amqp_send_frame_inner u f t w = (Undefined, w)"
proof -
  have "amqp_frame_to_bytes f n mem = Undefined" if "length mem < 11" for n mem
    using that assms(1)
    by (auto simp: amqp_frame_to_bytes_def frame_payload_def store_def mem_write_def amqp_e_ser split: amqp_payload_t.splits)
  then show ?thesis using assms(2) by (simp add: amqp_send_frame_inner_def bindP_def on_conn_def encode_frame_def)
qed

text \<open>When no byte of the protocol header could be sent in time, this is reported as success.\<close>

theorem unsent_header_succeeds:
  assumes "amqp_try_send header t w = (Ok 0, w')"
  shows "send_header_inner t w = (Ok (), w')"
proof -
  have "status_of_code 0 = AMQP_STATUS_OK" by code_simp
  then show ?thesis using assms by (simp add: send_header_inner_def bindP_def ret_def header_def Let_def)
qed

text \<open>A login as guest.\<close>

definition sample_login :: "byte list list" where
  "sample_login = [ascii ''guest'' @ [0], ascii ''guest'' @ [0]]"

lemma sample_start_ok:
  "wf_method (start_ok (ascii ''Linux'') [] AMQP_SASL_METHOD_PLAIN (ascii ''PLAIN'') sample_login)"
  "length (ser_method (start_ok (ascii ''Linux'') [] AMQP_SASL_METHOD_PLAIN (ascii ''PLAIN'') sample_login)) + 12 \<le> INT32_MAX"
  by (simp_all add: start_ok_def default_table_def client_capabilities_table_def wf_table_def sample_login_def ser_table_def INT32_MAX_def
      amqp_table_construct_utf8_entry_def amqp_table_construct_table_entry_def amqp_table_construct_bool_entry_def
      AMQP_VERSION_STRING_def AMQ_COPYRIGHT_def cstr_def ascii_def ser_shortstr_def ser_longstr_def)

theorem amqp_login_settles_witness:
  "case amqp_login_inner sample_memory (ascii ''Linux'') [0x2F, 0] 0 131072 60 (Some []) None AMQP_SASL_METHOD_PLAIN sample_login
      (sample_net [Recv_bytes [1, 0, 0]] [Send_accepts 8] []) of (r, w') \<Rightarrow>
      frame_max (conn w') < 20 \<or>
      (case r of
         Ok rep \<Rightarrow> intact w' \<and> (reply_type rep = AMQP_RESPONSE_NORMAL \<longrightarrow>
           net_inv w' \<and> negotiated (of_int 0) (of_int 131072) (of_int 60) (limits (conn w')))
       | Err e \<Rightarrow> False
       | Undefined \<Rightarrow> malformed (raw_frame (conn w')) \<or> conn_state (conn w') \<noteq> CONNECTION_STATE_IDLE
       | OutOfFuel \<Rightarrow> waits w')"
proof (rule amqp_login_settles [OF sample_net_inv _ _ _ _ _ sample_start_ok])
  have "cstr [0x2F, 0] = [0x2F]" by (simp add: cstr_def)
  then show "length (cstr [0x2F, 0]) < 256" by simp
qed (simp_all add: sample_net_sel first_connection sasl_method_name_def sample_login_def terminated_def)

definition sample_tuning :: net where
  "sample_tuning = (sample_net [] [Send_accepts 5, Send_interrupted, Send_accepts 100] [])
     \<lparr>conn := return_to_idle (first_connection sample_memory)\<rparr>"

lemma sample_tuning_inv: "net_inv sample_tuning"
proof -
  have "conn_inv (return_to_idle (first_connection sample_memory))" by (rule return_to_idle_inv [OF first_connection(1)])
  then have "io_inv (return_to_idle (first_connection sample_memory))"
    by (rule io_inv_same [OF first_connection_io]) (simp add: same_io_def return_to_idle_def)
  then show ?thesis by (simp add: net_inv_def sample_tuning_def sample_net_def)
qed

theorem tune_and_confirm_agrees_witness:
  "case tune_and_confirm sample_memory 0 131072 60 (amqp_connection_tune_t 2047 0 30) amqp_time_infinite sample_tuning of
      (Ok _, w') \<Rightarrow> net_inv w' \<and> channel_max (conn w') = 2047 \<and> frame_max (conn w') = 131072 \<and> heartbeat (conn w') = 30
        \<and> length (outbound_mem (conn w')) = 131072 \<and> wire w' = ser_frame (tune_ok_frame 2047 131072 30)
    | (Err e, w') \<Rightarrow> intact w' \<and> (\<exists>k. wire w' = take k (ser_frame (tune_ok_frame 2047 131072 30)))
    | (Undefined, w') \<Rightarrow> malformed (raw_frame (conn w'))
    | (OutOfFuel, w') \<Rightarrow> waits w'"
proof -
  have "list_all typed (first_queued_frame (conn sample_tuning))" "conn_state (conn sample_tuning) = CONNECTION_STATE_IDLE" "wire sample_tuning = []"
    by (simp_all add: sample_tuning_def sample_net_def return_to_idle_def first_connection)
  note s = this
  have "(2047 :: uint16) = min (limit 2047) (limit 0)" "(131072 :: uint32) = min (limit 0) 131072" "(30 :: uint16) = min (limit 30) 60"
    by code_simp+
  from tune_and_confirm_agrees [OF sample_tuning_inv s(1,2) this, of sample_memory amqp_time_infinite]
  show ?thesis by (auto simp: s(3) split: prod.splits outcome.splits)
qed

theorem small_frame_overflows_witness:
  "\<exists>w. amqp_send_frame_inner sample_memory \<lparr>frame_type = FRAME_METHOD, frame_channel = 1, payload = Method AMQP_TX_SELECT_METHOD amqp_tx_select_t\<rparr> amqp_time_infinite w = (Undefined, w)"
proof -
  let ?w = "(sample_net [] [] [])\<lparr>conn := (first_connection sample_memory)\<lparr>outbound_mem := replicate 10 0\<rparr>\<rparr>"
  show ?thesis by (rule exI [of _ ?w], rule small_frame_overflows) simp_all
qed

theorem unsent_header_succeeds_witness:
  "\<exists>w'. send_header_inner amqp_time_infinite (sample_net [] [Send_again] [Poll_timeout]) = (Ok (), w')"
proof -
  have "\<exists>w'. amqp_try_send header amqp_time_infinite (sample_net [] [Send_again] [Poll_timeout]) = (Ok 0, w')"
    by (simp add: amqp_try_send_def sample_net_def bindP_def amqp_tcp_socket_send_def do_poll_def amqp_get_sockfd_def amqp_poll_def
        time_left_ms_def amqp_time_infinite_def amqp_time_ms_until_def ret_def)
  then show ?thesis using unsent_header_succeeds by blast
qed
end
