(* ===== verification/Amqp_Api.thy ===== *)
theory Amqp_Api
  imports Amqp_Login_Safety
begin

text \<open>
  The calls of the library's interface: the synchronous methods at the end of librabbitmq/amqp\_framing.c,
  and librabbitmq/amqp\_api.c with the messages of the errors, the publishing of messages, closing,
  acknowledgements and timeouts.

  The structure of a request has the constructor of its type; fields that the code sets to the same
  value in every call are written out. The flags that let the system collect small packets
  (\<^verbatim>\<open>AMQP_SF_MORE\<close>) change no byte and are left out, as in the socket layer.
\<close>

section \<open>The synchronous methods\<close>

definition amqp_connection_update_secret :: "unspecified \<Rightarrow> amqp_channel_t \<Rightarrow> byte list \<Rightarrow> byte list \<Rightarrow> amqp_method_t option nprog" where
  "amqp_connection_update_secret u channel new_secret reason =
     amqp_simple_rpc_decoded u channel AMQP_CONNECTION_UPDATE_SECRET_METHOD AMQP_CONNECTION_UPDATE_SECRET_OK_METHOD (amqp_connection_update_secret_t new_secret reason)"

definition amqp_channel_open :: "unspecified \<Rightarrow> amqp_channel_t \<Rightarrow> amqp_method_t option nprog" where
  "amqp_channel_open u channel =
     amqp_simple_rpc_decoded u channel AMQP_CHANNEL_OPEN_METHOD AMQP_CHANNEL_OPEN_OK_METHOD (amqp_channel_open_t [])"

definition amqp_channel_flow :: "unspecified \<Rightarrow> amqp_channel_t \<Rightarrow> bool \<Rightarrow> amqp_method_t option nprog" where
  "amqp_channel_flow u channel active =
     amqp_simple_rpc_decoded u channel AMQP_CHANNEL_FLOW_METHOD AMQP_CHANNEL_FLOW_OK_METHOD (amqp_channel_flow_t active)"

definition amqp_exchange_declare :: "unspecified \<Rightarrow> amqp_channel_t \<Rightarrow> byte list \<Rightarrow> byte list \<Rightarrow> bool \<Rightarrow> bool \<Rightarrow> bool \<Rightarrow> bool \<Rightarrow> amqp_table_t \<Rightarrow> amqp_method_t option nprog" where
  "amqp_exchange_declare u channel exchange type passive durable auto_delete internal arguments =
     amqp_simple_rpc_decoded u channel AMQP_EXCHANGE_DECLARE_METHOD AMQP_EXCHANGE_DECLARE_OK_METHOD (amqp_exchange_declare_t 0 exchange type passive durable auto_delete internal False arguments)"

definition amqp_exchange_delete :: "unspecified \<Rightarrow> amqp_channel_t \<Rightarrow> byte list \<Rightarrow> bool \<Rightarrow> amqp_method_t option nprog" where
  "amqp_exchange_delete u channel exchange if_unused =
     amqp_simple_rpc_decoded u channel AMQP_EXCHANGE_DELETE_METHOD AMQP_EXCHANGE_DELETE_OK_METHOD (amqp_exchange_delete_t 0 exchange if_unused False)"

definition amqp_exchange_bind :: "unspecified \<Rightarrow> amqp_channel_t \<Rightarrow> byte list \<Rightarrow> byte list \<Rightarrow> byte list \<Rightarrow> amqp_table_t \<Rightarrow> amqp_method_t option nprog" where
  "amqp_exchange_bind u channel destination source routing_key arguments =
     amqp_simple_rpc_decoded u channel AMQP_EXCHANGE_BIND_METHOD AMQP_EXCHANGE_BIND_OK_METHOD (amqp_exchange_bind_t 0 destination source routing_key False arguments)"

definition amqp_exchange_unbind :: "unspecified \<Rightarrow> amqp_channel_t \<Rightarrow> byte list \<Rightarrow> byte list \<Rightarrow> byte list \<Rightarrow> amqp_table_t \<Rightarrow> amqp_method_t option nprog" where
  "amqp_exchange_unbind u channel destination source routing_key arguments =
     amqp_simple_rpc_decoded u channel AMQP_EXCHANGE_UNBIND_METHOD AMQP_EXCHANGE_UNBIND_OK_METHOD (amqp_exchange_unbind_t 0 destination source routing_key False arguments)"

definition amqp_queue_declare :: "unspecified \<Rightarrow> amqp_channel_t \<Rightarrow> byte list \<Rightarrow> bool \<Rightarrow> bool \<Rightarrow> bool \<Rightarrow> bool \<Rightarrow> amqp_table_t \<Rightarrow> amqp_method_t option nprog" where
  "amqp_queue_declare u channel queue passive durable exclusive auto_delete arguments =
     amqp_simple_rpc_decoded u channel AMQP_QUEUE_DECLARE_METHOD AMQP_QUEUE_DECLARE_OK_METHOD (amqp_queue_declare_t 0 queue passive durable exclusive auto_delete False arguments)"

definition amqp_queue_bind :: "unspecified \<Rightarrow> amqp_channel_t \<Rightarrow> byte list \<Rightarrow> byte list \<Rightarrow> byte list \<Rightarrow> amqp_table_t \<Rightarrow> amqp_method_t option nprog" where
  "amqp_queue_bind u channel queue exchange routing_key arguments =
     amqp_simple_rpc_decoded u channel AMQP_QUEUE_BIND_METHOD AMQP_QUEUE_BIND_OK_METHOD (amqp_queue_bind_t 0 queue exchange routing_key False arguments)"

definition amqp_queue_purge :: "unspecified \<Rightarrow> amqp_channel_t \<Rightarrow> byte list \<Rightarrow> amqp_method_t option nprog" where
  "amqp_queue_purge u channel queue =
     amqp_simple_rpc_decoded u channel AMQP_QUEUE_PURGE_METHOD AMQP_QUEUE_PURGE_OK_METHOD (amqp_queue_purge_t 0 queue False)"

definition amqp_queue_delete :: "unspecified \<Rightarrow> amqp_channel_t \<Rightarrow> byte list \<Rightarrow> bool \<Rightarrow> bool \<Rightarrow> amqp_method_t option nprog" where
  "amqp_queue_delete u channel queue if_unused if_empty =
     amqp_simple_rpc_decoded u channel AMQP_QUEUE_DELETE_METHOD AMQP_QUEUE_DELETE_OK_METHOD (amqp_queue_delete_t 0 queue if_unused if_empty False)"

definition amqp_queue_unbind :: "unspecified \<Rightarrow> amqp_channel_t \<Rightarrow> byte list \<Rightarrow> byte list \<Rightarrow> byte list \<Rightarrow> amqp_table_t \<Rightarrow> amqp_method_t option nprog" where
  "amqp_queue_unbind u channel queue exchange routing_key arguments =
     amqp_simple_rpc_decoded u channel AMQP_QUEUE_UNBIND_METHOD AMQP_QUEUE_UNBIND_OK_METHOD (amqp_queue_unbind_t 0 queue exchange routing_key arguments)"

definition amqp_basic_qos :: "unspecified \<Rightarrow> amqp_channel_t \<Rightarrow> uint32 \<Rightarrow> uint16 \<Rightarrow> bool \<Rightarrow> amqp_method_t option nprog" where
  "amqp_basic_qos u channel prefetch_size prefetch_count global =
     amqp_simple_rpc_decoded u channel AMQP_BASIC_QOS_METHOD AMQP_BASIC_QOS_OK_METHOD (amqp_basic_qos_t prefetch_size prefetch_count global)"

definition amqp_basic_consume :: "unspecified \<Rightarrow> amqp_channel_t \<Rightarrow> byte list \<Rightarrow> byte list \<Rightarrow> bool \<Rightarrow> bool \<Rightarrow> bool \<Rightarrow> amqp_table_t \<Rightarrow> amqp_method_t option nprog" where
  "amqp_basic_consume u channel queue consumer_tag no_local no_ack exclusive arguments =
     amqp_simple_rpc_decoded u channel AMQP_BASIC_CONSUME_METHOD AMQP_BASIC_CONSUME_OK_METHOD (amqp_basic_consume_t 0 queue consumer_tag no_local no_ack exclusive False arguments)"

definition amqp_basic_cancel :: "unspecified \<Rightarrow> amqp_channel_t \<Rightarrow> byte list \<Rightarrow> amqp_method_t option nprog" where
  "amqp_basic_cancel u channel consumer_tag =
     amqp_simple_rpc_decoded u channel AMQP_BASIC_CANCEL_METHOD AMQP_BASIC_CANCEL_OK_METHOD (amqp_basic_cancel_t consumer_tag False)"

definition amqp_basic_recover :: "unspecified \<Rightarrow> amqp_channel_t \<Rightarrow> bool \<Rightarrow> amqp_method_t option nprog" where
  "amqp_basic_recover u channel requeue =
     amqp_simple_rpc_decoded u channel AMQP_BASIC_RECOVER_METHOD AMQP_BASIC_RECOVER_OK_METHOD (amqp_basic_recover_t requeue)"

definition amqp_tx_select :: "unspecified \<Rightarrow> amqp_channel_t \<Rightarrow> amqp_method_t option nprog" where
  "amqp_tx_select u channel =
     amqp_simple_rpc_decoded u channel AMQP_TX_SELECT_METHOD AMQP_TX_SELECT_OK_METHOD amqp_tx_select_t"

definition amqp_tx_commit :: "unspecified \<Rightarrow> amqp_channel_t \<Rightarrow> amqp_method_t option nprog" where
  "amqp_tx_commit u channel =
     amqp_simple_rpc_decoded u channel AMQP_TX_COMMIT_METHOD AMQP_TX_COMMIT_OK_METHOD amqp_tx_commit_t"

definition amqp_tx_rollback :: "unspecified \<Rightarrow> amqp_channel_t \<Rightarrow> amqp_method_t option nprog" where
  "amqp_tx_rollback u channel =
     amqp_simple_rpc_decoded u channel AMQP_TX_ROLLBACK_METHOD AMQP_TX_ROLLBACK_OK_METHOD amqp_tx_rollback_t"

definition amqp_confirm_select :: "unspecified \<Rightarrow> amqp_channel_t \<Rightarrow> amqp_method_t option nprog" where
  "amqp_confirm_select u channel =
     amqp_simple_rpc_decoded u channel AMQP_CONFIRM_SELECT_METHOD AMQP_CONFIRM_SELECT_OK_METHOD (amqp_confirm_select_t False)"

section \<open>The messages of the errors\<close>

definition ERROR_MASK :: int where "ERROR_MASK = 0x00FF"
definition ERROR_CATEGORY_MASK :: int where "ERROR_CATEGORY_MASK = 0xFF00"

definition base_error_strings :: "string list" where
  "base_error_strings =
     [''operation completed successfully'', ''could not allocate memory'', ''invalid AMQP data'',
      ''unknown AMQP class id'', ''unknown AMQP method id'', ''hostname lookup failed'',
      ''incompatible AMQP version'', ''connection closed unexpectedly'', ''could not parse AMQP URL'',
      ''a socket error occurred'', ''invalid parameter'', ''table too large for buffer'',
      ''unexpected method received'', ''request timed out'', ''system timer has failed'',
      ''heartbeat timeout, connection closed'', ''unexpected protocol state'', ''socket is closed'',
      ''socket already open'', ''unsupported sasl method requested'', ''parameter value is unsupported'']"

definition tcp_error_strings :: "string list" where
  "tcp_error_strings = [''a socket error occurred'', ''socket library initialization failed'']"

definition ssl_error_strings :: "string list" where
  "ssl_error_strings =
     [''a SSL error occurred'', ''SSL hostname verification failed'', ''SSL peer cert verification failed'',
      ''SSL handshake failed'', ''SSL setting engine failed'']"

definition unknown_error_string :: string where "unknown_error_string = ''(unknown error)''"

definition pick_string :: "string list \<Rightarrow> nat \<Rightarrow> string" where
  "pick_string strings error = (if error < length strings then strings ! error else unknown_error_string)"

text \<open>The least number has no negation.\<close>

definition amqp_error_string2 :: "int \<Rightarrow> string outcome" where
  "amqp_error_string2 code =
     (if code = - (2 ^ 31) then Undefined
      else
        let category = nat (drop_bit 8 ((- code) AND ERROR_CATEGORY_MASK));
            error = nat ((- code) AND ERROR_MASK)
        in Ok (if category = 0 then pick_string base_error_strings error
               else if category = 1 then pick_string tcp_error_strings error
               else if category = 2 then pick_string ssl_error_strings error
               else unknown_error_string))"

text \<open>The copy made by \<^verbatim>\<open>strdup\<close>, or a null pointer.\<close>

definition amqp_error_string :: "int \<Rightarrow> heap \<Rightarrow> (nat \<times> string) option outcome \<times> heap" where
  "amqp_error_string code h = (case amqp_error_string2 (if code > 0 then - code else code) of
       Ok s \<Rightarrow> (case heap_malloc (length s + 1) h of (p, h') \<Rightarrow> (Ok (map_option (\<lambda>a. (a, s)) p), h'))
     | Err e \<Rightarrow> (Err e, h) | Undefined \<Rightarrow> (Undefined, h) | OutOfFuel \<Rightarrow> (OutOfFuel, h))"

section \<open>Publishing\<close>

definition AMQP_BASIC_CLASS :: uint16 where "AMQP_BASIC_CLASS = 0x003C"

definition default_properties :: amqp_basic_properties_t where
  "default_properties = \<lparr>flags = 0, content_type = [], content_encoding = [], headers = [],
     delivery_mode = 0, priority = 0, correlation_id = [], reply_to = [], expiration = [],
     message_id = [], timestamp = 0, message_type = [], user_id = [], app_id = [], cluster_id = []\<rparr>"

text \<open>The check of the heartbeats before a publication.\<close>

definition check_heartbeat :: "unspecified \<Rightarrow> unit nprog" where
  "check_heartbeat u =
     bindP (on_conn (has_past next_recv_heartbeat)) (\<lambda>res.
     if res = AMQP_STATUS_TIMER_FAILURE then throw res
     else if res = AMQP_STATUS_TIMEOUT then
       on_status (amqp_try_recv u) (\<lambda>e.
         if e = AMQP_STATUS_TIMEOUT then throw AMQP_STATUS_HEARTBEAT_TIMEOUT else throw e)
     else ret ())"

definition fragment_frame :: "amqp_channel_t \<Rightarrow> byte list \<Rightarrow> amqp_frame_t" where
  "fragment_frame channel fragment = \<lparr>frame_type = FRAME_BODY, frame_channel = channel, payload = Body_fragment fragment\<rparr>"

text \<open>
  The loop over the body. A fragment of no bytes leaves the body as it is; each frame needs at least one
  result of \<^verbatim>\<open>send\<close>, so the fuel covers these rounds, too.
\<close>

fun publish_body :: "unspecified \<Rightarrow> nat \<Rightarrow> amqp_channel_t \<Rightarrow> nat \<Rightarrow> byte list \<Rightarrow> unit nprog" where
  "publish_body u 0 channel usable_body_payload_size left = still_waiting"
| "publish_body u (Suc fuel) channel usable_body_payload_size left =
     (if left = [] then ret ()
      else
        let remaining = length left;
            n = (if remaining \<ge> usable_body_payload_size then usable_body_payload_size else remaining)
        in bindP (amqp_send_frame_inner u (fragment_frame channel (take n left)) amqp_time_infinite) (\<lambda>_.
           publish_body u fuel channel usable_body_payload_size (drop n left)))"

text \<open>The size of the largest fragment is computed as a \<^verbatim>\<open>size_t\<close>.\<close>

definition usable_body_payload_size :: "amqp_connection_state_t \<Rightarrow> nat" where
  "usable_body_payload_size st = nat ((frame_max st - int (HEADER_SIZE + FOOTER_SIZE)) mod 2 ^ 64)"

definition amqp_basic_publish ::
  "unspecified \<Rightarrow> amqp_channel_t \<Rightarrow> byte list \<Rightarrow> byte list \<Rightarrow> bool \<Rightarrow> bool \<Rightarrow> amqp_basic_properties_t option \<Rightarrow> byte list \<Rightarrow> unit nprog" where
  "amqp_basic_publish u channel exchange routing_key mandatory immediate properties body =
     bindP (read_conn usable_body_payload_size) (\<lambda>usable.
     bindP (check_heartbeat u) (\<lambda>_.
     bindP (amqp_send_method_inner u channel AMQP_BASIC_PUBLISH_METHOD
       (amqp_basic_publish_t 0 exchange routing_key mandatory immediate) amqp_time_infinite) (\<lambda>_.
     bindP (amqp_send_frame_inner u \<lparr>frame_type = FRAME_HEADER, frame_channel = channel,
       payload = Properties AMQP_BASIC_CLASS (of_nat (length body))
         (Basic_properties (case properties of None \<Rightarrow> default_properties | Some p \<Rightarrow> p)) []\<rparr> amqp_time_infinite) (\<lambda>_ w.
     publish_body u (Suc (length body + length (sends w))) channel usable body w))))"

section \<open>Closing, getting and acknowledging\<close>

text \<open>\<^verbatim>\<open>sprintf\<close> with \<^verbatim>\<open>"%d"\<close> of a number that is not negative.\<close>

fun decimal :: "nat \<Rightarrow> byte list" where
  "decimal n = (if n < 10 then [] else decimal (n div 10)) @ [of_nat (0x30 + n mod 10)]"

definition amqp_channel_close :: "unspecified \<Rightarrow> amqp_channel_t \<Rightarrow> int \<Rightarrow> amqp_rpc_reply_t nprog" where
  "amqp_channel_close u channel code =
     (if code < 0 \<or> code > UINT16_MAX then ret (amqp_rpc_reply_error AMQP_STATUS_INVALID_PARAMETER)
      else amqp_simple_rpc u channel AMQP_CHANNEL_CLOSE_METHOD [AMQP_CHANNEL_CLOSE_OK_METHOD, 0]
        (amqp_channel_close_t (of_int code) (decimal (nat code)) 0 0))"

text \<open>The code fills a structure of the channel's method, which has the fields of the connection's method.\<close>

definition amqp_connection_close :: "unspecified \<Rightarrow> int \<Rightarrow> amqp_rpc_reply_t nprog" where
  "amqp_connection_close u code =
     (if code < 0 \<or> code > UINT16_MAX then ret (amqp_rpc_reply_error AMQP_STATUS_INVALID_PARAMETER)
      else amqp_simple_rpc u 0 AMQP_CONNECTION_CLOSE_METHOD [AMQP_CONNECTION_CLOSE_OK_METHOD, 0]
        (amqp_connection_close_t (of_int code) (decimal (nat code)) 0 0))"

definition amqp_basic_ack :: "unspecified \<Rightarrow> amqp_channel_t \<Rightarrow> uint64 \<Rightarrow> bool \<Rightarrow> unit nprog" where
  "amqp_basic_ack u channel delivery_tag multiple =
     amqp_send_method u channel AMQP_BASIC_ACK_METHOD (amqp_basic_ack_t delivery_tag multiple)"

definition amqp_basic_get :: "unspecified \<Rightarrow> amqp_channel_t \<Rightarrow> byte list \<Rightarrow> bool \<Rightarrow> amqp_rpc_reply_t nprog" where
  "amqp_basic_get u channel queue no_ack =
     bindP (amqp_simple_rpc u channel AMQP_BASIC_GET_METHOD [AMQP_BASIC_GET_OK_METHOD, AMQP_BASIC_GET_EMPTY_METHOD, 0]
       (amqp_basic_get_t 0 queue no_ack)) (\<lambda>result w. (Ok result, w\<lparr>most_recent_api_result := result\<rparr>))"

definition amqp_basic_reject :: "unspecified \<Rightarrow> amqp_channel_t \<Rightarrow> uint64 \<Rightarrow> bool \<Rightarrow> unit nprog" where
  "amqp_basic_reject u channel delivery_tag requeue =
     amqp_send_method u channel AMQP_BASIC_REJECT_METHOD (amqp_basic_reject_t delivery_tag requeue)"

definition amqp_basic_nack :: "unspecified \<Rightarrow> amqp_channel_t \<Rightarrow> uint64 \<Rightarrow> bool \<Rightarrow> bool \<Rightarrow> unit nprog" where
  "amqp_basic_nack u channel delivery_tag multiple requeue =
     amqp_send_method u channel AMQP_BASIC_NACK_METHOD (amqp_basic_nack_t delivery_tag multiple requeue)"

section \<open>Timeouts\<close>

definition amqp_get_handshake_timeout :: "amqp_connection_state_t \<Rightarrow> timeval option" where
  "amqp_get_handshake_timeout st = handshake_timeout st"

definition amqp_set_handshake_timeout :: "timeval option \<Rightarrow> unit cprog" where
  "amqp_set_handshake_timeout timeout = (case timeout of
       Some tv \<Rightarrow>
         if tv_sec tv < 0 \<or> tv_usec tv < 0 then throw AMQP_STATUS_INVALID_PARAMETER
         else modify (\<lambda>st. st\<lparr>handshake_timeout := Some tv\<rparr>)
     | None \<Rightarrow> modify (\<lambda>st. st\<lparr>handshake_timeout := None\<rparr>))"

definition amqp_get_rpc_timeout :: "amqp_connection_state_t \<Rightarrow> timeval option" where
  "amqp_get_rpc_timeout st = rpc_timeout st"

definition amqp_set_rpc_timeout :: "timeval option \<Rightarrow> unit cprog" where
  "amqp_set_rpc_timeout timeout = (case timeout of
       Some tv \<Rightarrow>
         if tv_sec tv < 0 \<or> tv_usec tv < 0 then throw AMQP_STATUS_INVALID_PARAMETER
         else modify (\<lambda>st. st\<lparr>rpc_timeout := Some tv\<rparr>)
     | None \<Rightarrow> modify (\<lambda>st. st\<lparr>rpc_timeout := None\<rparr>))"

section \<open>Every status has a message\<close>

text \<open>The message of a status is its own, and no status of the library is unknown.\<close>

theorem amqp_error_string_known:
  "case s of Other_status n \<Rightarrow> True
   | _ \<Rightarrow> (\<exists>m. amqp_error_string2 (status_code s) = Ok m \<and> m \<noteq> unknown_error_string)"
proof (cases s)
qed (simp_all add: amqp_error_string2_def ERROR_MASK_def ERROR_CATEGORY_MASK_def pick_string_def unknown_error_string_def
    base_error_strings_def tcp_error_strings_def ssl_error_strings_def)

section \<open>What a publication puts on the wire\<close>

definition publication ::
  "amqp_channel_t \<Rightarrow> byte list \<Rightarrow> byte list \<Rightarrow> bool \<Rightarrow> bool \<Rightarrow> amqp_basic_properties_t \<Rightarrow> byte list list \<Rightarrow> amqp_frame_t list" where
  "publication channel exchange routing_key mandatory immediate p fragments =
     \<lparr>frame_type = FRAME_METHOD, frame_channel = channel,
       payload = Method AMQP_BASIC_PUBLISH_METHOD (amqp_basic_publish_t 0 exchange routing_key mandatory immediate)\<rparr>
     # \<lparr>frame_type = FRAME_HEADER, frame_channel = channel,
         payload = Properties 60 (of_nat (length (concat fragments))) (Basic_properties p) []\<rparr>
     # map (fragment_frame channel) fragments"

text \<open>\<open>delivers L ws m\<close>: from a prepared connection, \<open>m\<close> puts \<open>ws\<close> on the wire, or a part of it if it fails.\<close>

definition delivers :: "int \<times> int \<times> int \<times> nat \<Rightarrow> byte list \<Rightarrow> unit nprog \<Rightarrow> bool" where
  "delivers L ws m \<longleftrightarrow> (\<forall>w r w'. prepared L w \<longrightarrow> m w = (r, w') \<longrightarrow>
     (case r of
        Ok _ \<Rightarrow> prepared L w' \<and> wire w' = wire w @ ws
      | Err e \<Rightarrow> intact w' \<and> (\<exists>k. wire w' = wire w @ take k ws)
      | Undefined \<Rightarrow> malformed (raw_frame (conn w'))
      | OutOfFuel \<Rightarrow> waits w'))"

lemma delivers_run:
  "delivers L ws m \<Longrightarrow> prepared L w \<Longrightarrow> m w = (r, w') \<Longrightarrow> case r of
     Ok _ \<Rightarrow> prepared L w' \<and> wire w' = wire w @ ws
   | Err e \<Rightarrow> intact w' \<and> (\<exists>k. wire w' = wire w @ take k ws)
   | Undefined \<Rightarrow> malformed (raw_frame (conn w'))
   | OutOfFuel \<Rightarrow> waits w'"
  unfolding delivers_def by blast

lemma deliversD:
  assumes "delivers L ws m" and "prepared L w" and "m w = (r, w')"
  shows "r = Ok () \<Longrightarrow> prepared L w' \<and> wire w' = wire w @ ws" and "r = Err e \<Longrightarrow> intact w' \<and> (\<exists>k. wire w' = wire w @ take k ws)"
    and "r = Undefined \<Longrightarrow> malformed (raw_frame (conn w'))" and "r = OutOfFuel \<Longrightarrow> waits w'"
  using delivers_run [OF assms] by simp_all

lemma delivers_bind:
  assumes m: "delivers L ws m" and k: "delivers L ws' k"
  shows "delivers L (ws @ ws') (bindP m (\<lambda>_. k))"
  unfolding delivers_def
proof (intro allI impI)
  fix w r w'
  assume w: "prepared L w" and run: "bindP m (\<lambda>_. k) w = (r, w')"
  obtain r1 w1 where m1: "m w = (r1, w1)" by (rule prod.exhaust)
  note d = deliversD [OF m w m1]
  show "case r of Ok _ \<Rightarrow> prepared L w' \<and> wire w' = wire w @ ws @ ws' | Err e \<Rightarrow> intact w' \<and> (\<exists>n. wire w' = wire w @ take n (ws @ ws'))
      | Undefined \<Rightarrow> malformed (raw_frame (conn w')) | OutOfFuel \<Rightarrow> waits w'"
  proof (cases r1)
    case (Ok x)
    with run m1 have k1: "k w1 = (r, w')" by (simp add: bindP_def)
    from d(1) Ok have w1: "prepared L w1" "wire w1 = wire w @ ws" by simp_all
    note d' = deliversD [OF k w1(1) k1]
    have "\<exists>n. wire w' = wire w @ take n (ws @ ws')" if "wire w' = wire w1 @ take n ws'" for n
      by (rule exI [of _ "length ws + n"]) (simp add: that w1(2))
    then show ?thesis using d' w1(2) by (cases r) auto
  next
    case (Err e)
    then have r: "r = Err e" "w' = w1" using run m1 by (simp_all add: bindP_def)
    from d(2) [OF Err] obtain n where "intact w1" "wire w1 = wire w @ take n ws" by blast
    then show ?thesis unfolding r by (auto intro!: exI [of _ "min n (length ws)"] simp: min_def)
  qed (use run m1 d(3,4) in \<open>simp_all add: bindP_def\<close>)
qed

lemma delivers_nothing:
  assumes "\<And>a b. nsound (net_at a b) m (\<lambda>_. net_at a b)" and "preserves (norderly L) m (\<lambda>_. True)" and "wkeeps m"
  shows "delivers L [] m"
  unfolding delivers_def
proof (intro allI impI)
  fix w r w'
  assume w: "prepared L w" and run: "m w = (r, w')"
  have "nsettles (\<lambda>_. net_inv) (r, w')" using nsettles_inv [OF _ assms(1), of w] w run by (simp add: prepared_def)
  moreover have "norderly L w'" using preservesD(1) [OF assms(2) run] w by (simp add: prepared_def)
  ultimately show "case r of Ok _ \<Rightarrow> prepared L w' \<and> wire w' = wire w @ [] | Err e \<Rightarrow> intact w' \<and> (\<exists>k. wire w' = wire w @ take k [])
      | Undefined \<Rightarrow> malformed (raw_frame (conn w')) | OutOfFuel \<Rightarrow> waits w'"
    using wkeepsD [OF assms(3) run] by (cases r) (auto simp: prepared_def)
qed

lemma delivers_frame:
  assumes "\<And>w. prepared L w \<Longrightarrow> sendable f (conn w)"
  shows "delivers L (ser_frame f) (amqp_send_frame_inner u f t)"
  unfolding delivers_def
proof (intro allI impI)
  fix w r w'
  assume w: "prepared L w" and run: "amqp_send_frame_inner u f t w = (r, w')"
  from w have inv: "net_at (pending w) (length (sends w)) w" "io_inv (conn w)" by (simp_all add: prepared_def net_inv_at net_at_def)
  from nsoundD [OF nsound_send_frame, of _ _ w f u t] inv assms [OF w] run
  have s: "nsettles (\<lambda>_. net_at (pending w) (length (sends w))) (r, w')" by metis
  from puts_send_frame [OF inv(2) assms [OF w] run] obtain k where k: "wire w' = wire w @ take k (ser_frame f)"
    "r = Ok () \<longrightarrow> k = length (ser_frame f)" by blast
  have "norderly L w'" using preservesD(1) [OF preserves_send_frame(1) run] w by (simp add: prepared_def)
  with s k show "case r of Ok _ \<Rightarrow> prepared L w' \<and> wire w' = wire w @ ser_frame f
      | Err e \<Rightarrow> intact w' \<and> (\<exists>k. wire w' = wire w @ take k (ser_frame f))
      | Undefined \<Rightarrow> malformed (raw_frame (conn w')) | OutOfFuel \<Rightarrow> waits w'"
    by (cases r) (auto simp: prepared_def intro: net_at_inv simp del: length_ser_frame)
qed

fun fragments :: "nat \<Rightarrow> byte list \<Rightarrow> byte list list" where
  "fragments n xs = (if xs = [] \<or> n = 0 then [] else take n xs # fragments n (drop n xs))"

declare fragments.simps [simp del]

lemma fragments_concat: "0 < n \<Longrightarrow> concat (fragments n xs) = xs"
  by (induction n xs rule: fragments.induct) (subst fragments.simps, auto)

lemma fragments_size: "b \<in> set (fragments n xs) \<Longrightarrow> b \<noteq> [] \<and> length b \<le> n"
proof (induction n xs rule: fragments.induct)
  case (1 n xs)
  then show ?case by (subst (asm) (2) fragments.simps) (auto split: if_splits)
qed

lemma delivers_body:
  assumes "n + 8 \<le> snd (snd (snd L))" and "0 < n" and "n < INT32_MAX" and "length left < fuel"
  shows "delivers L (concat (map (\<lambda>b. ser_frame (fragment_frame c b)) (fragments n left))) (publish_body u fuel c n left)"
  using assms(4)
proof (induction fuel arbitrary: left)
  case (Suc fuel)
  show ?case
  proof (cases "left = []")
    case True
    then show ?thesis by (auto simp: fragments.simps delivers_def ret_def)
  next
    case False
    let ?b = "take n left"
    have pick: "take (if length left \<ge> n then n else length left) left = ?b"
      "drop (if length left \<ge> n then n else length left) left = drop n left" by simp_all
    have "delivers L (ser_frame (fragment_frame c ?b)) (amqp_send_frame_inner u (fragment_frame c ?b) amqp_time_infinite)"
      by (rule delivers_frame)
        (use assms(1,3) in \<open>auto simp: sendable_def wf_frame_def fragment_frame_def prepared_def norderly_def orderly_def limits_def\<close>)
    moreover have "length (drop n left) < fuel" using Suc.prems False assms(2) by (cases left) auto
    ultimately show ?thesis using delivers_bind [OF _ Suc.IH] False assms(2)
      by (subst fragments.simps) (simp add: pick Let_def)
  qed
qed simp

lemma delivers_check: "delivers L [] (check_heartbeat u)"
proof (rule delivers_nothing)
  have "nsound (net_at a b) (on_status (amqp_try_recv u) (\<lambda>e. if e = AMQP_STATUS_TIMEOUT then throw AMQP_STATUS_HEARTBEAT_TIMEOUT else throw e)) (\<lambda>_. net_at a b)" for a b
    by (rule nsound_on_status [OF nsound_amqp_try_recv]) (auto simp: throw_def)
  then show "nsound (net_at a b) (check_heartbeat u) (\<lambda>_. net_at a b)" for a b
    unfolding check_heartbeat_def
    by (intro nsound_bind [OF nsound_on_conn_plain [OF sound_has_past]] nsound_if nsound_throw nsound_ret) (auto intro: net_memory)
  show "preserves (norderly L) (check_heartbeat u) (\<lambda>_. True)" unfolding check_heartbeat_def by (auto intro!: preserves_intros)
  show "wkeeps (check_heartbeat u)" unfolding check_heartbeat_def by (auto intro!: wkeeps_intros)
qed

lemma usable_size:
  assumes "20 \<le> frame_max st" and "frame_max st \<le> int INT32_MAX"
  shows "int (usable_body_payload_size st) + 8 = frame_max st" and "0 < usable_body_payload_size st"
    and "usable_body_payload_size st < INT32_MAX"
proof -
  have "frame_max st < 2 ^ 63" using assms(2) by (simp add: INT32_MAX_def)
  then have "(frame_max st - 8) mod 2 ^ 64 = frame_max st - 8" using assms(1) by (intro mod_pos_pos_trivial) auto
  then show n: "int (usable_body_payload_size st) + 8 = frame_max st" "0 < usable_body_payload_size st"
    using assms(1) by (simp_all add: usable_body_payload_size_def)
  show "usable_body_payload_size st < INT32_MAX" using n assms(2) by simp
qed

text \<open>
  C11: A publication puts exactly its frames on the wire, whatever the socket accepts at a time: the method, the
  header with the size of the body, and the body in fragments that are not empty, fit into a frame and make
  up the body. If it fails, a part of these bytes has been sent.
\<close>

theorem amqp_basic_publish_settles:
  assumes "net_inv w" and "list_all typed (first_queued_frame (conn w))"
    and "int (outbound_len (conn w)) = frame_max (conn w)" and "20 \<le> frame_max (conn w)" and "frame_max (conn w) \<le> int INT32_MAX"
    and "method_sendable (amqp_basic_publish_t 0 exchange routing_key mandatory immediate) (conn w)"
    and "wf_basic p" and "length (ser_properties p) + 12 < INT32_MAX"
  shows "\<exists>bodies. concat bodies = body \<and> (\<forall>b \<in> set bodies. b \<noteq> [] \<and> int (length b) + 8 \<le> frame_max (conn w)) \<and>
      (let ws = concat (map ser_frame (publication channel exchange routing_key mandatory immediate p bodies)) in
       case amqp_basic_publish u channel exchange routing_key mandatory immediate (Some p) body w of
         (Ok _, w') \<Rightarrow> net_inv w' \<and> wire w' = wire w @ ws
       | (Err e, w') \<Rightarrow> intact w' \<and> (\<exists>k. wire w' = wire w @ take k ws)
       | (Undefined, w') \<Rightarrow> malformed (raw_frame (conn w'))
       | (OutOfFuel, w') \<Rightarrow> waits w')"
proof -
  let ?L = "limits (conn w)" and ?n = "usable_body_payload_size (conn w)"
  let ?bodies = "fragments ?n body"
  let ?m = "amqp_basic_publish_t 0 exchange routing_key mandatory immediate"
  note n = usable_size [OF assms(4,5)]
  have len: "?n + 8 \<le> snd (snd (snd ?L))" using assms(3) n(1) by (simp add: limits_def)
  have bodies: "concat ?bodies = body" "\<forall>b \<in> set ?bodies. b \<noteq> [] \<and> int (length b) + 8 \<le> frame_max (conn w)"
    using n fragments_concat [OF n(2)] fragments_size [of _ ?n body] by force+
  let ?f = "\<lparr>frame_type = FRAME_METHOD, frame_channel = channel, payload = Method AMQP_BASIC_PUBLISH_METHOD ?m\<rparr>"
  let ?h = "\<lparr>frame_type = FRAME_HEADER, frame_channel = channel, payload = Properties 60 (of_nat (length body)) (Basic_properties p) []\<rparr>"
  have outbound: "outbound_len (conn w') = outbound_len (conn w)" if "prepared ?L w'" for w'
    using that by (simp add: prepared_def norderly_def orderly_def limits_def)
  have f: "delivers ?L (ser_frame ?f) (amqp_send_frame_inner u ?f amqp_time_infinite)"
    by (rule delivers_frame, frule outbound)
      (use assms(6) in \<open>auto simp: sendable_def wf_frame_def method_sendable_def\<close>)
  have h: "delivers ?L (ser_frame ?h) (amqp_send_frame_inner u ?h amqp_time_infinite)"
    by (rule delivers_frame, frule outbound) (use assms(3,4,7,8) in \<open>auto simp: sendable_def wf_frame_def\<close>)
  have b: "delivers ?L (concat (map (\<lambda>b. ser_frame (fragment_frame channel b)) ?bodies))
      (\<lambda>w. publish_body u (Suc (length body + length (sends w))) channel ?n body w)"
    using delivers_body [OF len n(2,3)] unfolding delivers_def by (meson less_add_Suc1)
  let ?ws = "[] @ ser_frame ?f @ ser_frame ?h @ concat (map (\<lambda>b. ser_frame (fragment_frame channel b)) ?bodies)"
  have d: "delivers ?L ?ws
      (bindP (check_heartbeat u) (\<lambda>_. bindP (amqp_send_frame_inner u ?f amqp_time_infinite) (\<lambda>_.
        bindP (amqp_send_frame_inner u ?h amqp_time_infinite) (\<lambda>_ w.
        publish_body u (Suc (length body + length (sends w))) channel ?n body w))))"
    by (rule delivers_bind [OF delivers_check delivers_bind [OF f delivers_bind [OF h b]]])
  have eq: "amqp_basic_publish u channel exchange routing_key mandatory immediate (Some p) body w =
      bindP (check_heartbeat u) (\<lambda>_. bindP (amqp_send_frame_inner u ?f amqp_time_infinite) (\<lambda>_.
        bindP (amqp_send_frame_inner u ?h amqp_time_infinite) (\<lambda>_ w.
        publish_body u (Suc (length body + length (sends w))) channel ?n body w))) w"
    by (simp add: amqp_basic_publish_def bindP_read amqp_send_method_inner_def AMQP_BASIC_CLASS_def del: publish_body.simps)
  have w: "prepared ?L w" using assms(1,2) by (simp add: prepared_def norderly_def orderly_def)
  obtain r w' where run: "amqp_basic_publish u channel exchange routing_key mandatory immediate (Some p) body w = (r, w')"
    by (rule prod.exhaust)
  have ws: "?ws = concat (map ser_frame (publication channel exchange routing_key mandatory immediate p ?bodies))"
    by (simp add: publication_def bodies(1) comp_def)
  note out = delivers_run [OF d w run [unfolded eq], unfolded ws]
  show ?thesis
    unfolding run Let_def by (intro exI [of _ ?bodies] conjI bodies) (use out in \<open>cases r; simp only: outcome.case prod.case prepared_def\<close>)
qed

theorem amqp_basic_publish_settles_witness:
  "\<exists>bodies. concat bodies = [0x68, 0x69] \<and>
     (\<forall>b \<in> set bodies. b \<noteq> [] \<and> int (length b) + 8 \<le> frame_max (conn (sample_net [] [Send_accepts 5, Send_accepts 100] []))) \<and>
      (let ws = concat (map ser_frame (publication 1 [] [0x71] False False sample_properties bodies)) in
       case amqp_basic_publish sample_memory 1 [] [0x71] False False (Some sample_properties) [0x68, 0x69]
           (sample_net [] [Send_accepts 5, Send_accepts 100] []) of
         (Ok _, w') \<Rightarrow> net_inv w' \<and> wire w' = wire (sample_net [] [Send_accepts 5, Send_accepts 100] []) @ ws
       | (Err e, w') \<Rightarrow> intact w' \<and> (\<exists>k. wire w' = wire (sample_net [] [Send_accepts 5, Send_accepts 100] []) @ take k ws)
       | (Undefined, w') \<Rightarrow> malformed (raw_frame (conn w'))
       | (OutOfFuel, w') \<Rightarrow> waits w')"
  by (rule amqp_basic_publish_settles [OF sample_net_inv])
    (simp_all add: sample_net_sel first_connection INT32_MAX_def method_sendable_def sample_properties_length ser_shortstr_def ser_bits_def)

end
