(* ===== verification/Amqp_Delivery.thy ===== *)
theory Amqp_Delivery
  imports Amqp_Rpc
begin

text \<open>
  What the peer sends is what the caller gets: frames split over the system's pieces are assembled
  and delivered in order, and a remote procedure call returns the first frame that concerns it and
  keeps the others, in order, in the queue.
\<close>

section \<open>The assembly does not look at the socket buffer\<close>

definition shift :: "byte list \<Rightarrow> nat \<Rightarrow> nat \<Rightarrow> nat \<Rightarrow> amqp_time_t \<Rightarrow> amqp_connection_state_t \<Rightarrow> amqp_connection_state_t" where
  "shift b l i n d st = st\<lparr>sock_inbound_buffer := b, sock_inbound_limit := l, sock_inbound_offset := i,
     ticks := n, next_recv_heartbeat := d\<rparr>"

definition blind :: "'a cprog \<Rightarrow> bool" where
  "blind m \<longleftrightarrow> (\<forall>b l i n d st. m (shift b l i n d st) = apsnd (shift b l i n d) (m st))"

named_theorems blind_intros \<open>steps that do not look at the socket buffer\<close>

lemma shift_sel [simp]:
  "conn_heap (shift b l i n d st) = conn_heap st" "pool_table (shift b l i n d st) = pool_table st"
  "frame_max (shift b l i n d st) = frame_max st" "target_size (shift b l i n d st) = target_size st"
  "inbound_offset (shift b l i n d st) = inbound_offset st" "inbound_buffer (shift b l i n d st) = inbound_buffer st"
  "header_buffer (shift b l i n d st) = header_buffer st" "conn_state (shift b l i n d st) = conn_state st"
  "raw_frame (shift b l i n d st) = raw_frame st" "payload_from k (shift b l i n d st) = payload_from k st"
  "first_queued_frame (shift b l i n d st) = first_queued_frame st" "next_send_heartbeat (shift b l i n d st) = next_send_heartbeat st"
proof -
  have "inbound_bytes (shift b l i n d st) x = inbound_bytes st x" for x by (cases x) (simp_all add: shift_def)
  then show raw: "raw_frame (shift b l i n d st) = raw_frame st" by (simp add: raw_frame_def) (simp add: shift_def)
  show "payload_from k (shift b l i n d st) = payload_from k st" by (simp add: payload_from_def raw) (simp add: shift_def)
qed (simp_all add: shift_def)

lemma shift_upd:
  "(shift b l i n d st)\<lparr>pool_table := t, conn_heap := h\<rparr> = shift b l i n d (st\<lparr>pool_table := t, conn_heap := h\<rparr>)"
  "(shift b l i n d st)\<lparr>target_size := k\<rparr> = shift b l i n d (st\<lparr>target_size := k\<rparr>)"
  "(shift b l i n d st)\<lparr>conn_state := c\<rparr> = shift b l i n d (st\<lparr>conn_state := c\<rparr>)"
  "(shift b l i n d st)\<lparr>inbound_buffer := x\<rparr> = shift b l i n d (st\<lparr>inbound_buffer := x\<rparr>)"
  "(shift b l i n d st)\<lparr>inbound_offset := k\<rparr> = shift b l i n d (st\<lparr>inbound_offset := k\<rparr>)"
  "(shift b l i n d st)\<lparr>header_buffer := bs\<rparr> = shift b l i n d (st\<lparr>header_buffer := bs\<rparr>)"
  "(shift b l i n d st)\<lparr>inbound_buffer := x, conn_state := c\<rparr> = shift b l i n d (st\<lparr>inbound_buffer := x, conn_state := c\<rparr>)"
  "return_to_idle (shift b l i n d st) = shift b l i n d (return_to_idle st)"
  by (simp_all add: shift_def return_to_idle_def)

lemma blind_bind [blind_intros]: "blind m \<Longrightarrow> (\<And>x. blind (k x)) \<Longrightarrow> blind (bindP m k)"
  by (auto simp: blind_def bindP_def split: prod.splits outcome.splits)

lemma blind_simple [blind_intros]: "blind (ret x)" "blind (throw e)" "blind (\<lambda>st. (Undefined, st))" "blind (peek k n d)"
  by (auto simp: blind_def ret_def throw_def peek_def split: option.splits)

lemma blind_gets: "(\<And>b l i n d st. f (shift b l i n d st) = f st) \<Longrightarrow> blind (gets f)"
  by (simp add: blind_def gets_def)

lemma blind_modify: "(\<And>b l i n d st. f (shift b l i n d st) = shift b l i n d (f st)) \<Longrightarrow> blind (modify f)"
  by (simp add: blind_def modify_def)

lemma blind_if [blind_intros]: "blind m \<Longrightarrow> blind m' \<Longrightarrow> blind (if b then m else m')"
  by simp

lemma blind_pools [blind_intros]: "blind (channel_pool c)" "blind (with_pool c m)"
  by (auto simp: blind_def channel_pool_def with_pool_def shift_upd split: prod.splits option.splits)

lemma blind_decode [blind_intros]: "blind (decode_frame u t c)"
  unfolding decode_frame_def method_frame_def header_frame_def body_frame_def by (intro blind_intros blind_gets) simp_all

lemma blind_consume [blind_intros]: "blind (consume_data data)"
proof -
  have "put_inbound bs x (shift b l i n d st) = shift b l i n d (put_inbound bs x st)" for bs x b l i n d st
    by (cases x) (simp_all add: shift_upd)
  then show ?thesis by (auto simp: blind_def consume_data_def Let_def shift_upd split: option.splits)
qed

lemma blind_finish [blind_intros]: "blind (finish_frame u c)"
  unfolding finish_frame_def by (intro blind_intros blind_gets blind_modify) (simp_all add: shift_upd)

lemma blind_allocate [blind_intros]: "blind (allocate_frame u)"
  unfolding allocate_frame_def Let_def
  by (intro blind_intros blind_gets blind_modify)
    (auto intro!: blind_intros blind_modify simp: shift_upd split: option.splits)

lemma blind_continue [blind_intros]: "blind (continue_frame u data c)" "blind (begin_frame u data c)"
  unfolding continue_frame_def begin_frame_def by (auto intro!: blind_intros blind_gets)

lemma blind_handle_input: "blind (amqp_handle_input u data)"
  unfolding amqp_handle_input_def protocol_frame_def
  by (auto intro!: blind_intros blind_gets blind_modify simp: shift_upd split: amqp_connection_state_enum.splits)


section \<open>A frame that comes in pieces\<close>

text \<open>
  The next piece of the data of a frame completes it, or is taken in and the rest of the data
  completes it.
\<close>

lemma next_piece:
  assumes inv: "assembly_inv st" and xs: "xs \<noteq> []"
    and whole: "amqp_handle_input u (xs @ ys) st = (Ok (n, g), s)" and g: "frame_type g \<noteq> 0"
  obtains (complete) "amqp_handle_input u xs st = (Ok (n, g), s)" "n \<le> length xs"
  | (partial) st' where "amqp_handle_input u xs st = (Ok (length xs, no_frame), st')" "ys \<noteq> []"
      "amqp_handle_input u ys st' = (Ok (n - length xs, g), s)" "length xs \<le> n" "assembly_inv st'"
proof (cases rule: handle_input_cases [OF inv xs, of u])
  case (1 st')
  then have p: "amqp_handle_input u xs st = (Ok (length xs, no_frame), st')" "assembly_inv st'"
    "ys \<noteq> [] \<Longrightarrow> amqp_handle_input u (xs @ ys) st = advance (length xs) (amqp_handle_input u ys) st'"
    by (simp_all add: unfinished_def)
  have ys: "ys \<noteq> []" using whole g p(1) by (auto simp: no_frame_def)
  with p(3) whole have "advance (length xs) (amqp_handle_input u ys) st' = (Ok (n, g), s)" by simp
  then obtain k where "amqp_handle_input u ys st' = (Ok (k, g), s)" "n = length xs + k"
    by (auto simp: advance_def bindP_def ret_def split: prod.splits outcome.splits)
  then show ?thesis using partial [OF p(1) ys _ _ p(2)] by simp
next
  case 2
  then have "amqp_handle_input u xs st = (Ok (n, g), s)" using whole by (simp add: decided_def)
  moreover from this 2 have "n \<le> length xs" unfolding decided_def by blast
  ultimately show ?thesis by (rule complete)
qed

section \<open>The frames to come\<close>

definition fitting :: "amqp_frame_t list \<Rightarrow> amqp_connection_state_t \<Rightarrow> bool" where
  "fitting fs st \<longleftrightarrow> (\<forall>f \<in> set fs. wf_frame f \<and> int (length (ser_frame f)) \<le> frame_max st)"

text \<open>Between two frames, and inside the first one; \<open>data\<close> is what is still to be handed to the assembly.\<close>

definition boundary :: "amqp_frame_t list \<Rightarrow> byte list \<Rightarrow> amqp_connection_state_t \<Rightarrow> bool" where
  "boundary fs data st \<longleftrightarrow> conn_inv st \<and> conn_state st = CONNECTION_STATE_IDLE \<and> generous (conn_heap st)
     \<and> fitting fs st \<and> data = concat (map ser_frame fs)"

definition inside :: "unspecified \<Rightarrow> amqp_frame_t list \<Rightarrow> byte list \<Rightarrow> amqp_connection_state_t \<Rightarrow> bool" where
  "inside u fs data st \<longleftrightarrow> assembly_inv st \<and> (\<exists>f gs n s. fs = f # gs \<and> wf_frame f \<and> data \<noteq> [] \<and> n \<le> length data
     \<and> amqp_handle_input u data st = (Ok (n, received u f), s) \<and> boundary gs (drop n data) s)"

definition coming :: "unspecified \<Rightarrow> amqp_frame_t list \<Rightarrow> byte list \<Rightarrow> amqp_connection_state_t \<Rightarrow> bool" where
  "coming u fs data st \<longleftrightarrow> boundary fs data st \<or> inside u fs data st"

lemma boundary_inside:
  assumes "boundary (f # fs) data st"
  shows "inside u (f # fs) data st"
proof -
  have st: "conn_inv st" "conn_state st = CONNECTION_STATE_IDLE" "generous (conn_heap st)" "data = ser_frame f @ concat (map ser_frame fs)"
    and f: "wf_frame f" "int (length (ser_frame f)) \<le> frame_max st" and fs: "fitting fs st"
    using assms by (simp_all add: boundary_def fitting_def)
  from handle_input_frame [OF f(1) st(1-3) f(2), of u "concat (map ser_frame fs)"] obtain s where
    s: "amqp_handle_input u data st = (Ok (length (ser_frame f), received u f), s)" "conn_inv s"
      "conn_state s = CONNECTION_STATE_IDLE" "generous (conn_heap s)" "frame_max s = frame_max st"
    unfolding st(4) by blast
  have "boundary fs (drop (length (ser_frame f)) data) s" using s fs st(4) by (simp add: boundary_def fitting_def del: length_ser_frame)
  moreover have "data \<noteq> []" "length (ser_frame f) \<le> length data" using st(4) by (auto simp: ser_frame_def frame_head_def)
  moreover have "assembly_inv st" using st(1) by (simp add: conn_inv_def)
  ultimately show ?thesis unfolding inside_def using f(1) s(1) by blast
qed

lemma coming_empty: "coming u [] data st \<Longrightarrow> data = []"
  by (auto simp: coming_def boundary_def inside_def)

lemma coming_shift: "coming u fs data st \<Longrightarrow> coming u fs data (shift b l i n d st)"
proof -
  have inv: "conn_inv (shift b l i n d st)" if "conn_inv st" for st
    by (rule conn_inv_cong [OF _ _ _ _ _ _ that]) (simp_all add: same_memory_def shift_def)
  have asm: "assembly_inv (shift b l i n d st) = assembly_inv st" for st by (rule assembly_inv_cong) simp_all
  have bound: "boundary gs ds (shift b l i n d s)" if "boundary gs ds s" for gs ds s
    using that inv by (simp add: boundary_def fitting_def)
  have run: "amqp_handle_input u data (shift b l i n d st) = apsnd (shift b l i n d) (amqp_handle_input u data st)"
    using blind_handle_input [of u data] by (simp add: blind_def)
  assume "coming u fs data st"
  then show "coming u fs data (shift b l i n d st)"
    unfolding coming_def inside_def run asm using bound by (fastforce simp: apsnd_def map_prod_def)
qed

text \<open>One call of the assembly on a piece.\<close>

lemma coming_piece:
  assumes coming: "coming u fs (xs @ ys) st" and xs: "xs \<noteq> []" and run: "amqp_handle_input u xs st = (Ok (n, g), st')"
  shows "n \<le> length xs \<and> (frame_type g = 0 \<and> coming u fs (drop n xs @ ys) st'
    \<or> (\<exists>f gs. fs = f # gs \<and> wf_frame f \<and> g = received u f \<and> boundary gs (drop n xs @ ys) st'))"
proof -
  have "inside u fs (xs @ ys) st"
  proof (cases fs)
    case Nil
    then show ?thesis using coming_empty coming xs by fastforce
  next
    case (Cons f gs)
    then show ?thesis using coming boundary_inside by (auto simp: coming_def)
  qed
  then obtain f gs m s where inv: "assembly_inv st" and fs: "fs = f # gs" and wf: "wf_frame f"
    and whole: "amqp_handle_input u (xs @ ys) st = (Ok (m, received u f), s)" and rest: "boundary gs (drop m (xs @ ys)) s"
    and m: "m \<le> length (xs @ ys)"
    by (auto simp: inside_def)
  show ?thesis
  proof (cases rule: next_piece [OF inv xs whole wf_frame_type [OF wf]])
    case 1
    with run rest wf fs show ?thesis by auto
  next
    case (2 s')
    then have eq: "n = length xs" "g = no_frame" "st' = s'" using run by simp_all
    have "inside u fs ys s'"
      unfolding inside_def fs using 2 rest m wf by (auto intro!: exI [of _ "m - length xs"])
    then show ?thesis using eq by (simp add: coming_def no_frame_def)
  qed
qed


section \<open>Draining the buffer\<close>

definition flow :: "unspecified \<Rightarrow> amqp_frame_t list \<Rightarrow> byte list \<Rightarrow> amqp_connection_state_t \<Rightarrow> bool" where
  "flow u fs later st \<longleftrightarrow> io_inv st \<and> coming u fs (buffered st @ later) st"

abbreviation is_heartbeat :: "amqp_frame_t \<Rightarrow> bool" where
  "is_heartbeat f \<equiv> frame_type f = FRAME_HEARTBEAT"

definition undisturbed :: "amqp_connection_state_t \<Rightarrow> amqp_connection_state_t \<Rightarrow> bool" where
  "undisturbed st st' \<longleftrightarrow> first_queued_frame st' = first_queued_frame st \<and> next_send_heartbeat st' = next_send_heartbeat st
     \<and> next_recv_heartbeat st' = next_recv_heartbeat st \<and> heartbeat st' = heartbeat st \<and> sock_inbound_buffer st' = sock_inbound_buffer st"

lemma undisturbed_trans: "undisturbed a b \<Longrightarrow> undisturbed b c \<Longrightarrow> undisturbed a c"
  by (simp add: undisturbed_def)

lemma received_type [simp]: "frame_type (received u f) = frame_type f" "frame_channel (received u f) = frame_channel f"
  by (auto simp: received_def split: amqp_payload_t.splits amqp_properties_t.splits)

lemma recycle_grant: "recycle_amqp_pool p h = (p', h') \<Longrightarrow> h_grant h' = h_grant h"
proof -
  have "h_grant (fold (\<lambda>b. heap_free (Some b)) bs h) = h_grant h" for bs
    by (induction bs arbitrary: h) (simp_all add: heap_free_def split: option.splits)
  moreover have "h_grant (heap_free x k) = h_grant k" for x k by (simp add: heap_free_def split: option.splits)
  ultimately show "recycle_amqp_pool p h = (p', h') \<Longrightarrow> h_grant h' = h_grant h"
    by (auto simp: recycle_amqp_pool_def empty_blocklist_def Let_def split: option.splits)
qed

lemma boundary_release:
  assumes "boundary fs data st"
  shows "boundary fs data (amqp_maybe_release_buffers_on_channel c st)"
proof -
  have st: "conn_inv st" "conn_state st = CONNECTION_STATE_IDLE" "generous (conn_heap st)"
    using assms by (simp_all add: boundary_def)
  then have m: "memory_inv st" by (simp add: conn_inv_def)
  from release_channel [OF m st(2), of c] obtain t h where
    r: "amqp_maybe_release_buffers_on_channel c st = st\<lparr>pool_table := t, conn_heap := h\<rparr>" "memory_inv (st\<lparr>pool_table := t, conn_heap := h\<rparr>)" by blast
  have "h_grant (conn_heap (amqp_maybe_release_buffers_on_channel c st)) = h_grant (conn_heap st)"
    by (auto simp: amqp_maybe_release_buffers_on_channel_def dest: recycle_grant split: option.splits prod.splits)
  then have "generous h" using st(3) r(1) by (simp add: generous_def)
  moreover have "conn_inv (st\<lparr>pool_table := t, conn_heap := h\<rparr>)"
    using assembly_inv_cong [of "st\<lparr>pool_table := t, conn_heap := h\<rparr>" st] r(2) st(1) by (simp add: conn_inv_def)
  ultimately show ?thesis unfolding r(1) using assms by (simp add: boundary_def fitting_def)
qed

lemma release_keeps:
  "buffered (amqp_maybe_release_buffers_on_channel c st) = buffered st" "undisturbed st (amqp_maybe_release_buffers_on_channel c st)"
  by (auto simp: amqp_maybe_release_buffers_on_channel_def buffered_def undisturbed_def split: option.splits prod.splits)

lemma flow_release:
  assumes "flow u fs later st" and "boundary fs (buffered st @ later) st"
  shows "flow u fs later (amqp_maybe_release_buffers_on_channel c st)"
proof -
  have "buffering (length (buffered st)) st" using assms(1) by (simp add: flow_def buffering_def)
  from buffering_release [OF this, of c] have "io_inv (amqp_maybe_release_buffers_on_channel c st)" by (simp add: buffering_def)
  then show ?thesis using boundary_release [OF assms(2), of c] by (simp add: flow_def coming_def release_keeps)
qed

lemma buffered_offset:
  "same_io st s \<Longrightarrow> buffered (s\<lparr>sock_inbound_offset := sock_inbound_offset st + n\<rparr>) = drop n (buffered st)"
  by (simp add: buffered_def same_io_def drop_take add.commute)

lemma offset_shift: "s\<lparr>sock_inbound_offset := k\<rparr> =
    shift (sock_inbound_buffer s) (sock_inbound_limit s) k (ticks s) (next_recv_heartbeat s) s"
  by (simp add: shift_def)

lemma consume_delivers:
  assumes flow: "flow u fs later st" and more: "amqp_data_in_buffer st" and run: "consume_one_frame u st = (Ok g, st')"
  shows "undisturbed st st'" and "length (buffered st') < length (buffered st)"
    and "frame_type g = 0 \<and> flow u fs later st'
      \<or> (\<exists>f gs. fs = f # gs \<and> wf_frame f \<and> g = received u f \<and> flow u gs later st' \<and> boundary gs (buffered st' @ later) st')"
proof -
  have inv: "io_inv st" and c: "coming u fs (buffered st @ later) st" using flow by (simp_all add: flow_def)
  from consume_one_frame_safe [OF inv more, of u] run have s': "io_inv st'" "length (buffered st') < length (buffered st)" by simp_all
  then show "length (buffered st') < length (buffered st)" by simp
  from run obtain n s where h: "amqp_handle_input u (buffered st) st = (Ok (n, g), s)"
    and st': "st' = s\<lparr>sock_inbound_offset := sock_inbound_offset st + n\<rparr>"
    unfolding consume_one_frame_run by (auto split: prod.splits outcome.splits)
  have io: "same_io st s" by (rule ckeepsD [OF ckeeps_handle_input h])
  then show "undisturbed st st'" by (simp add: undisturbed_def st' same_io_def)
  have ne: "buffered st \<noteq> []" using s'(2) by auto
  note buf = buffered_offset [OF io, of n, folded st']
  have shift: "coming u gs ds s \<Longrightarrow> coming u gs ds st'" "boundary gs ds s \<Longrightarrow> boundary gs ds st'" for gs ds
  proof -
    show "coming u gs ds s \<Longrightarrow> coming u gs ds st'" unfolding st' offset_shift by (rule coming_shift)
    have "conn_inv s \<Longrightarrow> conn_inv st'" by (rule conn_inv_cong [of s]) (simp_all add: st' same_memory_def)
    then show "boundary gs ds s \<Longrightarrow> boundary gs ds st'" by (simp add: boundary_def fitting_def st')
  qed
  from coming_piece [OF c ne h] show "frame_type g = 0 \<and> flow u fs later st'
      \<or> (\<exists>f gs. fs = f # gs \<and> wf_frame f \<and> g = received u f \<and> flow u gs later st' \<and> boundary gs (buffered st' @ later) st')"
    using s'(1) shift unfolding flow_def buf coming_def by blast
qed

lemma no_data: "io_inv st \<Longrightarrow> \<not> amqp_data_in_buffer st \<Longrightarrow> buffered st = []"
  by (simp add: amqp_data_in_buffer_def buffered_def)

lemma drain_delivers:
  assumes "flow u fs later st" and "drain_buffer u fuel st = (Ok r, st')"
  shows "undisturbed st st' \<and> (case r of
      None \<Rightarrow> \<exists>gs. dropWhile is_heartbeat gs = dropWhile is_heartbeat fs \<and> flow u gs later st' \<and> buffered st' = []
    | Some g \<Rightarrow> \<exists>f gs. dropWhile is_heartbeat fs = f # gs \<and> g = received u f \<and> io_inv st' \<and> boundary gs (buffered st' @ later) st')"
  using assms
proof (induction fuel arbitrary: st fs)
  case (Suc fuel)
  show ?case
  proof (cases "amqp_data_in_buffer st")
    case False
    then have "r = None" "st' = st" using Suc.prems(2) by (simp_all add: bindP_def gets_def ret_def)
    then show ?thesis using Suc.prems(1) no_data [OF _ False] by (auto simp: undisturbed_def flow_def)
  next
    case True
    then obtain g s where c: "consume_one_frame u st = (Ok g, s)"
      using Suc.prems(2) by (auto simp: bindP_def gets_def split: prod.splits outcome.splits)
    note d = consume_delivers [OF Suc.prems(1) True c]
    show ?thesis
    proof (cases "frame_type g = 0")
      case True': True
      with d(3) have "flow u fs later s" by (auto dest: wf_frame_type [of _ u])
      moreover have "drain_buffer u fuel s = (Ok r, st')" using Suc.prems(2) True True' c by (simp add: bindP_def gets_def)
      ultimately show ?thesis using Suc.IH [of fs s] d(1) undisturbed_trans by blast
    next
      case False
      with d(3) obtain f gs where f: "fs = f # gs" "g = received u f" "flow u gs later s" "boundary gs (buffered s @ later) s" by blast
      show ?thesis
      proof (cases "is_heartbeat f")
        case hb: True
        let ?s = "amqp_maybe_release_buffers_on_channel 0 s"
        have "drain_buffer u fuel ?s = (Ok r, st')"
          using Suc.prems(2) True c f(2) hb by (simp add: bindP_def gets_def modify_def)
        with Suc.IH [OF flow_release [OF f(3,4)]] d(1) release_keeps(2) [of s 0] hb f(1) show ?thesis
          using undisturbed_trans by (auto split: option.splits)
      next
        case no: False
        then have "r = Some g" "st' = s" using Suc.prems(2) True c f(2) False by (simp_all add: bindP_def gets_def ret_def)
        then show ?thesis using f no d(1) by (simp add: flow_def)
      qed
    qed
  qed
qed simp


section \<open>Waiting\<close>

text \<open>
  Without heartbeats. With them the bytes of a frame can be lost: \<^verbatim>\<open>wait_frame_inner\<close> sends a heartbeat between draining
  the buffer and reading, that sending may itself read from the socket and leave bytes in the buffer, and the next read
  replaces what the buffer holds.
\<close>

definition quiet :: "amqp_connection_state_t \<Rightarrow> bool" where
  "quiet st \<longleftrightarrow> heartbeat st = 0 \<and> next_send_heartbeat st = amqp_time_infinite \<and> next_recv_heartbeat st = amqp_time_infinite"

definition streaming :: "unspecified \<Rightarrow> amqp_frame_t list \<Rightarrow> net \<Rightarrow> bool" where
  "streaming u fs w \<longleftrightarrow> net_inv w \<and> quiet (conn w) \<and> flow u fs (incoming (recvs w)) (conn w)"

definition at_rest :: "amqp_frame_t list \<Rightarrow> net \<Rightarrow> bool" where
  "at_rest fs w \<longleftrightarrow> net_inv w \<and> quiet (conn w) \<and> boundary fs (buffered (conn w) @ incoming (recvs w)) (conn w)"

lemma at_rest_streaming: "at_rest fs w \<Longrightarrow> streaming u fs w"
  by (simp add: at_rest_def streaming_def flow_def coming_def net_inv_def)

lemma arrived_shift: "arrived bs n d st =
    shift (bs @ drop (length bs) (sock_inbound_buffer st)) (length bs) 0 n d st"
  by (simp add: arrived_def shift_def)

lemma ticks_shift: "st\<lparr>ticks := n\<rparr> =
    shift (sock_inbound_buffer st) (sock_inbound_limit st) (sock_inbound_offset st) n (next_recv_heartbeat st) st"
  by (simp add: shift_def)

lemma recv_until_delivers:
  assumes w: "streaming u fs w" "buffered (conn w) = []" and run: "recv_until t w = (Ok got, w')"
  shows "streaming u fs w'" and "first_queued_frame (conn w') = first_queued_frame (conn w)" and "got \<or> buffered (conn w') = []"
proof -
  have "net_at (pending w) (length (sends w)) w" using w(1) by (simp add: streaming_def flip: net_inv_at)
  with nsoundD [OF nsound_recv_until, of "pending w" "length (sends w)" w _ _ t] run have inv: "net_inv w'"
    by (auto simp: sooner_def intro: net_at_inv)
  then have io: "io_inv (conn w')" by (simp add: net_inv_def)
  have c: "coming u fs (incoming (recvs w)) (conn w)" and hb: "quiet (conn w)"
    using w by (simp_all add: streaming_def flow_def)
  obtain r w1 where recv: "recv_with_timeout t w = (r, w1)" by fastforce
  consider (data) "r = Ok ()" "got" "w' = w1" | (timeout) "r = Err AMQP_STATUS_TIMEOUT" "\<not> got" "w' = w1"
    using run recv by (cases r) (auto simp: recv_until_def on_status_def bindP_def ret_def throw_def split: if_splits)
  then have "streaming u fs w' \<and> first_queued_frame (conn w') = first_queued_frame (conn w) \<and> (got \<or> buffered (conn w') = [])"
  proof cases
    case data
    from recv_stream [OF recv [unfolded data(1)]] obtain bs n d where
      bs: "incoming (recvs w) = bs @ incoming (recvs w')" "conn w' = arrived bs n d (conn w)"
        "heartbeat (conn w) = 0 \<longrightarrow> d = amqp_time_infinite" unfolding data(3) by metis
    have "coming u fs (buffered (conn w') @ incoming (recvs w')) (conn w')"
      using coming_shift [OF c] bs by (simp add: buffered_arrived) (simp add: arrived_shift)
    moreover have "quiet (conn w')" using hb bs(2,3) by (simp add: quiet_def arrived_def)
    ultimately show ?thesis using inv io bs(2) data(2) by (simp add: streaming_def flow_def) (simp add: arrived_def)
  next
    case timeout
    from recv_loop_timeout [of _ t w w1] recv timeout(1) obtain n where n: "conn w' = (conn w)\<lparr>ticks := n\<rparr>"
      "incoming (recvs w') = incoming (recvs w)" unfolding recv_with_timeout_def timeout(3) by blast
    have "coming u fs (incoming (recvs w)) ((conn w)\<lparr>ticks := n\<rparr>)" unfolding ticks_shift by (rule coming_shift [OF c])
    then show ?thesis using inv io hb n w(2) by (simp add: streaming_def flow_def quiet_def)
  qed
  then show "streaming u fs w'" "first_queued_frame (conn w') = first_queued_frame (conn w)" "got \<or> buffered (conn w') = []" by simp_all
qed

lemma send_no_heartbeat: "next_send_heartbeat (conn w) = amqp_time_infinite \<Longrightarrow> send_heartbeat u w = (Ok (), w)"
  by (simp add: send_heartbeat_def has_past_def on_conn_def bindP_def ret_def amqp_time_infinite_def amqp_time_has_past_def)

lemma wait_loop_delivers:
  assumes "streaming u fs w" and "drain \<or> buffered (conn w) = []" and "wait_loop u fuel t drain w = (Ok g, w')"
  shows "\<exists>f gs. dropWhile is_heartbeat fs = f # gs \<and> g = received u f \<and> at_rest gs w'
    \<and> first_queued_frame (conn w') = first_queued_frame (conn w)"
  using assms
proof (induction fuel arbitrary: fs w drain)
  case (Suc fuel)
  obtain r w1 where head: "(if drain then on_conn (\<lambda>st. drain_buffer u (Suc (length (buffered st))) st) else ret None) w = (Ok r, w1)"
    using Suc.prems(3) by (auto simp: bindP_def split: prod.splits outcome.splits)
  have "first_queued_frame (conn w1) = first_queued_frame (conn w) \<and> (case r of
      None \<Rightarrow> \<exists>gs. dropWhile is_heartbeat gs = dropWhile is_heartbeat fs \<and> streaming u gs w1 \<and> buffered (conn w1) = []
    | Some g \<Rightarrow> \<exists>f gs. dropWhile is_heartbeat fs = f # gs \<and> g = received u f \<and> at_rest gs w1)"
  proof (cases drain)
    case True
    then obtain st where st: "drain_buffer u (Suc (length (buffered (conn w)))) (conn w) = (Ok r, st)" "w1 = w\<lparr>conn := st\<rparr>"
      using head by (auto simp: on_conn_def split: prod.splits simp del: drain_buffer.simps)
    have "flow u fs (incoming (recvs w)) (conn w)" using Suc.prems(1) by (simp add: streaming_def)
    from drain_delivers [OF this st(1)] show ?thesis
      using Suc.prems(1) st(2) by (auto simp: streaming_def at_rest_def quiet_def undisturbed_def net_inv_def flow_def split: option.splits)
  next
    case False
    then show ?thesis using head Suc.prems(1,2) by (auto simp: ret_def)
  qed
  then have queue: "first_queued_frame (conn w1) = first_queued_frame (conn w)"
    and none: "r = None \<Longrightarrow> \<exists>gs. dropWhile is_heartbeat gs = dropWhile is_heartbeat fs \<and> streaming u gs w1 \<and> buffered (conn w1) = []"
    and some: "\<And>g. r = Some g \<Longrightarrow> \<exists>f gs. dropWhile is_heartbeat fs = f # gs \<and> g = received u f \<and> at_rest gs w1" by auto
  show ?case
  proof (cases r)
    case (Some g')
    then have "g' = g" "w1 = w'" using Suc.prems(3) head by (auto simp: bindP_def ret_def)
    with some [OF Some] queue show ?thesis by auto
  next
    case None
    from none [OF this] obtain gs where gs: "dropWhile is_heartbeat gs = dropWhile is_heartbeat fs" "streaming u gs w1" "buffered (conn w1) = []" by blast
    let ?again = "wait_loop u fuel t"
    have "receive_more u ?again t w1 = (Ok g, w')" using Suc.prems(3) head None by (simp add: bindP_def)
    moreover have "send_heartbeat u w1 = (Ok (), w1)" using gs(2) by (intro send_no_heartbeat) (simp add: streaming_def quiet_def)
    ultimately obtain d got w2 where recv: "recv_until d w1 = (Ok got, w2)"
      and rest: "(if got then ?again True else timed_out ?again t d) w2 = (Ok g, w')"
      by (auto simp: receive_more_def bindP_def read_conn_def split: prod.splits outcome.splits)
    note d = recv_until_delivers [OF gs(2,3) recv]
    from rest have "?again got w2 = (Ok g, w')"
      by (auto simp: timed_out_def bindP_def read_conn_def throw_def split: if_splits prod.splits outcome.splits)
    from Suc.IH [OF d(1) d(3) this] d(2) queue gs(1) show ?thesis by simp
  qed
qed (simp add: still_waiting_def)


lemma wait_frame_delivery:
  assumes "at_rest fs w" and "wait_frame_inner u t w = (Ok g, w')"
  shows "\<exists>f gs. dropWhile is_heartbeat fs = f # gs \<and> g = received u f \<and> at_rest gs w'
    \<and> first_queued_frame (conn w') = first_queued_frame (conn w)"
  using wait_loop_delivers [OF at_rest_streaming [OF assms(1)] _ assms(2) [unfolded wait_frame_inner_def]] by simp

section \<open>Keeping frames for later\<close>

lemma heap_realloc_grant: "heap_realloc p n h = (r, h') \<Longrightarrow> h_grant h' = h_grant h"
  by (auto simp: heap_realloc_def heap_free_grant dest: heap_malloc_grant split: prod.splits option.splits)

lemma record_grant: "record_pool_block x b h = (r, x', h') \<Longrightarrow> h_grant h' = h_grant h"
  by (auto simp: record_pool_block_def Let_def dest: heap_malloc_grant heap_realloc_grant split: prod.splits option.splits)

lemma take_page_grant: "pool_take_page n (p, h) = (r, p', h') \<Longrightarrow> h_grant h' = h_grant h"
  by (auto simp: pool_take_page_def Let_def dest!: heap_malloc_grant record_grant split: prod.splits option.splits if_splits bool.splits)

lemma amqp_pool_alloc_grant: "amqp_pool_alloc n (p, h) = (r, p', h') \<Longrightarrow> h_grant h' = h_grant h"
  by (auto simp: amqp_pool_alloc_def Let_def heap_free_grant dest!: heap_malloc_grant record_grant take_page_grant
      split: prod.splits option.splits if_splits bool.splits)

lemma pool_alloc_grant: "pool_alloc n s = (r, s') \<Longrightarrow> h_grant (dheap s') = h_grant (dheap s)"
  by (auto simp: pool_alloc_def dest: amqp_pool_alloc_grant split: prod.splits)

lemma with_pool_generous_alloc:
  "with_pool c (pool_alloc n) st = (r, st') \<Longrightarrow> generous (conn_heap st) \<Longrightarrow> generous (conn_heap st')"
  by (auto simp: with_pool_def on_pool_def generous_def dest!: pool_alloc_grant split: prod.splits option.splits)

lemma channel_pool_keeps_generous: "channel_pool c st = (r, st') \<Longrightarrow> generous (conn_heap st) \<Longrightarrow> generous (conn_heap st')"
  by (auto simp: channel_pool_def dest: generous_create(2) split: prod.splits option.splits)

lemma frame_link_generous: "frame_link n m f st = (r, st') \<Longrightarrow> generous (conn_heap st) \<Longrightarrow> generous (conn_heap st')"
  unfolding frame_link_def
  by (auto simp: bindP_def ret_def throw_def split: prod.splits outcome.splits if_splits
      dest!: channel_pool_keeps_generous with_pool_generous_alloc)

lemma enqueue_at_rest:
  assumes w: "at_rest fs w" and run: "on_conn (enqueue f) w = (Ok (), w')"
  shows "at_rest fs w'" and "first_queued_frame (conn w') = first_queued_frame (conn w) @ [f]"
proof -
  let ?st = "conn w"
  have st: "io_inv ?st" "generous (conn_heap ?st)" using w by (simp_all add: at_rest_def net_inv_def boundary_def)
  obtain r t h where link: "frame_link sizeof_frame sizeof_link f ?st = (r, ?st\<lparr>pool_table := t, conn_heap := h\<rparr>)"
    "memory_inv (?st\<lparr>pool_table := t, conn_heap := h\<rparr>)" by (rule frame_link_run [OF io_inv_memory [OF st(1)]])
  have g: "generous h" using frame_link_generous [OF link(1) st(2)] by simp
  let ?s = "?st\<lparr>pool_table := t, conn_heap := h, first_queued_frame := first_queued_frame ?st @ [f]\<rparr>"
  have w': "w' = w\<lparr>conn := ?s\<rparr>"
    using run link(1) by (cases r) (auto simp: on_conn_def enqueue_def append_frame_def bindP_def modify_def)
  then show "first_queued_frame (conn w') = first_queued_frame (conn w) @ [f]" by simp
  have "io_inv (?st\<lparr>pool_table := t, conn_heap := h\<rparr>\<lparr>first_queued_frame := first_queued_frame ?st @ [f]\<rparr>)"
    by (rule io_inv_updates(4) [OF io_inv_pools [OF st(1) link(2)]])
  moreover have "buffered ?s = buffered ?st" by (rule buffered_cong) simp_all
  ultimately show "at_rest fs w'" using w g unfolding w'
    by (simp add: at_rest_def net_inv_def boundary_def quiet_def fitting_def io_inv_def)
qed


section \<open>Sending does not disturb\<close>

text \<open>Steps that only look at the clock and at the other parts of the script.\<close>

definition tkeeps :: "'a nprog \<Rightarrow> bool" where
  "tkeeps m \<longleftrightarrow> (\<forall>w r w'. m w = (r, w') \<longrightarrow> (\<exists>n. conn w' = (conn w)\<lparr>ticks := n\<rparr>) \<and> recvs w' = recvs w \<and> sock w' = sock w)"

lemma tkeepsI: "(\<And>w r w'. m w = (r, w') \<Longrightarrow> conn w' = conn w \<and> recvs w' = recvs w \<and> sock w' = sock w) \<Longrightarrow> tkeeps m"
  unfolding tkeeps_def by (metis amqp_connection_state_t.surjective amqp_connection_state_t.update_convs(28))

lemma tkeepsD:
  assumes "tkeeps m" and "m w = (r, w')"
  obtains n where "conn w' = (conn w)\<lparr>ticks := n\<rparr>" "recvs w' = recvs w" "sock w' = sock w"
  using assms unfolding tkeeps_def by blast

lemma tkeeps_bind:
  assumes "tkeeps m" and "\<And>x. tkeeps (k x)"
  shows "tkeeps (bindP m k)"
  unfolding tkeeps_def
proof (intro allI impI)
  fix w r w'
  assume run: "bindP m k w = (r, w')"
  obtain q w1 where m: "m w = (q, w1)" by fastforce
  from assms(1) m obtain n where n: "conn w1 = (conn w)\<lparr>ticks := n\<rparr>" "recvs w1 = recvs w" "sock w1 = sock w" by (rule tkeepsD)
  show "(\<exists>n. conn w' = (conn w)\<lparr>ticks := n\<rparr>) \<and> recvs w' = recvs w \<and> sock w' = sock w"
  proof (cases q)
    case (Ok x)
    with m run have "k x w1 = (r, w')" by (simp add: bindP_def)
    with assms(2) obtain j where "conn w' = (conn w1)\<lparr>ticks := j\<rparr>" "recvs w' = recvs w1" "sock w' = sock w1" by (rule tkeepsD)
    then show ?thesis using n by (auto intro!: exI [of _ j])
  qed (use m run n in \<open>auto simp: bindP_def intro!: exI [of _ n]\<close>)
qed

lemma tkeeps_simple: "tkeeps (ret x)" "tkeeps (throw e)" "tkeeps still_waiting" "tkeeps (amqp_tcp_socket_send buf)"
  by (rule tkeepsI, force simp: ret_def throw_def still_waiting_def amqp_tcp_socket_send_def
      split: option.splits if_splits prod.splits sock_result.splits)+

lemma tkeeps_do_poll: "tkeeps (do_poll res t)"
proof -
  have poll: "tkeeps (amqp_poll t)" unfolding tkeeps_def using amqp_poll_run by blast
  have same: "\<exists>n. conn w = (conn w)\<lparr>ticks := n\<rparr>" for w by (rule exI [of _ "ticks (conn w)"]) simp
  show ?thesis unfolding tkeeps_def
  proof (intro allI impI)
    fix w r w'
    assume "do_poll res t w = (r, w')"
    then have "amqp_poll t w = (r, w') \<or> w' = w" by (cases res) (auto simp: do_poll_def split: if_splits)
    then show "(\<exists>n. conn w' = (conn w)\<lparr>ticks := n\<rparr>) \<and> recvs w' = recvs w \<and> sock w' = sock w"
      using poll same unfolding tkeeps_def by blast
  qed
qed

lemma tkeeps_try_send: "tkeeps (try_send fuel whole left t)"
proof (induction fuel arbitrary: left)
  case (Suc fuel)
  have again: "tkeeps (bindP (do_poll res t) (\<lambda>status.
      if status = AMQP_STATUS_OK then try_send fuel whole left t
      else if status = AMQP_STATUS_TIMEOUT then ret (whole - length left) else throw status))" for res left
    by (rule tkeeps_bind [OF tkeeps_do_poll]) (auto intro: tkeeps_simple Suc)
  show ?case unfolding try_send.simps Let_def
    by (rule tkeeps_bind [OF tkeeps_simple(4)]) (auto intro: tkeeps_simple Suc again [of _ "[]", simplified] again split: sock_result.splits)
qed (simp add: tkeeps_simple)

lemma send_quiet:
  assumes q: "quiet (conn w)" and run: "send_encoded u fuel encoded amqp_time_infinite w = (Ok (), w')"
  shows "\<exists>n. conn w' = (conn w)\<lparr>ticks := n, next_send_heartbeat := amqp_time_infinite\<rparr> \<and> recvs w' = recvs w \<and> sock w' = sock w"
proof -
  have first: "amqp_time_first amqp_time_infinite (next_recv_heartbeat (conn w)) = amqp_time_infinite"
    using q by (simp add: quiet_def amqp_time_first_def)
  obtain k where fuel: "fuel = Suc k" using run by (cases fuel) (simp_all add: still_waiting_def)
  obtain sent w1 where send: "amqp_try_send encoded amqp_time_infinite w = (Ok sent, w1)"
    using run first by (auto simp: fuel Let_def bindP_read bindP_def [of "amqp_try_send _ _"] split: prod.splits outcome.splits)
  have "tkeeps (amqp_try_send encoded amqp_time_infinite)"
    unfolding amqp_try_send_def tkeeps_def using tkeeps_try_send unfolding tkeeps_def by blast
  from this send obtain n where n: "conn w1 = (conn w)\<lparr>ticks := n\<rparr>" "recvs w1 = recvs w" "sock w1 = sock w" by (rule tkeepsD)
  have "bindP (read_conn amqp_heartbeat_send) (\<lambda>secs.
      on_conn (set_deadline next_send_heartbeat_update next_send_heartbeat secs)) w1 = (Ok (), w')"
    using run first send
    by (auto simp: fuel Let_def bindP_read bindP_def [of "amqp_try_send _ _"] amqp_time_equal_def throw_def split: if_splits)
  then have "w' = w1\<lparr>conn := (conn w1)\<lparr>next_send_heartbeat := amqp_time_infinite\<rparr>\<rparr>"
    using q n(1) by (simp add: bindP_read on_conn_def set_deadline_def amqp_heartbeat_send_def quiet_def amqp_time_s_from_now_def)
  then show ?thesis using n by (intro exI [of _ n]) simp
qed

lemma send_at_rest:
  assumes w: "at_rest fs w" and f: "sendable f (conn w)" and run: "amqp_send_frame_inner u f amqp_time_infinite w = (Ok (), w')"
  shows "at_rest fs w'" and "first_queued_frame (conn w') = first_queued_frame (conn w)"
proof -
  have inv: "io_inv (conn w)" "quiet (conn w)" using w by (simp_all add: at_rest_def net_inv_def)
  from encode_frame_run [OF inv(1) f] run obtain mem where e: "encode_frame f (conn w) = (Ok (ser_frame f), (conn w)\<lparr>outbound_mem := mem\<rparr>)"
    "length mem = length (outbound_mem (conn w))"
    by (auto simp: amqp_send_frame_inner_def bindP_def on_conn_def)
  let ?w = "w\<lparr>conn := (conn w)\<lparr>outbound_mem := mem\<rparr>\<rparr>"
  have "quiet (conn ?w)" using inv(2) by (simp add: quiet_def)
  moreover have "send_encoded u (Suc (length (sends w))) (ser_frame f) amqp_time_infinite ?w = (Ok (), w')"
    using run e(1) by (simp add: amqp_send_frame_inner_def bindP_def on_conn_def del: send_encoded.simps)
  ultimately obtain n where n: "conn w' = (conn w)\<lparr>outbound_mem := mem, ticks := n, next_send_heartbeat := amqp_time_infinite\<rparr>"
    "recvs w' = recvs w" "sock w' = sock w" using send_quiet by fastforce
  let ?s = "(conn w)\<lparr>outbound_mem := mem, ticks := n, next_send_heartbeat := amqp_time_infinite\<rparr>"
  have "io_inv ?s" using inv(1) e(2) by (intro io_inv_updates) (simp_all add: io_inv_updates)
  moreover have "buffered ?s = buffered (conn w)" by (rule buffered_cong) simp_all
  ultimately show "at_rest fs w'" using w n by (simp add: at_rest_def net_inv_def boundary_def quiet_def fitting_def io_inv_def)
  show "first_queued_frame (conn w') = first_queued_frame (conn w)" using n by simp
qed

lemma rpc_loop_delivery:
  assumes "at_rest fs w" and "rpc_loop u fuel c ids t w = (Ok r, w')"
  shows "\<exists>before f gs. fs = before @ f # gs \<and> \<not> is_heartbeat f
    \<and> (\<forall>k \<in> set before. is_heartbeat k \<or> \<not> concerns c ids (received u k)) \<and> concerns c ids (received u f)
    \<and> r = reply_of ids (received u f) \<and> at_rest gs w'
    \<and> first_queued_frame (conn w') = first_queued_frame (conn w) @ map (received u) (filter (\<lambda>k. \<not> is_heartbeat k) before)"
  using assms
proof (induction fuel arbitrary: fs w)
  case (Suc fuel)
  obtain g w1 where wait: "wait_frame_inner u t w = (Ok g, w1)"
    and rest: "(if \<not> concerns c ids g then bindP (on_conn (enqueue g)) (\<lambda>_. rpc_loop u fuel c ids t) else ret (reply_of ids g)) w1 = (Ok r, w')"
    using Suc.prems(2) by (cases "wait_frame_inner u t w"; cases "fst (wait_frame_inner u t w)")
      (auto simp: bindP_def on_status_def throw_def split: if_splits prod.splits outcome.splits)
  from wait_frame_delivery [OF Suc.prems(1) wait] obtain f gs where
    f: "dropWhile is_heartbeat fs = f # gs" "g = received u f" "at_rest gs w1" "first_queued_frame (conn w1) = first_queued_frame (conn w)" by blast
  let ?hs = "takeWhile is_heartbeat fs"
  have fs: "fs = ?hs @ f # gs" using takeWhile_dropWhile_id [of is_heartbeat fs] f(1) by simp
  have no: "\<not> is_heartbeat f" using hd_dropWhile [of is_heartbeat fs] f(1) by simp
  have hs: "\<forall>h \<in> set ?hs. is_heartbeat h" by (auto dest: set_takeWhileD)
  then have none: "filter (\<lambda>k. \<not> is_heartbeat k) ?hs = []" by (simp add: filter_empty_conv)
  show ?case
  proof (cases "concerns c ids g")
    case True
    then have "r = reply_of ids g" "w' = w1" using rest by (simp_all add: ret_def)
    then show ?thesis
      by (intro exI [of _ ?hs] exI [of _ f] exI [of _ gs] conjI) (use fs no hs none True f(2-4) in simp_all)
  next
    case False
    then obtain w2 where q: "on_conn (enqueue g) w1 = (Ok (), w2)" and more: "rpc_loop u fuel c ids t w2 = (Ok r, w')"
      using rest by (auto simp: bindP_def split: prod.splits outcome.splits)
    note e = enqueue_at_rest [OF f(3) q]
    from Suc.IH [OF e(1) more] obtain before f' gs' where b: "gs = before @ f' # gs'" "\<not> is_heartbeat f'"
      "\<forall>k \<in> set before. is_heartbeat k \<or> \<not> concerns c ids (received u k)" "concerns c ids (received u f')"
      "r = reply_of ids (received u f')" "at_rest gs' w'"
      "first_queued_frame (conn w') = first_queued_frame (conn w2) @ map (received u) (filter (\<lambda>k. \<not> is_heartbeat k) before)" by blast
    have "\<forall>k \<in> set (?hs @ f # before). is_heartbeat k \<or> \<not> concerns c ids (received u k)"
      using hs b(3) False unfolding f(2) set_append list.set by blast
    moreover have "first_queued_frame (conn w') = first_queued_frame (conn w)
        @ map (received u) (filter (\<lambda>k. \<not> is_heartbeat k) (?hs @ f # before))"
      using b(7) e(2) f(2,4) none no by simp
    moreover have "fs = (?hs @ f # before) @ f' # gs'" using fs b(1) by simp
    ultimately show ?thesis using b(2,4-6) by blast
  qed
qed (simp add: still_waiting_def)

section \<open>Frames that are there are delivered\<close>

lemma coming_runs:
  assumes coming: "coming u fs (xs @ ys) st" and xs: "xs \<noteq> []"
  shows "\<exists>n g st'. amqp_handle_input u xs st = (Ok (n, g), st')"
proof -
  have "fs \<noteq> []" using coming coming_empty xs by fastforce
  then have "inside u fs (xs @ ys) st" using coming boundary_inside by (cases fs) (auto simp: coming_def)
  then obtain f m s where inv: "assembly_inv st" and wf: "wf_frame f" and whole: "amqp_handle_input u (xs @ ys) st = (Ok (m, received u f), s)"
    by (auto simp: inside_def)
  show ?thesis by (cases rule: next_piece [OF inv xs whole wf_frame_type [OF wf]]) blast+
qed

lemma drain_runs:
  assumes "flow u fs later st" and "length (buffered st) < fuel"
  shows "\<exists>r st'. drain_buffer u fuel st = (Ok r, st')"
  using assms
proof (induction fuel arbitrary: st fs)
  case (Suc fuel)
  show ?case
  proof (cases "amqp_data_in_buffer st")
    case True
    have c: "coming u fs (buffered st @ later) st" and io: "io_inv st" using Suc.prems(1) by (simp_all add: flow_def)
    have ne: "buffered st \<noteq> []"
      using True io length_buffered [of st] by (auto simp: amqp_data_in_buffer_def io_inv_def)
    from coming_runs [OF c ne] obtain n g s where "amqp_handle_input u (buffered st) st = (Ok (n, g), s)" by blast
    then obtain st1 where one: "consume_one_frame u st = (Ok g, st1)" by (simp add: consume_one_frame_run)
    note d = consume_delivers [OF Suc.prems(1) True one]
    have less: "length (buffered st1) < fuel" using d(2) Suc.prems(2) by simp
    show ?thesis
    proof (cases "is_heartbeat g")
      case hb: True
      with d(3) obtain gs where gs: "flow u gs later st1" "boundary gs (buffered st1 @ later) st1" by auto
      from Suc.IH [OF flow_release [OF gs, of 0]] less release_keeps(1) [of 0 st1] obtain r st' where
        "drain_buffer u fuel (amqp_maybe_release_buffers_on_channel 0 st1) = (Ok r, st')" by auto
      then show ?thesis using True one hb by (simp add: bindP_def gets_def modify_def)
    next
      case no: False
      show ?thesis
      proof (cases "frame_type g = 0")
        case zero: True
        with d(3) have "flow u fs later st1" by (auto dest: wf_frame_type [of _ u])
        from Suc.IH [OF this less] show ?thesis using True one zero by (auto simp: bindP_def gets_def)
      qed (use True one no in \<open>simp add: bindP_def gets_def ret_def\<close>)
    qed
  qed (simp add: bindP_def gets_def ret_def)
qed simp

text \<open>
  A system that has bytes to hand out as long as there are any: a call of \<^verbatim>\<open>recv\<close> may be interrupted or would block, but it
  does not fail, and the peer does not close the connection.
\<close>

fun willing :: "recv_result list \<Rightarrow> bool" where
  "willing [] = True"
| "willing (Recv_bytes bs # rs) = (bs \<noteq> [] \<and> willing rs)"
| "willing (Recv_interrupted # rs) = willing rs"
| "willing (Recv_again # rs) = willing rs"
| "willing (Recv_failed # rs) = False"

text \<open>For each receive that would block there is a poll that reports data; polls may be interrupted, but do not fail.\<close>

definition answered :: "recv_result list \<Rightarrow> poll_result list \<Rightarrow> bool" where
  "answered rs ps \<longleftrightarrow> set ps \<subseteq> {Poll_ready, Poll_interrupted} \<and> count_list rs Recv_again \<le> count_list ps Poll_ready"

text \<open>A peer that is reached before the deadline: if the caller has to wait at all, then without a deadline.\<close>

definition reachable_peer :: "amqp_time_t \<Rightarrow> net \<Rightarrow> bool" where
  "reachable_peer deadline w \<longleftrightarrow> willing (recvs w) \<and> (\<exists>fd. sock w = Some fd \<and> fd \<noteq> - 1) \<and> 0 < length (sock_inbound_buffer (conn w))
     \<and> (Recv_again \<in> set (recvs w) \<longrightarrow> deadline = amqp_time_infinite \<and> answered (recvs w) (polls w))"

lemma willing_recv:
  assumes "willing rs" and "incoming rs \<noteq> []" and "0 < n"
  obtains (data) bs rs' where "tcp_recv n rs = Some (Done bs, rs')" "willing rs'" "count_list rs' Recv_again \<le> count_list rs Recv_again"
  | (again) rs' where "tcp_recv n rs = Some (Need_read, rs')" "willing rs'" "incoming rs' = incoming rs"
      "count_list rs Recv_again = Suc (count_list rs' Recv_again)" "length rs' < length rs"
proof -
  have "0 < n \<Longrightarrow> willing rs \<Longrightarrow> incoming rs \<noteq> [] \<Longrightarrow>
      (\<exists>bs rs'. tcp_recv n rs = Some (Done bs, rs') \<and> willing rs' \<and> count_list rs' Recv_again \<le> count_list rs Recv_again)
    \<or> (\<exists>rs'. tcp_recv n rs = Some (Need_read, rs') \<and> willing rs' \<and> incoming rs' = incoming rs
        \<and> count_list rs Recv_again = Suc (count_list rs' Recv_again) \<and> length rs' < length rs)"
    by (induction n rs rule: tcp_recv.induct) (auto simp: less_Suc_eq)
  then show ?thesis using assms that by blast
qed

lemma poll_loop_answers:
  "set ps \<subseteq> {Poll_ready, Poll_interrupted} \<Longrightarrow> 0 < count_list ps Poll_ready \<Longrightarrow>
    \<exists>ps'. poll_loop ps amqp_time_infinite st = (Ok (AMQP_STATUS_OK, ps'), st) \<and> set ps' \<subseteq> {Poll_ready, Poll_interrupted}
      \<and> count_list ps Poll_ready = Suc (count_list ps' Poll_ready)"
proof (induction ps)
  case (Cons p ps)
  have left: "time_left_ms amqp_time_infinite st = (Ok (- 1), st)"
    by (simp add: time_left_ms_def amqp_time_infinite_def amqp_time_ms_until_def)
  show ?case
  proof (cases "p = Poll_ready")
    case True
    with Cons.prems left show ?thesis by (subst poll_loop.simps) (auto simp: bindP_def ret_def)
  next
    case False
    with Cons.prems have p: "p = Poll_interrupted" by auto
    have "poll_loop (p # ps) amqp_time_infinite st = poll_loop ps amqp_time_infinite st"
      using left p by (subst poll_loop.simps) (simp add: bindP_def del: poll_loop.simps)
    with Cons p show ?thesis by simp
  qed
qed simp

lemma poll_answers:
  assumes "answered rs (polls w)" and "count_list rs Recv_again = Suc (count_list rs' Recv_again)"
  obtains ps where "amqp_poll amqp_time_infinite w = (Ok AMQP_STATUS_OK, w\<lparr>polls := ps\<rparr>)" "answered rs' ps"
proof -
  from assms have ps: "set (polls w) \<subseteq> {Poll_ready, Poll_interrupted}" "0 < count_list (polls w) Poll_ready"
    "count_list rs Recv_again \<le> count_list (polls w) Poll_ready" by (simp_all add: answered_def)
  from poll_loop_answers [OF ps(1,2), of "conn w"] obtain ps where
    "poll_loop (polls w) amqp_time_infinite (conn w) = (Ok (AMQP_STATUS_OK, ps), conn w)"
    "set ps \<subseteq> {Poll_ready, Poll_interrupted}" "count_list (polls w) Poll_ready = Suc (count_list ps Poll_ready)" by blast
  with that [of ps] ps(3) assms(2) show ?thesis by (simp add: amqp_poll_def answered_def del: poll_loop.simps)
qed

lemma count_again: "Recv_again \<in> set rs \<longleftrightarrow> 0 < count_list rs Recv_again"
  using count_list_0_iff [of rs Recv_again] by auto

lemma recv_loop_runs:
  assumes "reachable_peer t w" and "quiet (conn w)" and "incoming (recvs w) \<noteq> []" and "length (recvs w) < fuel"
  shows "\<exists>w'. recv_loop fuel t w = (Ok (), w') \<and> reachable_peer t w'"
  using assms
proof (induction fuel arbitrary: w)
  case (Suc fuel)
  let ?n = "length (sock_inbound_buffer (conn w))"
  obtain fd where fd: "sock w = Some fd" "fd \<noteq> - 1" and n: "0 < ?n" and will: "willing (recvs w)"
    and wait: "Recv_again \<in> set (recvs w) \<Longrightarrow> t = amqp_time_infinite \<and> answered (recvs w) (polls w)"
    using Suc.prems(1) by (auto simp: reachable_peer_def)
  show ?case
  proof (cases rule: willing_recv [OF will Suc.prems(3) n])
    case (1 bs rs)
    let ?st = "store_received bs (conn w)"
    let ?w = "w\<lparr>recvs := rs, conn := ?st\<lparr>next_recv_heartbeat := amqp_time_infinite\<rparr>\<rparr>"
    have "amqp_heartbeat_recv ?st = 0" using Suc.prems(2) by (simp add: amqp_heartbeat_recv_def quiet_def store_received_def)
    then have "recv_loop (Suc fuel) t w = (Ok (), ?w)"
      using fd 1(1) by (simp add: bindP_def read_conn_def amqp_tcp_socket_recv_def on_conn_def modify_def
          set_deadline_def amqp_time_s_from_now_def)
    moreover have "reachable_peer t ?w"
      using fd 1(2,3) n wait by (auto simp: reachable_peer_def store_received_def count_again answered_def)
    ultimately show ?thesis by blast
  next
    case (2 rs)
    then have t: "t = amqp_time_infinite" and ans: "answered (recvs w) (polls w)" using wait by (simp_all add: count_again)
    let ?w = "w\<lparr>recvs := rs\<rparr>"
    obtain ps where poll: "amqp_poll amqp_time_infinite ?w = (Ok AMQP_STATUS_OK, ?w\<lparr>polls := ps\<rparr>)" "answered rs ps"
      using poll_answers [of "recvs w" ?w rs] ans 2(4) by auto
    let ?w' = "?w\<lparr>polls := ps\<rparr>"
    have "amqp_tcp_socket_recv ?n w = (Ok Need_read, ?w)" using fd 2(1) by (simp add: amqp_tcp_socket_recv_def)
    moreover have "amqp_get_sockfd ?w \<noteq> - 1" using fd by (simp add: amqp_get_sockfd_def)
    ultimately have "recv_loop (Suc fuel) t w = recv_loop fuel t ?w'"
      using poll(1) t by (simp add: bindP_def read_conn_def)
    moreover have "reachable_peer t ?w'" using fd n 2(2) t poll(2) by (simp add: reachable_peer_def)
    then have "\<exists>w'. recv_loop fuel t ?w' = (Ok (), w') \<and> reachable_peer t w'"
      by (rule Suc.IH) (use Suc.prems 2 in simp_all)
    ultimately show ?thesis by simp
  qed
qed simp

lemma length_recv_weight: "length rs \<le> recv_weight rs"
  by (induction rs) (auto simp: recv_weight_def split: recv_result.splits)

lemma recv_runs:
  assumes "reachable_peer t w" and "quiet (conn w)" and "incoming (recvs w) \<noteq> []"
  shows "\<exists>w'. recv_until t w = (Ok True, w') \<and> reachable_peer t w'"
proof -
  have "length (recvs w) < Suc (pending w)" using length_recv_weight [of "recvs w"] by (simp add: pending_def)
  from recv_loop_runs [OF assms this] show ?thesis
    by (auto simp: recv_until_def recv_with_timeout_def on_status_def bindP_def ret_def simp del: recv_loop.simps)
qed

lemma coming_data: "coming u fs data st \<Longrightarrow> fs \<noteq> [] \<Longrightarrow> data \<noteq> []"
  by (cases fs) (auto simp: coming_def boundary_def inside_def ser_frame_def frame_head_def)

lemma streaming_at: "streaming u fs w \<Longrightarrow> net_at (pending w) (length (sends w)) w"
  by (simp add: streaming_def flip: net_inv_at)

lemma wait_loop_runs:
  assumes "streaming u fs w" and "reachable_peer t w" and "dropWhile is_heartbeat fs \<noteq> []" and "pending w < fuel"
  shows "\<exists>g w'. wait_loop u fuel t True w = (Ok g, w') \<and> reachable_peer t w'"
  using assms
proof (induction fuel arbitrary: fs w)
  case (Suc fuel)
  have flow: "flow u fs (incoming (recvs w)) (conn w)" using Suc.prems(1) by (simp add: streaming_def)
  obtain r st where run: "drain_buffer u (Suc (length (buffered (conn w)))) (conn w) = (Ok r, st)"
    using drain_runs [OF flow lessI] by blast
  let ?w = "w\<lparr>conn := st\<rparr>"
  have head: "on_conn (\<lambda>st. drain_buffer u (Suc (length (buffered st))) st) w = (Ok r, ?w)"
    using run by (simp add: on_conn_def del: drain_buffer.simps)
  note d = drain_delivers [OF flow run]
  then have keep: "undisturbed (conn w) st" by blast
  then have peer: "reachable_peer t ?w" using Suc.prems(2) by (simp add: reachable_peer_def undisturbed_def)
  show ?case
  proof (cases r)
    case (Some g)
    then show ?thesis using head peer by (simp add: bindP_def ret_def)
  next
    case None
    with d obtain gs where gs: "dropWhile is_heartbeat gs = dropWhile is_heartbeat fs" "flow u gs (incoming (recvs w)) st" "buffered st = []"
      by auto
    have str: "streaming u gs ?w" using Suc.prems(1) gs(2) keep
      by (simp add: streaming_def undisturbed_def quiet_def net_inv_def flow_def)
    have "gs \<noteq> []" using gs(1) Suc.prems(3) by (metis dropWhile.simps(1))
    with gs(2,3) have "incoming (recvs ?w) \<noteq> []" using coming_data by (fastforce simp: flow_def)
    moreover have quiet: "quiet (conn ?w)" using str by (simp add: streaming_def)
    moreover have "amqp_time_first t (amqp_time_first (next_recv_heartbeat st) (next_send_heartbeat st)) = t"
      using quiet by (simp add: quiet_def)
    ultimately obtain w2 where recv: "recv_until (amqp_time_first t (amqp_time_first (next_recv_heartbeat st) (next_send_heartbeat st))) ?w = (Ok True, w2)"
      "reachable_peer t w2" using recv_runs [OF peer] by auto
    note r = recv_until_delivers [OF str _ recv(1)]
    have "net_at (pending ?w) (length (sends ?w)) ?w \<and> next_recv_heartbeat (conn ?w) = next_recv_heartbeat st
        \<and> next_send_heartbeat (conn ?w) = next_send_heartbeat st" using streaming_at [OF str] by simp
    from nsoundD [OF nsound_recv_until this] have "nsettles (\<lambda>_. sooner (pending ?w) (length (sends ?w))) (Ok True, w2)"
      unfolding recv(1) [symmetric] by (rule nsettles_mono) blast
    then have "pending w2 < pending ?w" by (simp add: sooner_def)
    moreover have "pending ?w \<le> pending w" using gs(3) by (simp add: pending_def)
    ultimately have less: "pending w2 < fuel" using Suc.prems(4) by simp
    have "streaming u gs w2" using r(1) gs(3) by simp
    from Suc.IH [OF this recv(2) _ less] gs(1) Suc.prems(3) obtain g w' where "wait_loop u fuel t True w2 = (Ok g, w') \<and> reachable_peer t w'" by auto
    moreover have "send_heartbeat u ?w = (Ok (), ?w)" using quiet by (intro send_no_heartbeat) (simp add: quiet_def)
    ultimately show ?thesis using head None recv(1) by (auto simp: bindP_def receive_more_def read_conn_def)
  qed
qed simp

section \<open>Theorems\<close>

text \<open>
  C2: Waiting delivers what the peer sent, on a connection whose heartbeats are switched off and whose requests for
  memory are granted: if the bytes that are buffered and those the system will hand out, in pieces of any
  size, are the encodings of well-formed frames that fit the negotiated size, then a frame that is returned is the first of them that is no heartbeat,
  and what remains are the encodings of the frames behind it. If there is such a frame and the peer is
  reachable, then it is returned: no receive fails, though receives may be interrupted or would block, and if one
  would block then the caller has set no deadline and a poll reports data for each of them.
\<close>

theorem wait_frame_delivers:
  assumes "at_rest fs w"
  shows "case wait_frame_inner u deadline w of
      (Ok g, w') \<Rightarrow> \<exists>f gs. dropWhile is_heartbeat fs = f # gs \<and> g = received u f \<and> at_rest gs w'
        \<and> first_queued_frame (conn w') = first_queued_frame (conn w)
    | _ \<Rightarrow> dropWhile is_heartbeat fs = [] \<or> \<not> reachable_peer deadline w"
proof -
  obtain r w' where run: "wait_frame_inner u deadline w = (r, w')" by fastforce
  have "\<exists>g. r = Ok g" if "dropWhile is_heartbeat fs \<noteq> []" "reachable_peer deadline w"
    using wait_loop_runs [OF at_rest_streaming [OF assms, of u] that(2,1) lessI] run
    unfolding wait_frame_inner_def by (auto simp del: wait_loop.simps)
  with wait_frame_delivery [OF assms, of u deadline _ w'] run show ?thesis by (cases r) auto
qed

text \<open>
  C5: A remote procedure call, on a connection whose heartbeats are switched off and whose requests for memory are
  granted, with the bytes of well-formed frames to come: a call that does not end with an error of the library returns the first frame that
  concerns it, an expected reply or the closing of the channel or of the connection. The frames that came before it are kept in the queue behind those
  already there, in the order they came and without the heartbeats, and the frames after it are still to come.
\<close>

theorem simple_rpc_delivers:
  assumes "at_rest fs w" and "method_sendable m (conn w)"
  shows "case simple_rpc_inner u channel (method_number m) ids m deadline w of
      (Ok r, w') \<Rightarrow> reply_type r = AMQP_RESPONSE_LIBRARY_EXCEPTION \<or>
        (\<exists>before f gs. fs = before @ f # gs \<and> \<not> is_heartbeat f
          \<and> (\<forall>k \<in> set before. is_heartbeat k \<or> \<not> concerns channel ids (received u k)) \<and> concerns channel ids (received u f)
          \<and> r = reply_of ids (received u f) \<and> at_rest gs w'
          \<and> first_queued_frame (conn w') = first_queued_frame (conn w) @ map (received u) (filter (\<lambda>k. \<not> is_heartbeat k) before))
    | (Err e, w') \<Rightarrow> False
    | (Undefined, w') \<Rightarrow> malformed (raw_frame (conn w'))
    | (OutOfFuel, w') \<Rightarrow> waits w'"
proof -
  let ?f = "\<lparr>frame_type = FRAME_METHOD, frame_channel = channel, payload = Method (method_number m) m\<rparr>"
  have sendable: "sendable ?f (conn w)" using assms(2) by (auto simp: method_sendable_def sendable_def wf_frame_def)
  have at: "net_at (pending w) (length (sends w)) w \<and> method_sendable m (conn w)"
    using assms by (simp add: at_rest_def flip: net_inv_at)
  obtain r w' where run: "simple_rpc_inner u channel (method_number m) ids m deadline w = (r, w')" by fastforce
  have no_error: "r \<noteq> Err e" for e
    using run by (auto simp: simple_rpc_inner_def reply_error_def on_status_def ret_def split: prod.splits outcome.splits)
  from nsoundD [OF nsound_simple_rpc at, of u channel ids deadline] run have settles: "nsettles (replied (pending w) (length (sends w))) (r, w')" by simp
  show ?thesis
  proof (cases r)
    case (Ok x)
    have "\<exists>w1. amqp_send_frame_inner u ?f amqp_time_infinite w = (Ok (), w1) \<and> rpc_loop u (Suc (pending w1)) channel ids deadline w1 = (Ok x, w')"
      if "reply_type x \<noteq> AMQP_RESPONSE_LIBRARY_EXCEPTION"
      using run Ok that
      by (auto simp: simple_rpc_inner_def reply_error_def on_status_def ret_def amqp_rpc_reply_error_def bindP_def
        amqp_send_method_def amqp_send_method_inner_def split: prod.splits outcome.splits simp del: rpc_loop.simps)
    moreover have "\<exists>before f gs. fs = before @ f # gs \<and> \<not> is_heartbeat f
          \<and> (\<forall>k \<in> set before. is_heartbeat k \<or> \<not> concerns channel ids (received u k)) \<and> concerns channel ids (received u f)
          \<and> x = reply_of ids (received u f) \<and> at_rest gs w'
          \<and> first_queued_frame (conn w') = first_queued_frame (conn w) @ map (received u) (filter (\<lambda>k. \<not> is_heartbeat k) before)"
      if "amqp_send_frame_inner u ?f amqp_time_infinite w = (Ok (), w1)" "rpc_loop u (Suc (pending w1)) channel ids deadline w1 = (Ok x, w')" for w1
      using rpc_loop_delivery [OF send_at_rest(1) [OF assms(1) sendable that(1)] that(2)] send_at_rest(2) [OF assms(1) sendable that(1)] by simp
    ultimately show ?thesis unfolding run Ok prod.case outcome.case by blast
  qed (use run settles no_error in auto)
qed


section \<open>Instances\<close>

text \<open>A connection after the protocol header.\<close>

definition idle_net :: "recv_result list \<Rightarrow> send_result list \<Rightarrow> poll_result list \<Rightarrow> net" where
  "idle_net rs ss ps = (sample_net rs ss ps)\<lparr>conn := return_to_idle (first_connection sample_memory)\<rparr>"

lemma idle_connection:
  "io_inv (return_to_idle (first_connection u))" "quiet (return_to_idle (first_connection u))"
  "buffered (return_to_idle (first_connection u)) = []" "conn_inv (return_to_idle (first_connection u))"
  "length (sock_inbound_buffer (return_to_idle (first_connection u))) = 131072" "outbound_len (return_to_idle (first_connection u)) = 65536"
proof -
  show c: "conn_inv (return_to_idle (first_connection u))" by (rule return_to_idle_inv [OF first_connection(1)])
  show "io_inv (return_to_idle (first_connection u))"
    by (rule io_inv_same [OF first_connection_io c]) (simp add: same_io_def return_to_idle_def)
qed (simp_all add: quiet_def return_to_idle_def first_connection buffered_def)

lemma idle_net_at_rest:
  assumes "incoming rs = concat (map ser_frame fs)" and "\<And>f. f \<in> set fs \<Longrightarrow> wf_frame f \<and> length (ser_frame f) \<le> 65536"
  shows "at_rest fs (idle_net rs ss ps)"
proof -
  let ?st = "return_to_idle (first_connection sample_memory)"
  have "conn_state ?st = CONNECTION_STATE_IDLE" "generous (conn_heap ?st)" "frame_max ?st = 65536"
    using first_connection(3,4) [of sample_memory] by (simp_all add: return_to_idle_def)
  then show ?thesis using assms idle_connection [of sample_memory]
    by (auto simp: at_rest_def idle_net_def sample_net_def net_inv_def boundary_def fitting_def)
qed

lemma idle_net_peer: "willing rs \<Longrightarrow> Recv_again \<notin> set rs \<or> answered rs ps \<Longrightarrow> reachable_peer amqp_time_infinite (idle_net rs ss ps)"
  by (simp add: reachable_peer_def idle_net_def sample_net_def idle_connection)

definition ok_frame :: amqp_frame_t where
  "ok_frame = \<lparr>frame_type = FRAME_METHOD, frame_channel = 1, payload = Method AMQP_TX_SELECT_OK_METHOD amqp_tx_select_ok_t\<rparr>"

lemma ok_frame_wire: "ser_frame ok_frame = [1, 0, 1, 0, 0, 0, 4, 0, 90, 0, 11, 206]"
  by (simp add: ok_frame_def ser_frame_def frame_head_def ser8_def ser16_def ser32_def be_bytes_def upt_rec method_numbers)

lemma heartbeat_wire: "ser_frame heartbeat_frame = [8, 0, 0, 0, 0, 0, 0, 206]"
  by (simp add: heartbeat_frame_def ser_frame_def frame_head_def ser8_def ser16_def ser32_def be_bytes_def upt_rec)

lemma instance_frames: "f \<in> set [heartbeat_frame, ok_frame] \<Longrightarrow> wf_frame f \<and> length (ser_frame f) \<le> 65536"
  by (auto simp: ok_frame_wire heartbeat_wire simp del: length_ser_frame)
    (simp_all add: wf_frame_def heartbeat_frame_def ok_frame_def INT32_MAX_def method_numbers)

definition instance_script :: "recv_result list" where
  "instance_script = [Recv_bytes [8, 0, 0, 0, 0], Recv_interrupted, Recv_again, Recv_bytes [0, 0, 206, 1, 0, 1, 0], Recv_bytes [0, 0, 4, 0, 90, 0, 11, 206]]"

lemma instance_at_rest: "at_rest [heartbeat_frame, ok_frame] (idle_net instance_script ss ps)"
  by (rule idle_net_at_rest [OF _ instance_frames]) (simp_all add: instance_script_def ok_frame_wire heartbeat_wire)

lemma received_ok_frame: "received u ok_frame = ok_frame"
  by (simp add: received_def ok_frame_def)

theorem wait_frame_delivers_witness:
  "\<exists>w'. wait_frame_inner sample_memory amqp_time_infinite (idle_net instance_script [] [Poll_interrupted, Poll_ready]) = (Ok ok_frame, w') \<and> at_rest [] w'"
proof -
  have "dropWhile is_heartbeat [heartbeat_frame, ok_frame] = [ok_frame]" by (simp add: heartbeat_frame_def ok_frame_def)
  moreover have "reachable_peer amqp_time_infinite (idle_net instance_script [] [Poll_interrupted, Poll_ready])" by (rule idle_net_peer) (simp_all add: instance_script_def answered_def)
  ultimately show ?thesis
    using wait_frame_delivers [of "[heartbeat_frame, ok_frame]" "idle_net instance_script [] [Poll_interrupted, Poll_ready]" sample_memory amqp_time_infinite]
      instance_at_rest received_ok_frame [of sample_memory]
    by (auto split: prod.splits outcome.splits)
qed

theorem simple_rpc_delivers_witness:
  "case simple_rpc_inner sample_memory 1 (method_number amqp_tx_select_t) [AMQP_TX_SELECT_OK_METHOD, 0] amqp_tx_select_t amqp_time_infinite
      (idle_net instance_script [Send_accepts 100] []) of
      (Ok r, w') \<Rightarrow> reply_type r = AMQP_RESPONSE_LIBRARY_EXCEPTION \<or>
        (\<exists>before f gs. [heartbeat_frame, ok_frame] = before @ f # gs \<and> \<not> is_heartbeat f
          \<and> (\<forall>k \<in> set before. is_heartbeat k \<or> \<not> concerns 1 [AMQP_TX_SELECT_OK_METHOD, 0] (received sample_memory k))
          \<and> concerns 1 [AMQP_TX_SELECT_OK_METHOD, 0] (received sample_memory f)
          \<and> r = reply_of [AMQP_TX_SELECT_OK_METHOD, 0] (received sample_memory f) \<and> at_rest gs w'
          \<and> first_queued_frame (conn w') = first_queued_frame (conn (idle_net instance_script [Send_accepts 100] []))
            @ map (received sample_memory) (filter (\<lambda>k. \<not> is_heartbeat k) before))
    | (Err e, w') \<Rightarrow> False
    | (Undefined, w') \<Rightarrow> malformed (raw_frame (conn w'))
    | (OutOfFuel, w') \<Rightarrow> waits w'"
  by (rule simple_rpc_delivers [OF instance_at_rest])
    (simp add: method_sendable_def idle_net_def idle_connection INT32_MAX_def)

end
