(* ===== verification/Amqp_Consumer.thy ===== *)
theory Amqp_Consumer
  imports Amqp_Api Amqp_Delivery
begin

text \<open>
  The reading of messages, librabbitmq/amqp\_consumer.c: the copy of the properties, the assembly of the
  body from the frames of a channel, envelopes, and their release.

  The structures that the functions fill are returned; what a failed call leaves in the properties is not
  modelled. A message owns its pool and the block of its body.
\<close>

section \<open>The copy of the properties\<close>

definition clone_bytes_pool :: "byte list \<Rightarrow> (pool_state, byte list) prog" where
  "clone_bytes_pool original =
     (if original = [] then ret []
      else bindP (amqp_pool_alloc_bytes (length original)) (\<lambda>(n, p).
        case p of None \<Rightarrow> throw AMQP_STATUS_NO_MEMORY | Some _ \<Rightarrow> ret original))"

definition clone_field ::
  "amqp_flags_t \<Rightarrow> nat \<Rightarrow> (pool_state, 'a) prog \<Rightarrow> ('a \<Rightarrow> amqp_basic_properties_t) \<Rightarrow> amqp_basic_properties_t \<Rightarrow>
   (pool_state, amqp_basic_properties_t) prog" where
  "clone_field fl flag copy put clone = (if has_flag fl flag then bindP copy (\<lambda>x. ret (put x)) else ret clone)"

definition amqp_basic_properties_clone :: "amqp_basic_properties_t \<Rightarrow> (pool_state, amqp_basic_properties_t) prog" where
  "amqp_basic_properties_clone original =
     (let fl = flags original; c = default_properties\<lparr>flags := fl\<rparr> in
      bindP (clone_field fl AMQP_BASIC_CONTENT_TYPE_FLAG (clone_bytes_pool (content_type original)) (\<lambda>x. c\<lparr>content_type := x\<rparr>) c) (\<lambda>c.
      bindP (clone_field fl AMQP_BASIC_CONTENT_ENCODING_FLAG (clone_bytes_pool (content_encoding original)) (\<lambda>x. c\<lparr>content_encoding := x\<rparr>) c) (\<lambda>c.
      bindP (clone_field fl AMQP_BASIC_HEADERS_FLAG (amqp_table_clone (headers original)) (\<lambda>x. c\<lparr>headers := x\<rparr>) c) (\<lambda>c.
      bindP (clone_field fl AMQP_BASIC_DELIVERY_MODE_FLAG (ret (delivery_mode original)) (\<lambda>x. c\<lparr>delivery_mode := x\<rparr>) c) (\<lambda>c.
      bindP (clone_field fl AMQP_BASIC_PRIORITY_FLAG (ret (priority original)) (\<lambda>x. c\<lparr>priority := x\<rparr>) c) (\<lambda>c.
      bindP (clone_field fl AMQP_BASIC_CORRELATION_ID_FLAG (clone_bytes_pool (correlation_id original)) (\<lambda>x. c\<lparr>correlation_id := x\<rparr>) c) (\<lambda>c.
      bindP (clone_field fl AMQP_BASIC_REPLY_TO_FLAG (clone_bytes_pool (reply_to original)) (\<lambda>x. c\<lparr>reply_to := x\<rparr>) c) (\<lambda>c.
      bindP (clone_field fl AMQP_BASIC_EXPIRATION_FLAG (clone_bytes_pool (expiration original)) (\<lambda>x. c\<lparr>expiration := x\<rparr>) c) (\<lambda>c.
      bindP (clone_field fl AMQP_BASIC_MESSAGE_ID_FLAG (clone_bytes_pool (message_id original)) (\<lambda>x. c\<lparr>message_id := x\<rparr>) c) (\<lambda>c.
      bindP (clone_field fl AMQP_BASIC_TIMESTAMP_FLAG (ret (timestamp original)) (\<lambda>x. c\<lparr>timestamp := x\<rparr>) c) (\<lambda>c.
      bindP (clone_field fl AMQP_BASIC_TYPE_FLAG (clone_bytes_pool (message_type original)) (\<lambda>x. c\<lparr>message_type := x\<rparr>) c) (\<lambda>c.
      bindP (clone_field fl AMQP_BASIC_USER_ID_FLAG (clone_bytes_pool (user_id original)) (\<lambda>x. c\<lparr>user_id := x\<rparr>) c) (\<lambda>c.
      bindP (clone_field fl AMQP_BASIC_APP_ID_FLAG (clone_bytes_pool (app_id original)) (\<lambda>x. c\<lparr>app_id := x\<rparr>) c) (\<lambda>c.
      clone_field fl AMQP_BASIC_CLUSTER_ID_FLAG (clone_bytes_pool (cluster_id original)) (\<lambda>x. c\<lparr>cluster_id := x\<rparr>) c))))))))))))))"

section \<open>Messages and envelopes\<close>

text \<open>Bytes in a block of their own: the length, and the block with what it holds.\<close>

type_synonym owned_bytes = "nat \<times> (nat \<times> byte list) option"

record amqp_message_t =
  message_properties :: amqp_basic_properties_t
  message_body :: owned_bytes
  message_pool :: amqp_pool_t

record amqp_envelope_t =
  envelope_channel :: amqp_channel_t
  consumer_tag :: owned_bytes
  delivery_tag :: uint64
  redelivered :: bool
  envelope_exchange :: owned_bytes
  envelope_routing_key :: owned_bytes
  envelope_message :: amqp_message_t

definition no_message :: amqp_message_t where
  "no_message = \<lparr>message_properties = default_properties, message_body = (0, None),
     message_pool = \<lparr>pagesize = 0, pages = empty_blocks, large_blocks = empty_blocks, next_page = 0, alloc_block = None, alloc_used = 0\<rparr>\<rparr>"

definition no_envelope :: amqp_envelope_t where
  "no_envelope = \<lparr>envelope_channel = 0, consumer_tag = (0, None), delivery_tag = 0, redelivered = False,
     envelope_exchange = (0, None), envelope_routing_key = (0, None), envelope_message = no_message\<rparr>"

definition free_owned :: "owned_bytes \<Rightarrow> heap \<Rightarrow> heap" where
  "free_owned b = amqp_bytes_free (fst b, map_option fst (snd b))"

definition amqp_destroy_message :: "amqp_message_t \<Rightarrow> heap \<Rightarrow> heap" where
  "amqp_destroy_message message h =
     (case empty_amqp_pool (message_pool message) h of (_, h') \<Rightarrow> free_owned (message_body message) h')"

definition amqp_destroy_envelope :: "amqp_envelope_t \<Rightarrow> heap \<Rightarrow> heap" where
  "amqp_destroy_envelope envelope h =
     free_owned (consumer_tag envelope) (free_owned (envelope_exchange envelope) (free_owned (envelope_routing_key envelope)
       (amqp_destroy_message (envelope_message envelope) h)))"

definition amqp_bytes_malloc_dup_failed :: "owned_bytes \<Rightarrow> bool" where
  "amqp_bytes_malloc_dup_failed b \<longleftrightarrow> fst b \<noteq> 0 \<and> snd b = None"

section \<open>Reading a message\<close>

definition in_heap :: "(heap, 'a) prog \<Rightarrow> 'a nprog" where
  "in_heap m = on_conn (\<lambda>st. case m (conn_heap st) of (r, h) \<Rightarrow> (r, st\<lparr>conn_heap := h\<rparr>))"

definition change_heap :: "(heap \<Rightarrow> heap) \<Rightarrow> unit nprog" where
  "change_heap f = in_heap (\<lambda>h. (Ok (), f h))"

text \<open>A call whose status is looked at.\<close>

definition attempt :: "'a nprog \<Rightarrow> (amqp_status_enum \<Rightarrow> 'b nprog) \<Rightarrow> ('a \<Rightarrow> 'b nprog) \<Rightarrow> 'b nprog" where
  "attempt m f k = (\<lambda>w. case m w of
       (Ok x, w') \<Rightarrow> k x w' | (Err e, w') \<Rightarrow> f e w' | (Undefined, w') \<Rightarrow> (Undefined, w') | (OutOfFuel, w') \<Rightarrow> (OutOfFuel, w'))"

text \<open>The reply to a method frame that closes the channel or the connection.\<close>

definition closing_reply :: "amqp_frame_t \<Rightarrow> amqp_rpc_reply_t option" where
  "closing_reply frame = (case payload frame of
       Method mid decoded \<Rightarrow>
         if frame_type frame = FRAME_METHOD \<and> (mid = AMQP_CHANNEL_CLOSE_METHOD \<or> mid = AMQP_CONNECTION_CLOSE_METHOD)
         then Some \<lparr>reply_type = AMQP_RESPONSE_SERVER_EXCEPTION, reply = Some (mid, decoded), library_error = AMQP_STATUS_OK\<rparr>
         else None
     | _ \<Rightarrow> None)"

definition normal_reply :: amqp_rpc_reply_t where
  "normal_reply = \<lparr>reply_type = AMQP_RESPONSE_NORMAL, reply = None, library_error = AMQP_STATUS_OK\<rparr>"

text \<open>The loop over the frames of the body: \<open>acc\<close> is what the body's block holds.\<close>

fun read_body :: "unspecified \<Rightarrow> nat \<Rightarrow> amqp_channel_t \<Rightarrow> nat \<Rightarrow> byte list \<Rightarrow> (amqp_rpc_reply_t + byte list) nprog" where
  "read_body u 0 channel body_len acc = still_waiting"
| "read_body u (Suc fuel) channel body_len acc =
     (if length acc < body_len then
        attempt (amqp_simple_wait_frame_on_channel u channel) (\<lambda>e. ret (Inl (amqp_rpc_reply_error e))) (\<lambda>frame.
        if frame_type frame \<noteq> FRAME_BODY then
          ret (Inl (case closing_reply frame of Some r \<Rightarrow> r | None \<Rightarrow> amqp_rpc_reply_error AMQP_STATUS_BAD_AMQP_DATA))
        else case payload frame of
            Body_fragment fragment \<Rightarrow>
              if length acc + length fragment > body_len then ret (Inl (amqp_rpc_reply_error AMQP_STATUS_BAD_AMQP_DATA))
              else read_body u fuel channel body_len (acc @ fragment)
          | _ \<Rightarrow> (\<lambda>w. (Undefined, w)))
      else ret (Inr acc))"

text \<open>
  The copy of the properties into the message's pool. The code takes any content header for one of the
  basic class; the structures of the other classes are smaller.
\<close>

definition clone_into_pool :: "amqp_properties_t \<Rightarrow> ((amqp_status_enum + amqp_basic_properties_t) \<times> amqp_pool_t) nprog" where
  "clone_into_pool decoded = (case decoded of
       Basic_properties p \<Rightarrow> in_heap (\<lambda>h. case amqp_basic_properties_clone p (init_amqp_pool 4096, h) of
           (Ok c, pool, h') \<Rightarrow> (Ok (Inr c, pool), h')
         | (Err e, pool, h') \<Rightarrow> (Ok (Inl e, pool), h')
         | (Undefined, pool, h') \<Rightarrow> (Undefined, h')
         | (OutOfFuel, pool, h') \<Rightarrow> (OutOfFuel, h'))
     | Plain_properties _ \<Rightarrow> (\<lambda>w. (Undefined, w)))"

definition empty_pool :: "amqp_pool_t \<Rightarrow> amqp_pool_t nprog" where
  "empty_pool pool = in_heap (\<lambda>h. case empty_amqp_pool pool h of (pool', h') \<Rightarrow> (Ok pool', h'))"

text \<open>The message after its header: when the block of the body is refused, the pool is not emptied.\<close>

definition read_content :: "unspecified \<Rightarrow> amqp_channel_t \<Rightarrow> nat \<Rightarrow> amqp_basic_properties_t \<Rightarrow> amqp_pool_t \<Rightarrow> (amqp_rpc_reply_t \<times> amqp_message_t) nprog" where
  "read_content u channel body_size properties pool =
     (if body_size = 0 then
        ret (normal_reply, \<lparr>message_properties = properties, message_body = (0, None), message_pool = pool\<rparr>)
      else
        bindP (in_heap (amqp_bytes_malloc body_size)) (\<lambda>(n, p).
        case p of
          None \<Rightarrow> ret (amqp_rpc_reply_error AMQP_STATUS_NO_MEMORY,
            \<lparr>message_properties = properties, message_body = (n, None), message_pool = pool\<rparr>)
        | Some block \<Rightarrow>
            bindP (\<lambda>w. read_body u (Suc (length (first_queued_frame (conn w)) + pending w)) channel n [] w) (\<lambda>result.
            case result of
              Inr body \<Rightarrow> ret (normal_reply, \<lparr>message_properties = properties, message_body = (n, Some (block, body)), message_pool = pool\<rparr>)
            | Inl r \<Rightarrow>
                bindP (change_heap (heap_free (Some block))) (\<lambda>_.
                bindP (empty_pool pool) (\<lambda>pool'.
                ret (r, \<lparr>message_properties = properties, message_body = (n, Some (block, [])), message_pool = pool'\<rparr>))))))"

definition amqp_read_message :: "unspecified \<Rightarrow> amqp_channel_t \<Rightarrow> (amqp_rpc_reply_t \<times> amqp_message_t) nprog" where
  "amqp_read_message u channel =
     attempt (amqp_simple_wait_frame_on_channel u channel) (\<lambda>e. ret (amqp_rpc_reply_error e, no_message)) (\<lambda>frame.
     if frame_type frame \<noteq> FRAME_HEADER then
       (case closing_reply frame of
          Some r \<Rightarrow> ret (r, no_message)
        | None \<Rightarrow>
            let unexpected = ret (amqp_rpc_reply_error AMQP_STATUS_UNEXPECTED_STATE, no_message)
            in attempt (on_conn (amqp_put_back_frame frame)) (\<lambda>_. unexpected) (\<lambda>_. unexpected))
     else case payload frame of
         Properties class_id body_size decoded raw \<Rightarrow>
           bindP (clone_into_pool decoded) (\<lambda>(result, pool).
           case result of
             Inl e \<Rightarrow> bindP (empty_pool pool) (\<lambda>pool'. ret (amqp_rpc_reply_error e, no_message\<lparr>message_pool := pool'\<rparr>))
           | Inr properties \<Rightarrow> read_content u channel (unat body_size) properties pool)
       | _ \<Rightarrow> (\<lambda>w. (Undefined, w)))"

section \<open>Consuming\<close>

definition duplicate :: "byte list \<Rightarrow> owned_bytes nprog" where
  "duplicate bs = in_heap (amqp_bytes_malloc_dup \<lparr>len = length bs, bytes = bs\<rparr>)"

definition free_names :: "amqp_envelope_t \<Rightarrow> heap \<Rightarrow> heap" where
  "free_names envelope h =
     free_owned (consumer_tag envelope) (free_owned (envelope_exchange envelope) (free_owned (envelope_routing_key envelope) h))"

definition open_envelope :: "amqp_channel_t \<Rightarrow> amqp_method_t \<Rightarrow> amqp_envelope_t nprog" where
  "open_envelope channel decoded = (case decoded of
       amqp_basic_deliver_t tag dtag redel exchange routing_key \<Rightarrow>
         bindP (duplicate tag) (\<lambda>tag'.
         bindP (duplicate exchange) (\<lambda>exchange'.
         bindP (duplicate routing_key) (\<lambda>routing_key'.
         ret (no_envelope\<lparr>envelope_channel := channel, consumer_tag := tag', delivery_tag := dtag, redelivered := redel,
           envelope_exchange := exchange', envelope_routing_key := routing_key'\<rparr>))))
     | _ \<Rightarrow> (\<lambda>w. (Undefined, w)))"

definition amqp_consume_message :: "unspecified \<Rightarrow> timeval option \<Rightarrow> (amqp_rpc_reply_t \<times> amqp_envelope_t) nprog" where
  "amqp_consume_message u timeout =
     attempt (amqp_simple_wait_frame_noblock u timeout) (\<lambda>e. ret (amqp_rpc_reply_error e, no_envelope)) (\<lambda>frame.
     let unexpected = ret (amqp_rpc_reply_error AMQP_STATUS_UNEXPECTED_STATE, no_envelope);
         put_back = attempt (on_conn (amqp_put_back_frame frame)) (\<lambda>_. unexpected) (\<lambda>_. unexpected)
     in case payload frame of
         Method mid decoded \<Rightarrow>
           if frame_type frame \<noteq> FRAME_METHOD \<or> mid \<noteq> AMQP_BASIC_DELIVER_METHOD then put_back
           else
             bindP (open_envelope (frame_channel frame) decoded) (\<lambda>envelope.
             if amqp_bytes_malloc_dup_failed (consumer_tag envelope) \<or> amqp_bytes_malloc_dup_failed (envelope_exchange envelope)
               \<or> amqp_bytes_malloc_dup_failed (envelope_routing_key envelope)
             then bindP (change_heap (free_names envelope)) (\<lambda>_. ret (amqp_rpc_reply_error AMQP_STATUS_NO_MEMORY, envelope))
             else
               bindP (amqp_read_message u (envelope_channel envelope)) (\<lambda>(r, message).
               let envelope' = envelope\<lparr>envelope_message := message\<rparr>
               in if reply_type r \<noteq> AMQP_RESPONSE_NORMAL
                  then bindP (change_heap (free_names envelope')) (\<lambda>_. ret (r, envelope'))
                  else ret (r\<lparr>reply_type := AMQP_RESPONSE_NORMAL\<rparr>, envelope')))
       | _ \<Rightarrow> put_back)"

section \<open>The copy is exact\<close>

text \<open>What the copy holds: the fields that have their flag; the others are zero.\<close>

definition cloned :: "amqp_basic_properties_t \<Rightarrow> amqp_basic_properties_t" where
  "cloned p = overlay p (default_properties\<lparr>flags := flags p\<rparr>)"

lemma bind_ret: "bindP (ret x) k = k x"
  by (simp add: bindP_def ret_def)

lemma merges_clone_bytes: "merges (clone_bytes_pool bs) bs True"
proof (cases "bs = []")
  case False
  have "clone_bytes_pool bs = bindP (amqp_pool_alloc (length bs)) (\<lambda>p. case p of None \<Rightarrow> throw AMQP_STATUS_NO_MEMORY | Some _ \<Rightarrow> ret bs)"
    using False by (simp add: clone_bytes_pool_def amqp_pool_alloc_bytes_def bindP_assoc bind_ret)
  then show ?thesis using merges_mono [OF merges_alloc [OF merges_ret [of bs True], of "length bs"], of True] False by simp
qed (simp add: clone_bytes_pool_def merges_ret)

lemma merges_conv: "merges m v ok \<Longrightarrow> v = v' \<Longrightarrow> (ok' \<Longrightarrow> ok) \<Longrightarrow> merges m v' ok'"
  by (auto elim: merges_mono)

lemma put_if:
  "(if b then c\<lparr>content_type := x\<rparr> else c) = c\<lparr>content_type := if b then x else content_type c\<rparr>"
  "(if b then c\<lparr>content_encoding := x\<rparr> else c) = c\<lparr>content_encoding := if b then x else content_encoding c\<rparr>"
  "(if b then c\<lparr>headers := t\<rparr> else c) = c\<lparr>headers := if b then t else headers c\<rparr>"
  "(if b then c\<lparr>delivery_mode := i\<rparr> else c) = c\<lparr>delivery_mode := if b then i else delivery_mode c\<rparr>"
  "(if b then c\<lparr>priority := i\<rparr> else c) = c\<lparr>priority := if b then i else priority c\<rparr>"
  "(if b then c\<lparr>correlation_id := x\<rparr> else c) = c\<lparr>correlation_id := if b then x else correlation_id c\<rparr>"
  "(if b then c\<lparr>reply_to := x\<rparr> else c) = c\<lparr>reply_to := if b then x else reply_to c\<rparr>"
  "(if b then c\<lparr>expiration := x\<rparr> else c) = c\<lparr>expiration := if b then x else expiration c\<rparr>"
  "(if b then c\<lparr>message_id := x\<rparr> else c) = c\<lparr>message_id := if b then x else message_id c\<rparr>"
  "(if b then c\<lparr>timestamp := n\<rparr> else c) = c\<lparr>timestamp := if b then n else timestamp c\<rparr>"
  "(if b then c\<lparr>message_type := x\<rparr> else c) = c\<lparr>message_type := if b then x else message_type c\<rparr>"
  "(if b then c\<lparr>user_id := x\<rparr> else c) = c\<lparr>user_id := if b then x else user_id c\<rparr>"
  "(if b then c\<lparr>app_id := x\<rparr> else c) = c\<lparr>app_id := if b then x else app_id c\<rparr>"
  "(if b then c\<lparr>cluster_id := x\<rparr> else c) = c\<lparr>cluster_id := if b then x else cluster_id c\<rparr>"
  by simp_all

lemma merges_last: "merges copy x ok \<Longrightarrow> merges (clone_field fl flag copy put c) (if has_flag fl flag then put x else c) (has_flag fl flag \<longrightarrow> ok)"
  using merges_bind [where k = "\<lambda>x. ret (put x)", OF _ merges_ret [of "put x" True], of copy ok]
  by (auto simp: clone_field_def merges_ret elim: merges_mono)

lemma merges_field:
  assumes "merges copy x ok" and "merges (k (if has_flag fl flag then put x else c)) v ok'"
  shows "merges (bindP (clone_field fl flag copy put c) k) v ((has_flag fl flag \<longrightarrow> ok) \<and> ok')"
  by (rule merges_bind [where x = "if has_flag fl flag then put x else c"]) (rule merges_last [OF assms(1)], rule assms(2))

lemma merges_properties:
  "merges (amqp_basic_properties_clone p) (cloned p) (has_flag (flags p) AMQP_BASIC_HEADERS_FLAG \<longrightarrow> clonable_entries (headers p))"
  unfolding amqp_basic_properties_clone_def Let_def
  by (rule merges_conv, (rule merges_field merges_clone_bytes merges_clone merges_ret [where ok = True] merges_last)+)
    (simp_all add: put_if cloned_def overlay_def default_properties_def)

text \<open>
  C39: The copy of the properties holds exactly the fields that have their flag, with the contents of the
  original; it fails only for want of memory or at headers with an entry that cannot be copied, and the pool
  stays valid.
\<close>

theorem amqp_basic_properties_clone_exact:
  assumes "pool_inv p h"
  shows "case amqp_basic_properties_clone q (p, h) of
      (Ok c, p', h') \<Rightarrow> c = cloned q \<and> pool_inv p' h'
    | (Err e, p', h') \<Rightarrow> pool_inv p' h' \<and> (\<not> generous h \<or> has_flag (flags q) AMQP_BASIC_HEADERS_FLAG \<and> \<not> clonable_entries (headers q))
    | _ \<Rightarrow> False"
proof -
  obtain r p' h' where run: "amqp_basic_properties_clone q (p, h) = (r, p', h')" by (metis surj_pair)
  have "pool_ready (p, h)" using assms by (simp add: pool_ready_def)
  from mergesD [OF merges_properties this run] run show ?thesis
    by (cases r) (auto simp: advances_def pool_ready_def)
qed

theorem amqp_basic_properties_clone_exact_witness:
  "\<exists>p' h'. amqp_basic_properties_clone sample_properties (init_amqp_pool 64, fresh_heap) = (Ok (cloned sample_properties), p', h')"
proof -
  have "\<not> has_flag (flags sample_properties) AMQP_BASIC_HEADERS_FLAG" by (simp add: sample_properties_flags AMQP_BASIC_HEADERS_FLAG_def)
  then show ?thesis
    using amqp_basic_properties_clone_exact [OF small_pool_inv, of sample_properties]
    by (auto split: prod.splits outcome.splits)
qed


section \<open>Memory beside the connection\<close>

text \<open>Blocks that are not the connection's may come and go.\<close>

definition conn_blocks :: "amqp_connection_state_t \<Rightarrow> nat set" where
  "conn_blocks st = own_blocks st \<union> entry_blocks (pool_table st) \<union> \<Union>{foot q | q c. amqp_get_channel_pool (pool_table st) c = Some q}"

lemma conn_blocks_live:
  assumes "memory_inv st" and "b \<in> conn_blocks st"
  shows "h_live (conn_heap st) b \<noteq> None"
proof -
  have pools: "pools_inv (pool_table st) (conn_heap st) (own_blocks st)" using assms(1) by (simp add: memory_inv_def)
  show ?thesis
  proof (cases "b \<in> own_blocks st \<union> entry_blocks (pool_table st)")
    case True
    then show ?thesis by (rule pools_invD(7) [OF pools])
  next
    case False
    with assms(2) obtain q c where "amqp_get_channel_pool (pool_table st) c = Some q" "b \<in> foot q" by (auto simp: conn_blocks_def)
    then show ?thesis using foot_live [OF pools_invD(8) [OF pools]] by blast
  qed
qed

lemma memory_inv_heap:
  assumes inv: "memory_inv st" and e: "evolves (conn_heap st) h" and hinv: "heap_inv h" and fault: "\<not> h_fault h"
    and live: "\<And>b. b \<in> conn_blocks st \<Longrightarrow> h_live h b \<noteq> None"
  shows "memory_inv (st\<lparr>conn_heap := h\<rparr>)"
proof -
  let ?t = "pool_table st" and ?B = "own_blocks st"
  have pools: "pools_inv ?t (conn_heap st) ?B" and p: "pool_inv (properties_pool st) (conn_heap st)"
    using inv by (simp_all add: memory_inv_def)
  have "pools_inv ?t h ?B"
  proof (rule pools_invI)
    show "h_live h b \<noteq> None" if "b \<in> ?B \<union> entry_blocks ?t" for b by (rule live) (use that in \<open>auto simp: conn_blocks_def\<close>)
    show "pool_inv q h \<and> foot q \<inter> (?B \<union> entry_blocks ?t) = {}" if q: "amqp_get_channel_pool ?t c = Some q" for c q
    proof
      show "pool_inv q h"
        by (rule pool_inv_evolves [OF pools_invD(8) [OF pools q] e hinv], rule live) (use q in \<open>auto simp: conn_blocks_def\<close>)
    qed (rule pools_invD(9) [OF pools q])
  qed (use pools_invD(1,4,5,6,10) [OF pools] hinv fault in blast)+
  moreover have "pool_inv (properties_pool st) h"
    by (rule pool_inv_evolves [OF p e hinv], rule live) (auto simp: conn_blocks_def own_blocks_def)
  ultimately show ?thesis using inv by (simp add: memory_inv_def own_blocks_def own_distinct_def)
qed

section \<open>Frames of a channel\<close>

lemma frame_link_ok:
  assumes "memory_inv st" and "generous (conn_heap st)" and "n \<noteq> 0" and "m \<noteq> 0"
  obtains t h where "frame_link n m f st = (Ok (), st\<lparr>pool_table := t, conn_heap := h\<rparr>)"
    "memory_inv (st\<lparr>pool_table := t, conn_heap := h\<rparr>)" "generous h"
proof -
  let ?c = "frame_channel f"
  have alloc: "\<exists>v d. pool_alloc k \<lparr>offset = 0, dpool = p, dheap = h\<rparr> = (Ok v, d) \<and> v \<noteq> None \<and> ready B d"
    if "k \<noteq> 0" "ready B \<lparr>offset = 0, dpool = p, dheap = h\<rparr>" for k B p h
    using ready_pool_alloc [OF that] by (metis option.distinct(1))
  obtain t1 h1 where 1: "channel_pool ?c st = (Ok (), st\<lparr>pool_table := t1, conn_heap := h1\<rparr>)"
    "memory_inv (st\<lparr>pool_table := t1, conn_heap := h1\<rparr>)" "generous h1" "amqp_get_channel_pool t1 ?c \<noteq> None"
    by (rule channel_pool_generous [OF assms(1,2)])
  obtain a t2 h2 where 2: "with_pool ?c (pool_alloc n) (st\<lparr>pool_table := t1, conn_heap := h1\<rparr>) = (Ok a, st\<lparr>pool_table := t1, conn_heap := h1\<rparr>\<lparr>pool_table := t2, conn_heap := h2\<rparr>)"
    "a \<noteq> None" "memory_inv (st\<lparr>pool_table := t1, conn_heap := h1\<rparr>\<lparr>pool_table := t2, conn_heap := h2\<rparr>)" "generous h2" "amqp_get_channel_pool t2 ?c \<noteq> None"
    by (rule with_pool_generous_ex [OF 1(2) _ _ dkeeps_alloc(1) alloc [OF assms(3)]]) (use 1(3,4) in simp_all)
  have inv2: "memory_inv (st\<lparr>pool_table := t2, conn_heap := h2\<rparr>)" using 2(3) by simp
  obtain b t3 h3 where 3: "with_pool ?c (pool_alloc m) (st\<lparr>pool_table := t2, conn_heap := h2\<rparr>) = (Ok b, st\<lparr>pool_table := t2, conn_heap := h2\<rparr>\<lparr>pool_table := t3, conn_heap := h3\<rparr>)"
    "b \<noteq> None" "memory_inv (st\<lparr>pool_table := t2, conn_heap := h2\<rparr>\<lparr>pool_table := t3, conn_heap := h3\<rparr>)" "generous h3" "amqp_get_channel_pool t3 ?c \<noteq> None"
    by (rule with_pool_generous_ex [OF inv2 _ _ dkeeps_alloc(1) alloc [OF assms(4)]]) (use 2(4,5) in simp_all)
  have "frame_link n m f st = (Ok (), st\<lparr>pool_table := t3, conn_heap := h3\<rparr>)"
    using 1(1) 2(1,2) 3(1,2) by (auto simp: frame_link_def bindP_def ret_def)
  then show ?thesis using that 3(3,4) by simp
qed

lemma at_rest_queue:
  assumes w: "at_rest fs w" "reachable_peer amqp_time_infinite w"
  shows "\<exists>w'. on_conn (amqp_queue_frame f) w = (Ok (), w') \<and> at_rest fs w' \<and> reachable_peer amqp_time_infinite w'
    \<and> first_queued_frame (conn w') = first_queued_frame (conn w) @ [f]"
proof -
  let ?st = "conn w"
  have st: "io_inv ?st" "generous (conn_heap ?st)" using w(1) by (simp_all add: at_rest_def net_inv_def boundary_def)
  obtain t h where link: "frame_link sizeof_link sizeof_frame f ?st = (Ok (), ?st\<lparr>pool_table := t, conn_heap := h\<rparr>)"
    "memory_inv (?st\<lparr>pool_table := t, conn_heap := h\<rparr>)" "generous h"
    by (rule frame_link_ok [OF io_inv_memory [OF st(1)] st(2), of sizeof_link sizeof_frame]) (auto simp: sizeof_link_def sizeof_frame_def)
  let ?s = "?st\<lparr>pool_table := t, conn_heap := h, first_queued_frame := first_queued_frame ?st @ [f]\<rparr>"
  have run: "on_conn (amqp_queue_frame f) w = (Ok (), w\<lparr>conn := ?s\<rparr>)"
    using link(1) by (simp add: on_conn_def amqp_queue_frame_def amqp_create_link_for_frame_def append_frame_def bindP_def modify_def)
  have "io_inv (?st\<lparr>pool_table := t, conn_heap := h\<rparr>\<lparr>first_queued_frame := first_queued_frame ?st @ [f]\<rparr>)"
    by (rule io_inv_updates(4) [OF io_inv_pools [OF st(1) link(2)]])
  moreover have "buffered ?s = buffered ?st" by (rule buffered_cong) simp_all
  ultimately have "at_rest fs (w\<lparr>conn := ?s\<rparr>)" using w(1) link(3)
    by (simp add: at_rest_def net_inv_def boundary_def quiet_def fitting_def io_inv_def)
  moreover have "reachable_peer amqp_time_infinite (w\<lparr>conn := ?s\<rparr>)" using w(2) by (simp add: reachable_peer_def)
  ultimately show ?thesis using run by simp
qed

definition mine :: "amqp_channel_t \<Rightarrow> amqp_frame_t \<Rightarrow> bool" where
  "mine c f \<longleftrightarrow> \<not> is_heartbeat f \<and> frame_channel f = c"

lemma wait_channel_runs:
  assumes "at_rest fs w" and "reachable_peer amqp_time_infinite w" and "filter (mine c) fs = f # gs" and "length fs < fuel"
  shows "\<exists>rest w' ks. wait_channel_loop u fuel c w = (Ok (received u f), w') \<and> at_rest rest w' \<and> reachable_peer amqp_time_infinite w'
    \<and> filter (mine c) rest = gs \<and> first_queued_frame (conn w') = first_queued_frame (conn w) @ ks \<and> (\<forall>k \<in> set ks. frame_channel k \<noteq> c)"
  using assms
proof (induction fuel arbitrary: fs w)
  case (Suc fuel)
  have ne: "dropWhile is_heartbeat fs \<noteq> []"
  proof
    assume "dropWhile is_heartbeat fs = []"
    then have "filter (mine c) fs = []" by (auto simp: dropWhile_eq_Nil_conv filter_empty_conv mine_def)
    then show False using Suc.prems(3) by simp
  qed
  obtain g w1 where wait: "wait_frame_inner u amqp_time_infinite w = (Ok g, w1)" "reachable_peer amqp_time_infinite w1"
    using wait_loop_runs [OF at_rest_streaming [OF Suc.prems(1), of u] Suc.prems(2) ne lessI]
    unfolding wait_frame_inner_def by blast
  from wait_frame_delivery [OF Suc.prems(1) wait(1)] obtain f' gs' where
    d: "dropWhile is_heartbeat fs = f' # gs'" "g = received u f'" "at_rest gs' w1" "first_queued_frame (conn w1) = first_queued_frame (conn w)" by blast
  have no: "\<not> is_heartbeat f'" using hd_dropWhile [of is_heartbeat fs] d(1) by simp
  have "filter (mine c) (takeWhile is_heartbeat fs) = []" by (auto simp: filter_empty_conv mine_def dest: set_takeWhileD)
  then have part: "filter (mine c) fs = filter (mine c) (f' # gs')"
    using takeWhile_dropWhile_id [of is_heartbeat fs] d(1) by (metis append_Nil filter_append)
  have "length (dropWhile is_heartbeat fs) \<le> length fs" by (rule length_dropWhile_le)
  then have less: "length gs' < fuel" using d(1) Suc.prems(4) by simp
  show ?case
  proof (cases "frame_channel f' = c")
    case True
    then have "f' = f" "filter (mine c) gs' = gs" using part Suc.prems(3) no by (simp_all add: mine_def)
    then show ?thesis using wait d True by (auto simp: bindP_def ret_def intro!: exI [of _ gs'])
  next
    case False
    then have rest: "filter (mine c) gs' = f # gs" using part Suc.prems(3) by (simp add: mine_def)
    from at_rest_queue [OF d(3) wait(2)] obtain w2 where q: "on_conn (amqp_queue_frame g) w1 = (Ok (), w2)" "at_rest gs' w2" "reachable_peer amqp_time_infinite w2"
      "first_queued_frame (conn w2) = first_queued_frame (conn w1) @ [g]" by blast
    from Suc.IH [OF q(2,3) rest less] obtain rest' w' ks where ih: "wait_channel_loop u fuel c w2 = (Ok (received u f), w')" "at_rest rest' w'"
      "reachable_peer amqp_time_infinite w'" "filter (mine c) rest' = gs" "first_queued_frame (conn w') = first_queued_frame (conn w2) @ ks" "\<forall>k \<in> set ks. frame_channel k \<noteq> c" by blast
    have "wait_channel_loop u (Suc fuel) c w = (Ok (received u f), w')"
      using wait(1) q(1) ih(1) False d(2) by (simp add: bindP_def)
    moreover have "first_queued_frame (conn w') = first_queued_frame (conn w) @ g # ks" "\<forall>k \<in> set (g # ks). frame_channel k \<noteq> c"
      using ih(5,6) q(4) d(2,4) False by simp_all
    ultimately show ?thesis using ih(2-4) by blast
  qed
qed simp

lemma at_rest_frames: "at_rest fs w \<Longrightarrow> length fs \<le> pending w"
proof -
  have weight: "length (incoming rs) \<le> recv_weight rs" for rs 
  proof (induction rs)
    case (Cons a rs)
    then show ?case by (cases a) simp_all
  qed simp
  have size: "length fs \<le> length (concat (map ser_frame fs))" by (induction fs) (auto simp del: length_concat)
  assume "at_rest fs w"
  then have "concat (map ser_frame fs) = buffered (conn w) @ incoming (recvs w)" by (simp add: at_rest_def boundary_def)
  then show ?thesis using size weight [of "recvs w"] by (simp add: pending_def)
qed

text \<open>The next frame of a channel that has none in the queue.\<close>

lemma wait_on_channel_runs:
  assumes "at_rest fs w" and "reachable_peer amqp_time_infinite w" and "filter (mine c) fs = f # gs" and "\<forall>k \<in> set (first_queued_frame (conn w)). frame_channel k \<noteq> c"
  shows "\<exists>rest w'. amqp_simple_wait_frame_on_channel u c w = (Ok (received u f), w') \<and> at_rest rest w' \<and> reachable_peer amqp_time_infinite w'
    \<and> filter (mine c) rest = gs \<and> (\<forall>k \<in> set (first_queued_frame (conn w')). frame_channel k \<noteq> c)"
proof -
  have "dropWhile (\<lambda>f. c \<noteq> frame_channel f) (first_queued_frame (conn w)) = []" using assms(4) by auto
  then have "amqp_simple_wait_frame_on_channel u c w = wait_channel_loop u (Suc (pending w)) c w"
    unfolding amqp_simple_wait_frame_on_channel_def bindP_read by (simp only: list.case)
  then show ?thesis
    using wait_channel_runs [OF assms(1-3), of "Suc (pending w)" u] at_rest_frames [OF assms(1)] assms(4) by fastforce
qed


lemma at_rest_heap:
  assumes w: "at_rest fs w" "reachable_peer amqp_time_infinite w" and e: "evolves (conn_heap (conn w)) h" and h: "heap_inv h" "\<not> h_fault h" "generous h"
    and live: "\<And>b. b \<in> conn_blocks (conn w) \<Longrightarrow> h_live h b \<noteq> None"
  shows "at_rest fs (w\<lparr>conn := (conn w)\<lparr>conn_heap := h\<rparr>\<rparr>)" "reachable_peer amqp_time_infinite (w\<lparr>conn := (conn w)\<lparr>conn_heap := h\<rparr>\<rparr>)"
proof -
  let ?st = "conn w"
  have st: "io_inv ?st" using w(1) by (simp add: at_rest_def net_inv_def)
  have "memory_inv (?st\<lparr>conn_heap := h\<rparr>)" by (rule memory_inv_heap [OF io_inv_memory [OF st] e h(1,2) live])
  then have "io_inv (?st\<lparr>conn_heap := h\<rparr>)" using io_inv_pools [OF st, where t = "pool_table ?st" and h = h] by simp
  moreover have "buffered (?st\<lparr>conn_heap := h\<rparr>) = buffered ?st" by (rule buffered_cong) simp_all
  ultimately show "at_rest fs (w\<lparr>conn := ?st\<lparr>conn_heap := h\<rparr>\<rparr>)" using w(1) h(3)
    by (simp add: at_rest_def net_inv_def boundary_def quiet_def fitting_def io_inv_def)
  show "reachable_peer amqp_time_infinite (w\<lparr>conn := ?st\<lparr>conn_heap := h\<rparr>\<rparr>)" using w(2) by (simp add: reachable_peer_def)
qed

lemma at_rest_memory:
  assumes "at_rest fs w"
  shows "memory_inv (conn w)" "heap_inv (conn_heap (conn w))" "\<not> h_fault (conn_heap (conn w))" "generous (conn_heap (conn w))"
proof -
  show inv: "memory_inv (conn w)" using assms by (simp add: at_rest_def net_inv_def io_inv_memory)
  then have pools: "pools_inv (pool_table (conn w)) (conn_heap (conn w)) (own_blocks (conn w))" by (simp add: memory_inv_def)
  show "heap_inv (conn_heap (conn w))" "\<not> h_fault (conn_heap (conn w))" by (rule pools_invD(2,3) [OF pools])+
  show "generous (conn_heap (conn w))" using assms by (simp add: at_rest_def boundary_def)
qed

section \<open>Reading what was published\<close>

lemma clone_into_pool_runs:
  assumes w: "at_rest fs w" "reachable_peer amqp_time_infinite w" and ok: "has_flag (flags q) AMQP_BASIC_HEADERS_FLAG \<longrightarrow> clonable_entries (headers q)"
  shows "\<exists>pool h. clone_into_pool (Basic_properties q) w = (Ok (Inr (cloned q), pool), w\<lparr>conn := (conn w)\<lparr>conn_heap := h\<rparr>\<rparr>)
    \<and> at_rest fs (w\<lparr>conn := (conn w)\<lparr>conn_heap := h\<rparr>\<rparr>) \<and> reachable_peer amqp_time_infinite (w\<lparr>conn := (conn w)\<lparr>conn_heap := h\<rparr>\<rparr>)"
proof -
  let ?h = "conn_heap (conn w)" and ?p = "init_amqp_pool 4096"
  note m = at_rest_memory [OF w(1)]
  have "pool_inv ?p ?h" by (rule pool_inv_init) (use m(2) in \<open>simp_all add: ptrdiff_max_def\<close>)
  then have s: "pool_ready (?p, ?h)" by (simp add: pool_ready_def)
  obtain r pool h where run: "amqp_basic_properties_clone q (?p, ?h) = (r, pool, h)" by (metis surj_pair)
  note d = mergesD [OF merges_properties s run]
  have r: "r = Ok (cloned q)" using d(3) ok m(4) by simp
  have "foreign ?p ?h (conn_blocks (conn w))"
    using conn_blocks_live [OF m(1)]
    by (simp add: foreign_def init_amqp_pool_def pool_blocks_def empty_blocks_def list_array_def)
  with d(1) have h: "evolves ?h h" "heap_inv h" "\<not> h_fault h" "generous h" "foreign pool h (conn_blocks (conn w))"
    using m(3,4) by (auto simp: advances_def pool_ready_def pool_inv_def generous_def)
  have live: "h_live h b \<noteq> None" if "b \<in> conn_blocks (conn w)" for b using h(5) that by (simp add: foreign_def)
  have "clone_into_pool (Basic_properties q) w = (Ok (Inr (cloned q), pool), w\<lparr>conn := (conn w)\<lparr>conn_heap := h\<rparr>\<rparr>)"
    using run r by (simp add: clone_into_pool_def in_heap_def on_conn_def)
  then show ?thesis using at_rest_heap [OF w h(1-4) live] by blast
qed

lemma malloc_runs:
  assumes w: "at_rest fs w" "reachable_peer amqp_time_infinite w"
  shows "\<exists>a h. in_heap (amqp_bytes_malloc n) w = (Ok (n, Some a), w\<lparr>conn := (conn w)\<lparr>conn_heap := h\<rparr>\<rparr>)
    \<and> at_rest fs (w\<lparr>conn := (conn w)\<lparr>conn_heap := h\<rparr>\<rparr>) \<and> reachable_peer amqp_time_infinite (w\<lparr>conn := (conn w)\<lparr>conn_heap := h\<rparr>\<rparr>)"
proof -
  let ?h = "conn_heap (conn w)"
  note m = at_rest_memory [OF w(1)]
  let ?h' = "?h\<lparr>h_calls := Suc (h_calls ?h), h_live := (h_live ?h)(h_calls ?h \<mapsto> n)\<rparr>"
  have run: "in_heap (amqp_bytes_malloc n) w = (Ok (n, Some (h_calls ?h)), w\<lparr>conn := (conn w)\<lparr>conn_heap := ?h'\<rparr>\<rparr>)"
    using m(4) by (simp add: in_heap_def on_conn_def amqp_bytes_malloc_def heap_malloc_def generous_def Let_def)
  have h: "evolves ?h ?h'" "heap_inv ?h'" "\<not> h_fault ?h'" "generous ?h'"
    using m(2-4) by (simp_all add: evolves_def heap_inv_def generous_def)
  have live: "h_live ?h' b \<noteq> None" if "b \<in> conn_blocks (conn w)" for b using conn_blocks_live [OF m(1) that] by simp
  show ?thesis using run at_rest_heap [OF w h live] by blast
qed

lemma read_body_runs:
  assumes "at_rest fs w" and "reachable_peer amqp_time_infinite w" and "filter (mine c) fs = map (fragment_frame c) bodies @ gs"
    and "\<forall>k \<in> set (first_queued_frame (conn w)). frame_channel k \<noteq> c" and "[] \<notin> set bodies" and "length bodies < fuel"
  shows "\<exists>fs' w'. read_body u fuel c (length acc + length (concat bodies)) acc w = (Ok (Inr (acc @ concat bodies)), w') \<and> at_rest fs' w'
    \<and> filter (mine c) fs' = gs"
  using assms
proof (induction bodies arbitrary: fs w acc fuel)
  case Nil
  then obtain k where "fuel = Suc k" by (cases fuel) auto
  with Nil show ?case by (auto simp: ret_def)
next
  case (Cons b bodies)
  then obtain k where k: "fuel = Suc k" by (cases fuel) auto
  have filt: "filter (mine c) fs = fragment_frame c b # map (fragment_frame c) bodies @ gs" using Cons.prems(3) by simp
  have same: "received u (fragment_frame c b) = fragment_frame c b" by (simp add: received_def fragment_frame_def)
  from wait_on_channel_runs [OF Cons.prems(1,2) filt Cons.prems(4), of u, unfolded same] obtain fs1 w1 where
    w1: "amqp_simple_wait_frame_on_channel u c w = (Ok (fragment_frame c b), w1)" "at_rest fs1 w1" "reachable_peer amqp_time_infinite w1"
      "filter (mine c) fs1 = map (fragment_frame c) bodies @ gs" "\<forall>k \<in> set (first_queued_frame (conn w1)). frame_channel k \<noteq> c" by blast
  have "b \<noteq> []" "[] \<notin> set bodies" "length bodies < k" using Cons.prems(5,6) k by auto
  from Cons.IH [OF w1(2-5) this(2,3), of "acc @ b"] obtain fs' w' where
    "read_body u k c (length (acc @ b) + length (concat bodies)) (acc @ b) w1 = (Ok (Inr ((acc @ b) @ concat bodies)), w')"
    "at_rest fs' w'" "filter (mine c) fs' = gs" by blast
  then show ?case using w1(1) \<open>b \<noteq> []\<close> k
    by (auto simp: attempt_def fragment_frame_def add.assoc intro!: exI [of _ fs'])
qed

lemma has_flag_wire_basic:
  "has_flag (wire_flags fl) AMQP_BASIC_CONTENT_TYPE_FLAG = has_flag fl AMQP_BASIC_CONTENT_TYPE_FLAG"
  "has_flag (wire_flags fl) AMQP_BASIC_CONTENT_ENCODING_FLAG = has_flag fl AMQP_BASIC_CONTENT_ENCODING_FLAG"
  "has_flag (wire_flags fl) AMQP_BASIC_HEADERS_FLAG = has_flag fl AMQP_BASIC_HEADERS_FLAG"
  "has_flag (wire_flags fl) AMQP_BASIC_DELIVERY_MODE_FLAG = has_flag fl AMQP_BASIC_DELIVERY_MODE_FLAG"
  "has_flag (wire_flags fl) AMQP_BASIC_PRIORITY_FLAG = has_flag fl AMQP_BASIC_PRIORITY_FLAG"
  "has_flag (wire_flags fl) AMQP_BASIC_CORRELATION_ID_FLAG = has_flag fl AMQP_BASIC_CORRELATION_ID_FLAG"
  "has_flag (wire_flags fl) AMQP_BASIC_REPLY_TO_FLAG = has_flag fl AMQP_BASIC_REPLY_TO_FLAG"
  "has_flag (wire_flags fl) AMQP_BASIC_EXPIRATION_FLAG = has_flag fl AMQP_BASIC_EXPIRATION_FLAG"
  "has_flag (wire_flags fl) AMQP_BASIC_MESSAGE_ID_FLAG = has_flag fl AMQP_BASIC_MESSAGE_ID_FLAG"
  "has_flag (wire_flags fl) AMQP_BASIC_TIMESTAMP_FLAG = has_flag fl AMQP_BASIC_TIMESTAMP_FLAG"
  "has_flag (wire_flags fl) AMQP_BASIC_TYPE_FLAG = has_flag fl AMQP_BASIC_TYPE_FLAG"
  "has_flag (wire_flags fl) AMQP_BASIC_USER_ID_FLAG = has_flag fl AMQP_BASIC_USER_ID_FLAG"
  "has_flag (wire_flags fl) AMQP_BASIC_APP_ID_FLAG = has_flag fl AMQP_BASIC_APP_ID_FLAG"
  "has_flag (wire_flags fl) AMQP_BASIC_CLUSTER_ID_FLAG = has_flag fl AMQP_BASIC_CLUSTER_ID_FLAG"
  by (simp_all add: has_flag_wire basic_flag_defs)

lemma cloned_received:
  "cloned (overlay p (q\<lparr>flags := wire_flags (flags p)\<rparr>)) = (cloned p)\<lparr>flags := wire_flags (flags p)\<rparr>"
  by (rule amqp_basic_properties_t.equality) (simp_all add: cloned_def overlay_def has_flag_wire_basic)

definition contents_of :: "owned_bytes \<Rightarrow> byte list" where
  "contents_of b = (case snd b of None \<Rightarrow> [] | Some (_, bs) \<Rightarrow> bs)"

lemma read_content_runs:
  assumes w: "at_rest fs w" "reachable_peer amqp_time_infinite w" and frames: "filter (mine c) fs = map (fragment_frame c) bodies @ gs"
    and queue: "\<forall>k \<in> set (first_queued_frame (conn w)). frame_channel k \<noteq> c" and ne: "[] \<notin> set bodies"
  shows "\<exists>b fs' w'. read_content u c (length (concat bodies)) q pool w =
      (Ok (normal_reply, \<lparr>message_properties = q, message_body = b, message_pool = pool\<rparr>), w')
    \<and> contents_of b = concat bodies \<and> fst b = length (concat bodies) \<and> at_rest fs' w' \<and> filter (mine c) fs' = gs"
proof (cases "bodies = []")
  case True
  then show ?thesis using w(1) frames by (auto simp: read_content_def ret_def contents_of_def intro!: exI [of _ fs])
next
  case False
  let ?n = "length (concat bodies)"
  have n: "?n \<noteq> 0" using False ne by (cases bodies) auto
  from malloc_runs [OF w, of ?n] obtain a h where
    w1: "in_heap (amqp_bytes_malloc ?n) w = (Ok (?n, Some a), w\<lparr>conn := (conn w)\<lparr>conn_heap := h\<rparr>\<rparr>)"
      "at_rest fs (w\<lparr>conn := (conn w)\<lparr>conn_heap := h\<rparr>\<rparr>)" "reachable_peer amqp_time_infinite (w\<lparr>conn := (conn w)\<lparr>conn_heap := h\<rparr>\<rparr>)" by blast
  let ?w = "w\<lparr>conn := (conn w)\<lparr>conn_heap := h\<rparr>\<rparr>"
  have queue': "\<forall>k \<in> set (first_queued_frame (conn ?w)). frame_channel k \<noteq> c" using queue by simp
  have "length bodies \<le> length fs" using arg_cong [OF frames, of length] length_filter_le [of "mine c" fs] by simp
  then have fuel: "length bodies < Suc (length (first_queued_frame (conn ?w)) + pending ?w)"
    using at_rest_frames [OF w1(2)] by simp
  from read_body_runs [OF w1(2,3) frames queue' ne fuel, of u "[]"] obtain fs' w' where
    body: "read_body u (Suc (length (first_queued_frame (conn ?w)) + pending ?w)) c ?n [] ?w = (Ok (Inr (concat bodies)), w')"
      "at_rest fs' w'" "filter (mine c) fs' = gs" by auto
  have "read_content u c ?n q pool w =
      (Ok (normal_reply, \<lparr>message_properties = q, message_body = (?n, Some (a, concat bodies)), message_pool = pool\<rparr>), w')"
    using n w1(1) body(1) by (simp add: read_content_def bindP_def ret_def del: read_body.simps)
  moreover have "contents_of (?n, Some (a, concat bodies)) = concat bodies" by (simp add: contents_of_def)
  ultimately show ?thesis using body(2,3) by (metis fst_conv)
qed

text \<open>
  C10: A message is read as it was published, on a connection that sends no heartbeats of its own, when requests for memory are granted, and
  headers, if there are any, can be copied: if the frames that are to come on a channel, between any frames of other
  channels and heartbeats of the server and cut into any pieces, begin with the header and the body of a
  publication, then the reader returns a message with the published body and the published properties,
  and leaves the frames behind it. The peer is to be reachable: no receive fails, though receives may be interrupted or would block,
  and polls then report the data.
\<close>

theorem message_round_trip:
  assumes "at_rest fs w" and "reachable_peer amqp_time_infinite w" and "\<forall>k \<in> set (first_queued_frame (conn w)). frame_channel k \<noteq> c"
    and "filter (mine c) fs = tl (publication c exchange routing_key mandatory immediate p bodies) @ gs"
    and "[] \<notin> set bodies" and "length (concat bodies) < 2 ^ 64"
    and "has_flag (flags p) AMQP_BASIC_HEADERS_FLAG \<longrightarrow> clonable_entries (headers p)"
  shows "\<exists>message fs' w'. amqp_read_message u c w = (Ok (normal_reply, message), w')
    \<and> contents_of (message_body message) = concat bodies \<and> fst (message_body message) = length (concat bodies)
    \<and> message_properties message = (cloned p)\<lparr>flags := wire_flags (flags p)\<rparr>
    \<and> at_rest fs' w' \<and> filter (mine c) fs' = gs"
proof -
  let ?n = "length (concat bodies)" and ?q = "overlay p (fresh_properties u\<lparr>flags := wire_flags (flags p)\<rparr>)"
  let ?h = "\<lparr>frame_type = FRAME_HEADER, frame_channel = c, payload = Properties 60 (of_nat ?n) (Basic_properties p) []\<rparr>"
  have filt: "filter (mine c) fs = ?h # map (fragment_frame c) bodies @ gs" using assms(4) by (simp add: publication_def)
  have rec: "received u ?h = \<lparr>frame_type = FRAME_HEADER, frame_channel = c, payload = Properties 60 (of_nat ?n) (Basic_properties ?q) (ser_properties p)\<rparr>"
    by (simp add: received_def)
  from wait_on_channel_runs [OF assms(1,2) filt assms(3), of u, unfolded rec] obtain fs1 w1 where
    w1: "amqp_simple_wait_frame_on_channel u c w = (Ok \<lparr>frame_type = FRAME_HEADER, frame_channel = c,
        payload = Properties 60 (of_nat ?n) (Basic_properties ?q) (ser_properties p)\<rparr>, w1)" "at_rest fs1 w1" "reachable_peer amqp_time_infinite w1"
      "filter (mine c) fs1 = map (fragment_frame c) bodies @ gs" "\<forall>k \<in> set (first_queued_frame (conn w1)). frame_channel k \<noteq> c" by blast
  have "has_flag (flags ?q) AMQP_BASIC_HEADERS_FLAG \<longrightarrow> clonable_entries (headers ?q)"
    using assms(7) by (simp add: overlay_def has_flag_wire_basic)
  from clone_into_pool_runs [OF w1(2,3) this] obtain pool h where
    w2: "clone_into_pool (Basic_properties ?q) w1 = (Ok (Inr (cloned ?q), pool), w1\<lparr>conn := (conn w1)\<lparr>conn_heap := h\<rparr>\<rparr>)"
      "at_rest fs1 (w1\<lparr>conn := (conn w1)\<lparr>conn_heap := h\<rparr>\<rparr>)" "reachable_peer amqp_time_infinite (w1\<lparr>conn := (conn w1)\<lparr>conn_heap := h\<rparr>\<rparr>)" by blast
  let ?w2 = "w1\<lparr>conn := (conn w1)\<lparr>conn_heap := h\<rparr>\<rparr>"
  have size: "unat (of_nat ?n :: uint64) = ?n" using assms(6) by (simp add: unat_of_nat take_bit_nat_eq_self)
  have run: "amqp_read_message u c w = read_content u c ?n (cloned ?q) pool ?w2"
    using w1(1) w2(1) size by (simp add: amqp_read_message_def attempt_def bindP_def)
  have queue: "\<forall>k \<in> set (first_queued_frame (conn ?w2)). frame_channel k \<noteq> c" using w1(5) by simp
  from read_content_runs [OF w2(2,3) w1(4) queue assms(5), of u "cloned ?q" pool] show ?thesis
    unfolding run cloned_received by (metis amqp_message_t.select_convs(1,2))
qed

text \<open>A message in two frames, a heartbeat between them, that arrives in two pieces with a wait in between.\<close>

definition sample_message :: "amqp_frame_t list" where
  "sample_message = (case tl (publication 1 [] [0x71] False False sample_properties [[0x68], [0x69]]) of
     h # b # fs \<Rightarrow> h # b # heartbeat_frame # fs | fs \<Rightarrow> fs)"

definition message_script :: "recv_result list" where
  "message_script = (let ws = concat (map ser_frame sample_message) in [Recv_bytes (take 5 ws), Recv_again, Recv_bytes (drop 5 ws)])"

lemma sample_message_wf: "f \<in> set sample_message \<Longrightarrow> wf_frame f \<and> length (ser_frame f) \<le> 65536"
  by (auto simp: sample_message_def publication_def fragment_frame_def heartbeat_frame_def wf_frame_def INT32_MAX_def sample_properties_length)

lemma sample_message_length: "length (concat (map ser_frame sample_message)) = 51"
  by (simp add: sample_message_def publication_def fragment_frame_def heartbeat_frame_def sample_properties_length)

theorem message_round_trip_witness:
  "\<exists>message fs' w'. amqp_read_message sample_memory 1 (idle_net message_script [] [Poll_ready]) = (Ok (normal_reply, message), w')
    \<and> contents_of (message_body message) = concat [[0x68], [0x69]] \<and> fst (message_body message) = length (concat [[0x68], [0x69 :: byte]])
    \<and> message_properties message = (cloned sample_properties)\<lparr>flags := wire_flags (flags sample_properties)\<rparr>
    \<and> at_rest fs' w' \<and> filter (mine 1) fs' = []"
proof (rule message_round_trip)
  have "incoming message_script = concat (map ser_frame sample_message)" by (simp add: message_script_def Let_def append_take_drop_id)
  then show "at_rest sample_message (idle_net message_script [] [Poll_ready])" by (intro idle_net_at_rest sample_message_wf)
  have "length (drop 5 (concat (map ser_frame sample_message))) = 46" "length (take 5 (concat (map ser_frame sample_message))) = 5"
    using sample_message_length by (simp_all only: length_drop length_take)
  then have "drop 5 (concat (map ser_frame sample_message)) \<noteq> []" "take 5 (concat (map ser_frame sample_message)) \<noteq> []"
    by (metis list.size(3) zero_neq_numeral)+
  then show "reachable_peer amqp_time_infinite (idle_net message_script [] [Poll_ready])" by (intro idle_net_peer) (simp_all add: message_script_def Let_def answered_def)
qed (simp_all add: idle_net_def idle_connection return_to_idle_def first_connection sample_message_def publication_def fragment_frame_def heartbeat_frame_def mine_def
    sample_properties_flags AMQP_BASIC_HEADERS_FLAG_def)

end
