(* ===== verification/Amqp_Url.thy ===== *)
theory Amqp_Url
  imports Amqp_Api
begin

text \<open>
  Connection URLs, librabbitmq/amqp\_url.c. The parser decodes the URL in place: a component is the list of its
  decoded bytes, and the string that the caller sees ends at the first zero of it. The position in the
  URL is the rest of the string with its terminating zero; to read behind that is undefined.
  What a failed call leaves in the structure is not modelled.

  The functions of the C library are modelled as the standard describes them: \<^verbatim>\<open>sscanf\<close> with \<^verbatim>\<open>"%2x%n"\<close>
  skips white space, which counts for \<^verbatim>\<open>%n\<close> but not for the width, and takes a sign; \<^verbatim>\<open>strtol\<close> also
  skips white space, takes a sign and saturates.
\<close>

section \<open>Numbers\<close>

definition is_space :: "byte \<Rightarrow> bool" where
  "is_space c \<longleftrightarrow> c = 0x20 \<or> (9 \<le> c \<and> c \<le> 13)"

definition hex_value :: "byte \<Rightarrow> nat option" where
  "hex_value c =
     (if 0x30 \<le> c \<and> c \<le> 0x39 then Some (unat c - 0x30)
      else if 0x41 \<le> c \<and> c \<le> 0x46 then Some (unat c - 0x41 + 10)
      else if 0x61 \<le> c \<and> c \<le> 0x66 then Some (unat c - 0x61 + 10)
      else None)"

text \<open>The conversion \<^verbatim>\<open>%2x\<close>: the value and the number of characters of the item.\<close>

fun scan_2x :: "byte list \<Rightarrow> (nat \<times> nat) option" where
  "scan_2x (c # d # _) = (case hex_value c of
       Some x \<Rightarrow>
         (case hex_value d of
            Some y \<Rightarrow> Some (16 * x + y, 2)
          | None \<Rightarrow> if c = 0x30 \<and> (d = 0x78 \<or> d = 0x58) then None else Some (x, 1))
     | None \<Rightarrow>
         if c = 0x2B then map_option (\<lambda>y. (y, 2)) (hex_value d)
         else if c = 0x2D then map_option (\<lambda>y. ((2 ^ 32 - y) mod 2 ^ 32, 2)) (hex_value d)
         else None)"
| "scan_2x [c] = map_option (\<lambda>x. (x, 1)) (hex_value c)"
| "scan_2x [] = None"

definition sscanf_2x_n :: "byte list \<Rightarrow> (nat \<times> nat) option" where
  "sscanf_2x_n s = map_option (\<lambda>(val, n). (val, length (takeWhile is_space s) + n)) (scan_2x (dropWhile is_space s))"

definition CHAR_MAX :: nat where "CHAR_MAX = 127"

definition is_digit :: "byte \<Rightarrow> bool" where
  "is_digit c \<longleftrightarrow> 0x30 \<le> c \<and> c \<le> 0x39"

definition digits_value :: "byte list \<Rightarrow> int" where
  "digits_value ds = fold (\<lambda>d n. 10 * n + (uint d - 0x30)) ds 0"

definition LONG_MAX :: int where "LONG_MAX = 2 ^ 63 - 1"

text \<open>The value and the rest of the string; nothing if there is no number.\<close>

definition strtol10 :: "byte list \<Rightarrow> (int \<times> byte list) option" where
  "strtol10 s =
     (let s1 = dropWhile is_space s;
          (negative, s2) = (case s1 of c # cs \<Rightarrow> if c = 0x2D then (True, cs) else if c = 0x2B then (False, cs) else (False, s1) | [] \<Rightarrow> (False, s1));
          ds = takeWhile is_digit s2
      in if ds = [] then None
         else Some (if negative then max (- LONG_MAX - 1) (- digits_value ds) else min LONG_MAX (digits_value ds), dropWhile is_digit s2))"

section \<open>Components\<close>

record amqp_connection_info =
  user :: "byte list"
  password :: "byte list"
  host :: "byte list"
  vhost :: "byte list"
  port :: int
  ssl :: bool

definition amqp_default_connection_info :: amqp_connection_info where
  "amqp_default_connection_info = \<lparr>user = ascii ''guest'', password = ascii ''guest'', host = ascii ''localhost'',
     vhost = ascii ''/'', port = 5672, ssl = False\<rparr>"

definition is_delim :: "bool \<Rightarrow> byte \<Rightarrow> bool" where
  "is_delim colon_and_at_sign_are_delims ch \<longleftrightarrow>
     ch \<in> set [0, 0x2F, 0x3F, 0x23, 0x5B, 0x5D] \<or> colon_and_at_sign_are_delims \<and> (ch = 0x3A \<or> ch = 0x40)"

text \<open>
  The delimiter, the decoded component before it, and the rest behind it. After a bad escape the delimiter
  is the percent sign and the position is not changed; every caller then fails.
\<close>

function find_delim :: "bool \<Rightarrow> byte list \<Rightarrow> (byte \<times> byte list \<times> byte list) outcome" where
  "find_delim b [] = Undefined"
| "find_delim b (ch # src) =
     (if is_delim b ch then Ok (ch, [], src)
      else if ch = 0x25 then
        (case sscanf_2x_n src of
           None \<Rightarrow> Ok (0x25, [], ch # src)
         | Some (val, chars) \<Rightarrow>
             if chars \<noteq> 2 \<or> val > CHAR_MAX then Ok (0x25, [], ch # src)
             else (case find_delim b (drop 2 src) of
                 Ok (delim, to, rest) \<Rightarrow> Ok (delim, of_nat val # to, rest)
               | r \<Rightarrow> r))
      else (case find_delim b src of
          Ok (delim, to, rest) \<Rightarrow> Ok (delim, ch # to, rest)
        | r \<Rightarrow> r))"
  by pat_completeness auto
termination by (relation "measure (\<lambda>(b, s). length s)") auto

section \<open>The parser\<close>

text \<open>
  The part of the URL up to the host: the delimiter behind it, the component that may be the host,
  whether that is the component scanned last, what may be the port, and the rest.
\<close>

definition parse_userinfo :: "amqp_connection_info \<Rightarrow> byte list \<Rightarrow>
    (amqp_connection_info \<times> byte \<times> byte list \<times> bool \<times> byte list option \<times> byte list) outcome" where
  "parse_userinfo info url =
     bindO (find_delim True url) (\<lambda>(delim, h, url).
     bindO (if delim = 0x3A then bindO (find_delim True url) (\<lambda>(delim, p, url). Ok (delim, Some p, url))
            else Ok (delim, None, url)) (\<lambda>(delim, p, url).
     if delim = 0x40 then
       bindO (find_delim True url) (\<lambda>(delim, h', url).
       Ok (info\<lparr>user := cstr h, password := (case p of None \<Rightarrow> password info | Some q \<Rightarrow> cstr q)\<rparr>, delim, h', True, None, url))
     else Ok (info, delim, h, p = None, p, url)))"

definition parse_host :: "amqp_connection_info \<Rightarrow> byte \<Rightarrow> byte list \<Rightarrow> bool \<Rightarrow> byte list \<Rightarrow> (amqp_connection_info \<times> byte \<times> byte list) outcome" where
  "parse_host info delim h at_start url =
     (if delim = 0x5B then
        if \<not> at_start \<or> cstr h \<noteq> [] then Err AMQP_STATUS_BAD_URL
        else
          bindO (find_delim False url) (\<lambda>(delim, address, url).
          if delim \<noteq> 0x5D then Err AMQP_STATUS_BAD_URL
          else
            bindO (find_delim True url) (\<lambda>(delim, s, url).
            if cstr s \<noteq> [] then Err AMQP_STATUS_BAD_URL else Ok (info\<lparr>host := cstr address\<rparr>, delim, url)))
      else Ok (if cstr h \<noteq> [] then info\<lparr>host := cstr h\<rparr> else info, delim, url))"

definition parse_port :: "amqp_connection_info \<Rightarrow> byte list option \<Rightarrow> amqp_connection_info outcome" where
  "parse_port info p = (case p of
       None \<Rightarrow> Ok info
     | Some q \<Rightarrow>
         (case strtol10 (cstr q) of
            None \<Rightarrow> Err AMQP_STATUS_BAD_URL
          | Some (portnum, rest) \<Rightarrow>
              if rest \<noteq> [] \<or> portnum < 0 \<or> portnum > 65535 then Err AMQP_STATUS_BAD_URL else Ok (info\<lparr>port := portnum\<rparr>)))"

definition parse_vhost :: "amqp_connection_info \<Rightarrow> byte \<Rightarrow> byte list \<Rightarrow> amqp_connection_info outcome" where
  "parse_vhost info delim url =
     (if delim = 0x2F then
        bindO (find_delim True url) (\<lambda>(delim, v, url). if delim \<noteq> 0 then Err AMQP_STATUS_BAD_URL else Ok (info\<lparr>vhost := cstr v\<rparr>))
      else if delim = 0 then Ok info
      else Err AMQP_STATUS_BAD_URL)"

definition parse_after_scheme :: "amqp_connection_info \<Rightarrow> byte list \<Rightarrow> amqp_connection_info outcome" where
  "parse_after_scheme info url =
     bindO (parse_userinfo info url) (\<lambda>(info, delim, h, at_start, p, url).
     bindO (parse_host info delim h at_start url) (\<lambda>(info, delim, url).
     bindO (if delim = 0x3A then bindO (find_delim True url) (\<lambda>(delim, q, url). Ok (delim, Some q, url))
            else Ok (delim, p, url)) (\<lambda>(delim, p, url).
     bindO (parse_port info p) (\<lambda>info.
     parse_vhost info delim url))))"

definition amqp_parse_url :: "byte list \<Rightarrow> amqp_connection_info outcome" where
  "amqp_parse_url url =
     (if \<not> terminated url then Undefined
      else if take 7 url = ascii ''amqp://'' then parse_after_scheme amqp_default_connection_info (drop 7 url)
      else if take 8 url = ascii ''amqps://'' then parse_after_scheme (amqp_default_connection_info\<lparr>port := 5671, ssl := True\<rparr>) (drop 8 url)
      else Err AMQP_STATUS_BAD_URL)"

section \<open>The parser stays inside the string\<close>

lemma hex_value_nonzero: "hex_value c = Some x \<Longrightarrow> c \<noteq> 0"
  by (auto simp: hex_value_def)

lemma scan_2x_length:
  assumes "scan_2x s = Some (v, n)"
  shows "(n = 1 \<or> n = 2) \<and> n \<le> length s \<and> 0 \<notin> set (take n s)"
  using assms by (cases s rule: scan_2x.cases) (auto dest!: hex_value_nonzero split: option.splits if_splits)

lemma escape_stays:
  assumes "sscanf_2x_n s = Some (v, 2)" and "terminated s"
  shows "terminated (drop 2 s)"
proof -
  let ?ws = "takeWhile is_space s" and ?r = "dropWhile is_space s"
  from assms(1) obtain n where n: "scan_2x ?r = Some (v, n)" "length ?ws + n = 2" by (auto simp: sscanf_2x_n_def)
  note sc = scan_2x_length [OF n(1)]
  have "take 2 s = ?ws @ take n ?r" 
  proof -
    have "take (length ?ws + n) (?ws @ ?r) = ?ws @ take n ?r" by (simp del: takeWhile_dropWhile_id)
    then have "take 2 (?ws @ ?r) = ?ws @ take n ?r" unfolding n(2) .
    then show ?thesis by simp
  qed
  moreover have "0 \<notin> set ?ws" by (auto dest!: set_takeWhileD simp: is_space_def)
  ultimately have "0 \<notin> set (take 2 s)" using sc by auto
  then show ?thesis using assms(2) append_take_drop_id [of 2 s] unfolding terminated_def by (metis Un_iff set_append)
qed

lemma find_delim_stays:
  assumes "terminated url"
  shows "\<exists>delim to rest. find_delim b url = Ok (delim, to, rest) \<and> (delim = 0 \<or> terminated rest)"
  using assms
proof (induction b url rule: find_delim.induct)
  case (2 b ch src)
  show ?case
  proof (cases "is_delim b ch")
    case True
    then show ?thesis using 2(3) by (auto simp: terminated_def)
  next
    case False
    then have "ch \<noteq> 0" by (auto simp: is_delim_def)
    then have t: "terminated src" using 2(3) by (simp add: terminated_def)
    show ?thesis
    proof (cases "ch = 0x25")
      case no: False
      from 2(2) [OF False no t] show ?thesis using False no by auto
    next
      case esc: True
      show ?thesis
      proof (cases "sscanf_2x_n src")
        case None
        then show ?thesis using False esc 2(3) by simp
      next
        case (Some v)
        obtain val n where v: "v = (val, n)" by (rule prod.exhaust)
        show ?thesis
        proof (cases "n \<noteq> 2 \<or> val > CHAR_MAX")
          case True
          then show ?thesis using False esc 2(3) Some v by simp
        next
          case ok: False
          then have n: "n = 2" by simp
          have "terminated (drop 2 src)" by (rule escape_stays [OF _ t]) (use Some v n in simp)
          from 2(1) [OF False esc Some v [symmetric] ok this] show ?thesis using False esc Some v ok by auto
        qed
      qed
    qed
  qed
qed (simp add: terminated_def)


lemma cstr_nonzero: "0 \<notin> set (cstr s)"
  by (auto simp: cstr_def dest: set_takeWhileD)

text \<open>Strings without a zero, and a port.\<close>

definition usable :: "amqp_connection_info \<Rightarrow> bool" where
  "usable info \<longleftrightarrow> 0 \<notin> set (user info) \<union> set (password info) \<union> set (host info) \<union> set (vhost info) \<and> 0 \<le> port info \<and> port info \<le> 65535"

lemma ascii_nonzero: "0 \<notin> set (ascii ''guest'')" "0 \<notin> set (ascii ''localhost'')" "0 \<notin> set (ascii ''/'')"
  by (simp_all add: ascii_def)

lemma usable_default: "usable amqp_default_connection_info" "usable (amqp_default_connection_info\<lparr>port := 5671, ssl := True\<rparr>)"
  by (simp_all add: usable_def amqp_default_connection_info_def ascii_nonzero)

lemma parse_userinfo_stays:
  assumes "terminated url" and "usable info"
  shows "\<exists>info' delim h a p rest. parse_userinfo info url = Ok (info', delim, h, a, p, rest) \<and> usable info' \<and> (delim = 0 \<or> terminated rest)"
proof -
  obtain d h r where 1: "find_delim True url = Ok (d, h, r)" "d = 0 \<or> terminated r" using find_delim_stays [OF assms(1)] by blast
  obtain d2 p r2 where 2: "(if d = 0x3A then bindO (find_delim True r) (\<lambda>(delim, p, url). Ok (delim, Some p, url)) else Ok (d, None, r)) = Ok (d2, p, r2)"
    "d2 = 0 \<or> terminated r2"
    using 1(2) find_delim_stays [of r True] by (cases "d = 0x3A") auto
  show ?thesis
  proof (cases "d2 = 0x40")
    case True
    then obtain d3 h3 r3 where 3: "find_delim True r2 = Ok (d3, h3, r3)" "d3 = 0 \<or> terminated r3" using 2(2) find_delim_stays [of r2 True] by auto
    have "usable (info\<lparr>user := cstr h, password := (case p of None \<Rightarrow> password info | Some q \<Rightarrow> cstr q)\<rparr>)"
      using assms(2) cstr_nonzero by (auto simp: usable_def split: option.splits)
    moreover have "parse_userinfo info url =
        Ok (info\<lparr>user := cstr h, password := (case p of None \<Rightarrow> password info | Some q \<Rightarrow> cstr q)\<rparr>, d3, h3, True, None, r3)"
      unfolding parse_userinfo_def 1(1) using 2(1) True 3(1) by simp
    ultimately show ?thesis using 3(2) by blast
  qed (use 1(1) 2 assms(2) in \<open>simp add: parse_userinfo_def\<close>)
qed

lemma parse_host_stays:
  assumes "delim = 0 \<or> terminated url" and "usable info" and "parse_host info delim h a url = r"
  shows "r = Err AMQP_STATUS_BAD_URL \<or> (\<exists>info' d rest. r = Ok (info', d, rest) \<and> usable info' \<and> (d = 0 \<or> terminated rest))"
proof (cases "delim = 0x5B \<and> a \<and> cstr h = []")
  case True
  then obtain d2 h2 r2 where 2: "find_delim False url = Ok (d2, h2, r2)" "d2 = 0 \<or> terminated r2" using assms(1) find_delim_stays [of url False] by auto
  show ?thesis
  proof (cases "d2 = 0x5D")
    case ok: True
    then obtain d3 h3 r3 where 3: "find_delim True r2 = Ok (d3, h3, r3)" "d3 = 0 \<or> terminated r3" using 2(2) find_delim_stays [of r2 True] by auto
    have "usable (info\<lparr>host := cstr h2\<rparr>)" using assms(2) cstr_nonzero by (auto simp: usable_def)
    moreover have "r = (if cstr h3 \<noteq> [] then Err AMQP_STATUS_BAD_URL else Ok (info\<lparr>host := cstr h2\<rparr>, d3, r3))"
      using assms(3) True 2(1) ok 3(1) by (simp add: parse_host_def)
    ultimately show ?thesis using 3(2) by (cases "cstr h3 = []") auto
  qed (use assms(3) True 2(1) in \<open>auto simp: parse_host_def\<close>)
next
  case False
  have "usable (if cstr h \<noteq> [] then info\<lparr>host := cstr h\<rparr> else info)" using assms(2) cstr_nonzero by (auto simp: usable_def)
  moreover have "r = Err AMQP_STATUS_BAD_URL \<or> r = Ok (if cstr h \<noteq> [] then info\<lparr>host := cstr h\<rparr> else info, delim, url)"
  proof (cases "delim = 0x5B")
    case True
    then have "\<not> a \<or> cstr h \<noteq> []" using False by blast
    then show ?thesis using assms(3) True by (simp add: parse_host_def)
  qed (use assms(3) in \<open>simp add: parse_host_def\<close>)
  ultimately show ?thesis using assms(1) by blast
qed

lemma parse_after_scheme_stays:
  assumes "terminated url" and "usable info"
  shows "parse_after_scheme info url = Err AMQP_STATUS_BAD_URL \<or> (\<exists>info'. parse_after_scheme info url = Ok info' \<and> usable info')"
proof -
  obtain i1 d1 h1 a p1 r1 where 1: "parse_userinfo info url = Ok (i1, d1, h1, a, p1, r1)" "usable i1" "d1 = 0 \<or> terminated r1"
    using parse_userinfo_stays [OF assms] by blast
  show ?thesis
  proof (cases "\<exists>i2 d2 r2. parse_host i1 d1 h1 a r1 = Ok (i2, d2, r2) \<and> usable i2 \<and> (d2 = 0 \<or> terminated r2)")
    case True
    then obtain i2 d2 r2 where 2: "parse_host i1 d1 h1 a r1 = Ok (i2, d2, r2)" "usable i2" "d2 = 0 \<or> terminated r2" by blast
    obtain d3 p3 r3 where 3: "(if d2 = 0x3A then bindO (find_delim True r2) (\<lambda>(delim, q, url). Ok (delim, Some q, url)) else Ok (d2, p1, r2)) = Ok (d3, p3, r3)"
      "d3 = 0 \<or> terminated r3"
      using 2(3) find_delim_stays [of r2 True] by (cases "d2 = 0x3A") auto
    have run: "parse_after_scheme info url = bindO (parse_port i2 p3) (\<lambda>info. parse_vhost info d3 r3)"
      unfolding parse_after_scheme_def 1(1) using 2(1) 3(1) by simp
    have "parse_port i2 p3 = Err AMQP_STATUS_BAD_URL \<or> (\<exists>i. parse_port i2 p3 = Ok i \<and> usable i)"
      using 2(2) by (auto simp: parse_port_def usable_def split: option.splits prod.splits)
    moreover have "parse_vhost i d3 r3 = Err AMQP_STATUS_BAD_URL \<or> (\<exists>i'. parse_vhost i d3 r3 = Ok i' \<and> usable i')" if "usable i" for i
      using that 3(2) find_delim_stays [of r3 True] cstr_nonzero by (auto simp: parse_vhost_def usable_def)
    ultimately show ?thesis unfolding run by (metis bindO.simps(1,2))
  next
    case False
    then have "parse_host i1 d1 h1 a r1 = Err AMQP_STATUS_BAD_URL" using parse_host_stays [OF 1(3,2) refl, of h1 a] by blast
    then show ?thesis by (simp add: parse_after_scheme_def 1(1))
  qed
qed

text \<open>
  C40: The parser reads no byte behind the end of the URL, and returns: either an error, or strings without a zero
  and a port that is one.
\<close>

theorem amqp_parse_url_safe:
  assumes "terminated url"
  shows "amqp_parse_url url = Err AMQP_STATUS_BAD_URL \<or> (\<exists>info. amqp_parse_url url = Ok info \<and> usable info)"
proof -
  have rest: "terminated (drop n url)" if "take n url = ascii s" "0 \<notin> set (ascii s)" for n s
    using assms that append_take_drop_id [of n url] unfolding terminated_def by (metis Un_iff set_append)
  have "0 \<notin> set (ascii ''amqp://'')" "0 \<notin> set (ascii ''amqps://'')" by (simp_all add: ascii_def)
  then show ?thesis
    using assms rest parse_after_scheme_stays [OF _ usable_default(1)] parse_after_scheme_stays [OF _ usable_default(2)]
    by (simp add: amqp_parse_url_def)
qed

theorem amqp_parse_url_safe_witness:
  "amqp_parse_url (ascii ''amqp://u:p@[::1]:5672/v%2fx'' @ [0]) = Err AMQP_STATUS_BAD_URL
   \<or> (\<exists>info. amqp_parse_url (ascii ''amqp://u:p@[::1]:5672/v%2fx'' @ [0]) = Ok info \<and> usable info)"
  by (rule amqp_parse_url_safe) (simp add: terminated_def)


section \<open>Printed URLs are parsed\<close>

definition hex_digit :: "nat \<Rightarrow> byte" where
  "hex_digit n = (if n < 10 then 0x30 + of_nat n else 0x61 + of_nat (n - 10))"

text \<open>Letters and digits stand for themselves, and so do bytes above 127, which the parser refuses as escapes.\<close>

definition plain :: "byte \<Rightarrow> bool" where
  "plain c \<longleftrightarrow> 0x30 \<le> c \<and> c \<le> 0x39 \<or> 0x41 \<le> c \<and> c \<le> 0x5A \<or> 0x61 \<le> c \<and> c \<le> 0x7A \<or> 0x80 \<le> c"

definition escape :: "byte \<Rightarrow> byte list" where
  "escape c = (if plain c then [c] else [0x25, hex_digit (unat c div 16), hex_digit (unat c mod 16)])"

definition print_url :: "amqp_connection_info \<Rightarrow> byte list" where
  "print_url info = ascii (if ssl info then ''amqps://'' else ''amqp://'') @
     concat (map escape (user info)) @ 0x3A # concat (map escape (password info)) @ 0x40 #
     concat (map escape (host info)) @ 0x3A # decimal (nat (port info)) @ 0x2F # concat (map escape (vhost info)) @ [0]"

lemma plain_step: "plain c \<Longrightarrow> find_delim b (c # rest) = (case find_delim b rest of Ok (d, to, r) \<Rightarrow> Ok (d, c # to, r) | r \<Rightarrow> r)"
proof -
  assume "plain c"
  then have "\<not> is_delim b c" "c \<noteq> 0x25" by (auto simp: plain_def is_delim_def)
  then show ?thesis by simp
qed

lemma hex_digit_value:
  assumes "n < 16"
  shows "hex_value (hex_digit n) = Some n" and "\<not> is_space (hex_digit n)"
proof -
  have "list_all (\<lambda>n. hex_value (hex_digit n) = Some n \<and> \<not> is_space (hex_digit n)) [0..<16]" by code_simp
  then show "hex_value (hex_digit n) = Some n" "\<not> is_space (hex_digit n)" using assms by (simp_all add: list_all_iff)
qed

lemma escape_step:
  assumes "c \<noteq> 0"
  shows "find_delim b (escape c @ rest) = (case find_delim b rest of Ok (d, to, r) \<Rightarrow> Ok (d, c # to, r) | r \<Rightarrow> r)"
proof (cases "plain c")
  case True
  then show ?thesis by (simp add: escape_def plain_step del: find_delim.simps)
next
  case False
  let ?h = "unat c div 16" and ?l = "unat c mod 16"
  have "c < 0x80" using False by (auto simp: plain_def)
  then have c: "unat c < 128" by (simp add: word_less_nat_alt)
  have hl: "?h < 16" "?l < 16" using c by auto
  have "sscanf_2x_n (hex_digit ?h # hex_digit ?l # rest) = Some (unat c, 2)"
    by (simp add: sscanf_2x_n_def hex_digit_value [OF hl(1)] hex_digit_value(1) [OF hl(2)])
  moreover have "\<not> is_delim b 0x25" by (simp add: is_delim_def)
  ultimately show ?thesis using False c by (simp add: escape_def CHAR_MAX_def of_nat_unat split: outcome.splits)
qed

lemma find_delim_text:
  assumes "is_delim b d" and "0 \<notin> set s"
  shows "find_delim b (concat (map escape s) @ d # rest) = Ok (d, s, rest)"
  using assms(2)
proof (induction s)
  case Nil
  then show ?case using assms(1) by simp
next
  case (Cons c s)
  then show ?case using escape_step [of c b "concat (map escape s) @ d # rest"] by (simp del: find_delim.simps)
qed

declare decimal.simps [simp del]

lemma decimal_digits: "c \<in> set (decimal n) \<Longrightarrow> is_digit c"
proof (induction n rule: decimal.induct)
  case (1 n)
  have "list_all (\<lambda>k. is_digit (of_nat (0x30 + k))) [0..<10]" by code_simp
  then have "is_digit (of_nat (0x30 + n mod 10))" by (simp add: list_all_iff)
  then show ?case using 1 by (subst (asm) (2) decimal.simps) (auto split: if_splits)
qed

lemma digits_value_snoc: "digits_value (ds @ [d]) = 10 * digits_value ds + (uint d - 0x30)"
  by (simp add: digits_value_def)

lemma decimal_value: "digits_value (decimal n) = int n"
proof (induction n rule: decimal.induct)
  case (1 n)
  have "list_all (\<lambda>k. uint (of_nat (0x30 + k) :: byte) = 0x30 + int k) [0..<10]" by code_simp
  then have "uint (of_nat (0x30 + n mod 10) :: byte) = 0x30 + int (n mod 10)" by (simp add: list_all_iff)
  moreover have "10 * int (n div 10) + int (n mod 10) = int n" using mult_div_mod_eq [of 10 "int n"] by (simp add: zdiv_int zmod_int)
  ultimately show ?case using 1 by (subst decimal.simps) (auto simp: digits_value_snoc digits_value_def)
qed

lemma digit_plain: "is_digit c \<Longrightarrow> plain c \<and> c \<noteq> 0 \<and> \<not> is_space c \<and> c \<noteq> 0x2B \<and> c \<noteq> 0x2D"
  by (auto simp: is_digit_def plain_def is_space_def word_le_nat_alt)

lemma decimal_ne: "decimal n \<noteq> []"
  by (subst decimal.simps) simp

lemma strtol_decimal:
  assumes "int n \<le> LONG_MAX"
  shows "strtol10 (decimal n) = Some (int n, [])"
proof -
  have all: "takeWhile is_digit (decimal n) = decimal n" "dropWhile is_digit (decimal n) = []"
    using decimal_digits by auto
  obtain c cs where c: "decimal n = c # cs" using decimal_ne by (cases "decimal n") auto
  then have "is_digit c" using decimal_digits [of c n] by simp
  note d = digit_plain [OF this]
  have "dropWhile is_space (decimal n) = decimal n" using c d by simp
  then show ?thesis using all c d decimal_value [of n] assms by (simp add: strtol10_def)
qed

lemma cstr_id: "0 \<notin> set s \<Longrightarrow> cstr s = s"
  by (auto simp: cstr_def takeWhile_eq_all_conv)

lemma find_delim_decimal:
  assumes "is_delim b d"
  shows "find_delim b (decimal n @ d # rest) = Ok (d, decimal n, rest)"
proof -
  have "concat (map escape ds) = ds" if "\<forall>c \<in> set ds. is_digit c" for ds
    using that digit_plain by (induction ds) (auto simp: escape_def)
  then have "concat (map escape (decimal n)) = decimal n" using decimal_digits by blast
  moreover have "0 \<notin> set (decimal n)" using decimal_digits digit_plain by blast
  ultimately show ?thesis using find_delim_text [OF assms, of "decimal n" rest] by simp
qed

text \<open>C16: Every connection info with a host can be written as a URL, and the parser returns it.\<close>

theorem url_round_trip:
  assumes "usable info" and "host info \<noteq> []"
  shows "amqp_parse_url (print_url info) = Ok info"
proof -
  let ?rest = "concat (map escape (user info)) @ 0x3A # concat (map escape (password info)) @ 0x40 #
     concat (map escape (host info)) @ 0x3A # decimal (nat (port info)) @ 0x2F # concat (map escape (vhost info)) @ [0]"
  have no0: "0 \<notin> set (user info)" "0 \<notin> set (password info)" "0 \<notin> set (host info)" "0 \<notin> set (vhost info)"
    and p: "0 \<le> port info" "port info \<le> 65535" using assms(1) by (auto simp: usable_def)
  have delims: "is_delim True 0x3A" "is_delim True 0x40" "is_delim True 0x2F" "is_delim True 0" by (simp_all add: is_delim_def)
  note texts = find_delim_text [OF delims(1) no0(1)] find_delim_text [OF delims(2) no0(2)] find_delim_text [OF delims(1) no0(3)]
    find_delim_decimal [OF delims(3)] find_delim_text [OF delims(4) no0(4)]
  have digits: "0 \<notin> set (decimal (nat (port info)))" using decimal_digits digit_plain by blast
  have port: "strtol10 (decimal (nat (port info))) = Some (port info, [])" using strtol_decimal [of "nat (port info)"] p by (simp add: LONG_MAX_def)
  have after: "parse_after_scheme i ?rest = Ok (i\<lparr>user := user info, password := password info, host := host info, port := port info, vhost := vhost info\<rparr>)" for i
    by (simp add: parse_after_scheme_def parse_userinfo_def parse_host_def parse_port_def parse_vhost_def texts cstr_id no0 digits port p not_less assms(2)
        del: find_delim.simps)
  have "terminated (print_url info)" by (simp add: print_url_def terminated_def)
  moreover have "take 7 (print_url info) = ascii ''amqp://'' \<longleftrightarrow> \<not> ssl info" "ssl info \<Longrightarrow> take 8 (print_url info) = ascii ''amqps://''"
    "\<not> ssl info \<Longrightarrow> drop 7 (print_url info) = ?rest" "ssl info \<Longrightarrow> drop 8 (print_url info) = ?rest"
    by (simp_all add: print_url_def ascii_def)
  ultimately show ?thesis using after by (simp add: amqp_parse_url_def amqp_default_connection_info_def)
qed

text \<open>A second colon begins the port again: what stands between the colons is not looked at.\<close>

lemma text_between_colons_ignored:
  assumes "0 \<notin> set h" and "h \<noteq> []" and "0 \<notin> set junk"
  shows "amqp_parse_url (ascii ''amqp://'' @ concat (map escape h) @ 0x3A # concat (map escape junk) @ 0x3A # decimal 5673 @ [0]) =
    Ok (amqp_default_connection_info\<lparr>host := h, port := 5673\<rparr>)"
proof -
  let ?rest = "concat (map escape h) @ 0x3A # concat (map escape junk) @ 0x3A # decimal 5673 @ [0]"
  have delims: "is_delim True 0x3A" "is_delim True 0" by (simp_all add: is_delim_def)
  note texts = find_delim_text [OF delims(1) assms(1)] find_delim_text [OF delims(1) assms(3)] find_delim_decimal [OF delims(2)]
  have digits: "0 \<notin> set (decimal 5673)" using decimal_digits digit_plain by blast
  have "parse_after_scheme i ?rest = Ok (i\<lparr>host := h, port := 5673\<rparr>)" for i
    by (simp add: parse_after_scheme_def parse_userinfo_def parse_host_def parse_port_def parse_vhost_def texts cstr_id digits assms
        strtol_decimal LONG_MAX_def del: find_delim.simps)
  moreover have "drop 7 (ascii ''amqp://'' @ ?rest) = ?rest" "take 7 (ascii ''amqp://'' @ ?rest) = ascii ''amqp://''" by (simp_all add: ascii_def)
  moreover have "terminated (ascii ''amqp://'' @ ?rest)" by (simp add: terminated_def)
  ultimately show ?thesis by (simp only: amqp_parse_url_def simp_thms if_True if_False)
qed

text \<open>An escape may hold a sign or white space, but not a byte above 127.\<close>

lemma escapes_accepted: "sscanf_2x_n (ascii ''+5'' @ r) = Some (5, 2)" "sscanf_2x_n (ascii ''-0'' @ r) = Some (0, 2)"
    "sscanf_2x_n (ascii '' 5:'' @ r) = Some (5, 2)"
  by (simp_all add: sscanf_2x_n_def is_space_def hex_value_def ascii_def)

lemma high_escape_refused:
  assumes "8 \<le> n" and "n < 16" and "m < 16"
  shows "find_delim b (0x25 # hex_digit n # hex_digit m # r) = Ok (0x25, [], 0x25 # hex_digit n # hex_digit m # r)"
  using assms by (simp add: is_delim_def sscanf_2x_n_def hex_digit_value CHAR_MAX_def)

theorem url_round_trip_witness:
  "amqp_parse_url (print_url \<lparr>user = ascii ''me'', password = ascii ''a@b:c%'', host = ascii ''::1'', vhost = ascii ''/'', port = 5671, ssl = True\<rparr>) =
    Ok \<lparr>user = ascii ''me'', password = ascii ''a@b:c%'', host = ascii ''::1'', vhost = ascii ''/'', port = 5671, ssl = True\<rparr>"
  by (rule url_round_trip) (simp_all add: usable_def ascii_def)

end
