(* ===== verification/Amqp_Open.thy ===== *)
theory Amqp_Open
  imports Amqp_Consumer
begin

unbundle bit_operations_syntax

text \<open>
  Opening and closing the TCP socket of a connection: \<^verbatim>\<open>connect_socket\<close>, \<^verbatim>\<open>amqp_open_socket_inner\<close> and its
  callers in librabbitmq/amqp\_socket.c, and the functions of librabbitmq/amqp\_tcp\_socket.c that create,
  open, close and delete the socket. Of the branches for the platforms it is the one for POSIX systems
  without \<^verbatim>\<open>SO_NOSIGPIPE\<close>.

  The system keeps a table of open descriptors with the options that were set on them. Whether a call is
  granted is read from a script, as in the socket layer; a script that has ended grants the call.
  What \<^verbatim>\<open>getaddrinfo\<close> answers is a function of its arguments, \<open>resolver\<close>. The theorem is about the table: a
  descriptor that the library opened is returned, configured and connected, or is closed again.
\<close>

section \<open>The system\<close>

record addrinfo =
  ai_family :: int
  ai_socktype :: int
  ai_protocol :: int
  ai_addr :: "byte list"

record descriptor =
  fd_flags :: "32 word"
  status_flags :: "32 word"
  tcp_nodelay :: bool
  so_keepalive :: bool
  peer :: "byte list option"
  writable :: bool
  connected :: bool

datatype connect_result = Connect_done | Connect_in_progress | Connect_failed

text \<open>
  \<open>so_errors\<close> holds the results of \<^verbatim>\<open>getsockopt\<close> with \<^verbatim>\<open>SO_ERROR\<close>: a failure of the call, or the pending error.
  \<open>address_lists\<close> counts the results of \<^verbatim>\<open>getaddrinfo\<close> that were not freed; \<open>sock_block\<close> is the memory of the
  socket object.
\<close>

record host =
  library :: net
  descriptors :: "(int \<times> descriptor) list"
  grants :: "bool list"
  connects :: "connect_result list"
  so_errors :: "int option list"
  resolver :: "byte list \<Rightarrow> byte list \<Rightarrow> addrinfo \<Rightarrow> addrinfo list option"
  address_lists :: nat
  sock_block :: "nat option"

type_synonym 'a hprog = "(host, 'a) prog"

definition on_library :: "'a nprog \<Rightarrow> 'a hprog" where
  "on_library m = (\<lambda>s. case m (library s) of (r, w) \<Rightarrow> (r, s\<lparr>library := w\<rparr>))"

definition granted :: "bool hprog" where
  "granted = (\<lambda>s. (Ok (case grants s of [] \<Rightarrow> True | b # _ \<Rightarrow> b), s\<lparr>grants := drop 1 (grants s)\<rparr>))"

definition FD_CLOEXEC :: "32 word" where "FD_CLOEXEC = 1"
definition O_NONBLOCK :: "32 word" where "O_NONBLOCK = 0x800"

definition fresh_descriptor :: descriptor where
  "fresh_descriptor = \<lparr>fd_flags = 0, status_flags = 2, tcp_nodelay = False, so_keepalive = False, peer = None,
     writable = False, connected = False\<rparr>"

definition keys :: "(int \<times> descriptor) list \<Rightarrow> int set" where
  "keys ds = fst ` set ds"

text \<open>A new descriptor is the lowest one that is not open.\<close>

definition lowest_free :: "(int \<times> descriptor) list \<Rightarrow> int" where
  "lowest_free ds = hd (filter (\<lambda>fd. fd \<notin> keys ds) (map int [0..<Suc (length ds)]))"

definition sys_socket :: "addrinfo \<Rightarrow> int hprog" where
  "sys_socket addr = bindP granted (\<lambda>ok s.
     if ok then (Ok (lowest_free (descriptors s)), s\<lparr>descriptors := (lowest_free (descriptors s), fresh_descriptor) # descriptors s\<rparr>)
     else (Ok (- 1), s))"

definition update_fd :: "int \<Rightarrow> (descriptor \<Rightarrow> descriptor) \<Rightarrow> host \<Rightarrow> host" where
  "update_fd fd f s = s\<lparr>descriptors := map (\<lambda>(k, d). (k, if k = fd then f d else d)) (descriptors s)\<rparr>"

text \<open>Reading and setting an option of a descriptor fails, too, when the descriptor is not open.\<close>

definition sys_get :: "int \<Rightarrow> (descriptor \<Rightarrow> 'a) \<Rightarrow> 'a option hprog" where
  "sys_get fd sel = bindP granted (\<lambda>ok s. (Ok (if ok then map_option sel (map_of (descriptors s) fd) else None), s))"

definition sys_set :: "int \<Rightarrow> (descriptor \<Rightarrow> descriptor) \<Rightarrow> bool hprog" where
  "sys_set fd f = bindP granted (\<lambda>ok s. if ok \<and> fd \<in> keys (descriptors s) then (Ok True, update_fd fd f s) else (Ok False, s))"

definition sys_connect :: "int \<Rightarrow> byte list \<Rightarrow> connect_result hprog" where
  "sys_connect fd a = (\<lambda>s.
     let r = (case connects s of [] \<Rightarrow> Connect_done | r # _ \<Rightarrow> r);
         s' = s\<lparr>connects := drop 1 (connects s)\<rparr>
     in (Ok r, case r of
           Connect_done \<Rightarrow> update_fd fd (\<lambda>d. d\<lparr>peer := Some a, connected := True\<rparr>) s'
         | Connect_in_progress \<Rightarrow> update_fd fd (\<lambda>d. d\<lparr>peer := Some a\<rparr>) s'
         | Connect_failed \<Rightarrow> s'))"

text \<open>
  A descriptor whose connection is in progress becomes writable when the attempt has ended, and its pending error
  tells then, and only then, whether the connection is there.
\<close>

definition poll_out :: "int \<Rightarrow> amqp_time_t \<Rightarrow> amqp_status_enum hprog" where
  "poll_out fd deadline = bindP (on_library (amqp_poll deadline)) (\<lambda>status s.
     (Ok status, if status = AMQP_STATUS_OK then update_fd fd (\<lambda>d. d\<lparr>writable := True\<rparr>) s else s))"

definition sys_so_error :: "int \<Rightarrow> int option hprog" where
  "sys_so_error fd = (\<lambda>s.
     let r = (case so_errors s of [] \<Rightarrow> Some 0 | r # _ \<Rightarrow> r);
         s' = s\<lparr>so_errors := drop 1 (so_errors s)\<rparr>
     in (Ok r, if r = Some 0 then update_fd fd (\<lambda>d. d\<lparr>connected := connected d \<or> (writable d \<and> peer d \<noteq> None)\<rparr>) s' else s'))"

text \<open>\<^verbatim>\<open>close\<close> releases the descriptor even when it reports an error, as on Linux.\<close>

definition release :: "int \<Rightarrow> host \<Rightarrow> host" where
  "release fd s = s\<lparr>descriptors := filter (\<lambda>(k, d). k \<noteq> fd) (descriptors s)\<rparr>"

section \<open>Connecting to an address\<close>

definition also_ok :: "bool hprog \<Rightarrow> bool hprog \<Rightarrow> bool hprog" where
  "also_ok m k = bindP m (\<lambda>ok. if ok then k else ret False)"

definition set_cloexec :: "int \<Rightarrow> bool hprog" where
  "set_cloexec sockfd = bindP (sys_get sockfd fd_flags) (\<lambda>fl.
     case fl of
       None \<Rightarrow> ret False
     | Some fl \<Rightarrow> sys_set sockfd (\<lambda>d. d\<lparr>fd_flags := fl OR FD_CLOEXEC\<rparr>))"

definition set_nonblock :: "int \<Rightarrow> bool hprog" where
  "set_nonblock sockfd = bindP (sys_get sockfd status_flags) (\<lambda>fl.
     case fl of
       None \<Rightarrow> ret False
     | Some fl \<Rightarrow> sys_set sockfd (\<lambda>d. d\<lparr>status_flags := fl OR O_NONBLOCK\<rparr>))"

text \<open>The steps between \<^verbatim>\<open>socket\<close> and \<^verbatim>\<open>connect\<close>; each of them leads to the label \<^verbatim>\<open>err\<close> when it fails.\<close>

definition configure_socket :: "int \<Rightarrow> bool hprog" where
  "configure_socket sockfd =
     also_ok (set_cloexec sockfd)
     (also_ok (set_nonblock sockfd)
     (also_ok (sys_set sockfd (\<lambda>d. d\<lparr>tcp_nodelay := True\<rparr>))
     (sys_set sockfd (\<lambda>d. d\<lparr>so_keepalive := True\<rparr>))))"

definition connect_err :: "int \<Rightarrow> amqp_status_enum \<Rightarrow> int hprog" where
  "connect_err sockfd last_error = (\<lambda>s. (Ok (status_code last_error), release sockfd s))"

definition finish_connect :: "int \<Rightarrow> amqp_time_t \<Rightarrow> int hprog" where
  "finish_connect sockfd deadline =
     bindP (poll_out sockfd deadline) (\<lambda>last_error.
     if last_error \<noteq> AMQP_STATUS_OK then connect_err sockfd last_error
     else bindP (sys_so_error sockfd) (\<lambda>result.
       if result \<noteq> Some 0 then connect_err sockfd AMQP_STATUS_SOCKET_ERROR else ret sockfd))"

definition connect_socket :: "addrinfo \<Rightarrow> amqp_time_t \<Rightarrow> int hprog" where
  "connect_socket addr deadline =
     bindP (sys_socket addr) (\<lambda>sockfd.
     if sockfd = - 1 then ret (status_code AMQP_STATUS_SOCKET_ERROR)
     else bindP (configure_socket sockfd) (\<lambda>ok.
     if \<not> ok then connect_err sockfd AMQP_STATUS_SOCKET_ERROR
     else bindP (sys_connect sockfd (ai_addr addr)) (\<lambda>r.
     case r of
       Connect_done \<Rightarrow> ret sockfd
     | Connect_failed \<Rightarrow> connect_err sockfd AMQP_STATUS_SOCKET_ERROR
     | Connect_in_progress \<Rightarrow> finish_connect sockfd deadline)))"

section \<open>Connecting to a host\<close>

text \<open>
  The loop over the addresses ends with the first descriptor or the first timeout. The result is the last
  value of \<^verbatim>\<open>sockfd\<close> and of \<^verbatim>\<open>last_error\<close>.
\<close>

fun try_addresses :: "addrinfo list \<Rightarrow> amqp_time_t \<Rightarrow> int \<Rightarrow> int \<Rightarrow> (int \<times> int) hprog" where
  "try_addresses [] deadline sockfd last_error = ret (sockfd, last_error)"
| "try_addresses (addr # addrs) deadline sockfd last_error =
     bindP (connect_socket addr deadline) (\<lambda>sockfd.
     if sockfd \<ge> 0 then ret (sockfd, status_code AMQP_STATUS_OK)
     else if sockfd = status_code AMQP_STATUS_TIMEOUT then ret (sockfd, sockfd)
     else try_addresses addrs deadline sockfd last_error)"

text \<open>\<^verbatim>\<open>sprintf\<close> with \<^verbatim>\<open>"%d"\<close>, without the terminating zero.\<close>

definition sprintf_d :: "int \<Rightarrow> byte list" where
  "sprintf_d n = (if n < 0 then 0x2D # decimal (nat (- n)) else decimal (nat n))"

definition hint :: addrinfo where
  "hint = \<lparr>ai_family = 0, ai_socktype = 1, ai_protocol = 6, ai_addr = []\<rparr>"

definition amqp_open_socket_inner :: "byte list \<Rightarrow> int \<Rightarrow> amqp_time_t \<Rightarrow> int hprog" where
  "amqp_open_socket_inner hostname portnumber deadline = (\<lambda>s.
     if length (sprintf_d portnumber) + 1 > 33 then (Undefined, s)
     else case resolver s hostname (sprintf_d portnumber) hint of
         None \<Rightarrow> (Ok (status_code AMQP_STATUS_HOSTNAME_RESOLUTION_FAILED), s)
       | Some addrs \<Rightarrow>
           bindP (try_addresses addrs deadline (- 1) 0) (\<lambda>(sockfd, last_error) s.
             (Ok (if last_error \<noteq> status_code AMQP_STATUS_OK \<or> sockfd = - 1 then last_error else sockfd),
              s\<lparr>address_lists := address_lists s - 1\<rparr>))
             (s\<lparr>address_lists := Suc (address_lists s)\<rparr>))"

definition amqp_open_socket :: "byte list \<Rightarrow> int \<Rightarrow> int hprog" where
  "amqp_open_socket hostname portnumber = amqp_open_socket_inner hostname portnumber amqp_time_infinite"

definition amqp_open_socket_noblock :: "byte list \<Rightarrow> int \<Rightarrow> timeval option \<Rightarrow> int hprog" where
  "amqp_open_socket_noblock hostname portnumber timeout = (\<lambda>s.
     case on_library (time_from_now timeout) s of
       (Ok deadline, s) \<Rightarrow> amqp_open_socket_inner hostname portnumber deadline s
     | (Err e, s) \<Rightarrow> (Ok (status_code e), s)
     | (Undefined, s) \<Rightarrow> (Undefined, s)
     | (OutOfFuel, s) \<Rightarrow> (OutOfFuel, s))"

section \<open>The socket of a connection\<close>

definition set_sockfd :: "int option \<Rightarrow> host \<Rightarrow> host" where
  "set_sockfd fd s = s\<lparr>library := (library s)\<lparr>sock := fd\<rparr>\<rparr>"

definition amqp_tcp_socket_open :: "byte list \<Rightarrow> int \<Rightarrow> timeval option \<Rightarrow> amqp_status_enum hprog" where
  "amqp_tcp_socket_open hostname portnumber timeout = (\<lambda>s.
     case sock (library s) of
       None \<Rightarrow> (Undefined, s)
     | Some fd \<Rightarrow>
         if fd \<noteq> - 1 then (Ok AMQP_STATUS_SOCKET_INUSE, s)
         else bindP (amqp_open_socket_noblock hostname portnumber timeout) (\<lambda>fd s.
           if 0 > fd then (Ok (status_of_code fd), set_sockfd (Some (- 1)) s)
           else (Ok AMQP_STATUS_OK, set_sockfd (Some fd) s)) s)"

definition amqp_socket_open :: "byte list \<Rightarrow> int \<Rightarrow> amqp_status_enum hprog" where
  "amqp_socket_open hostname portnumber = amqp_tcp_socket_open hostname portnumber None"

definition amqp_socket_open_noblock :: "byte list \<Rightarrow> int \<Rightarrow> timeval option \<Rightarrow> amqp_status_enum hprog" where
  "amqp_socket_open_noblock hostname portnumber timeout = amqp_tcp_socket_open hostname portnumber timeout"

definition amqp_tcp_socket_set_sockfd :: "int \<Rightarrow> unit hprog" where
  "amqp_tcp_socket_set_sockfd sockfd = (\<lambda>s.
     case sock (library s) of None \<Rightarrow> (Undefined, s) | Some _ \<Rightarrow> (Ok (), set_sockfd (Some sockfd) s))"

text \<open>The close of the socket layer together with its effect on the table; there is no descriptor \<open>- 1\<close>.\<close>

definition amqp_socket_close :: "amqp_status_enum hprog" where
  "amqp_socket_close = (\<lambda>s.
     case on_library amqp_tcp_socket_close s of
       (r, s') \<Rightarrow> (r, case sock (library s) of None \<Rightarrow> s' | Some fd \<Rightarrow> release fd s'))"

definition amqp_socket_delete :: "unit hprog" where
  "amqp_socket_delete = (\<lambda>s.
     case sock (library s) of
       None \<Rightarrow> (Ok (), s)
     | Some _ \<Rightarrow> bindP amqp_socket_close (\<lambda>_ s.
         (Ok (), s\<lparr>sock_block := None, library := (library s)\<lparr>sock := None,
            conn := (conn (library s))\<lparr>conn_heap := heap_free (sock_block s) (conn_heap (conn (library s)))\<rparr>\<rparr>\<rparr>)) s)"

definition amqp_set_socket :: "nat \<Rightarrow> unit hprog" where
  "amqp_set_socket block = bindP amqp_socket_delete (\<lambda>_ s.
     (Ok (), s\<lparr>sock_block := Some block, library := (library s)\<lparr>sock := Some (- 1)\<rparr>\<rparr>))"

definition sizeof_tcp_socket :: nat where "sizeof_tcp_socket = 24"

text \<open>The result tells whether there is a new socket; when there is none, the connection keeps its old one.\<close>

definition amqp_tcp_socket_new :: "bool hprog" where
  "amqp_tcp_socket_new = (\<lambda>s.
     case heap_malloc sizeof_tcp_socket (conn_heap (conn (library s))) of
       (r, h) \<Rightarrow>
         (let s = s\<lparr>library := (library s)\<lparr>conn := (conn (library s))\<lparr>conn_heap := h\<rparr>\<rparr>\<rparr>
          in case r of
               None \<Rightarrow> (Ok False, s)
             | Some block \<Rightarrow> bindP (amqp_set_socket block) (\<lambda>_. ret True) s))"

text \<open>
  Destroying a connection, with its socket between the buffers and the properties. The argument says whether the pointer
  to the connection is not null. The structure is freed last; its record only carries the heap from then on.
\<close>

definition free_parts :: "(amqp_connection_state_t \<Rightarrow> heap \<Rightarrow> heap) \<Rightarrow> unit hprog" where
  "free_parts f = on_library (on_conn (\<lambda>st. (Ok (), st\<lparr>conn_heap := f st (conn_heap st)\<rparr>)))"

definition amqp_destroy_connection :: "bool \<Rightarrow> amqp_status_enum hprog" where
  "amqp_destroy_connection present =
     (if present then
        bindP (free_parts destroy_buffers) (\<lambda>_.
        bindP amqp_socket_delete (\<lambda>_.
        bindP (free_parts destroy_state) (\<lambda>_.
        ret AMQP_STATUS_OK)))
      else ret AMQP_STATUS_OK)"

section \<open>The table of descriptors\<close>

lemma lowest_free_new: "lowest_free ds \<notin> keys ds" and lowest_free_nonneg: "0 \<le> lowest_free ds"
proof -
  let ?new = "filter (\<lambda>fd. fd \<notin> keys ds) (map int [0..<Suc (length ds)])"
  have "?new \<noteq> []"
  proof
    assume "?new = []"
    then have "int ` {0..<Suc (length ds)} \<subseteq> keys ds" by (auto simp: filter_empty_conv simp del: upt_Suc)
    then have "card (int ` {0..<Suc (length ds)}) \<le> card (keys ds)" by (intro card_mono) (simp_all add: keys_def)
    also have "\<dots> \<le> length ds" unfolding keys_def by (metis card_image_le card_length finite_set le_trans)
    finally show False by (simp add: card_image)
  qed
  then have "hd ?new \<in> set ?new" by (rule hd_in_set)
  then show "lowest_free ds \<notin> keys ds" "0 \<le> lowest_free ds" by (auto simp: lowest_free_def simp del: upt_Suc)
qed

text \<open>What opening a socket leaves alone.\<close>

definition apart :: "host \<Rightarrow> host \<Rightarrow> bool" where
  "apart s s' \<longleftrightarrow> address_lists s' = address_lists s \<and> resolver s' = resolver s \<and> sock_block s' = sock_block s \<and>
     sock (library s') = sock (library s)"

lemma apart_refl [simp, intro]: "apart s s"
  by (simp add: apart_def)

lemma apart_trans [trans]: "apart s s' \<Longrightarrow> apart s' s'' \<Longrightarrow> apart s s''"
  by (simp add: apart_def)

text \<open>Since \<open>s0\<close> one descriptor was added to the table.\<close>

definition opened :: "host \<Rightarrow> int \<Rightarrow> (descriptor \<Rightarrow> bool) \<Rightarrow> host \<Rightarrow> bool" where
  "opened s0 fd P s \<longleftrightarrow> apart s0 s \<and> fd \<notin> keys (descriptors s0) \<and> 0 \<le> fd \<and> (\<exists>d. descriptors s = (fd, d) # descriptors s0 \<and> P d)"

definition configured :: "descriptor \<Rightarrow> bool" where
  "configured d \<longleftrightarrow> fd_flags d AND FD_CLOEXEC = FD_CLOEXEC \<and> status_flags d AND O_NONBLOCK = O_NONBLOCK \<and> tcp_nodelay d \<and> so_keepalive d"

lemma opened_mono: "opened s0 fd P s \<Longrightarrow> (\<And>d. P d \<Longrightarrow> Q d) \<Longrightarrow> opened s0 fd Q s"
  by (auto simp: opened_def)

lemma opened_scripts [simp]:
  "opened s0 fd P (s\<lparr>grants := g\<rparr>) = opened s0 fd P s" "opened s0 fd P (s\<lparr>connects := c\<rparr>) = opened s0 fd P s"
  "opened s0 fd P (s\<lparr>so_errors := e\<rparr>) = opened s0 fd P s"
  by (simp_all add: opened_def apart_def)

lemma update_others: "fd \<notin> keys ds \<Longrightarrow> map (\<lambda>(k, d). (k, if k = fd then f d else d)) ds = ds"
  by (induction ds) (auto simp: keys_def)

lemma opened_update:
  assumes "opened s0 fd P s" and "\<And>d. P d \<Longrightarrow> Q (f d)"
  shows "opened s0 fd Q (update_fd fd f s)"
  using assms by (auto simp: opened_def apart_def update_fd_def update_others)

lemma release_others: "fd \<notin> keys ds \<Longrightarrow> filter (\<lambda>(k, d). k \<noteq> fd) ds = ds"
  by (induction ds) (auto simp: keys_def)

lemma opened_release:
  assumes "opened s0 fd P s"
  shows "descriptors (release fd s) = descriptors s0" and "apart s0 (release fd s)"
  using assms by (auto simp: opened_def apart_def release_def release_others)

lemma opened_key: "opened s0 fd P s \<Longrightarrow> fd \<in> keys (descriptors s)"
  by (auto simp: opened_def keys_def)

text \<open>A step on the new descriptor: it is carried out, or it fails and changes nothing that matters.\<close>

definition step_to :: "host \<Rightarrow> int \<Rightarrow> (descriptor \<Rightarrow> bool) \<Rightarrow> bool hprog \<Rightarrow> (descriptor \<Rightarrow> bool) \<Rightarrow> bool" where
  "step_to s0 fd P m Q \<longleftrightarrow> (\<forall>s. opened s0 fd P s \<longrightarrow>
     (\<exists>ok s'. m s = (Ok ok, s') \<and> opened s0 fd (\<lambda>d. ok \<longrightarrow> Q d) s'))"

lemma step_toI:
  "(\<And>s. opened s0 fd P s \<Longrightarrow> \<exists>ok s'. m s = (Ok ok, s') \<and> opened s0 fd (\<lambda>d. ok \<longrightarrow> Q d) s') \<Longrightarrow> step_to s0 fd P m Q"
  by (simp add: step_to_def)

lemma granted_run: "\<exists>ok. granted s = (Ok ok, s\<lparr>grants := drop 1 (grants s)\<rparr>)"
  by (simp add: granted_def)

lemma step_to_set:
  assumes "\<And>d. P d \<Longrightarrow> Q (f d)"
  shows "step_to s0 fd P (sys_set fd f) Q"
proof (rule step_toI)
  fix s assume "opened s0 fd P s"
  then have s': "opened s0 fd P (s\<lparr>grants := drop 1 (grants s)\<rparr>)" by simp
  obtain ok where ok: "granted s = (Ok ok, s\<lparr>grants := drop 1 (grants s)\<rparr>)" using granted_run by blast
  show "\<exists>ok s'. sys_set fd f s = (Ok ok, s') \<and> opened s0 fd (\<lambda>d. ok \<longrightarrow> Q d) s'"
  proof (cases ok)
    case True
    then have "sys_set fd f s = (Ok True, update_fd fd f (s\<lparr>grants := drop 1 (grants s)\<rparr>))"
      using ok opened_key [OF s'] by (simp add: sys_set_def bindP_def)
    then show ?thesis using opened_update [OF s', of "\<lambda>d. True \<longrightarrow> Q d" f] assms by blast
  next
    case False
    then have "sys_set fd f s = (Ok False, s\<lparr>grants := drop 1 (grants s)\<rparr>)" using ok by (simp add: sys_set_def bindP_def)
    then show ?thesis using opened_mono [OF s', of "\<lambda>d. False \<longrightarrow> Q d"] by blast
  qed
qed

lemma step_to_also:
  assumes "step_to s0 fd P m Q" and "step_to s0 fd Q k R"
  shows "step_to s0 fd P (also_ok m k) R"
proof (rule step_toI)
  fix s assume "opened s0 fd P s"
  then obtain ok s' where "m s = (Ok ok, s')" "opened s0 fd (\<lambda>d. ok \<longrightarrow> Q d) s'" using assms(1) by (auto simp: step_to_def)
  then show "\<exists>ok s'. also_ok m k s = (Ok ok, s') \<and> opened s0 fd (\<lambda>d. ok \<longrightarrow> R d) s'"
    using assms(2) by (cases ok) (auto simp: also_ok_def bindP_def ret_def step_to_def)
qed

lemma step_to_flags:
  assumes "\<And>d fl. P d \<Longrightarrow> Q (f fl d)"
  shows "step_to s0 fd P (bindP (sys_get fd sel) (\<lambda>fl. case fl of None \<Rightarrow> ret False | Some fl \<Rightarrow> sys_set fd (f fl))) Q"
proof (rule step_toI)
  fix s assume s: "opened s0 fd P s"
  obtain v where get: "sys_get fd sel s = (Ok v, s\<lparr>grants := drop 1 (grants s)\<rparr>)" by (auto simp: sys_get_def bindP_def granted_def)
  have s': "opened s0 fd P (s\<lparr>grants := drop 1 (grants s)\<rparr>)" using s by simp
  show "\<exists>ok s'. bindP (sys_get fd sel) (\<lambda>fl. case fl of None \<Rightarrow> ret False | Some fl \<Rightarrow> sys_set fd (f fl)) s = (Ok ok, s')
      \<and> opened s0 fd (\<lambda>d. ok \<longrightarrow> Q d) s'"
  proof (cases v)
    case None
    with get s' show ?thesis by (auto simp: bindP_def ret_def intro: opened_mono)
  next
    case (Some fl)
    have "step_to s0 fd P (sys_set fd (f fl)) Q" by (rule step_to_set) (rule assms)
    with s' get Some show ?thesis by (auto simp: bindP_def step_to_def)
  qed
qed

lemma step_to_configure: "step_to s0 fd (\<lambda>_. True) (configure_socket fd) configured"
proof -
  have or: "(x OR y) AND y = y" for x y :: "32 word" by (rule bit_eqI) (auto simp: bit_simps)
  show ?thesis
    unfolding configure_socket_def set_cloexec_def set_nonblock_def
    by (rule step_to_also [where Q = "\<lambda>d. fd_flags d AND FD_CLOEXEC = FD_CLOEXEC"], rule step_to_flags, simp add: or)
      (rule step_to_also [where Q = "\<lambda>d. fd_flags d AND FD_CLOEXEC = FD_CLOEXEC \<and> status_flags d AND O_NONBLOCK = O_NONBLOCK"],
        rule step_to_flags, simp add: or,
        rule step_to_also [where Q = "\<lambda>d. fd_flags d AND FD_CLOEXEC = FD_CLOEXEC \<and> status_flags d AND O_NONBLOCK = O_NONBLOCK \<and> tcp_nodelay d"],
        rule step_to_set, simp, rule step_to_set, simp add: configured_def)
qed

section \<open>Connecting\<close>

lemma poll_loop_status:
  "poll_loop ps t st = (Ok (e, ps'), st') \<Longrightarrow> e = AMQP_STATUS_OK \<or> status_code e < - 1"
proof (induction ps arbitrary: st)
  case Nil
  obtain n ms where "time_left_ms t st = (Ok ms, st\<lparr>ticks := n\<rparr>)" using time_left_ms_run by blast
  with Nil show ?case by (subst (asm) poll_loop.simps) (auto simp: bindP_def ret_def status_of_code_code split: if_splits)
next
  case (Cons p ps)
  obtain n ms where ms: "time_left_ms t st = (Ok ms, st\<lparr>ticks := n\<rparr>)" using time_left_ms_run by blast
  with Cons.prems show ?case
    by (subst (asm) poll_loop.simps)
      (auto simp: bindP_def ret_def status_of_code_code simp del: poll_loop.simps split: if_splits poll_result.splits dest: Cons.IH)
qed

lemma amqp_poll_status: "amqp_poll t w = (Ok e, w') \<Longrightarrow> e = AMQP_STATUS_OK \<or> status_code e < - 1"
  by (auto simp: amqp_poll_def simp del: poll_loop.simps split: prod.splits outcome.splits dest: poll_loop_status)

lemma amqp_poll_outcome: "\<exists>w'. (\<exists>e. amqp_poll t w = (Ok e, w')) \<or> amqp_poll t w = (OutOfFuel, w')"
proof -
  obtain n where "(\<exists>e ps. poll_loop (polls w) t (conn w) = (Ok (e, ps), (conn w)\<lparr>ticks := n\<rparr>))
      \<or> poll_loop (polls w) t (conn w) = (OutOfFuel, (conn w)\<lparr>ticks := n\<rparr>)" using poll_loop_run by blast
  then show ?thesis by (auto simp: amqp_poll_def simp del: poll_loop.simps)
qed

lemma opened_library: "opened s0 fd P s \<Longrightarrow> sock w = sock (library s) \<Longrightarrow> opened s0 fd P (s\<lparr>library := w\<rparr>)"
  by (simp add: opened_def apart_def)

text \<open>
  An attempt ends with a descriptor that is configured and connected to one of the addresses, or with an error and
  the table as it was; while it waits there is one more descriptor.
\<close>

definition usable_for :: "addrinfo list \<Rightarrow> descriptor \<Rightarrow> bool" where
  "usable_for addrs d \<longleftrightarrow> configured d \<and> connected d \<and> (\<exists>addr \<in> set addrs. peer d = Some (ai_addr addr))"

definition settled :: "host \<Rightarrow> addrinfo list \<Rightarrow> int outcome \<times> host \<Rightarrow> bool" where
  "settled s0 addrs res = (case res of
       (Ok r, s) \<Rightarrow> if 0 \<le> r then opened s0 r (usable_for addrs) s else r < - 1 \<and> apart s0 s \<and> descriptors s = descriptors s0
     | (OutOfFuel, s) \<Rightarrow> \<exists>fd. opened s0 fd (\<lambda>d. True) s
     | _ \<Rightarrow> False)"

lemma settled_err: "opened s0 fd P s \<Longrightarrow> status_code e < - 1 \<Longrightarrow> settled s0 addrs (connect_err fd e s)"
  by (simp add: settled_def connect_err_def opened_release)

lemma settled_fd: "opened s0 fd (usable_for addrs) s \<Longrightarrow> settled s0 addrs (ret fd s)"
  by (auto simp: settled_def ret_def opened_def)

lemma finish_connect_settled:
  assumes s: "opened s0 fd (\<lambda>d. configured d \<and> peer d = Some (ai_addr addr)) s" and addr: "addr \<in> set addrs"
  shows "settled s0 addrs (finish_connect fd t s)"
proof -
  obtain w' where "(\<exists>e. amqp_poll t (library s) = (Ok e, w')) \<or> amqp_poll t (library s) = (OutOfFuel, w')"
    using amqp_poll_outcome by blast
  then consider (ok) "amqp_poll t (library s) = (Ok AMQP_STATUS_OK, w')"
    | (err) e where "amqp_poll t (library s) = (Ok e, w')" "e \<noteq> AMQP_STATUS_OK"
    | (wait) "amqp_poll t (library s) = (OutOfFuel, w')" by blast
  then show ?thesis
  proof cases
    case ok
    let ?s1 = "update_fd fd (\<lambda>d. d\<lparr>writable := True\<rparr>) (s\<lparr>library := w'\<rparr>)"
    have "opened s0 fd (\<lambda>d. configured d \<and> peer d = Some (ai_addr addr)) (s\<lparr>library := w'\<rparr>)"
      by (rule opened_library [OF s]) (rule amqp_poll_run(3) [OF ok])
    then have s1: "opened s0 fd (\<lambda>d. configured d \<and> peer d = Some (ai_addr addr) \<and> writable d) ?s1"
      by (rule opened_update) (simp add: configured_def)
    obtain r where r: "sys_so_error fd ?s1 = (Ok r, if r = Some 0
        then update_fd fd (\<lambda>d. d\<lparr>connected := connected d \<or> (writable d \<and> peer d \<noteq> None)\<rparr>) (?s1\<lparr>so_errors := drop 1 (so_errors ?s1)\<rparr>)
        else ?s1\<lparr>so_errors := drop 1 (so_errors ?s1)\<rparr>)" by (simp add: sys_so_error_def Let_def)
    from s1 have s2: "opened s0 fd (\<lambda>d. configured d \<and> peer d = Some (ai_addr addr) \<and> writable d) (?s1\<lparr>so_errors := drop 1 (so_errors ?s1)\<rparr>)" by simp
    have run: "finish_connect fd t s =
        (if r = Some 0 then ret fd (update_fd fd (\<lambda>d. d\<lparr>connected := connected d \<or> (writable d \<and> peer d \<noteq> None)\<rparr>) (?s1\<lparr>so_errors := drop 1 (so_errors ?s1)\<rparr>))
         else connect_err fd AMQP_STATUS_SOCKET_ERROR (?s1\<lparr>so_errors := drop 1 (so_errors ?s1)\<rparr>))"
      using ok r by (auto simp: finish_connect_def poll_out_def on_library_def bindP_def)
    show ?thesis
    proof (cases "r = Some 0")
      case True
      with run show ?thesis
        by (simp only: if_True simp_thms) (rule settled_fd, rule opened_update [OF s2], use addr in \<open>auto simp: usable_for_def configured_def\<close>)
    next
      case False
      with run settled_err [OF s2, of AMQP_STATUS_SOCKET_ERROR] show ?thesis by simp
    qed
  next
    case (err e)
    then have "finish_connect fd t s = connect_err fd e (s\<lparr>library := w'\<rparr>)"
      by (simp add: finish_connect_def poll_out_def on_library_def bindP_def)
    moreover have "opened s0 fd (\<lambda>d. configured d \<and> peer d = Some (ai_addr addr)) (s\<lparr>library := w'\<rparr>)"
      by (rule opened_library [OF s]) (rule amqp_poll_run(3) [OF err(1)])
    moreover have "status_code e < - 1" using amqp_poll_status [OF err(1)] err(2) by blast
    ultimately show ?thesis using settled_err by simp
  next
    case wait
    then have "finish_connect fd t s = (OutOfFuel, s\<lparr>library := w'\<rparr>)"
      by (simp add: finish_connect_def poll_out_def on_library_def bindP_def)
    moreover have "opened s0 fd (\<lambda>d. True) (s\<lparr>library := w'\<rparr>)"
      by (rule opened_library [OF opened_mono [OF s]]) (simp, rule amqp_poll_run(3) [OF wait])
    ultimately show ?thesis by (auto simp: settled_def)
  qed
qed

lemma settled_connect:
  assumes s: "opened s0 fd configured s" and addr: "addr \<in> set addrs"
  shows "settled s0 addrs (bindP (sys_connect fd (ai_addr addr)) (\<lambda>r.
     case r of Connect_done \<Rightarrow> ret fd | Connect_failed \<Rightarrow> connect_err fd AMQP_STATUS_SOCKET_ERROR
     | Connect_in_progress \<Rightarrow> finish_connect fd t) s)"
proof -
  let ?s1 = "s\<lparr>connects := drop 1 (connects s)\<rparr>" and ?a = "ai_addr addr"
  from s have s1: "opened s0 fd configured ?s1" by simp
  have "settled s0 addrs (ret fd (update_fd fd (\<lambda>d. d\<lparr>peer := Some ?a, connected := True\<rparr>) ?s1))"
    by (rule settled_fd, rule opened_update [OF s1]) (use addr in \<open>auto simp: usable_for_def configured_def\<close>)
  moreover have "settled s0 addrs (finish_connect fd t (update_fd fd (\<lambda>d. d\<lparr>peer := Some ?a\<rparr>) ?s1))"
    by (rule finish_connect_settled [OF _ addr], rule opened_update [OF s1]) (simp add: configured_def)
  moreover have "settled s0 addrs (connect_err fd AMQP_STATUS_SOCKET_ERROR ?s1)" by (rule settled_err [OF s1]) simp
  ultimately show ?thesis
    by (cases "case connects s of [] \<Rightarrow> Connect_done | r # _ \<Rightarrow> r") (simp_all add: sys_connect_def bindP_def Let_def)
qed

lemma connect_socket_settled:
  assumes "addr \<in> set addrs"
  shows "settled s addrs (connect_socket addr t s)"
proof -
  let ?s0 = "s\<lparr>grants := drop 1 (grants s)\<rparr>" and ?fd = "lowest_free (descriptors s)"
  let ?s1 = "?s0\<lparr>descriptors := (?fd, fresh_descriptor) # descriptors s\<rparr>"
  obtain ok where ok: "granted s = (Ok ok, ?s0)" using granted_run by blast
  show ?thesis
  proof (cases ok)
    case False
    with ok have "connect_socket addr t s = (Ok (status_code AMQP_STATUS_SOCKET_ERROR), ?s0)"
      by (simp add: connect_socket_def sys_socket_def bindP_def ret_def)
    then show ?thesis by (simp add: settled_def apart_def)
  next
    case True
    then have sock: "sys_socket addr s = (Ok ?fd, ?s1)" using ok by (simp add: sys_socket_def bindP_def)
    have s1: "opened s ?fd (\<lambda>d. True) ?s1" by (simp add: opened_def apart_def lowest_free_new lowest_free_nonneg)
    then obtain okc s2 where conf: "configure_socket ?fd ?s1 = (Ok okc, s2)" and s2: "opened s ?fd (\<lambda>d. okc \<longrightarrow> configured d) s2"
      using step_to_configure [of s ?fd] by (auto simp: step_to_def)
    have fd: "?fd \<noteq> - 1" using lowest_free_nonneg [of "descriptors s"] by linarith
    have run: "connect_socket addr t s = (if \<not> okc then connect_err ?fd AMQP_STATUS_SOCKET_ERROR s2
        else bindP (sys_connect ?fd (ai_addr addr)) (\<lambda>r. case r of Connect_done \<Rightarrow> ret ?fd
          | Connect_failed \<Rightarrow> connect_err ?fd AMQP_STATUS_SOCKET_ERROR | Connect_in_progress \<Rightarrow> finish_connect ?fd t) s2)"
      unfolding connect_socket_def bindP_def [of "sys_socket addr"] sock bindP_def [of "configure_socket _"]
      using fd conf by (simp cong: connect_result.case_cong)
    show ?thesis
    proof (cases okc)
      case True
      then have "opened s ?fd configured s2" using s2 by simp
      from settled_connect [OF this assms] run True show ?thesis by simp
    next
      case False
      with run settled_err [OF s2, of AMQP_STATUS_SOCKET_ERROR] show ?thesis by simp
    qed
  qed
qed

lemma settled_from:
  assumes "settled s1 addrs res" and "apart s0 s1" and "descriptors s1 = descriptors s0"
  shows "settled s0 addrs res"
  using assms unfolding settled_def opened_def
  by (auto split: prod.splits outcome.splits if_splits intro: apart_trans)

definition open_result :: "int \<times> int \<Rightarrow> int" where
  "open_result = (\<lambda>(sockfd, last_error). if last_error \<noteq> status_code AMQP_STATUS_OK \<or> sockfd = - 1 then last_error else sockfd)"

lemma try_addresses_settled:
  assumes "set addrs \<subseteq> set all" and "addrs \<noteq> [] \<or> sockfd < - 1"
  shows "settled s all (bindP (try_addresses addrs t sockfd 0) (\<lambda>r. ret (open_result r)) s)"
  using assms
proof (induction addrs arbitrary: sockfd s)
  case Nil
  then show ?case by (simp add: bindP_def ret_def settled_def open_result_def)
next
  case (Cons addr addrs)
  obtain r s1 where run: "connect_socket addr t s = (r, s1)" by fastforce
  have settled: "settled s all (r, s1)" using connect_socket_settled [of addr all s t] Cons.prems run by simp
  show ?case
  proof (cases "\<exists>fd. r = Ok fd \<and> fd < 0 \<and> fd \<noteq> status_code AMQP_STATUS_TIMEOUT")
    case True
    then obtain fd where fd: "r = Ok fd" "fd < 0" "fd \<noteq> status_code AMQP_STATUS_TIMEOUT" by blast
    from settled fd have s1: "fd < - 1" "apart s s1" "descriptors s1 = descriptors s" by (simp_all add: settled_def)
    have "settled s1 all (bindP (try_addresses addrs t fd 0) (\<lambda>r. ret (open_result r)) s1)" by (rule Cons.IH) (use Cons.prems s1 in auto)
    from settled_from [OF this s1(2,3)] show ?thesis using run fd by (simp add: bindP_def)
  next
    case False
    with run settled show ?thesis
      by (cases r) (auto simp: bindP_def ret_def settled_def open_result_def)
  qed
qed

lemma decimal_length: "n < 10 ^ k \<Longrightarrow> 0 < k \<Longrightarrow> length (decimal n) \<le> k"
proof (induction k arbitrary: n)
  case (Suc k)
  show ?case
  proof (cases "n < 10")
    case False
    then have "0 < k" using Suc.prems by (cases k) auto
    moreover have "n div 10 < 10 ^ k" using Suc.prems by (simp add: less_mult_imp_div_less mult.commute)
    ultimately show ?thesis using Suc.IH by (subst decimal.simps) auto
  qed (subst decimal.simps, simp)
qed simp

lemma sprintf_d_fits:
  assumes "- (2 ^ 31) \<le> n" and "n < 2 ^ 31"
  shows "length (sprintf_d n) \<le> 11"
proof -
  have "nat (- n) < 10 ^ 10" "nat n < 10 ^ 10" using assms by simp_all
  then have "length (decimal (nat (- n))) \<le> 10" "length (decimal (nat n)) \<le> 10" by (simp_all add: decimal_length del: decimal.simps)
  then show ?thesis by (auto simp: sprintf_d_def simp del: decimal.simps)
qed

text \<open>The lists of addresses are freed, unless the attempt still waits.\<close>

definition opens :: "host \<Rightarrow> addrinfo list \<Rightarrow> int outcome \<times> host \<Rightarrow> bool" where
  "opens s0 addrs res = (case res of
       (OutOfFuel, s) \<Rightarrow> sock (library s) = sock (library s0) \<and> (\<exists>fd d. descriptors s = (fd, d) # descriptors s0)
     | _ \<Rightarrow> settled s0 addrs res)"

lemma amqp_open_socket_inner_opens:
  assumes port: "- (2 ^ 31) \<le> port" "port < 2 ^ 31" and found: "resolver s hostname (sprintf_d port) hint \<noteq> Some []"
  shows "opens s (case resolver s hostname (sprintf_d port) hint of None \<Rightarrow> [] | Some addrs \<Rightarrow> addrs)
    (amqp_open_socket_inner hostname port deadline s)"
proof (cases "resolver s hostname (sprintf_d port) hint")
  case None
  then show ?thesis using sprintf_d_fits [OF port] by (simp add: amqp_open_socket_inner_def opens_def settled_def)
next
  case (Some addrs)
  let ?s1 = "s\<lparr>address_lists := Suc (address_lists s)\<rparr>"
  obtain r s2 where run: "try_addresses addrs deadline (- 1) 0 ?s1 = (r, s2)" by fastforce
  have "settled ?s1 addrs (bindP (try_addresses addrs deadline (- 1) 0) (\<lambda>r. ret (open_result r)) ?s1)"
    by (rule try_addresses_settled) (use found Some in auto)
  then have tried: "settled ?s1 addrs (case r of Ok x \<Rightarrow> Ok (open_result x) | Err e \<Rightarrow> Err e | Undefined \<Rightarrow> Undefined | OutOfFuel \<Rightarrow> OutOfFuel, s2)"
    using run by (cases r) (simp_all add: bindP_def ret_def)
  have "amqp_open_socket_inner hostname port deadline s =
      (case r of Ok x \<Rightarrow> (Ok (open_result x), s2\<lparr>address_lists := address_lists s2 - 1\<rparr>)
       | Err e \<Rightarrow> (Err e, s2) | Undefined \<Rightarrow> (Undefined, s2) | OutOfFuel \<Rightarrow> (OutOfFuel, s2))"
    using sprintf_d_fits [OF port] Some run
    by (cases r) (auto simp: amqp_open_socket_inner_def bindP_def open_result_def)
  with tried show ?thesis
    by (cases r) (auto simp: Some opens_def settled_def opened_def apart_def split: if_splits)
qed

lemma time_from_now_run:
  "(\<exists>t. fst (time_from_now timeout w) = Ok t) \<or> (\<exists>e. fst (time_from_now timeout w) = Err e \<and> status_code e < - 1)"
  by (auto simp: time_from_now_def on_conn_def amqp_time_from_now_def add_delta_def Let_def split: option.splits prod.splits if_splits)

lemma time_from_now_sock: "sock (snd (time_from_now timeout w)) = sock w"
  by (auto simp: time_from_now_def on_conn_def split: option.splits prod.splits if_splits)

lemma amqp_open_socket_noblock_opens:
  assumes port: "- (2 ^ 31) \<le> port" "port < 2 ^ 31" and found: "resolver s hostname (sprintf_d port) hint \<noteq> Some []"
  shows "opens s (case resolver s hostname (sprintf_d port) hint of None \<Rightarrow> [] | Some addrs \<Rightarrow> addrs)
    (amqp_open_socket_noblock hostname port timeout s)"
proof -
  obtain r w where now: "time_from_now timeout (library s) = (r, w)" by fastforce
  then have w: "sock w = sock (library s)" using time_from_now_sock [of timeout "library s"] by simp
  let ?s1 = "s\<lparr>library := w\<rparr>"
  from now time_from_now_run [of timeout "library s"]
  consider t where "r = Ok t" | e where "r = Err e" "status_code e < - 1" by auto
  then show ?thesis
  proof cases
    case (1 t)
    have "opens ?s1 (case resolver s hostname (sprintf_d port) hint of None \<Rightarrow> [] | Some addrs \<Rightarrow> addrs)
        (amqp_open_socket_inner hostname port t ?s1)"
      using amqp_open_socket_inner_opens [of port ?s1 hostname t] port found by simp
    moreover have "amqp_open_socket_noblock hostname port timeout s = amqp_open_socket_inner hostname port t ?s1"
      using now 1 by (simp add: amqp_open_socket_noblock_def on_library_def)
    ultimately show ?thesis
      using w by (auto simp: opens_def settled_def opened_def apart_def split: prod.splits outcome.splits if_splits)
  next
    case (2 e)
    then have "amqp_open_socket_noblock hostname port timeout s = (Ok (status_code e), ?s1)"
      using now by (simp add: amqp_open_socket_noblock_def on_library_def)
    with 2 w show ?thesis by (simp add: opens_def settled_def apart_def)
  qed
qed

section \<open>The socket of a connection\<close>

text \<open>
  C17: Opening the socket of a connection leaks nothing. On success the connection has a descriptor that was not
  open before; it is closed when another program is started, does not block, has Nagle's algorithm off and keepalive
  on, is connected to one of the addresses of the host, and is the only new descriptor. On every failure the connection has no
  descriptor and the table of descriptors is as it was; in both cases the list of addresses is freed. No step is
  undefined: the port fits the buffer it is printed to. While the call waits for the network there is one more descriptor. A resolver that
  succeeds gives at least one address, as \<^verbatim>\<open>getaddrinfo\<close> does.
\<close>

theorem amqp_tcp_socket_open_no_leak:
  assumes "sock (library s) = Some (- 1)" and "- (2 ^ 31) \<le> port" and "port < 2 ^ 31"
    and "resolver s hostname (sprintf_d port) hint \<noteq> Some []"
  shows "case amqp_tcp_socket_open hostname port timeout s of
      (Ok status, s') \<Rightarrow> address_lists s' = address_lists s \<and>
        (if status = AMQP_STATUS_OK
         then \<exists>addrs fd d. resolver s hostname (sprintf_d port) hint = Some addrs \<and> fd \<notin> keys (descriptors s) \<and>
           sock (library s') = Some fd \<and> descriptors s' = (fd, d) # descriptors s \<and> usable_for addrs d
         else sock (library s') = Some (- 1) \<and> descriptors s' = descriptors s)
    | (OutOfFuel, s') \<Rightarrow> sock (library s') = Some (- 1) \<and> (\<exists>fd d. descriptors s' = (fd, d) # descriptors s)
    | (Err e, s') \<Rightarrow> False
    | (Undefined, s') \<Rightarrow> False"
proof -
  obtain r s1 where run: "amqp_open_socket_noblock hostname port timeout s = (r, s1)" by fastforce
  let ?addrs = "case resolver s hostname (sprintf_d port) hint of None \<Rightarrow> [] | Some addrs \<Rightarrow> addrs"
  have opens: "opens s ?addrs (r, s1)" using amqp_open_socket_noblock_opens [OF assms(2-4), of timeout] run by simp
  have whole: "amqp_tcp_socket_open hostname port timeout s = bindP (amqp_open_socket_noblock hostname port timeout) (\<lambda>fd s.
      if 0 > fd then (Ok (status_of_code fd), set_sockfd (Some (- 1)) s) else (Ok AMQP_STATUS_OK, set_sockfd (Some fd) s)) s"
    using assms(1) by (simp add: amqp_tcp_socket_open_def)
  have code: "status_of_code fd \<noteq> AMQP_STATUS_OK" if "fd < - 1" for fd using status_of_code_code [of fd] that by auto
  show ?thesis
  proof (cases r)
    case (Ok fd)
    show ?thesis
    proof (cases "fd < 0")
      case True
      with opens Ok have "fd < - 1" "apart s s1" "descriptors s1 = descriptors s" by (auto simp: opens_def settled_def)
      with True show ?thesis unfolding whole by (simp add: bindP_def run Ok set_sockfd_def apart_def code)
    next
      case False
      with opens Ok have o: "opened s fd (usable_for ?addrs) s1" by (simp add: opens_def settled_def)
      then have "resolver s hostname (sprintf_d port) hint \<noteq> None"
        by (cases "resolver s hostname (sprintf_d port) hint") (auto simp: opened_def usable_for_def)
      with o False show ?thesis unfolding whole by (auto simp: bindP_def run Ok set_sockfd_def opened_def apart_def)
    qed
  next
    case OutOfFuel
    with opens assms(1) show ?thesis unfolding whole by (auto simp: bindP_def run opens_def)
  qed (use opens in \<open>simp_all add: opens_def settled_def\<close>)
qed

definition sample_host :: "poll_result list \<Rightarrow> host" where
  "sample_host ps = \<lparr>library = (sample_net [] [] ps)\<lparr>sock := Some (- 1)\<rparr>, descriptors = [(0, fresh_descriptor), (2, fresh_descriptor)],
     grants = [], connects = [Connect_failed, Connect_in_progress], so_errors = [],
     resolver = (\<lambda>_ _ _. Some [hint\<lparr>ai_addr := [127, 0, 0, 1]\<rparr>, hint\<lparr>ai_addr := [10, 0, 0, 1]\<rparr>]), address_lists = 0, sock_block = None\<rparr>"

theorem amqp_tcp_socket_open_no_leak_witness:
  "case amqp_tcp_socket_open [104] 5672 None (sample_host [Poll_ready]) of
      (Ok status, s') \<Rightarrow> address_lists s' = address_lists (sample_host [Poll_ready]) \<and>
        (if status = AMQP_STATUS_OK
         then \<exists>addrs fd d. resolver (sample_host [Poll_ready]) [104] (sprintf_d 5672) hint = Some addrs \<and> fd \<notin> keys (descriptors (sample_host [Poll_ready])) \<and>
           sock (library s') = Some fd \<and> descriptors s' = (fd, d) # descriptors (sample_host [Poll_ready]) \<and> usable_for addrs d
         else sock (library s') = Some (- 1) \<and> descriptors s' = descriptors (sample_host [Poll_ready]))
    | (OutOfFuel, s') \<Rightarrow> sock (library s') = Some (- 1) \<and> (\<exists>fd d. descriptors s' = (fd, d) # descriptors (sample_host [Poll_ready]))
    | (Err e, s') \<Rightarrow> False
    | (Undefined, s') \<Rightarrow> False"
proof -
  have "sock (library (sample_host [Poll_ready])) = Some (- 1)"
    "resolver (sample_host [Poll_ready]) [104] (sprintf_d 5672) hint \<noteq> Some []" by (simp_all add: sample_host_def)
  from amqp_tcp_socket_open_no_leak [OF this(1) _ _ this(2), of None] show ?thesis by simp
qed

text \<open>The first address refuses the connection and the second accepts it: the descriptor is the lowest free one.\<close>

lemma sample_open:
  "\<exists>s'. amqp_tcp_socket_open [104] 5672 None (sample_host [Poll_ready]) = (Ok AMQP_STATUS_OK, s') \<and> sock (library s') = Some 1"
  by (simp add: amqp_tcp_socket_open_def amqp_open_socket_noblock_def amqp_open_socket_inner_def time_from_now_def on_library_def on_conn_def
      connect_socket_def configure_socket_def set_cloexec_def set_nonblock_def also_ok_def sys_socket_def sys_get_def sys_set_def sys_connect_def
      sys_so_error_def finish_connect_def poll_out_def amqp_poll_def time_left_ms_def amqp_time_infinite_def amqp_time_ms_until_def
      connect_err_def release_def update_fd_def granted_def lowest_free_def keys_def bindP_def ret_def set_sockfd_def sample_host_def sample_net_def
      sprintf_d_def hint_def fresh_descriptor_def Let_def)

text \<open>Why the resolver has to give an address: without one, the value 0 of success is taken for a descriptor.\<close>

lemma no_address_taken_for_descriptor:
  assumes "sock (library s) = Some (- 1)" and "- (2 ^ 31) \<le> port" and "port < 2 ^ 31" and "resolver s hostname (sprintf_d port) hint = Some []"
  shows "\<exists>s'. amqp_tcp_socket_open hostname port None s = (Ok AMQP_STATUS_OK, s') \<and> sock (library s') = Some 0 \<and> descriptors s' = descriptors s"
  using assms sprintf_d_fits [OF assms(2,3)]
  by (simp add: amqp_tcp_socket_open_def amqp_open_socket_noblock_def amqp_open_socket_inner_def time_from_now_def on_library_def on_conn_def bindP_def ret_def
      set_sockfd_def)

text \<open>Closing the socket gives the table back that there was before it was opened.\<close>

lemma close_after_open:
  assumes "descriptors s' = (fd, d) # ds" and "fd \<notin> keys ds" and "sock (library s') = Some fd" and "fd \<noteq> - 1"
  shows "\<exists>status s''. amqp_socket_close s' = (Ok status, s'') \<and> descriptors s'' = ds"
  using assms by (auto simp: amqp_socket_close_def on_library_def amqp_tcp_socket_close_def release_def release_others split: list.splits bool.splits)

text \<open>
  A new socket takes the place of the old one: its memory is allocated, that of the old one is freed, once, and the
  descriptor of the old one is closed. When there is no memory nothing changes.
\<close>

lemma amqp_tcp_socket_new_replaces:
  fixes s defines "h \<equiv> conn_heap (conn (library s))"
  assumes heap: "heap_inv h" "\<not> h_fault h" and block: "sock_block s = None \<longleftrightarrow> sock (library s) = None"
    and live: "\<And>b. sock_block s = Some b \<Longrightarrow> h_live h b \<noteq> None"
  shows "case amqp_tcp_socket_new s of
      (Ok True, s') \<Rightarrow> sock (library s') = Some (- 1) \<and>
        descriptors s' = filter (\<lambda>(fd, d). Some fd \<noteq> sock (library s)) (descriptors s) \<and>
        (\<exists>b. h_live h b = None \<and> sock_block s' = Some b \<and> \<not> h_fault (conn_heap (conn (library s'))) \<and>
          h_live (conn_heap (conn (library s'))) = (h_live h |` (- set_option (sock_block s))) (b \<mapsto> sizeof_tcp_socket))
    | (Ok False, s') \<Rightarrow> sock (library s') = sock (library s) \<and> descriptors s' = descriptors s \<and> h_live (conn_heap (conn (library s'))) = h_live h
    | _ \<Rightarrow> False"
proof (cases "h_grant h (h_calls h) sizeof_tcp_socket")
  case False
  then show ?thesis by (simp add: amqp_tcp_socket_new_def heap_malloc_def Let_def flip: h_def)
next
  case True
  let ?b = "h_calls h"
  have new: "h_live h ?b = None" using heap(1) by (simp add: heap_inv_def)
  show ?thesis
  proof (cases "sock (library s)")
    case None
    with True block new heap(2) show ?thesis
      by (simp add: amqp_tcp_socket_new_def amqp_set_socket_def amqp_socket_delete_def heap_malloc_def Let_def bindP_def ret_def filter_True flip: h_def)
        (auto simp: filter_id_conv)
  next
    case (Some fd)
    with block obtain b where b: "sock_block s = Some b" by auto
    with live obtain n where n: "h_live h b = Some n" by auto
    with new have "b \<noteq> ?b" by auto
    with True Some b n new heap(2) show ?thesis
      by (simp add: amqp_tcp_socket_new_def amqp_set_socket_def amqp_socket_delete_def amqp_socket_close_def amqp_tcp_socket_close_def
          on_library_def release_def heap_malloc_def heap_free_def Let_def bindP_def ret_def fun_upd_twist flip: h_def split: list.splits bool.splits)
        (auto simp: fun_eq_iff restrict_map_def)
  qed
qed

section \<open>Destroying a connection\<close>

lemma amqp_socket_delete_run:
  assumes "sock_block s = None \<longleftrightarrow> sock (library s) = None"
  shows "\<exists>s'. amqp_socket_delete s = (Ok (), s') \<and> sock (library s') = None \<and> sock_block s' = None
    \<and> descriptors s' = filter (\<lambda>(fd, d). Some fd \<noteq> sock (library s)) (descriptors s)
    \<and> conn (library s') = (conn (library s))\<lparr>conn_heap := heap_free (sock_block s) (conn_heap (conn (library s)))\<rparr>"
  using assms
  by (cases "sock (library s)")
    (auto simp: amqp_socket_delete_def amqp_socket_close_def amqp_tcp_socket_close_def on_library_def release_def bindP_def heap_free_def
      intro!: filter_True [symmetric] filter_cong split: list.splits bool.splits)

lemma connection_blocks_conn: "connection_blocks st \<subseteq> conn_blocks st" "own_blocks st \<subseteq> conn_blocks st"
  by (auto simp: connection_blocks_def conn_blocks_def own_blocks_def table_blocks_def foot_def)

lemma destroy_buffers_heap [simp]: "destroy_buffers (st\<lparr>conn_heap := h\<rparr>) = destroy_buffers st" "destroy_state (st\<lparr>conn_heap := h\<rparr>) = destroy_state st"
  by (simp_all add: fun_eq_iff destroy_buffers_def destroy_state_def)

text \<open>
  C33: Destroying a connection gives back every block that belongs to it, its pools and their pages, the entries of the table, its
  buffers, the object of its socket and the structure itself, each exactly once, and no
  other block. The descriptor of the socket is closed, and no other descriptor.
\<close>

theorem amqp_destroy_connection_exact:
  assumes "memory_inv (conn (library s))" and "sock_block s = None \<longleftrightarrow> sock (library s) = None"
    and "\<forall>b \<in> set_option (sock_block s). h_live (conn_heap (conn (library s))) b \<noteq> None \<and> b \<notin> conn_blocks (conn (library s))"
  shows "\<exists>s'. amqp_destroy_connection True s = (Ok AMQP_STATUS_OK, s') \<and> \<not> h_fault (conn_heap (conn (library s')))
    \<and> h_live (conn_heap (conn (library s'))) =
        h_live (conn_heap (conn (library s))) |` (- (connection_blocks (conn (library s)) \<union> set_option (sock_block s)))
    \<and> descriptors s' = filter (\<lambda>(fd, d). Some fd \<noteq> sock (library s)) (descriptors s)
    \<and> sock (library s') = None \<and> sock_block s' = None"
proof -
  let ?st = "conn (library s)"
  let ?h = "destroy_buffers ?st (conn_heap ?st)"
  let ?s = "s\<lparr>library := (library s)\<lparr>conn := ?st\<lparr>conn_heap := ?h\<rparr>\<rparr>\<rparr>"
  have buffers: "free_parts destroy_buffers s = (Ok (), ?s)" by (simp add: free_parts_def on_library_def on_conn_def)
  from amqp_socket_delete_run [of ?s] assms(2) obtain s1 where s1: "amqp_socket_delete ?s = (Ok (), s1)" "sock (library s1) = None" "sock_block s1 = None"
    "descriptors s1 = filter (\<lambda>(fd, d). Some fd \<noteq> sock (library s)) (descriptors s)"
    "conn (library s1) = ?st\<lparr>conn_heap := heap_free (sock_block s) ?h\<rparr>" by auto
  let ?s2 = "s1\<lparr>library := (library s1)\<lparr>conn := (conn (library s1))\<lparr>conn_heap := destroy_state ?st (heap_free (sock_block s) ?h)\<rparr>\<rparr>\<rparr>"
  have "free_parts destroy_state s1 = (Ok (), ?s2)" using s1(5) by (simp add: free_parts_def on_library_def on_conn_def)
  then have "amqp_destroy_connection True s = (Ok AMQP_STATUS_OK, ?s2)"
    using buffers s1(1) by (simp add: amqp_destroy_connection_def bindP_def ret_def)
  moreover have "h_live (conn_heap ?st) b \<noteq> None \<and> b \<notin> own_blocks ?st \<and> b \<notin> connection_blocks ?st" if "sock_block s = Some b" for b
    using assms(3) that connection_blocks_conn [of ?st] by auto
  ultimately show ?thesis using destroy_memory_exact [OF assms(1), of "sock_block s"] s1(2-4) by simp
qed

text \<open>A connection with a new socket whose descriptor is 2.\<close>

lemma sample_memory_inv: "memory_inv (first_connection sample_memory)"
  using first_connection(1) by (simp add: conn_inv_def)

definition sample_heap :: heap where
  "sample_heap = snd (heap_malloc sizeof_tcp_socket (conn_heap (first_connection sample_memory)))"

definition sample_socket :: nat where
  "sample_socket = h_calls (conn_heap (first_connection sample_memory))"

definition attached_host :: host where
  "attached_host = (sample_host [])\<lparr>sock_block := Some sample_socket,
     library := (sample_net [] [] [])\<lparr>sock := Some 2, conn := (first_connection sample_memory)\<lparr>conn_heap := sample_heap\<rparr>\<rparr>\<rparr>"

lemma attached_host_ok:
  "memory_inv (conn (library attached_host))" "h_live (conn_heap (conn (library attached_host))) sample_socket \<noteq> None"
  "sample_socket \<notin> conn_blocks (conn (library attached_host))"
proof -
  let ?st = "first_connection sample_memory"
  let ?h = "conn_heap ?st"
  have heap: "heap_inv ?h" "\<not> h_fault ?h" using sample_memory_inv pools_invD(2,3) by (auto simp: memory_inv_def)
  have new: "sample_heap = ?h\<lparr>h_calls := Suc (h_calls ?h), h_live := (h_live ?h)(h_calls ?h \<mapsto> sizeof_tcp_socket)\<rparr>"
    using first_connection(4) [of sample_memory] by (simp add: sample_heap_def heap_malloc_def generous_def Let_def)
  have "memory_inv (?st\<lparr>conn_heap := sample_heap\<rparr>)"
  proof (rule memory_inv_heap [OF sample_memory_inv])
    show "h_live sample_heap b \<noteq> None" if "b \<in> conn_blocks ?st" for b using conn_blocks_live [OF sample_memory_inv that] by (simp add: new)
  qed (use heap in \<open>simp_all add: new evolves_def heap_inv_def\<close>)
  then show "memory_inv (conn (library attached_host))" by (simp add: attached_host_def)
  show "h_live (conn_heap (conn (library attached_host))) sample_socket \<noteq> None" by (simp add: attached_host_def new sample_socket_def)
  have "h_live ?h sample_socket = None" using heap(1) by (simp add: heap_inv_def sample_socket_def)
  then have "sample_socket \<notin> conn_blocks ?st" using conn_blocks_live [OF sample_memory_inv] by blast
  then show "sample_socket \<notin> conn_blocks (conn (library attached_host))" by (simp add: attached_host_def conn_blocks_def own_blocks_def)
qed

theorem amqp_destroy_connection_exact_witness:
  "\<exists>s'. amqp_destroy_connection True attached_host = (Ok AMQP_STATUS_OK, s') \<and> \<not> h_fault (conn_heap (conn (library s')))
    \<and> h_live (conn_heap (conn (library s'))) sample_socket = None \<and> descriptors s' = [(0, fresh_descriptor)]"
proof -
  have "sock_block attached_host = Some sample_socket" "sock (library attached_host) = Some 2"
    "descriptors attached_host = [(0, fresh_descriptor), (2, fresh_descriptor)]" by (simp_all add: attached_host_def sample_host_def)
  then show ?thesis
    using amqp_destroy_connection_exact [OF attached_host_ok(1)] attached_host_ok(2,3) by (auto simp: restrict_map_def)
qed

end
