(* ===== verification/Spec2Isabelle.thy ===== *)
theory Spec2Isabelle
  imports Amqp_Frames Amqp_Lifecycle Amqp_Consumer Amqp_Url Amqp_Open
begin

text \<open>
  A verification of the core of librabbitmq, the C client library for AMQP 0-9-1
  (\<^verbatim>\<open>src/librabbitmq\<close>, \<^verbatim>\<open>src/include/rabbitmq-c\<close>).

  \<^bold>\<open>The program.\<close> A connection (amqp\_connection.c) assembles the bytes of a socket into frames.
  Each frame is decoded into structures that live in the memory pool of its channel (amqp\_mem.c);
  the decoder of a frame uses the generated codecs of methods and content properties
  (amqp\_framing.c), which use the codec of tables (amqp\_table.c), which all use the bounded
  integer primitives of amqp\_private.h. In the other direction a frame is encoded into the outbound
  buffer of the connection. Deadlines (amqp\_time.c) bound every wait. The socket layer
  (amqp\_tcp\_socket.c, amqp\_socket.c) moves the bytes with non-blocking system calls, waits for frames,
  keeps those it does not need yet and makes remote procedure calls. On top of it are the login
  (amqp\_socket.c), the calls of the interface (amqp\_framing.c, amqp\_api.c) and the reading of messages
  (amqp\_consumer.c).

  \<^bold>\<open>The theories\<close>, in the order in which they build on each other:

  \<^item> \<open>Amqp_Prelude\<close>: status codes; outcomes (a value, a status, undefined behaviour, no fuel);
    programs as state transformers and their composition; triples; \<^verbatim>\<open>size_t\<close> with wrap-around; reads
    and writes of a block of memory that are defined inside the block only.
  \<^item> \<open>Amqp_Mem\<close> (amqp\_mem.c): the C heap with an oracle for failing allocations, pools, the channel
    table. Allocations are aligned, in bounds and disjoint; emptying frees each block exactly once;
    the table of 16 buckets is a map (the locale \<open>channel_pools\<close> states the interface and is
    interpreted on the table). A page that cannot be recorded leaks.
  \<^item> \<open>Amqp_Codec\<close> (amqp\_private.h): loads and stores in network byte order on hosts of either byte
    order, bounded decoders and encoders; the notions shared by all codecs: \<open>dsafe\<close> (a decoder is memory
    safe whatever the bytes and the allocator do), \<open>reads\<close> (a decoder reads exactly a word of the
    wire format), \<open>encodes\<close> (an encoder writes exactly it or fails).
  \<^item> \<open>Amqp_Table\<close> (amqp\_table.c): tables and arrays. Safety and termination of the recursive
    decoder, whose accesses to the temporary arrays of entries are checked against the blocks of the heap, exactness of the encoder,
    round trip, clone, order of entries; what a step leaves of the heap (\<open>evolves\<close>).
  \<^item> \<open>Amqp_Framing_Types\<close>, \<open>Amqp_Framing_Decode\<close>, \<open>Amqp_Framing_Encode\<close>, \<open>Amqp_Framing\<close>
    (amqp\_framing.c, framing.h): the structures, decoders and encoders of all 66 methods, one
    definition per case of the generated switches. Safety, exactness, round trip.
  \<^item> \<open>Amqp_Properties\<close> (amqp\_framing.c): content properties with their flag words. The words are shifted as
    values of type \<^verbatim>\<open>int\<close>, which is undefined for a second word with its highest bit set and for a third word; properties with the highest
    of the 32 flags, which the protocol does not use, are therefore not well-formed.
  \<^item> \<open>Amqp_Pools\<close>: all pools of a connection together; work on one pool does not harm the others;
    destroying the table.
  \<^item> \<open>Amqp_Time\<close> (amqp\_time.c): time points; \<^verbatim>\<open>amqp_time_first\<close> is a semilattice with the infinite
    deadline as its neutral element.
  \<^item> \<open>Amqp_Connection\<close> (amqp\_connection.c): the record of the connection, its operations, the state
    machine of \<^verbatim>\<open>amqp_handle_input\<close>, the frame encoder. The assembled frames do not depend on how the
    bytes are cut into pieces.
  \<^item> \<open>Amqp_Connection_Safety\<close>: the invariant of a connection is established by \<^verbatim>\<open>amqp_new_connection\<close>
    and kept by every call of \<^verbatim>\<open>amqp_handle_input\<close>; the malformed frames for which the code is
    undefined are named exactly.
  \<^item> \<open>Amqp_Lifecycle\<close>: the memory that is freed when a connection is destroyed, releasing and tuning.
  \<^item> \<open>Amqp_Frames\<close>: the wire format of frames, exactness of the encoder, the round trip through the
    peer's assembly, and defects of the assembly.

  \<^item> \<open>Amqp_Socket\<close> (amqp\_tcp\_socket.c, amqp\_socket.c, amqp\_connection.c): sending, receiving and
    polling with deadlines, the queue of frames. A sent frame puts exactly its bytes on the wire, or a
    part of them if it fails.
  \<^item> \<open>Amqp_Rpc\<close> (amqp\_socket.c): waiting for frames and methods, heartbeats, remote procedure calls. They
    come to an end whatever the system and the peer do, with the connection intact.
  \<^item> \<open>Amqp_Delivery\<close>: waiting returns exactly the frames that the peer encoded, in their order, and a
    remote call returns the first frame that concerns it. This is shown for a connection whose own heartbeats are switched off and whose requests
    for memory are granted (\<open>at_rest\<close>): with heartbeats the code can lose received bytes. That a frame is returned needs a reachable peer
    (\<open>reachable_peer\<close>): no receive fails, and after a receive that would block a poll reports data and there is no deadline.
  \<^item> \<open>Amqp_Typing\<close>: every structure that is cast to the type of its method number has that type.
  \<^item> \<open>Amqp_Merge\<close> (amqp\_socket.c): the merge of the client's properties is a recursive overlay.
  \<^item> \<open>Amqp_Login\<close>, \<open>Amqp_Login_Safety\<close> (amqp\_socket.c): the opening of a connection; the choice of the
    mechanism, that a login ends safely whatever the server sends, and that client and server
    are left with the same limits.
  \<^item> \<open>Amqp_Api\<close> (amqp\_framing.c, amqp\_api.c): the synchronous methods, error messages, publishing, closing, acknowledging, timeouts.
  \<^item> \<open>Amqp_Consumer\<close> (amqp\_consumer.c): messages and envelopes; a published message is read as it was
    published, whatever other frames come between its own, under the conditions of \<open>Amqp_Delivery\<close>.
  \<^item> \<open>Amqp_Url\<close> (amqp\_url.c): the parser of connection URLs stays inside the string, and it parses what is
    printed with percent-encoding.
  \<^item> \<open>Amqp_Open\<close> (amqp\_socket.c, amqp\_tcp\_socket.c): resolving a host, connecting to its addresses and the
    life of the socket of a connection, over a table of descriptors. No descriptor leaks, and the one that
    is returned is configured and connected; destroying a connection frees all its memory, with its socket, and nothing else.

  \<^bold>\<open>Correspondence.\<close> Structures are records and datatypes with the names of the source; a C function
  \<^verbatim>\<open>f\<close> is the definition \<open>f\<close>; a loop or a case of a large function is a definition of its own, named
  after what it does. A pointer into a buffer is the rest of the buffer, a pool allocation is a
  block and an offset; a block that is freed twice sets \<open>h_fault\<close>. A failed \<^verbatim>\<open>assert\<close>, \<^verbatim>\<open>amqp_abort\<close> and
  accesses outside a block are \<open>Undefined\<close>. Memory whose content C leaves open is an argument
  (\<open>unspecified\<close>).

  The system is a script: the results of the calls of \<^verbatim>\<open>send\<close>, \<^verbatim>\<open>recv\<close>, \<^verbatim>\<open>poll\<close> and \<^verbatim>\<open>close\<close> to
  come, each with any number of bytes or a failure, and the readings of the clock; in \<open>Amqp_Open\<close>, also those of the calls that set up a
  descriptor, while the answers of \<^verbatim>\<open>getaddrinfo\<close> are a function. The theorems hold for every
  script, those on delivery for the scripts they describe. \<open>wire\<close> collects the bytes that were accepted for sending.

  \<^bold>\<open>Fuel.\<close> The mutually recursive table decoder has three units for each byte of input and three more:
  each of its calls consumes a byte within three calls, and the safety theorem shows that
  the fuel never runs out. The loops of the socket layer have one unit for each result in the script and each byte
  in the buffer, of which every round uses one up; they run out of fuel only when the script is empty, that
  is, while they wait for the system (\<open>waits\<close>), as the theorems on settling show. The loop that
  publishes a body has one unit for each byte of it, and the loop that reads one has one for each queued
  frame and each byte to come.

  \<^bold>\<open>Not modelled\<close>: the depth of the C stack in the recursion of the table decoder, and the overflow
  of the \<^verbatim>\<open>int\<close> counters of table entries and of the blocks of a pool beyond $2^{30}$ of them; the content of recycled memory: a
  structure that is decoded is a value, and a pointer to it that outlives its pool is not followed;
  the branches of \<^verbatim>\<open>amqp_poll\<close>, \<^verbatim>\<open>connect_socket\<close> and the sockets for other platforms; TLS (amqp\_openssl.c and
  its helpers, calls of OpenSSL); the command line tools, examples, tests and the
  generator of amqp\_framing.c.
\<close>

end
